(* ===== verification/Prelude.thy ===== *)
theory Prelude
  imports Main "HOL-Library.Word"
begin

text \<open>
  Shared vocabulary of the development: exceptions as values of a sum type with a bind for
  them, the parts of the C and C++ standard library the program's parsers use
  (\<open>std::isspace\<close>, \<open>std::tolower\<close>, \<open>std::string::find\<close>, \<open>std::strtol\<close>,
  \<open>std::stoi\<close>, \<open>std::to_string\<close>) on Isabelle's \<open>string\<close>, the machine integer types, and the
  generic list lemmas and fact collections the component theories use.
\<close>

unbundle bit_operations_syntax

named_theorems result_simps "rewriting of exception-valued computations"
named_theorems name_tables "the tables from enumeration values to their printed names"
named_theorems frame_simps "fields an operation leaves alone"

section \<open>Machine integers\<close>

type_synonym u64 = "64 word"
type_synonym u16 = "16 word"
type_synonym byte = "8 word"

section \<open>Exceptions as values\<close>

text \<open>
  The program throws \<open>std::runtime_error\<close> with a message; \<open>std::stoi\<close> throws
  \<open>std::invalid_argument\<close> or \<open>std::out_of_range\<close>. A function that may throw returns
  \<open>Inl\<close> of the exception or \<open>Inr\<close> of its value.
\<close>

datatype exn =
    runtime_error string
  | invalid_argument
  | out_of_range

type_synonym 'a result = "exn + 'a"

definition rbind :: "'a result \<Rightarrow> ('a \<Rightarrow> 'b result) \<Rightarrow> 'b result" where
  "rbind r f = (case r of Inl e \<Rightarrow> Inl e | Inr x \<Rightarrow> f x)"

definition guard_exn :: "bool \<Rightarrow> string \<Rightarrow> unit result" where
  "guard_exn bad msg = (if bad then Inl (runtime_error msg) else Inr ())"

lemma rbind_simps [simp, result_simps]:
  "rbind (Inl e) f = Inl e"
  "rbind (Inr x) f = f x"
  by (simp_all add: rbind_def)

lemma rbind_eq_Inr_iff [result_simps]:
  "rbind r f = Inr y \<longleftrightarrow> (\<exists>x. r = Inr x \<and> f x = Inr y)"
  by (cases r) simp_all

lemma guard_exn_Inr_iff [simp, result_simps]:
  "guard_exn bad msg = Inr u \<longleftrightarrow> \<not> bad"
  by (simp add: guard_exn_def)

lemma guard_exn_False [simp]: "guard_exn False msg = Inr ()"
  by (simp add: guard_exn_def)

lemma guard_exn_True [simp]: "guard_exn True msg = Inl (runtime_error msg)"
  by (simp add: guard_exn_def)

text \<open>A loop whose body may throw: the first exception ends it.\<close>

fun rmap :: "('a \<Rightarrow> 'b result) \<Rightarrow> 'a list \<Rightarrow> 'b list result" where
  "rmap f [] = Inr []"
| "rmap f (x # xs) = rbind (f x) (\<lambda>y. rbind (rmap f xs) (\<lambda>ys. Inr (y # ys)))"

lemma rmap_eq_Inr_iff [result_simps]:
  "rmap f xs = Inr ys \<longleftrightarrow> list_all2 (\<lambda>x y. f x = Inr y) xs ys"
proof (induction xs arbitrary: ys)
  case Nil
  then show ?case by auto
next
  case (Cons x xs)
  then show ?case by (auto simp: rbind_eq_Inr_iff list_all2_Cons1)
qed

lemma rmap_Inr_length: "rmap f xs = Inr ys \<Longrightarrow> length ys = length xs"
  by (simp add: rmap_eq_Inr_iff list_all2_lengthD)

lemma rmap_Inr_all:
  assumes "rmap f xs = Inr ys" and "\<And>x y. f x = Inr y \<Longrightarrow> P y"
  shows "\<forall>y \<in> set ys. P y"
  using assms by (fastforce simp: rmap_eq_Inr_iff list_all2_conv_all_nth in_set_conv_nth)

section \<open>Characters\<close>

text \<open>\<open>std::isspace\<close> and \<open>std::tolower\<close> in the C locale the program runs in.\<close>

definition isspace :: "char \<Rightarrow> bool" where
  "isspace c \<longleftrightarrow> c = CHR 0x20 \<or> c = CHR 0x09 \<or> c = CHR 0x0A \<or> c = CHR 0x0B \<or> c = CHR 0x0C \<or> c = CHR 0x0D"

definition tolower :: "char \<Rightarrow> char" where
  "tolower c = (let n = of_char c :: nat in if 65 \<le> n \<and> n \<le> 90 then char_of (n + 32) else c)"

definition digit_of :: "char \<Rightarrow> nat option" where
  "digit_of c = (let n = of_char c :: nat in if 48 \<le> n \<and> n \<le> 57 then Some (n - 48) else None)"

definition isdigit :: "char \<Rightarrow> bool" where
  "isdigit c \<longleftrightarrow> digit_of c \<noteq> None"

definition hex_digit_of :: "char \<Rightarrow> nat option" where
  "hex_digit_of c =
     (let n = of_char c :: nat in
      if 48 \<le> n \<and> n \<le> 57 then Some (n - 48)
      else if 97 \<le> n \<and> n \<le> 102 then Some (n - 87)
      else if 65 \<le> n \<and> n \<le> 70 then Some (n - 55)
      else None)"

definition isxdigit :: "char \<Rightarrow> bool" where
  "isxdigit c \<longleftrightarrow> hex_digit_of c \<noteq> None"

section \<open>Searching and splitting strings\<close>

definition starts_with :: "string \<Rightarrow> string \<Rightarrow> bool" where
  "starts_with s p \<longleftrightarrow> take (length p) s = p"

fun contains_sub :: "string \<Rightarrow> string \<Rightarrow> bool" where
  "contains_sub [] p = (p = [])"
| "contains_sub (c # s) p = (starts_with (c # s) p \<or> contains_sub s p)"

text \<open>
  \<open>s.find(c)\<close> with the two \<open>substr\<close> calls around it: the text before the first \<open>c\<close> and,
  when there is one, the text after it. \<open>rsplit_at\<close> is the same for \<open>s.rfind(c)\<close>.
\<close>

fun split_at :: "char \<Rightarrow> string \<Rightarrow> string \<times> string option" where
  "split_at c [] = ([], None)"
| "split_at c (d # s) =
     (if d = c then ([], Some s) else (case split_at c s of (a, b) \<Rightarrow> (d # a, b)))"

definition rsplit_at :: "char \<Rightarrow> string \<Rightarrow> (string \<times> string) option" where
  "rsplit_at c s =
     (case split_at c (rev s) of (a, None) \<Rightarrow> None | (a, Some b) \<Rightarrow> Some (rev b, rev a))"

text \<open>The tokens of a \<open>find\<close>/\<open>substr\<close> loop over one delimiter, empty ones included.\<close>

fun split_on :: "char \<Rightarrow> string \<Rightarrow> string list" where
  "split_on d [] = [[]]"
| "split_on d (c # cs) =
     (if c = d then [] # split_on d cs
      else (case split_on d cs of [] \<Rightarrow> [[c]] | t # ts \<Rightarrow> (c # t) # ts))"

lemma split_at_append:
  "c \<notin> set a \<Longrightarrow> split_at c (a @ c # b) = (a, Some b)"
  by (induction a) auto

lemma split_at_notin: "c \<notin> set s \<Longrightarrow> split_at c s = (s, None)"
  by (induction s) auto

lemma rsplit_at_append:
  assumes "c \<notin> set b"
  shows "rsplit_at c (a @ c # b) = Some (a, b)"
  using split_at_append [of c "rev b" "rev a"] assms by (simp add: rsplit_at_def)

lemma split_on_Cons_ne [simp]: "split_on d s \<noteq> []"
  by (induction s) (auto split: list.splits)

lemma split_on_notin: "d \<notin> set s \<Longrightarrow> split_on d s = [s]"
  by (induction s) auto

lemma split_on_append:
  "d \<notin> set a \<Longrightarrow> split_on d (a @ d # b) = a # split_on d b"
  by (induction a) auto

lemma split_on_no_delim: "t \<in> set (split_on d s) \<Longrightarrow> d \<notin> set t"
  by (induction s arbitrary: t) (auto split: if_splits list.splits)

lemma starts_with_append [simp]: "starts_with (p @ s) p"
  by (simp add: starts_with_def)

lemma starts_with_Cons: "starts_with (c # s) (d # p) \<longleftrightarrow> c = d \<and> starts_with s p"
  by (simp add: starts_with_def)

section \<open>Numbers in text\<close>

definition dec_value :: "string \<Rightarrow> nat" where
  "dec_value s = foldl (\<lambda>n c. 10 * n + (case digit_of c of Some d \<Rightarrow> d | None \<Rightarrow> 0)) 0 s"

definition hex_value :: "string \<Rightarrow> nat" where
  "hex_value s = foldl (\<lambda>n c. 16 * n + (case hex_digit_of c of Some d \<Rightarrow> d | None \<Rightarrow> 0)) 0 s"

definition strip_sign :: "string \<Rightarrow> bool \<times> string" where
  "strip_sign s =
     (case s of [] \<Rightarrow> (False, [])
      | c # r \<Rightarrow> if c = CHR ''-'' then (True, r) else if c = CHR ''+'' then (False, r) else (False, s))"

definition INT_MAX :: int where "INT_MAX = 2147483647"
definition INT_MIN :: int where "INT_MIN = - 2147483648"

text \<open>
  \<open>std::stoi\<close>: leading white space, an optional sign, then as many digits as follow. No digit
  is \<open>std::invalid_argument\<close>, a value outside \<open>int\<close> is \<open>std::out_of_range\<close>, and what
  follows the digits is ignored.
\<close>

definition stoi :: "string \<Rightarrow> int result" where
  "stoi s =
     (let (neg, r) = strip_sign (dropWhile isspace s);
          ds = takeWhile isdigit r;
          v = (if neg then - int (dec_value ds) else int (dec_value ds))
      in if ds = [] then Inl invalid_argument
         else if v < INT_MIN \<or> INT_MAX < v then Inl out_of_range
         else Inr v)"

text \<open>
  \<open>std::strtol(s, &end, 16)\<close> on a C string: the value and what \<open>end\<close> points to. With no
  digits the value is 0 and \<open>end\<close> is the whole string.
\<close>

definition strip_0x :: "string \<Rightarrow> string" where
  "strip_0x s =
     (case s of
        z # x # d # r \<Rightarrow>
          (if z = CHR ''0'' \<and> (x = CHR ''x'' \<or> x = CHR ''X'') \<and> isxdigit d
           then d # r else s)
      | _ \<Rightarrow> s)"

definition strtol16 :: "string \<Rightarrow> int \<times> string" where
  "strtol16 s =
     (let (neg, r) = strip_sign (dropWhile isspace s);
          h = strip_0x r;
          ds = takeWhile isxdigit h
      in if ds = [] then (0, s)
         else (if neg then - int (hex_value ds) else int (hex_value ds),
               dropWhile isxdigit h))"

text \<open>\<open>std::to_string\<close> on unsigned and signed integers.\<close>

fun show_nat :: "nat \<Rightarrow> string" where
  "show_nat n =
     (if n < 10 then [char_of (48 + n)] else show_nat (n div 10) @ [char_of (48 + n mod 10)])"

declare show_nat.simps [simp del]

definition show_int :: "int \<Rightarrow> string" where
  "show_int i = (if i < 0 then CHR ''-'' # show_nat (nat (- i)) else show_nat (nat i))"

lemma digit_of_digit: "d < 10 \<Longrightarrow> digit_of (char_of (48 + d :: nat)) = Some d"
  by (simp add: digit_of_def)

lemma dec_value_snoc:
  "dec_value (s @ [c]) = 10 * dec_value s + (case digit_of c of Some d \<Rightarrow> d | None \<Rightarrow> 0)"
  by (simp add: dec_value_def)

lemma dec_value_show_nat [simp]: "dec_value (show_nat n) = n"
proof (induction n rule: show_nat.induct)
  case (1 n)
  show ?case
  proof (cases "n < 10")
    case True
    then show ?thesis
      by (simp add: show_nat.simps [of n] dec_value_def digit_of_digit)
  next
    case False
    with "1.IH" show ?thesis
      by (simp add: show_nat.simps [of n] dec_value_snoc digit_of_digit)
  qed
qed

lemma show_nat_inj [simp]: "show_nat m = show_nat n \<longleftrightarrow> m = n"
  by (metis dec_value_show_nat)

lemma show_nat_digits: "c \<in> set (show_nat n) \<Longrightarrow> isdigit c"
proof (induction n rule: show_nat.induct)
  case (1 n)
  then show ?case
    by (subst (asm) (2) show_nat.simps) (auto split: if_splits simp: digit_of_digit isdigit_def)
qed

lemma takeWhile_show_nat [simp]: "takeWhile isdigit (show_nat n) = show_nat n"
  by (simp add: show_nat_digits)

lemma show_nat_ne [simp]: "show_nat n \<noteq> []"
  by (subst show_nat.simps) simp

lemma isdigit_not_special:
  "isdigit c \<Longrightarrow> \<not> isspace c \<and> c \<noteq> CHR ''-'' \<and> c \<noteq> CHR ''+'' \<and> c \<noteq> CHR '':'' \<and> c \<noteq> CHR ''?''"
  by (auto simp: isdigit_def digit_of_def isspace_def Let_def split: if_splits)

lemma show_nat_notin:
  assumes "\<not> isdigit c"
  shows "c \<notin> set (show_nat n)"
  using assms show_nat_digits by blast

lemma stoi_show_nat_append:
  assumes "int n \<le> INT_MAX" and "r = [] \<or> \<not> isdigit (hd r)"
  shows "stoi (show_nat n @ r) = Inr (int n)"
proof -
  obtain c s where cs: "show_nat n = c # s"
    using show_nat_ne [of n] by (cases "show_nat n") auto
  then have c: "isdigit c" using show_nat_digits [of c n] by simp
  have "strip_sign (dropWhile isspace (show_nat n @ r)) = (False, show_nat n @ r)"
    using isdigit_not_special [OF c] cs by (simp add: strip_sign_def)
  moreover have "takeWhile isdigit (show_nat n @ r) = show_nat n"
    using assms(2) show_nat_digits by (cases r) (auto simp: takeWhile_append)
  ultimately show ?thesis
    using assms(1) by (simp add: stoi_def INT_MIN_def)
qed

lemma stoi_show_nat: "int n \<le> INT_MAX \<Longrightarrow> stoi (show_nat n) = Inr (int n)"
  using stoi_show_nat_append [of n "[]"] by simp

lemma stoi_show_int:
  assumes "INT_MIN \<le> v" and "v \<le> INT_MAX"
  shows "stoi (show_int v) = Inr v"
proof (cases "v < 0")
  case True
  with assms show ?thesis
    by (simp add: stoi_def show_int_def strip_sign_def isspace_def INT_MAX_def)
next
  case False
  with assms show ?thesis by (simp add: show_int_def stoi_show_nat)
qed

lemma stoi_range: "stoi s = Inr v \<Longrightarrow> INT_MIN \<le> v \<and> v \<le> INT_MAX"
  by (auto simp: stoi_def Let_def split: prod.splits if_splits)

section \<open>Lists\<close>

lemma filter_nth_take:
  "filter P (map f [0..<n]) = map f (filter (\<lambda>i. P (f i)) [0..<n])"
  by (simp add: filter_map comp_def)

lemma find_upt_Some_iff:
  "find P [0..<n] = Some s \<longleftrightarrow> s < n \<and> P s \<and> (\<forall>j < s. \<not> P j)"
  by (auto simp: find_Some_iff)

lemma find_upt_None_iff: "find P [0..<n] = None \<longleftrightarrow> (\<forall>j < n. \<not> P j)"
  by (auto simp: find_None_iff)

end
