(* ===== verification/Causality.thy ===== *)
theory Causality
  imports Prelude
begin

text \<open>
  The failure taxonomy (\<open>src/include/srtrelay/causality.hpp\<close>, \<open>src/src/causality.cpp\<close>): the sides,
  operations, reason codes and classes of a failure, their indices in the metric arrays and
  their printed names, and \<open>ClassifyReason\<close>, which turns what the relay saw into a reason.
\<close>

section \<open>Enumerations\<close>

datatype FailureSide = kInput | kOutput

datatype ReasonClass =
    kTimeout | kDisconnect | kConnectFailure | kIoFailure | kProtocolState | kInternal

datatype ReasonCode =
    kConnectTimeout | kReceiveTimeout | kSendTimeout | kAcceptTimeout
  | kConnectFailed | kReceiveFailed | kSendFailed | kAcceptFailed
  | kDisconnected | kProtocolEof | kInternalError

datatype TimeoutType = kConnect | kReceive | kSend | kAccept

datatype FailureOperation =
    kEnsure | kReceive | kSend | kDisconnect | kProtocol | kInternal

record ReasonDescriptor =
  code :: ReasonCode
  reason_class :: ReasonClass
  has_timeout_type :: bool
  timeout_type :: TimeoutType

definition default_ReasonDescriptor :: ReasonDescriptor where
  "default_ReasonDescriptor =
     \<lparr>code = ReasonCode.kInternalError, reason_class = ReasonClass.kInternal,
      has_timeout_type = False, timeout_type = TimeoutType.kConnect\<rparr>"

definition kFailureSides :: nat where "kFailureSides = 2"
definition kReasonCodes :: nat where "kReasonCodes = 11"
definition kTimeoutTypes :: nat where "kTimeoutTypes = 4"

section \<open>Indices and names\<close>

definition SideIndex :: "FailureSide \<Rightarrow> nat" where
  "SideIndex side = (if side = FailureSide.kInput then 0 else 1)"

fun ReasonCodeIndex :: "ReasonCode \<Rightarrow> nat" where
  "ReasonCodeIndex ReasonCode.kConnectTimeout = 0"
| "ReasonCodeIndex ReasonCode.kReceiveTimeout = 1"
| "ReasonCodeIndex ReasonCode.kSendTimeout = 2"
| "ReasonCodeIndex ReasonCode.kAcceptTimeout = 3"
| "ReasonCodeIndex ReasonCode.kConnectFailed = 4"
| "ReasonCodeIndex ReasonCode.kReceiveFailed = 5"
| "ReasonCodeIndex ReasonCode.kSendFailed = 6"
| "ReasonCodeIndex ReasonCode.kAcceptFailed = 7"
| "ReasonCodeIndex ReasonCode.kDisconnected = 8"
| "ReasonCodeIndex ReasonCode.kProtocolEof = 9"
| "ReasonCodeIndex ReasonCode.kInternalError = 10"

fun TimeoutTypeIndex :: "TimeoutType \<Rightarrow> nat" where
  "TimeoutTypeIndex TimeoutType.kConnect = 0"
| "TimeoutTypeIndex TimeoutType.kReceive = 1"
| "TimeoutTypeIndex TimeoutType.kSend = 2"
| "TimeoutTypeIndex TimeoutType.kAccept = 3"

definition FailureSideName :: "FailureSide \<Rightarrow> string" where
  "FailureSideName side = (if side = FailureSide.kInput then ''input'' else ''output'')"

fun ReasonClassName :: "ReasonClass \<Rightarrow> string" where
  "ReasonClassName ReasonClass.kTimeout = ''timeout''"
| "ReasonClassName ReasonClass.kDisconnect = ''disconnect''"
| "ReasonClassName ReasonClass.kConnectFailure = ''connect_failure''"
| "ReasonClassName ReasonClass.kIoFailure = ''io_failure''"
| "ReasonClassName ReasonClass.kProtocolState = ''protocol_state''"
| "ReasonClassName ReasonClass.kInternal = ''internal''"

fun ReasonCodeName :: "ReasonCode \<Rightarrow> string" where
  "ReasonCodeName ReasonCode.kConnectTimeout = ''connect_timeout''"
| "ReasonCodeName ReasonCode.kReceiveTimeout = ''receive_timeout''"
| "ReasonCodeName ReasonCode.kSendTimeout = ''send_timeout''"
| "ReasonCodeName ReasonCode.kAcceptTimeout = ''accept_timeout''"
| "ReasonCodeName ReasonCode.kConnectFailed = ''connect_failed''"
| "ReasonCodeName ReasonCode.kReceiveFailed = ''receive_failed''"
| "ReasonCodeName ReasonCode.kSendFailed = ''send_failed''"
| "ReasonCodeName ReasonCode.kAcceptFailed = ''accept_failed''"
| "ReasonCodeName ReasonCode.kDisconnected = ''disconnected''"
| "ReasonCodeName ReasonCode.kProtocolEof = ''protocol_eof''"
| "ReasonCodeName ReasonCode.kInternalError = ''internal_error''"

fun TimeoutTypeName :: "TimeoutType \<Rightarrow> string" where
  "TimeoutTypeName TimeoutType.kConnect = ''connect''"
| "TimeoutTypeName TimeoutType.kReceive = ''receive''"
| "TimeoutTypeName TimeoutType.kSend = ''send''"
| "TimeoutTypeName TimeoutType.kAccept = ''accept''"

fun ReasonClassFromCode :: "ReasonCode \<Rightarrow> ReasonClass" where
  "ReasonClassFromCode ReasonCode.kConnectTimeout = ReasonClass.kTimeout"
| "ReasonClassFromCode ReasonCode.kReceiveTimeout = ReasonClass.kTimeout"
| "ReasonClassFromCode ReasonCode.kSendTimeout = ReasonClass.kTimeout"
| "ReasonClassFromCode ReasonCode.kAcceptTimeout = ReasonClass.kTimeout"
| "ReasonClassFromCode ReasonCode.kDisconnected = ReasonClass.kDisconnect"
| "ReasonClassFromCode ReasonCode.kConnectFailed = ReasonClass.kConnectFailure"
| "ReasonClassFromCode ReasonCode.kAcceptFailed = ReasonClass.kConnectFailure"
| "ReasonClassFromCode ReasonCode.kReceiveFailed = ReasonClass.kIoFailure"
| "ReasonClassFromCode ReasonCode.kSendFailed = ReasonClass.kIoFailure"
| "ReasonClassFromCode ReasonCode.kProtocolEof = ReasonClass.kProtocolState"
| "ReasonClassFromCode ReasonCode.kInternalError = ReasonClass.kInternal"

definition AllReasonCodes :: "ReasonCode list" where
  "AllReasonCodes =
     [ReasonCode.kConnectTimeout, ReasonCode.kReceiveTimeout, ReasonCode.kSendTimeout,
      ReasonCode.kAcceptTimeout, ReasonCode.kConnectFailed, ReasonCode.kReceiveFailed,
      ReasonCode.kSendFailed, ReasonCode.kAcceptFailed, ReasonCode.kDisconnected,
      ReasonCode.kProtocolEof, ReasonCode.kInternalError]"

definition AllTimeoutTypes :: "TimeoutType list" where
  "AllTimeoutTypes =
     [TimeoutType.kConnect, TimeoutType.kReceive, TimeoutType.kSend, TimeoutType.kAccept]"

section \<open>Classification\<close>

definition ContainsInsensitive :: "string \<Rightarrow> string \<Rightarrow> bool" where
  "ContainsInsensitive value needle = contains_sub (map tolower value) (map tolower needle)"

definition set_code :: "ReasonCode \<Rightarrow> ReasonDescriptor \<Rightarrow> ReasonDescriptor" where
  "set_code c out = out\<lparr>code := c, reason_class := ReasonClassFromCode c\<rparr>"

definition set_timeout :: "TimeoutType \<Rightarrow> ReasonDescriptor \<Rightarrow> ReasonDescriptor" where
  "set_timeout t out = out\<lparr>has_timeout_type := True, timeout_type := t\<rparr>"

definition ClassifyReason ::
  "FailureOperation \<Rightarrow> bool \<Rightarrow> bool \<Rightarrow> bool \<Rightarrow> string \<Rightarrow> ReasonDescriptor" where
  "ClassifyReason op is_timeout is_disconnected listener_mode detail =
     (let out = default_ReasonDescriptor in
      case op of
        FailureOperation.kEnsure \<Rightarrow>
          (let accept_path = listener_mode \<or> ContainsInsensitive detail ''accept'' in
           if is_timeout then
             (if accept_path
              then set_timeout TimeoutType.kAccept (set_code ReasonCode.kAcceptTimeout out)
              else set_timeout TimeoutType.kConnect (set_code ReasonCode.kConnectTimeout out))
           else set_code (if accept_path then ReasonCode.kAcceptFailed
                          else ReasonCode.kConnectFailed) out)
      | FailureOperation.kReceive \<Rightarrow>
          (if is_timeout
           then set_timeout TimeoutType.kReceive (set_code ReasonCode.kReceiveTimeout out)
           else if is_disconnected then set_code ReasonCode.kDisconnected out
           else set_code ReasonCode.kReceiveFailed out)
      | FailureOperation.kSend \<Rightarrow>
          (if is_timeout
           then set_timeout TimeoutType.kSend (set_code ReasonCode.kSendTimeout out)
           else if is_disconnected then set_code ReasonCode.kDisconnected out
           else set_code ReasonCode.kSendFailed out)
      | FailureOperation.kDisconnect \<Rightarrow> set_code ReasonCode.kDisconnected out
      | FailureOperation.kProtocol \<Rightarrow> set_code ReasonCode.kProtocolEof out
      | FailureOperation.kInternal \<Rightarrow> set_code ReasonCode.kInternalError out)"

lemmas classify_defs =
  ClassifyReason_def set_code_def set_timeout_def default_ReasonDescriptor_def Let_def

section \<open>Facts about the tables\<close>

lemma ReasonCodeIndex_lt [name_tables]: "ReasonCodeIndex c < kReasonCodes"
  by (cases c) (simp_all add: kReasonCodes_def)

lemma TimeoutTypeIndex_lt [name_tables]: "TimeoutTypeIndex t < kTimeoutTypes"
  by (cases t) (simp_all add: kTimeoutTypes_def)

lemma SideIndex_lt [name_tables]: "SideIndex side < kFailureSides"
  by (simp add: SideIndex_def kFailureSides_def)

lemma AllReasonCodes_nth [name_tables]: "AllReasonCodes ! ReasonCodeIndex c = c"
  by (cases c) (simp_all add: AllReasonCodes_def)

lemma AllTimeoutTypes_nth [name_tables]: "AllTimeoutTypes ! TimeoutTypeIndex t = t"
  by (cases t) (simp_all add: AllTimeoutTypes_def)

lemma length_AllReasonCodes: "length AllReasonCodes = kReasonCodes"
  by (simp add: AllReasonCodes_def kReasonCodes_def)

lemma length_AllTimeoutTypes: "length AllTimeoutTypes = kTimeoutTypes"
  by (simp add: AllTimeoutTypes_def kTimeoutTypes_def)

lemma ReasonCodeIndex_inj: "ReasonCodeIndex c = ReasonCodeIndex d \<longleftrightarrow> c = d"
  by (metis AllReasonCodes_nth)

lemma TimeoutTypeIndex_inj: "TimeoutTypeIndex c = TimeoutTypeIndex d \<longleftrightarrow> c = d"
  by (metis AllTimeoutTypes_nth)

lemma ReasonCodeName_inj: "ReasonCodeName c = ReasonCodeName d \<longleftrightarrow> c = d"
  by (cases c; cases d) simp_all

lemma classify_class:
  "reason_class (ClassifyReason op t d l s) = ReasonClassFromCode (code (ClassifyReason op t d l s))"
  by (cases op) (simp_all add: classify_defs)

lemma classify_timeout_iff:
  "has_timeout_type (ClassifyReason op t d l s)
     \<longleftrightarrow> reason_class (ClassifyReason op t d l s) = ReasonClass.kTimeout"
  by (cases op) (simp_all add: classify_defs)

lemma classify_timeout_name:
  "has_timeout_type (ClassifyReason op t d l s) \<Longrightarrow>
   ReasonCodeName (code (ClassifyReason op t d l s))
     = TimeoutTypeName (timeout_type (ClassifyReason op t d l s)) @ ''_timeout''"
  by (cases op) (auto simp: classify_defs split: if_splits)

lemma classify_receive:
  "reason_class (ClassifyReason FailureOperation.kReceive t d l s) = ReasonClass.kTimeout \<longleftrightarrow> t"
  by (simp add: classify_defs)

section \<open>Properties of the classification\<close>

text \<open>
  Whatever the relay reports, the class of the classified reason is the class of its code, a
  timeout type is given exactly for timeouts, and then the printed code is the printed timeout type
  followed by \<open>_timeout\<close>; a timeout is classified exactly when the operation that can time out
  reported one.
\<close>

theorem ClassifyReason_consistent:
  "let r = ClassifyReason op is_timeout is_disconnected listener_mode detail in
   reason_class r = ReasonClassFromCode (code r) \<and>
   (has_timeout_type r \<longleftrightarrow> reason_class r = ReasonClass.kTimeout) \<and>
   (has_timeout_type r \<longleftrightarrow>
      is_timeout \<and> op \<in> {FailureOperation.kEnsure, FailureOperation.kReceive, FailureOperation.kSend}) \<and>
   (ReasonCodeName (code r) = TimeoutTypeName (timeout_type r) @ ''_timeout'' \<longleftrightarrow> has_timeout_type r)"
  unfolding Let_def
proof (intro conjI)
  show "has_timeout_type (ClassifyReason op is_timeout is_disconnected listener_mode detail) \<longleftrightarrow>
      is_timeout \<and> op \<in> {FailureOperation.kEnsure, FailureOperation.kReceive, FailureOperation.kSend}"
    by (cases op) (simp_all add: classify_defs)
  show "(ReasonCodeName (code (ClassifyReason op is_timeout is_disconnected listener_mode detail))
      = TimeoutTypeName (timeout_type (ClassifyReason op is_timeout is_disconnected listener_mode detail))
          @ ''_timeout'')
      \<longleftrightarrow> has_timeout_type (ClassifyReason op is_timeout is_disconnected listener_mode detail)"
    by (cases op) (simp_all add: classify_defs)
qed (rule classify_class classify_timeout_iff)+

text \<open>
  The index tables and the lists of all codes and types fit: the index of a code (a timeout
  type, a side) is a position of the metric arrays, the list holds the code at that position, and no
  two codes share a position or a printed name.
\<close>

theorem causality_tables:
  "ReasonCodeIndex c < length AllReasonCodes \<and> AllReasonCodes ! ReasonCodeIndex c = c \<and>
   length AllReasonCodes = kReasonCodes \<and>
   TimeoutTypeIndex t < length AllTimeoutTypes \<and> AllTimeoutTypes ! TimeoutTypeIndex t = t \<and>
   length AllTimeoutTypes = kTimeoutTypes \<and> SideIndex side < kFailureSides \<and>
   (ReasonCodeName c = ReasonCodeName d \<longleftrightarrow> c = d) \<and>
   (ReasonCodeIndex c = ReasonCodeIndex d \<longleftrightarrow> c = d)"
  using ReasonCodeIndex_lt [of c] TimeoutTypeIndex_lt [of t] length_AllReasonCodes
    length_AllTimeoutTypes
  by (simp add: name_tables ReasonCodeIndex_inj ReasonCodeName_inj)

end
