(* ===== verification/Config.thy ===== *)
theory Config
  imports Prelude
begin

text \<open>
  Command line configuration: the log levels of \<open>src/src/logger.cpp\<close>, the configuration record and
  its enumerations (\<open>src/include/srtrelay/config.hpp\<close>), and \<open>ParseArgs\<close> with its validation
  (\<open>src/src/config.cpp\<close>). \<open>print_args\<close> is the reference printer of the round trip: it is not in
  the program.
\<close>

section \<open>Log levels\<close>

datatype LogLevel = kDebug | kInfo | kWarn | kError

definition ParseLogLevel :: "string \<Rightarrow> LogLevel result" where
  "ParseLogLevel value =
     (if value = ''debug'' then Inr LogLevel.kDebug
      else if value = ''info'' then Inr LogLevel.kInfo
      else if value = ''warn'' then Inr LogLevel.kWarn
      else if value = ''error'' then Inr LogLevel.kError
      else Inl (runtime_error (''invalid --log-level: '' @ value)))"

fun LogLevelName :: "LogLevel \<Rightarrow> string" where
  "LogLevelName LogLevel.kDebug = ''debug''"
| "LogLevelName LogLevel.kInfo = ''info''"
| "LogLevelName LogLevel.kWarn = ''warn''"
| "LogLevelName LogLevel.kError = ''error''"

section \<open>The configuration\<close>

datatype SwitchMode = kSerial | kDelayed

datatype AutoCompactSides = kBoth | kInput | kOutput

record Config =
  input_uris :: "string list"
  output_uris :: "string list"
  stats_interval_ms :: int
  reconnect_delay_ms :: int
  max_message_size :: int
  log_level :: LogLevel
  exit_on_input_failure :: bool
  exit_on_output_failure :: bool
  verify_linkage :: bool
  io_timeout_ms :: int
  metrics_enabled :: bool
  metrics_host :: string
  metrics_port :: int
  primary_input_index :: "nat option"
  switch_mode :: SwitchMode
  links_compact_disconnect_delay_ms :: int
  links_compact_sides :: AutoCompactSides

definition default_Config :: Config where
  "default_Config =
     \<lparr>input_uris = [], output_uris = [], stats_interval_ms = 1000, reconnect_delay_ms = 1000,
      max_message_size = 1456, log_level = LogLevel.kInfo, exit_on_input_failure = False,
      exit_on_output_failure = False, verify_linkage = False, io_timeout_ms = 1000,
      metrics_enabled = True, metrics_host = ''127.0.0.1'', metrics_port = 9464,
      primary_input_index = None, switch_mode = SwitchMode.kSerial,
      links_compact_disconnect_delay_ms = -1, links_compact_sides = AutoCompactSides.kBoth\<rparr>"

definition IsStdinInputSpec :: "string \<Rightarrow> bool" where
  "IsStdinInputSpec input_uri \<longleftrightarrow>
     input_uri = ''stdin'' \<or> input_uri = ''-'' \<or> input_uri = ''fd://stdin''"

definition IsStdoutOutputSpec :: "string \<Rightarrow> bool" where
  "IsStdoutOutputSpec output_uri \<longleftrightarrow>
     output_uri = ''stdout'' \<or> output_uri = ''-'' \<or> output_uri = ''fd://stdout''"

definition ParseBool :: "string \<Rightarrow> bool result" where
  "ParseBool value =
     (if value = ''true'' \<or> value = ''1'' \<or> value = ''yes'' then Inr True
      else if value = ''false'' \<or> value = ''0'' \<or> value = ''no'' then Inr False
      else Inl (runtime_error (''invalid boolean value: '' @ value)))"

definition ParseSwitchMode :: "string \<Rightarrow> SwitchMode result" where
  "ParseSwitchMode value =
     (if value = ''serial'' then Inr SwitchMode.kSerial
      else if value = ''delayed'' then Inr SwitchMode.kDelayed
      else Inl (runtime_error (''invalid --switch-mode value: '' @ value
                               @ '' (expected serial or delayed)'')))"

fun SwitchModeName :: "SwitchMode \<Rightarrow> string" where
  "SwitchModeName SwitchMode.kSerial = ''serial''"
| "SwitchModeName SwitchMode.kDelayed = ''delayed''"

definition ParseAutoCompactSides :: "string \<Rightarrow> AutoCompactSides result" where
  "ParseAutoCompactSides value =
     (if value = ''both'' then Inr AutoCompactSides.kBoth
      else if value = ''input'' then Inr AutoCompactSides.kInput
      else if value = ''output'' then Inr AutoCompactSides.kOutput
      else Inl (runtime_error (''invalid --links-compact-sides value: '' @ value
                               @ '' (expected input, output, or both)'')))"

fun AutoCompactSidesName :: "AutoCompactSides \<Rightarrow> string" where
  "AutoCompactSidesName AutoCompactSides.kBoth = ''both''"
| "AutoCompactSidesName AutoCompactSides.kInput = ''input''"
| "AutoCompactSidesName AutoCompactSides.kOutput = ''output''"

section \<open>Parsing the command line\<close>

text \<open>
  \<open>ParseArgs\<close> returns a configuration, ends the process with status 0 (\<open>--help\<close>,
  \<open>--version\<close>) or throws.
\<close>

datatype args_outcome = Parsed Config | Exited nat | Thrown exn

text \<open>The branches that take a value: what the value does to the configuration.\<close>

definition set_primary :: "string \<Rightarrow> Config \<Rightarrow> Config result" where
  "set_primary v cfg =
     rbind (stoi v) (\<lambda>index.
       if index \<le> 0 then Inl (runtime_error ''--primary-input-index must be in range 1..N'')
       else Inr (cfg\<lparr>primary_input_index := Some (nat (index - 1))\<rparr>))"

definition value_options :: "(string \<times> (string \<Rightarrow> Config \<Rightarrow> Config result)) list" where
  "value_options =
     [(''--input'',
         \<lambda>v cfg. Inr (cfg\<lparr>input_uris := input_uris cfg @ [v]\<rparr>)),
      (''--output'',
         \<lambda>v cfg. Inr (cfg\<lparr>output_uris := output_uris cfg @ [v]\<rparr>)),
      (''--stats-interval-ms'',
         \<lambda>v cfg. rbind (stoi v) (\<lambda>n. Inr (cfg\<lparr>stats_interval_ms := n\<rparr>))),
      (''--reconnect-delay-ms'',
         \<lambda>v cfg. rbind (stoi v) (\<lambda>n. Inr (cfg\<lparr>reconnect_delay_ms := n\<rparr>))),
      (''--max-message-size'',
         \<lambda>v cfg. rbind (stoi v) (\<lambda>n. Inr (cfg\<lparr>max_message_size := n\<rparr>))),
      (''--log-level'',
         \<lambda>v cfg. rbind (ParseLogLevel v) (\<lambda>l. Inr (cfg\<lparr>log_level := l\<rparr>))),
      (''--exit-on-input-failure'',
         \<lambda>v cfg. rbind (ParseBool v) (\<lambda>b. Inr (cfg\<lparr>exit_on_input_failure := b\<rparr>))),
      (''--exit-on-output-failure'',
         \<lambda>v cfg. rbind (ParseBool v) (\<lambda>b. Inr (cfg\<lparr>exit_on_output_failure := b\<rparr>))),
      (''--io-timeout-ms'',
         \<lambda>v cfg. rbind (stoi v) (\<lambda>n. Inr (cfg\<lparr>io_timeout_ms := n\<rparr>))),
      (''--metrics-enabled'',
         \<lambda>v cfg. rbind (ParseBool v) (\<lambda>b. Inr (cfg\<lparr>metrics_enabled := b\<rparr>))),
      (''--metrics-host'',
         \<lambda>v cfg. Inr (cfg\<lparr>metrics_host := v\<rparr>)),
      (''--metrics-port'',
         \<lambda>v cfg. rbind (stoi v) (\<lambda>n. Inr (cfg\<lparr>metrics_port := n\<rparr>))),
      (''--primary-input-index'',
         set_primary),
      (''--switch-mode'',
         \<lambda>v cfg. rbind (ParseSwitchMode v) (\<lambda>m. Inr (cfg\<lparr>switch_mode := m\<rparr>))),
      (''--links-compact-disconnect-delay-ms'',
         \<lambda>v cfg. rbind (stoi v) (\<lambda>n. Inr (cfg\<lparr>links_compact_disconnect_delay_ms := n\<rparr>))),
      (''--links-compact-sides'',
         \<lambda>v cfg. rbind (ParseAutoCompactSides v) (\<lambda>x. Inr (cfg\<lparr>links_compact_sides := x\<rparr>)))]"

definition value_option :: "string \<Rightarrow> (string \<Rightarrow> Config \<Rightarrow> Config result) option" where
  "value_option arg = map_of value_options arg"

fun parse_arg_loop :: "Config \<Rightarrow> string list \<Rightarrow> args_outcome" where
  "parse_arg_loop cfg [] = Parsed cfg"
| "parse_arg_loop cfg (arg # rest) =
     (if arg = ''--help'' \<or> arg = ''-h'' then Exited 0
      else if arg = ''--version'' \<or> arg = ''-V'' then Exited 0
      else if arg = ''--verify-linkage'' then parse_arg_loop (cfg\<lparr>verify_linkage := True\<rparr>) rest
      else case value_option arg of
             None \<Rightarrow> Thrown (runtime_error (''unknown argument: '' @ arg))
           | Some f \<Rightarrow>
               (case rest of
                  [] \<Rightarrow> Thrown (runtime_error (''missing value for '' @ arg))
                | v # rest' \<Rightarrow>
                    (case f v cfg of
                       Inl e \<Rightarrow> Thrown e
                     | Inr cfg' \<Rightarrow> parse_arg_loop cfg' rest')))"

definition check_endpoints :: "Config \<Rightarrow> unit result" where
  "check_endpoints cfg =
     rbind (guard_exn (input_uris cfg = []) ''--input is required'') (\<lambda>_.
     rbind (guard_exn (16 < length (input_uris cfg)) ''at most 16 --input values are supported'') (\<lambda>_.
     rbind (guard_exn (output_uris cfg = []) ''--output is required'') (\<lambda>_.
     rbind (guard_exn (16 < length (output_uris cfg)) ''at most 16 --output values are supported'') (\<lambda>_.
     rbind (guard_exn (1 < length (filter IsStdinInputSpec (input_uris cfg)))
              ''multi-input mode supports at most one stdin source'') (\<lambda>_.
     rbind (guard_exn (1 < length (filter IsStdoutOutputSpec (output_uris cfg)))
              ''multi-output mode supports at most one stdout sink'') (\<lambda>_.
     guard_exn (case primary_input_index cfg of
                  None \<Rightarrow> False
                | Some i \<Rightarrow> length (input_uris cfg) \<le> i)
       (''--primary-input-index must be in range 1..'' @ show_nat (length (input_uris cfg)))))))))"

definition check_config :: "Config \<Rightarrow> Config result" where
  "check_config cfg =
     rbind (if verify_linkage cfg then Inr () else check_endpoints cfg) (\<lambda>_.
     rbind (guard_exn (stats_interval_ms cfg \<le> 0) ''--stats-interval-ms must be > 0'') (\<lambda>_.
     rbind (guard_exn (reconnect_delay_ms cfg \<le> 0) ''--reconnect-delay-ms must be > 0'') (\<lambda>_.
     rbind (guard_exn (max_message_size cfg \<le> 0) ''--max-message-size must be > 0'') (\<lambda>_.
     rbind (guard_exn (io_timeout_ms cfg \<le> 0) ''--io-timeout-ms must be > 0'') (\<lambda>_.
     rbind (guard_exn (metrics_port cfg \<le> 0 \<or> 65535 < metrics_port cfg)
              ''--metrics-port must be in range 1..65535'') (\<lambda>_.
     rbind (guard_exn (metrics_host cfg = []) ''--metrics-host must not be empty'') (\<lambda>_.
     rbind (guard_exn (links_compact_disconnect_delay_ms cfg < -1)
              ''--links-compact-disconnect-delay-ms must be >= 0 when set'') (\<lambda>_.
     Inr cfg))))))))"

definition ParseArgs :: "string list \<Rightarrow> args_outcome" where
  "ParseArgs args =
     (case parse_arg_loop default_Config args of
        Parsed cfg \<Rightarrow> (case check_config cfg of Inl e \<Rightarrow> Thrown e | Inr cfg' \<Rightarrow> Parsed cfg')
      | outcome \<Rightarrow> outcome)"


section \<open>What a parsed configuration satisfies\<close>

definition in_int :: "int \<Rightarrow> bool" where
  "in_int n \<longleftrightarrow> INT_MIN \<le> n \<and> n \<le> INT_MAX"

definition int_fields_ok :: "Config \<Rightarrow> bool" where
  "int_fields_ok cfg \<longleftrightarrow>
     in_int (stats_interval_ms cfg) \<and> in_int (reconnect_delay_ms cfg) \<and>
     in_int (max_message_size cfg) \<and> in_int (io_timeout_ms cfg) \<and> in_int (metrics_port cfg) \<and>
     in_int (links_compact_disconnect_delay_ms cfg) \<and>
     (case primary_input_index cfg of None \<Rightarrow> True | Some i \<Rightarrow> int i < INT_MAX)"

definition endpoints_ok :: "Config \<Rightarrow> bool" where
  "endpoints_ok cfg \<longleftrightarrow>
     input_uris cfg \<noteq> [] \<and> length (input_uris cfg) \<le> 16 \<and>
     output_uris cfg \<noteq> [] \<and> length (output_uris cfg) \<le> 16 \<and>
     length (filter IsStdinInputSpec (input_uris cfg)) \<le> 1 \<and>
     length (filter IsStdoutOutputSpec (output_uris cfg)) \<le> 1 \<and>
     (\<forall>i. primary_input_index cfg = Some i \<longrightarrow> i < length (input_uris cfg))"

definition ranges_ok :: "Config \<Rightarrow> bool" where
  "ranges_ok cfg \<longleftrightarrow>
     0 < stats_interval_ms cfg \<and> 0 < reconnect_delay_ms cfg \<and> 0 < max_message_size cfg \<and>
     0 < io_timeout_ms cfg \<and> 0 < metrics_port cfg \<and> metrics_port cfg \<le> 65535 \<and>
     metrics_host cfg \<noteq> [] \<and> -1 \<le> links_compact_disconnect_delay_ms cfg"

definition valid_config :: "Config \<Rightarrow> bool" where
  "valid_config cfg \<longleftrightarrow>
     (verify_linkage cfg \<or> endpoints_ok cfg) \<and> ranges_ok cfg \<and> int_fields_ok cfg"

lemma check_endpoints_iff: "check_endpoints cfg = Inr u \<longleftrightarrow> endpoints_ok cfg"
  by (auto simp: check_endpoints_def endpoints_ok_def rbind_eq_Inr_iff not_less not_le
      split: option.splits)

lemma check_config_iff:
  "check_config cfg = Inr cfg' \<longleftrightarrow>
     cfg' = cfg \<and> (verify_linkage cfg \<or> endpoints_ok cfg) \<and> ranges_ok cfg"
  by (auto simp: check_config_def ranges_ok_def rbind_eq_Inr_iff check_endpoints_iff not_less
      not_le)

lemma stoi_in_int: "stoi s = Inr v \<Longrightarrow> in_int v"
  by (simp add: in_int_def stoi_range)

lemma set_primary_int_fields:
  assumes "set_primary v cfg = Inr cfg'" and "int_fields_ok cfg"
  shows "int_fields_ok cfg'"
proof -
  from assms(1) obtain n where n: "stoi v = Inr n" "0 < n"
    and cfg': "cfg' = cfg\<lparr>primary_input_index := Some (nat (n - 1))\<rparr>"
    by (auto simp: set_primary_def rbind_eq_Inr_iff split: if_splits)
  from stoi_range [OF n(1)] n(2) have "int (nat (n - 1)) < INT_MAX" by simp
  then show ?thesis using assms(2) by (simp add: cfg' int_fields_ok_def)
qed

lemma value_option_int_fields:
  assumes "value_option arg = Some f" and "f v cfg = Inr cfg'" and "int_fields_ok cfg"
  shows "int_fields_ok cfg'"
proof -
  have "list_all (\<lambda>(a, f). f v cfg = Inr cfg' \<longrightarrow> int_fields_ok cfg') value_options"
    using assms(3) set_primary_int_fields [of v cfg cfg']
    by (auto simp: value_options_def int_fields_ok_def rbind_eq_Inr_iff stoi_in_int)
  with assms(1,2) show ?thesis
    by (auto simp: value_option_def list_all_iff dest!: map_of_SomeD)
qed

lemma parse_arg_loop_int_fields:
  "parse_arg_loop cfg args = Parsed cfg' \<Longrightarrow> int_fields_ok cfg \<Longrightarrow> int_fields_ok cfg'"
proof (induction cfg args rule: parse_arg_loop.induct)
  case (1 cfg)
  then show ?case by simp
next
  case (2 cfg arg rest)
  have linkage: "int_fields_ok (cfg\<lparr>verify_linkage := True\<rparr>)"
    using "2.prems"(2) by (simp add: int_fields_ok_def)
  show ?case
  proof (cases "arg = ''--verify-linkage''")
    case True
    then show ?thesis using "2.prems"(1) "2.IH"(1) linkage by simp
  next
    case False
    with "2.prems"(1) obtain f v rest' c where
      steps: "\<not> (arg = ''--help'' \<or> arg = ''-h'')" "\<not> (arg = ''--version'' \<or> arg = ''-V'')"
        "value_option arg = Some f" "rest = v # rest'" "f v cfg = Inr c"
        "parse_arg_loop c rest' = Parsed cfg'"
      by (auto split: if_split_asm option.split_asm list.split_asm sum.split_asm)
    from "2.IH"(2) [OF steps(1,2) False steps(3-5)] steps(6)
      value_option_int_fields [OF steps(3,5) "2.prems"(2)]
    show ?thesis by simp
  qed
qed

lemma int_fields_ok_default: "int_fields_ok default_Config"
  by (simp add: int_fields_ok_def in_int_def default_Config_def INT_MIN_def INT_MAX_def)

text \<open>
  C16. Every configuration \<open>ParseArgs\<close> returns has positive intervals and sizes, a port in 1..65535, a
  host and a compaction delay of at least -1, all within \<open>int\<close>; and unless \<open>--verify-linkage\<close> was
  given, one to sixteen inputs and outputs, at most one stdin source and one stdout sink, and a
  primary index that names an input. With \<open>--verify-linkage\<close> the endpoints are not checked (the
  program then only reports its linkage and uses none of them).
\<close>

theorem ParseArgs_valid:
  assumes "ParseArgs args = Parsed cfg"
  shows "valid_config cfg"
proof -
  from assms have loop: "parse_arg_loop default_Config args = Parsed cfg"
    and check: "check_config cfg = Inr cfg"
    by (auto simp: ParseArgs_def check_config_iff split: args_outcome.splits sum.splits)
  from loop have "int_fields_ok cfg"
    using int_fields_ok_default by (rule parse_arg_loop_int_fields)
  with check show ?thesis by (simp add: valid_config_def check_config_iff)
qed

theorem ParseArgs_valid_witness:
  "\<exists>cfg. ParseArgs [''--input'', ''a'', ''--output'', ''b'', ''--stats-interval-ms'', ''10''] = Parsed cfg
     \<and> stats_interval_ms cfg = 10 \<and> valid_config cfg"
proof -
  let ?cfg = "default_Config\<lparr>input_uris := [''a''], output_uris := [''b''], stats_interval_ms := 10\<rparr>"
  have "ParseArgs [''--input'', ''a'', ''--output'', ''b'', ''--stats-interval-ms'', ''10''] = Parsed ?cfg"
    by code_simp
  from this ParseArgs_valid [OF this] show ?thesis by force
qed

section \<open>The command line of a configuration\<close>

fun bool_arg :: "bool \<Rightarrow> string" where
  "bool_arg True = ''true''"
| "bool_arg False = ''false''"

definition print_args :: "Config \<Rightarrow> string list" where
  "print_args cfg =
     concat (map (\<lambda>u. [''--input'', u]) (input_uris cfg)) @
     concat (map (\<lambda>u. [''--output'', u]) (output_uris cfg)) @
     [''--stats-interval-ms'', show_int (stats_interval_ms cfg),
      ''--reconnect-delay-ms'', show_int (reconnect_delay_ms cfg),
      ''--max-message-size'', show_int (max_message_size cfg),
      ''--log-level'', LogLevelName (log_level cfg),
      ''--exit-on-input-failure'', bool_arg (exit_on_input_failure cfg),
      ''--exit-on-output-failure'', bool_arg (exit_on_output_failure cfg),
      ''--io-timeout-ms'', show_int (io_timeout_ms cfg),
      ''--metrics-enabled'', bool_arg (metrics_enabled cfg),
      ''--metrics-host'', metrics_host cfg,
      ''--metrics-port'', show_int (metrics_port cfg),
      ''--switch-mode'', SwitchModeName (switch_mode cfg),
      ''--links-compact-disconnect-delay-ms'', show_int (links_compact_disconnect_delay_ms cfg),
      ''--links-compact-sides'', AutoCompactSidesName (links_compact_sides cfg)] @
     (if verify_linkage cfg then [''--verify-linkage''] else []) @
     (case primary_input_index cfg of
        None \<Rightarrow> [] | Some i \<Rightarrow> [''--primary-input-index'', show_nat (Suc i)])"

lemma ParseBool_bool_arg [simp]: "ParseBool (bool_arg b) = Inr b"
  by (cases b) (simp_all add: ParseBool_def)

lemma ParseLogLevel_name [simp]: "ParseLogLevel (LogLevelName l) = Inr l"
  by (cases l) (simp_all add: ParseLogLevel_def)

lemma ParseSwitchMode_name [simp]: "ParseSwitchMode (SwitchModeName m) = Inr m"
  by (cases m) (simp_all add: ParseSwitchMode_def)

lemma ParseAutoCompactSides_name [simp]: "ParseAutoCompactSides (AutoCompactSidesName x) = Inr x"
  by (cases x) (simp_all add: ParseAutoCompactSides_def)

lemma parse_inputs:
  "parse_arg_loop cfg (concat (map (\<lambda>u. [''--input'', u]) us) @ rest)
     = parse_arg_loop (cfg\<lparr>input_uris := input_uris cfg @ us\<rparr>) rest"
  by (induction us arbitrary: cfg) (simp_all add: value_option_def value_options_def)

lemma parse_outputs:
  "parse_arg_loop cfg (concat (map (\<lambda>u. [''--output'', u]) us) @ rest)
     = parse_arg_loop (cfg\<lparr>output_uris := output_uris cfg @ us\<rparr>) rest"
  by (induction us arbitrary: cfg) (simp_all add: value_option_def value_options_def)

lemma parse_primary:
  "int i < INT_MAX \<Longrightarrow>
   parse_arg_loop cfg [''--primary-input-index'', show_nat (Suc i)]
     = Parsed (cfg\<lparr>primary_input_index := Some i\<rparr>)"
  by (simp add: value_option_def value_options_def set_primary_def stoi_show_nat)

lemma parse_print_args:
  assumes "int_fields_ok cfg"
  shows "parse_arg_loop default_Config (print_args cfg) = Parsed cfg"
proof (cases cfg)
  case (fields ins outs si rd mm ll xi xo vl io me mh mp pri sm cd cs)
  have ints: "stoi (show_int si) = Inr si" "stoi (show_int rd) = Inr rd"
    "stoi (show_int mm) = Inr mm" "stoi (show_int io) = Inr io"
    "stoi (show_int mp) = Inr mp" "stoi (show_int cd) = Inr cd"
    using assms by (simp_all add: fields int_fields_ok_def in_int_def stoi_show_int)
  have pri: "parse_arg_loop c [''--primary-input-index'', show_nat (Suc i)]
      = Parsed (c\<lparr>primary_input_index := Some i\<rparr>)" if "pri = Some i" for i c
    using assms that by (intro parse_primary) (simp add: fields int_fields_ok_def)
  then show ?thesis
    by (cases pri; cases vl)
      (simp_all add: fields print_args_def parse_inputs parse_outputs value_option_def
        value_options_def ints default_Config_def pri)
qed

text \<open>
  C17. Round trip: the command line that spells a valid configuration out is parsed back to
  exactly that configuration, so with C1 the configurations the program can run with are exactly
  the valid ones.
\<close>

theorem ParseArgs_print_args:
  assumes "valid_config cfg"
  shows "ParseArgs (print_args cfg) = Parsed cfg"
  using assms
  by (auto simp: ParseArgs_def valid_config_def parse_print_args
      check_config_iff [THEN iffD2])

theorem ParseArgs_print_args_witness:
  "ParseArgs (print_args (default_Config\<lparr>input_uris := [''stdin''], output_uris := [''stdout'']\<rparr>))
     = Parsed (default_Config\<lparr>input_uris := [''stdin''], output_uris := [''stdout'']\<rparr>)"
  by (rule ParseArgs_print_args)
    (simp add: valid_config_def endpoints_ok_def ranges_ok_def int_fields_ok_def in_int_def
      default_Config_def INT_MIN_def INT_MAX_def IsStdinInputSpec_def IsStdoutOutputSpec_def)

end
