(* ===== verification/Uri.thy ===== *)
theory Uri
  imports Prelude
begin

text \<open>
  URIs and their options (\<open>src/src/srt_utils.cpp\<close>): percent decoding, \<open>srt://\<close> and
  \<open>udp://\<close> URIs with a query, typed option values and the socket options an SRT URI sets.
  \<open>percent_encode\<close>, \<open>print_query\<close> and \<open>print_uri\<close> are the reference printers of the round trips.
\<close>

section \<open>Percent decoding\<close>

text \<open>
  \<open>std::strtol\<close> reads the two characters after \<open>%\<close> as a C string, so a NUL ends them; the
  escape is taken when nothing is left of them, and the code is cast to a byte.
\<close>

definition decode_escape :: "char \<Rightarrow> char \<Rightarrow> char option" where
  "decode_escape a b =
     (case strtol16 (takeWhile (\<lambda>c. c \<noteq> CHR 0x00) [a, b]) of
        (code, end_ptr) \<Rightarrow> if end_ptr = [] then Some (char_of (nat (code mod 256))) else None)"

definition plain_char :: "char \<Rightarrow> char" where
  "plain_char c = (if c = CHR ''+'' then CHR '' '' else c)"

fun PercentDecode :: "string \<Rightarrow> string" where
  "PercentDecode [] = []"
| "PercentDecode (c # a # b # rest) =
     (if c = CHR ''%''
      then (case decode_escape a b of
              Some d \<Rightarrow> d # PercentDecode rest
            | None \<Rightarrow> plain_char c # PercentDecode (a # b # rest))
      else plain_char c # PercentDecode (a # b # rest))"
| "PercentDecode (c # rest) = plain_char c # PercentDecode rest"

section \<open>Parsing URIs\<close>

record SrtUri =
  host :: string
  port :: int
  query :: "string \<rightharpoonup> string"

text \<open>\<open>UdpUri\<close> has the same three fields.\<close>

type_synonym UdpUri = SrtUri

definition add_query_pair :: "(string \<rightharpoonup> string) \<Rightarrow> string \<Rightarrow> (string \<rightharpoonup> string)" where
  "add_query_pair q kv =
     (if kv = [] then q
      else (case split_at (CHR ''='') kv of
              (key, val) \<Rightarrow>
                if key = [] then q
                else q(PercentDecode key \<mapsto>
                       PercentDecode (case val of None \<Rightarrow> [] | Some v \<Rightarrow> v))))"

definition parse_query :: "string \<Rightarrow> (string \<rightharpoonup> string)" where
  "parse_query s = foldl add_query_pair Map.empty (split_on (CHR ''&'') s)"

definition ParseUriWithPrefix :: "string \<Rightarrow> string \<Rightarrow> string \<Rightarrow> SrtUri result" where
  "ParseUriWithPrefix uri prefix scheme_name =
     (if \<not> starts_with uri prefix
      then Inl (runtime_error (''only '' @ scheme_name @ '':// URIs are supported: '' @ uri))
      else
        (case split_at (CHR ''?'') (drop (length prefix) uri) of
           (authority, query_text) \<Rightarrow>
             (case rsplit_at (CHR '':'') authority of
                None \<Rightarrow> Inl (runtime_error (''SRT URI must include host:port: '' @ uri))
              | Some (host_text, port_text) \<Rightarrow>
                  rbind (stoi port_text) (\<lambda>p.
                    if p \<le> 0 \<or> 65535 < p
                    then Inl (runtime_error (''invalid port in URI: '' @ uri))
                    else Inr \<lparr>host = (if host_text = [] then ''0.0.0.0'' else host_text),
                              port = p,
                              query = parse_query (case query_text of None \<Rightarrow> [] | Some q \<Rightarrow> q)\<rparr>))))"

definition ParseSrtUri :: "string \<Rightarrow> SrtUri result" where
  "ParseSrtUri uri = ParseUriWithPrefix uri ''srt://'' ''srt''"

definition ParseUdpUri :: "string \<Rightarrow> UdpUri result" where
  "ParseUdpUri uri = ParseUriWithPrefix uri ''udp://'' ''udp''"

fun QueryFirstValue :: "(string \<rightharpoonup> string) \<Rightarrow> string list \<Rightarrow> string option" where
  "QueryFirstValue q [] = None"
| "QueryFirstValue q (key # keys) =
     (case q key of Some v \<Rightarrow> Some v | None \<Rightarrow> QueryFirstValue q keys)"

definition QueryString :: "(string \<rightharpoonup> string) \<Rightarrow> string \<Rightarrow> string" where
  "QueryString q key = (case q key of None \<Rightarrow> [] | Some v \<Rightarrow> v)"

definition ParseIntOptionValue :: "string \<Rightarrow> string \<Rightarrow> int result" where
  "ParseIntOptionValue val opt_name =
     (case stoi val of
        Inr n \<Rightarrow> Inr n
      | Inl _ \<Rightarrow> Inl (runtime_error (''invalid integer value for '' @ opt_name @ '': '' @ val)))"

section \<open>Socket options\<close>

text \<open>
  Setting an option calls \<open>srt_setsockflag\<close>, which accepts or refuses it: the parameter
  \<open>flag\<close> answers for the socket at hand, with the text of \<open>srt_getlasterror_str\<close> when it refuses. A
  step returns the options the library accepted, in order, and whether it threw. The debug line for
  ignored keys is not modelled.
\<close>

datatype SRT_SOCKOPT =
    SRTO_PASSPHRASE | SRTO_PBKEYLEN | SRTO_TRANSTYPE | SRTO_LATENCY | SRTO_PEERIDLETIMEO
  | SRTO_CONNTIMEO | SRTO_LINGER | SRTO_RCVBUF | SRTO_SNDBUF | SRTO_OHEADBW | SRTO_STREAMID
  | SRTO_GROUPCONNECT | SRTO_GROUPTYPE | SRTO_RCVLATENCY | SRTO_PEERLATENCY | SRTO_RCVTIMEO
  | SRTO_SNDTIMEO | SRTO_REUSEADDR

datatype transtype = SRTT_LIVE | SRTT_FILE

datatype sockopt_value =
    int_value int
  | transtype_value transtype
  | string_value string
  | linger_value bool int

type_synonym set_flag = "SRT_SOCKOPT \<Rightarrow> sockopt_value \<Rightarrow> string option"
type_synonym opt_step = "(SRT_SOCKOPT \<times> sockopt_value) list \<times> unit result"

definition opt_done :: opt_step where
  "opt_done = ([], Inr ())"

definition opt_seq :: "opt_step \<Rightarrow> opt_step \<Rightarrow> opt_step" where
  "opt_seq a b =
     (case a of
        (done_a, Inl e) \<Rightarrow> (done_a, Inl e)
      | (done_a, Inr _) \<Rightarrow> (case b of (done_b, r) \<Rightarrow> (done_a @ done_b, r)))"

definition set_option :: "set_flag \<Rightarrow> SRT_SOCKOPT \<Rightarrow> sockopt_value \<Rightarrow> string \<Rightarrow> opt_step" where
  "set_option flag opt v opt_name =
     (case flag opt v of
        None \<Rightarrow> ([(opt, v)], Inr ())
      | Some err \<Rightarrow> ([], Inl (runtime_error (''failed to set '' @ opt_name @ '': '' @ err))))"

definition ApplyIntSockOpt :: "set_flag \<Rightarrow> SRT_SOCKOPT \<Rightarrow> int \<Rightarrow> string \<Rightarrow> opt_step" where
  "ApplyIntSockOpt flag opt v opt_name = set_option flag opt (int_value v) opt_name"

definition ApplyStringSockOpt :: "set_flag \<Rightarrow> SRT_SOCKOPT \<Rightarrow> string \<Rightarrow> string \<Rightarrow> opt_step" where
  "ApplyStringSockOpt flag opt v opt_name =
     (if v = [] then opt_done else set_option flag opt (string_value v) opt_name)"

definition ApplyLingerSockOpt :: "set_flag \<Rightarrow> int \<Rightarrow> opt_step" where
  "ApplyLingerSockOpt flag seconds =
     set_option flag SRTO_LINGER (linger_value (0 < seconds) seconds) ''SRTO_LINGER''"

definition with_int :: "string \<Rightarrow> string \<Rightarrow> (int \<Rightarrow> opt_step) \<Rightarrow> opt_step" where
  "with_int val opt_name f =
     (case ParseIntOptionValue val opt_name of Inl e \<Rightarrow> ([], Inl e) | Inr n \<Rightarrow> f n)"

definition when_key :: "SrtUri \<Rightarrow> string \<Rightarrow> (string \<Rightarrow> opt_step) \<Rightarrow> opt_step" where
  "when_key uri key f =
     (case QueryFirstValue (query uri) [key] of None \<Rightarrow> opt_done | Some v \<Rightarrow> f v)"

definition apply_transtype :: "set_flag \<Rightarrow> string \<Rightarrow> opt_step" where
  "apply_transtype flag v =
     (if v = ''live'' then
        set_option flag SRTO_TRANSTYPE (transtype_value SRTT_LIVE) ''SRTO_TRANSTYPE''
      else if v = ''file'' then
        set_option flag SRTO_TRANSTYPE (transtype_value SRTT_FILE) ''SRTO_TRANSTYPE''
      else ([], Inl (runtime_error (''unsupported transtype value: '' @ v))))"

definition common_option_steps :: "set_flag \<Rightarrow> SrtUri \<Rightarrow> opt_step list" where
  "common_option_steps flag uri =
     [when_key uri ''passphrase''
        (\<lambda>v. ApplyStringSockOpt flag SRTO_PASSPHRASE v ''SRTO_PASSPHRASE''),
      when_key uri ''pbkeylen'' (\<lambda>v. with_int v ''pbkeylen''
        (\<lambda>n. ApplyIntSockOpt flag SRTO_PBKEYLEN n ''SRTO_PBKEYLEN'')),
      when_key uri ''transtype'' (apply_transtype flag),
      when_key uri ''latency'' (\<lambda>v. with_int v ''latency''
        (\<lambda>n. ApplyIntSockOpt flag SRTO_LATENCY n ''SRTO_LATENCY'')),
      when_key uri ''peeridletimeo'' (\<lambda>v. with_int v ''peeridletimeo''
        (\<lambda>n. ApplyIntSockOpt flag SRTO_PEERIDLETIMEO n ''SRTO_PEERIDLETIMEO'')),
      when_key uri ''conntimeo'' (\<lambda>v. with_int v ''conntimeo''
        (\<lambda>n. ApplyIntSockOpt flag SRTO_CONNTIMEO n ''SRTO_CONNTIMEO'')),
      when_key uri ''linger'' (\<lambda>v. with_int v ''linger'' (ApplyLingerSockOpt flag)),
      when_key uri ''rcvbuf'' (\<lambda>v. with_int v ''rcvbuf''
        (\<lambda>n. ApplyIntSockOpt flag SRTO_RCVBUF n ''SRTO_RCVBUF'')),
      when_key uri ''sndbuf'' (\<lambda>v. with_int v ''sndbuf''
        (\<lambda>n. ApplyIntSockOpt flag SRTO_SNDBUF n ''SRTO_SNDBUF'')),
      when_key uri ''oheadbw'' (\<lambda>v. with_int v ''oheadbw''
        (\<lambda>n. ApplyIntSockOpt flag SRTO_OHEADBW n ''SRTO_OHEADBW'')),
      when_key uri ''streamid''
        (\<lambda>v. ApplyStringSockOpt flag SRTO_STREAMID v ''SRTO_STREAMID'')]"

definition ApplyCommonSrtOptions :: "set_flag \<Rightarrow> SrtUri \<Rightarrow> opt_step" where
  "ApplyCommonSrtOptions flag uri = foldr opt_seq (common_option_steps flag uri) opt_done"

section \<open>Percent encoding and its inverse\<close>

definition hex_char :: "nat \<Rightarrow> char" where
  "hex_char n = char_of (if n < 10 then 48 + n else 55 + n)"

definition unreserved :: "char \<Rightarrow> bool" where
  "unreserved c \<longleftrightarrow>
     (let n = of_char c :: nat in
      48 \<le> n \<and> n \<le> 57 \<or> 65 \<le> n \<and> n \<le> 90 \<or> 97 \<le> n \<and> n \<le> 122
      \<or> n = 45 \<or> n = 46 \<or> n = 95 \<or> n = 126)"

definition encode_char :: "char \<Rightarrow> string" where
  "encode_char c =
     (if unreserved c then [c]
      else (let n = of_char c :: nat in [CHR ''%'', hex_char (n div 16), hex_char (n mod 16)]))"

definition percent_encode :: "string \<Rightarrow> string" where
  "percent_encode s = concat (map encode_char s)"

lemma of_char_nibbles:
  "(of_char c :: nat) div 16 < 16" "(of_char c :: nat) mod 16 < 16"
proof -
  have "(of_char c :: nat) < 256" by (simp add: of_char_def)
  then show "(of_char c :: nat) div 16 < 16" by (simp add: less_mult_imp_div_less)
qed simp

lemma of_char_hex_char:
  "n < 16 \<Longrightarrow> of_char (hex_char n) = (if n < 10 then 48 + n else 55 + n :: nat)"
  by (simp add: hex_char_def)

lemma hex_digit_hex_char: "n < 16 \<Longrightarrow> hex_digit_of (hex_char n) = Some n"
  by (auto simp: hex_digit_of_def of_char_hex_char Let_def)

lemma hex_char_facts:
  assumes "n < 16"
  shows "isxdigit (hex_char n)" "\<not> isspace (hex_char n)" "hex_char n \<noteq> CHR ''-''"
    "hex_char n \<noteq> CHR ''+''" "hex_char n \<noteq> CHR 0x00" "hex_char n \<noteq> CHR ''&''"
    "hex_char n \<noteq> CHR ''=''" "hex_char n \<noteq> CHR ''?''"
  using assms of_char_hex_char [OF assms] hex_digit_hex_char [OF assms]
  by (auto simp: isxdigit_def isspace_def split: if_splits)

lemma decode_escape_hex:
  assumes "a < 16" and "b < 16"
  shows "decode_escape (hex_char a) (hex_char b) = Some (char_of (16 * a + b))"
proof -
  have "16 * a + b < 256" using assms by simp
  then have "nat ((16 * int a + int b) mod 256) = 16 * a + b" by simp
  then show ?thesis
    using assms
    by (simp add: decode_escape_def strtol16_def strip_sign_def strip_0x_def hex_char_facts
        hex_value_def hex_digit_hex_char)
qed

lemma PercentDecode_plain:
  "c \<noteq> CHR ''%'' \<Longrightarrow> PercentDecode (c # rest) = plain_char c # PercentDecode rest"
  by (cases rest; cases "tl rest") simp_all

lemma decode_encode_char: "PercentDecode (encode_char c @ rest) = c # PercentDecode rest"
proof (cases "unreserved c")
  case True
  then have "c \<noteq> CHR ''%''" "c \<noteq> CHR ''+''" by (auto simp: unreserved_def)
  then show ?thesis
    by (simp add: encode_char_def True PercentDecode_plain plain_char_def)
next
  case False
  have "decode_escape (hex_char (of_char c div 16)) (hex_char (of_char c mod 16)) = Some c"
    using decode_escape_hex [OF of_char_nibbles [of c]]
    by (simp add: mult.commute [of 16])
  with False show ?thesis by (simp add: encode_char_def Let_def)
qed

lemma PercentDecode_percent_encode_aux: "PercentDecode (percent_encode s) = s"
  by (induction s) (simp_all add: percent_encode_def decode_encode_char)

text \<open>
  \<open>PercentDecode\<close> inverts percent encoding: whatever bytes an option value holds, its
  encoding with every reserved byte written \<open>%XX\<close> is decoded back to exactly those bytes.
\<close>

theorem PercentDecode_percent_encode: "PercentDecode (percent_encode s) = s"
  by (rule PercentDecode_percent_encode_aux)

text \<open>
  \<open>PercentDecode\<close> takes an escape whose two characters \<open>strtol\<close> reads as a signed or
  blank-led number: \<open>%-1\<close> is decoded to the byte 255 and \<open>%+A\<close> and \<open>% A\<close> to a line feed.
\<close>

theorem PercentDecode_signed_escapes:
  "PercentDecode ''%-1'' = [CHR 0xFF] \<and> PercentDecode ''%+A'' = [CHR 0x0A] \<and>
   PercentDecode ''% A'' = [CHR 0x0A]"
  by code_simp

section \<open>The text of a URI\<close>

definition print_pair :: "string \<times> string \<Rightarrow> string" where
  "print_pair kv = percent_encode (fst kv) @ CHR ''='' # percent_encode (snd kv)"

fun print_query :: "(string \<times> string) list \<Rightarrow> string" where
  "print_query [] = []"
| "print_query [kv] = print_pair kv"
| "print_query (kv # kv' # kvs) = print_pair kv @ CHR ''&'' # print_query (kv' # kvs)"

definition print_uri :: "string \<Rightarrow> string \<Rightarrow> nat \<Rightarrow> (string \<times> string) list \<Rightarrow> string" where
  "print_uri prefix h p kvs =
     prefix @ h @ CHR '':'' # show_nat p @ (if kvs = [] then [] else CHR ''?'' # print_query kvs)"

lemma encode_char_no_delim:
  "CHR ''&'' \<notin> set (encode_char c)" "CHR ''='' \<notin> set (encode_char c)"
proof -
  have "hex_char (of_char c div 16) \<noteq> CHR ''&''" "hex_char (of_char c mod 16) \<noteq> CHR ''&''"
    "hex_char (of_char c div 16) \<noteq> CHR ''=''" "hex_char (of_char c mod 16) \<noteq> CHR ''=''"
    by (simp_all add: hex_char_facts of_char_nibbles)
  then show "CHR ''&'' \<notin> set (encode_char c)" "CHR ''='' \<notin> set (encode_char c)"
    by (auto simp: encode_char_def Let_def unreserved_def)
qed

lemma percent_encode_no_delim:
  "CHR ''&'' \<notin> set (percent_encode s)" "CHR ''='' \<notin> set (percent_encode s)"
  by (auto simp: percent_encode_def encode_char_no_delim)

lemma percent_encode_eq_Nil [simp]: "percent_encode s = [] \<longleftrightarrow> s = []"
proof (cases s)
  case (Cons c cs)
  then show ?thesis by (simp add: percent_encode_def encode_char_def Let_def)
qed (simp add: percent_encode_def)

lemma add_query_print_pair:
  "fst kv \<noteq> [] \<Longrightarrow> add_query_pair q (print_pair kv) = q(fst kv \<mapsto> snd kv)"
  by (simp add: add_query_pair_def print_pair_def split_at_append percent_encode_no_delim
      PercentDecode_percent_encode_aux)

lemma print_pair_no_amp: "CHR ''&'' \<notin> set (print_pair kv)"
  by (simp add: print_pair_def percent_encode_no_delim)

lemma foldl_print_query:
  "\<forall>kv \<in> set kvs. fst kv \<noteq> [] \<Longrightarrow>
   foldl add_query_pair q (split_on (CHR ''&'') (print_query kvs)) = q ++ map_of (rev kvs)"
proof (induction kvs arbitrary: q rule: print_query.induct)
  case 1
  then show ?case by (simp add: add_query_pair_def)
next
  case (2 kv)
  then show ?case
    by (simp add: split_on_notin print_pair_no_amp add_query_print_pair map_add_def fun_eq_iff)
next
  case (3 kv kv' kvs)
  then show ?case
    by (simp add: split_on_append print_pair_no_amp add_query_print_pair map_add_def fun_eq_iff
        split: option.splits)
qed

lemma parse_print_query:
  "\<forall>kv \<in> set kvs. fst kv \<noteq> [] \<Longrightarrow> parse_query (print_query kvs) = map_of (rev kvs)"
  by (simp add: parse_query_def foldl_print_query)

lemma parse_query_Nil [simp]: "parse_query [] = Map.empty"
  by (simp add: parse_query_def add_query_pair_def)

lemma parse_uri_print_uri:
  assumes "h \<noteq> []" and "CHR ''?'' \<notin> set h" and "0 < p" and "p \<le> 65535"
    and "\<forall>kv \<in> set kvs. fst kv \<noteq> []"
  shows "ParseUriWithPrefix (print_uri prefix h p kvs) prefix scheme
           = Inr \<lparr>host = h, port = int p, query = map_of (rev kvs)\<rparr>"
proof -
  have digits: "CHR ''?'' \<notin> set (show_nat p)" "CHR '':'' \<notin> set (show_nat p)"
    by (rule show_nat_notin, simp add: isdigit_def digit_of_def)+
  have split: "split_at (CHR ''?'') (h @ CHR '':'' # show_nat p @ CHR ''?'' # t)
      = (h @ CHR '':'' # show_nat p, Some t)" for t
    using split_at_append [of "CHR ''?''" "h @ CHR '':'' # show_nat p" t] digits(1) assms(2)
    by simp
  have port: "stoi (show_nat p) = Inr (int p)"
    using assms(4) by (simp add: stoi_show_nat INT_MAX_def)
  show ?thesis
    using assms digits
    by (simp add: ParseUriWithPrefix_def print_uri_def split split_at_notin rsplit_at_append port
        parse_print_query)
qed

text \<open>
  C18. Round trip: the text of an SRT URI with a host, a port in 1..65535 and percent-encoded
  query pairs is parsed back to that host, that port and the map of those pairs, the last value of
  a repeated key winning.
\<close>

theorem ParseSrtUri_print_uri:
  assumes "h \<noteq> []" and "CHR ''?'' \<notin> set h" and "0 < p" and "p \<le> 65535"
    and "\<forall>kv \<in> set kvs. fst kv \<noteq> []"
  shows "ParseSrtUri (print_uri ''srt://'' h p kvs)
           = Inr \<lparr>host = h, port = int p, query = map_of (rev kvs)\<rparr>"
  unfolding ParseSrtUri_def using assms by (rule parse_uri_print_uri)

theorem ParseSrtUri_print_uri_witness:
  "ParseSrtUri (print_uri ''srt://'' ''::1'' 9000 [(''mode'', ''caller''), (''streamid'', ''#!::r=a&b'')])
     = Inr \<lparr>host = ''::1'', port = 9000,
            query = map_of [(''streamid'', ''#!::r=a&b''), (''mode'', ''caller'')]\<rparr>"
  using ParseSrtUri_print_uri
    [of "''::1''" 9000 "[(''mode'', ''caller''), (''streamid'', ''#!::r=a&b'')]"]
  by simp

text \<open>
  A URI that parses has the scheme's prefix, a nonempty host and a port in 1..65535.
\<close>

theorem ParseUriWithPrefix_ok:
  assumes "ParseUriWithPrefix uri prefix scheme = Inr u"
  shows "starts_with uri prefix \<and> host u \<noteq> [] \<and> 1 \<le> port u \<and> port u \<le> 65535"
  using assms
  by (auto simp: ParseUriWithPrefix_def rbind_eq_Inr_iff
      split: if_splits prod.splits option.splits)

theorem ParseUriWithPrefix_ok_witness:
  "\<exists>u. ParseUriWithPrefix ''udp://:5000?x'' ''udp://'' ''udp'' = Inr u \<and> host u = ''0.0.0.0''
     \<and> 1 \<le> port u \<and> port u \<le> 65535"
proof -
  have "\<exists>u. ParseUriWithPrefix ''udp://:5000?x'' ''udp://'' ''udp'' = Inr u \<and> host u = ''0.0.0.0''"
    by (simp add: ParseUriWithPrefix_def starts_with_def rsplit_at_def stoi_def strip_sign_def
        isspace_def isdigit_def digit_of_def dec_value_def INT_MIN_def INT_MAX_def)
  with ParseUriWithPrefix_ok show ?thesis by blast
qed

section \<open>Option values\<close>

lemma ParseIntOptionValue_show_int:
  "INT_MIN \<le> v \<Longrightarrow> v \<le> INT_MAX \<Longrightarrow> ParseIntOptionValue (show_int v) name = Inr v"
  by (simp add: ParseIntOptionValue_def stoi_show_int)

lemma opt_seq_ok_iff:
  "snd (opt_seq a b) = Inr u \<longleftrightarrow> snd a = Inr () \<and> snd b = Inr u"
  by (cases a; cases "snd a"; cases b) (auto simp: opt_seq_def)

lemma opt_seq_fst:
  "fst (opt_seq a b) = fst a @ (case snd a of Inl _ \<Rightarrow> [] | Inr _ \<Rightarrow> fst b)"
  by (cases a; cases "snd a"; cases b) (auto simp: opt_seq_def)

end
