(* ===== verification/EndpointSpecs.thy ===== *)
theory EndpointSpecs
  imports Uri Config
begin

text \<open>
  Endpoint specifications (\<open>src/src/relay_endpoint_specs.cpp\<close>, \<open>src/include/srtrelay/relay_io.hpp\<close>):
  what one \<open>--input\<close> or \<open>--output\<close> value means, and the well-formedness every accepted
  specification has.
\<close>

section \<open>Kinds and specifications\<close>

datatype InputEndpointKind = kSrtListener | kSrtCaller | kUdpListener | kUdpCaller | kStdin

datatype OutputEndpointKind = kSrtCaller | kSrtListener | kUdpCaller | kUdpListener | kStdout

datatype SRT_GROUP_TYPE = SRT_GTYPE_UNDEFINED | SRT_GTYPE_BROADCAST | SRT_GTYPE_BACKUP

text \<open>The fields \<open>InputEndpointSpec\<close> and \<open>OutputEndpointSpec\<close> share, over the kind.\<close>

record 'k endpoint_spec =
  kind :: 'k
  uris :: "SrtUri list"
  udp_uri :: UdpUri
  bonded :: bool
  group_type :: SRT_GROUP_TYPE

type_synonym InputEndpointSpec = "InputEndpointKind endpoint_spec"

record OutputEndpointSpec = "OutputEndpointKind endpoint_spec" +
  listener_fanout_enabled :: bool
  listener_max_clients :: int

definition default_uri :: SrtUri where
  "default_uri = \<lparr>host = [], port = 0, query = Map.empty\<rparr>"

definition default_InputEndpointSpec :: InputEndpointSpec where
  "default_InputEndpointSpec =
     \<lparr>kind = InputEndpointKind.kSrtListener, uris = [], udp_uri = default_uri, bonded = False,
      group_type = SRT_GTYPE_UNDEFINED\<rparr>"

definition default_OutputEndpointSpec :: OutputEndpointSpec where
  "default_OutputEndpointSpec =
     \<lparr>kind = OutputEndpointKind.kSrtCaller, uris = [], udp_uri = default_uri, bonded = False,
      group_type = SRT_GTYPE_UNDEFINED, listener_fanout_enabled = False,
      listener_max_clients = 1\<rparr>"

text \<open>\<open>MetricsState::kMaxTrackedMembers\<close>.\<close>

definition kMaxTrackedMembers :: nat where "kMaxTrackedMembers = 16"

section \<open>Lists of URIs\<close>

definition Trim :: "string \<Rightarrow> string" where
  "Trim s = rev (dropWhile isspace (rev (dropWhile isspace s)))"

definition SplitSpecList :: "string \<Rightarrow> string list result" where
  "SplitSpecList value =
     (let delimiter = (if CHR '';'' \<in> set value then CHR '';'' else CHR '','');
          parts = filter (\<lambda>t. t \<noteq> []) (map Trim (split_on delimiter value))
      in if parts = [] then Inl (runtime_error ''empty endpoint specification'') else Inr parts)"

definition ParseSrtUriList :: "string \<Rightarrow> SrtUri list result" where
  "ParseSrtUriList spec = rbind (SplitSpecList spec) (rmap ParseSrtUri)"

datatype EndpointScheme = kSrt | kUdp

definition DetectScheme :: "string \<Rightarrow> EndpointScheme result" where
  "DetectScheme value =
     (if starts_with value ''srt://'' then Inr EndpointScheme.kSrt
      else if starts_with value ''udp://'' then Inr EndpointScheme.kUdp
      else Inl (runtime_error (''unsupported endpoint URI scheme: '' @ value)))"

fun check_schemes :: "EndpointScheme \<Rightarrow> string list \<Rightarrow> unit result" where
  "check_schemes scheme [] = Inr ()"
| "check_schemes scheme (token # tokens) =
     rbind (DetectScheme token) (\<lambda>s.
     rbind (guard_exn (s \<noteq> scheme)
              ''mixed endpoint URI schemes are not supported in one endpoint list'') (\<lambda>_.
     check_schemes scheme tokens))"

definition ParseRawUriList :: "string \<Rightarrow> (EndpointScheme \<times> string list) result" where
  "ParseRawUriList spec =
     rbind (SplitSpecList spec) (\<lambda>raw.
     rbind (guard_exn (raw = []) ''empty endpoint specification'') (\<lambda>_.
     rbind (DetectScheme (hd raw)) (\<lambda>scheme.
     rbind (check_schemes scheme raw) (\<lambda>_. Inr (scheme, raw)))))"

section \<open>Options of a URI list\<close>

definition HasBondQueryOption :: "(string \<rightharpoonup> string) \<Rightarrow> bool" where
  "HasBondQueryOption q \<longleftrightarrow>
     QueryString q ''grouptype'' \<noteq> [] \<or> QueryString q ''group_type'' \<noteq> [] \<or>
     QueryString q ''bond'' \<noteq> [] \<or> QueryString q ''bond_mode'' \<noteq> []"

definition HasOutputListenerFanoutQueryOption :: "(string \<rightharpoonup> string) \<Rightarrow> bool" where
  "HasOutputListenerFanoutQueryOption q \<longleftrightarrow>
     QueryString q ''fanout'' \<noteq> [] \<or> QueryString q ''max_clients'' \<noteq> [] \<or>
     QueryString q ''fanout_max_clients'' \<noteq> []"

definition ParseFanoutBoolValue :: "string \<Rightarrow> bool result" where
  "ParseFanoutBoolValue value =
     (if value = ''on'' \<or> value = ''true'' \<or> value = ''1'' \<or> value = ''yes'' then Inr True
      else if value = ''off'' \<or> value = ''false'' \<or> value = ''0'' \<or> value = ''no'' then Inr False
      else Inl (runtime_error (''invalid fanout value: '' @ value @ '' (expected on/off)'')))"

record fanout_state =
  fanout_enabled :: bool
  fanout_seen :: bool
  max_clients :: int
  max_clients_seen :: bool

definition fanout_value :: "string \<Rightarrow> fanout_state \<Rightarrow> fanout_state result" where
  "fanout_value fanout st =
     (if fanout = [] then Inr st
      else rbind (ParseFanoutBoolValue fanout) (\<lambda>parsed.
           rbind (guard_exn (fanout_seen st \<and> parsed \<noteq> fanout_enabled st)
                    ''all output SRT listener URIs must use the same fanout value'') (\<lambda>_.
           Inr (st\<lparr>fanout_enabled := parsed, fanout_seen := True\<rparr>))))"

definition max_clients_value :: "string \<Rightarrow> fanout_state \<Rightarrow> fanout_state result" where
  "max_clients_value value st =
     (if value = [] then Inr st
      else rbind (ParseIntOptionValue value ''max_clients'') (\<lambda>parsed.
           rbind (guard_exn (parsed \<le> 0) ''max_clients must be > 0'') (\<lambda>_.
           rbind (guard_exn (int kMaxTrackedMembers < parsed)
                    (''max_clients must be <= '' @ show_nat kMaxTrackedMembers)) (\<lambda>_.
           rbind (guard_exn (max_clients_seen st \<and> parsed \<noteq> max_clients st)
                    ''all output SRT listener URIs must use the same max_clients value'') (\<lambda>_.
           Inr (st\<lparr>max_clients := parsed, max_clients_seen := True\<rparr>))))))"

fun fanout_loop :: "fanout_state \<Rightarrow> SrtUri list \<Rightarrow> fanout_state result" where
  "fanout_loop st [] = Inr st"
| "fanout_loop st (uri # rest) =
     rbind (fanout_value (QueryString (query uri) ''fanout'') st) (\<lambda>st1.
     rbind (max_clients_value
              (if QueryString (query uri) ''max_clients'' = []
               then QueryString (query uri) ''fanout_max_clients''
               else QueryString (query uri) ''max_clients'') st1) (\<lambda>st2.
     fanout_loop st2 rest))"

definition ResolveOutputListenerFanoutOptions :: "SrtUri list \<Rightarrow> (bool \<times> int) result" where
  "ResolveOutputListenerFanoutOptions us =
     rbind (fanout_loop \<lparr>fanout_enabled = False, fanout_seen = False, max_clients = 1,
                          max_clients_seen = False\<rparr> us) (\<lambda>st.
     rbind (guard_exn (\<not> fanout_enabled st \<and> max_clients st \<noteq> 1)
              ''max_clients requires fanout=on for output SRT listener mode'') (\<lambda>_.
     Inr (fanout_enabled st, if fanout_enabled st then max_clients st else 1)))"

definition bond_value :: "(string \<rightharpoonup> string) \<Rightarrow> string" where
  "bond_value q =
     (let v1 = QueryString q ''grouptype'';
          v2 = (if v1 = [] then QueryString q ''group_type'' else v1);
          v3 = (if v2 = [] then QueryString q ''bond'' else v2)
      in if v3 = [] then QueryString q ''bond_mode'' else v3)"

definition ParseBondGroupType :: "(string \<rightharpoonup> string) \<Rightarrow> SRT_GROUP_TYPE option result" where
  "ParseBondGroupType q =
     (let value = bond_value q in
      if value = [] then Inr None
      else if value = ''broadcast'' \<or> value = ''1'' then Inr (Some SRT_GTYPE_BROADCAST)
      else if value = ''backup'' \<or> value = ''2'' then Inr (Some SRT_GTYPE_BACKUP)
      else Inl (runtime_error (''unsupported bonded group type: '' @ value)))"

fun select_group_type ::
  "SRT_GROUP_TYPE option \<Rightarrow> SrtUri list \<Rightarrow> SRT_GROUP_TYPE option result" where
  "select_group_type selected [] = Inr selected"
| "select_group_type selected (uri # rest) =
     rbind (ParseBondGroupType (query uri)) (\<lambda>parsed.
       case parsed of
         None \<Rightarrow> select_group_type selected rest
       | Some p \<Rightarrow>
           (case selected of
              None \<Rightarrow> select_group_type (Some p) rest
            | Some s \<Rightarrow>
                if s \<noteq> p
                then Inl (runtime_error ''all grouped SRT URIs must use the same bonded group type'')
                else select_group_type selected rest))"

definition ResolveGroupType :: "SrtUri list \<Rightarrow> SRT_GROUP_TYPE result" where
  "ResolveGroupType us =
     rbind (select_group_type None us) (\<lambda>selected.
       Inr (case selected of
              Some s \<Rightarrow> s
            | None \<Rightarrow> if 1 < length us then SRT_GTYPE_BROADCAST else SRT_GTYPE_UNDEFINED))"

section \<open>Endpoint specifications\<close>

definition resolved_mode :: "string \<Rightarrow> SrtUri \<Rightarrow> string" where
  "resolved_mode default_mode uri =
     (let mode = QueryString (query uri) ''mode'' in if mode = [] then default_mode else mode)"

definition set_bonding ::
  "SRT_GROUP_TYPE \<Rightarrow> ('k, 'z) endpoint_spec_scheme \<Rightarrow> ('k, 'z) endpoint_spec_scheme" where
  "set_bonding gt out =
     (let is_bonded = 1 < length (uris out) \<or> gt \<noteq> SRT_GTYPE_UNDEFINED in
      out\<lparr>bonded := is_bonded,
          group_type := (if \<not> is_bonded then SRT_GTYPE_UNDEFINED
                         else if gt = SRT_GTYPE_UNDEFINED then SRT_GTYPE_BROADCAST
                         else gt)\<rparr>)"

text \<open>The SRT and the UDP branch of \<open>ParseInputEndpointSpecFromUri\<close>.\<close>

definition input_srt_kind :: "string \<Rightarrow> InputEndpointKind result" where
  "input_srt_kind mode =
     (if mode = ''listener'' then Inr InputEndpointKind.kSrtListener
      else if mode = ''caller'' then Inr InputEndpointKind.kSrtCaller
      else Inl (runtime_error ''input SRT URI mode must be listener or caller''))"

definition input_srt_spec :: "string \<Rightarrow> InputEndpointSpec result" where
  "input_srt_spec input_uri =
     rbind (ParseSrtUriList input_uri) (\<lambda>us.
     rbind (guard_exn
              (list_ex (\<lambda>u. resolved_mode ''listener'' u \<noteq> resolved_mode ''listener'' (hd us)) us)
              ''all input SRT URIs must use the same mode'') (\<lambda>_.
     rbind (input_srt_kind (resolved_mode ''listener'' (hd us))) (\<lambda>k.
     rbind (ResolveGroupType us) (\<lambda>gt.
     Inr (set_bonding gt (default_InputEndpointSpec\<lparr>kind := k, uris := us\<rparr>))))))"

definition input_udp_spec :: "string list \<Rightarrow> InputEndpointSpec result" where
  "input_udp_spec raw =
     rbind (guard_exn (length raw \<noteq> 1)
              ''grouped endpoint lists are only supported for SRT URIs'') (\<lambda>_.
     rbind (ParseUdpUri (hd raw)) (\<lambda>u.
     rbind (guard_exn (HasBondQueryOption (query u))
              ''bond options are only supported for SRT URIs'') (\<lambda>_.
     if resolved_mode ''listener'' u = ''listener'' then
       Inr (default_InputEndpointSpec\<lparr>kind := InputEndpointKind.kUdpListener, udp_uri := u\<rparr>)
     else if resolved_mode ''listener'' u = ''caller'' then
       Inl (runtime_error ''input UDP caller mode is not supported; use mode=listener'')
     else Inl (runtime_error ''input UDP URI mode must be listener or caller''))))"

definition ParseInputEndpointSpecFromUri :: "string \<Rightarrow> InputEndpointSpec result" where
  "ParseInputEndpointSpecFromUri input_uri =
     (if IsStdinInputSpec input_uri
      then Inr (default_InputEndpointSpec\<lparr>kind := InputEndpointKind.kStdin\<rparr>)
      else rbind (ParseRawUriList input_uri) (\<lambda>(scheme, raw).
        if scheme = EndpointScheme.kSrt then input_srt_spec input_uri else input_udp_spec raw))"

text \<open>The SRT branch of \<open>ParseOutputEndpointSpecFromUri\<close> before bonding, and its UDP branch.\<close>

definition output_srt_kind :: "string \<Rightarrow> SrtUri list \<Rightarrow> OutputEndpointSpec result" where
  "output_srt_kind mode us =
     (if mode = ''caller'' then
        rbind (guard_exn (list_ex (\<lambda>u. HasOutputListenerFanoutQueryOption (query u)) us)
          ''fanout and max_clients are only supported for output SRT listener mode'') (\<lambda>_.
        Inr (default_OutputEndpointSpec\<lparr>kind := OutputEndpointKind.kSrtCaller, uris := us\<rparr>))
      else if mode = ''listener'' then
        rbind (ResolveOutputListenerFanoutOptions us) (\<lambda>(fanout, clients).
        Inr (default_OutputEndpointSpec
               \<lparr>kind := OutputEndpointKind.kSrtListener, uris := us,
                listener_fanout_enabled := fanout, listener_max_clients := clients\<rparr>))
      else Inl (runtime_error ''output SRT URI mode must be caller or listener''))"

definition output_srt_spec :: "string \<Rightarrow> OutputEndpointSpec result" where
  "output_srt_spec output_uri =
     rbind (ParseSrtUriList output_uri) (\<lambda>us.
     rbind (guard_exn
              (list_ex (\<lambda>u. resolved_mode ''caller'' u \<noteq> resolved_mode ''caller'' (hd us)) us)
              ''all output SRT URIs must use the same mode'') (\<lambda>_.
     rbind (output_srt_kind (resolved_mode ''caller'' (hd us)) us) (\<lambda>out.
     rbind (ResolveGroupType us) (\<lambda>gt. Inr (set_bonding gt out)))))"

definition output_udp_spec :: "string list \<Rightarrow> OutputEndpointSpec result" where
  "output_udp_spec raw =
     rbind (guard_exn (length raw \<noteq> 1)
              ''grouped endpoint lists are only supported for SRT URIs'') (\<lambda>_.
     rbind (ParseUdpUri (hd raw)) (\<lambda>u.
     rbind (guard_exn (HasBondQueryOption (query u))
              ''bond options are only supported for SRT URIs'') (\<lambda>_.
     if resolved_mode ''caller'' u = ''caller'' then
       Inr (default_OutputEndpointSpec\<lparr>kind := OutputEndpointKind.kUdpCaller, udp_uri := u\<rparr>)
     else if resolved_mode ''caller'' u = ''listener'' then
       Inl (runtime_error ''output UDP listener mode is not supported; use mode=caller'')
     else Inl (runtime_error ''output UDP URI mode must be caller or listener''))))"

definition ParseOutputEndpointSpecFromUri :: "string \<Rightarrow> OutputEndpointSpec result" where
  "ParseOutputEndpointSpecFromUri output_uri =
     (if IsStdoutOutputSpec output_uri
      then Inr (default_OutputEndpointSpec\<lparr>kind := OutputEndpointKind.kStdout\<rparr>)
      else rbind (ParseRawUriList output_uri) (\<lambda>(scheme, raw).
        if scheme = EndpointScheme.kSrt then output_srt_spec output_uri else output_udp_spec raw))"

text \<open>
  The loops over the values of the command line: one specification per value, at most one of the
  kind that names a standard stream.
\<close>

fun spec_loop ::
  "(string \<Rightarrow> ('k, 'z) endpoint_spec_scheme result) \<Rightarrow> 'k \<Rightarrow> string \<Rightarrow> nat
     \<Rightarrow> string list \<Rightarrow> ('k, 'z) endpoint_spec_scheme list result" where
  "spec_loop parse std msg seen [] = Inr []"
| "spec_loop parse std msg seen (uri # rest) =
     rbind (parse uri) (\<lambda>spec.
     let seen' = (if kind spec = std then Suc seen else seen) in
     rbind (guard_exn (kind spec = std \<and> 1 < seen') msg) (\<lambda>_.
     rbind (spec_loop parse std msg seen' rest) (\<lambda>specs. Inr (spec # specs))))"

definition ParseInputEndpointSpecs :: "Config \<Rightarrow> InputEndpointSpec list result" where
  "ParseInputEndpointSpecs cfg =
     rbind (spec_loop ParseInputEndpointSpecFromUri InputEndpointKind.kStdin
              ''multi-input mode supports at most one stdin source'' 0 (input_uris cfg)) (\<lambda>out.
     rbind (guard_exn (out = []) ''--input is required'') (\<lambda>_. Inr out))"

definition ParseOutputEndpointSpecs :: "Config \<Rightarrow> OutputEndpointSpec list result" where
  "ParseOutputEndpointSpecs cfg =
     rbind (spec_loop ParseOutputEndpointSpecFromUri OutputEndpointKind.kStdout
              ''multi-output mode supports at most one stdout sink'' 0 (output_uris cfg)) (\<lambda>out.
     rbind (guard_exn (out = []) ''--output is required'') (\<lambda>_. Inr out))"

definition ParseInputEndpointSpec :: "Config \<Rightarrow> InputEndpointSpec result" where
  "ParseInputEndpointSpec cfg = rbind (ParseInputEndpointSpecs cfg) (\<lambda>specs. Inr (hd specs))"

definition ParseOutputEndpointSpec :: "Config \<Rightarrow> OutputEndpointSpec result" where
  "ParseOutputEndpointSpec cfg = rbind (ParseOutputEndpointSpecs cfg) (\<lambda>specs. Inr (hd specs))"

section \<open>What an accepted list holds\<close>

lemma SplitSpecList_ne: "SplitSpecList spec = Inr parts \<Longrightarrow> parts \<noteq> [] \<and> [] \<notin> set parts"
  by (auto simp: SplitSpecList_def Let_def split: if_splits)

lemma check_schemes_iff:
  "check_schemes scheme tokens = Inr u \<longleftrightarrow> (\<forall>t \<in> set tokens. DetectScheme t = Inr scheme)"
  by (induction tokens) (auto simp: rbind_eq_Inr_iff)

lemma ParseRawUriList_ok:
  assumes "ParseRawUriList spec = Inr (scheme, raw)"
  shows "raw \<noteq> [] \<and> SplitSpecList spec = Inr raw \<and> (\<forall>t \<in> set raw. DetectScheme t = Inr scheme)"
  using assms by (auto simp: ParseRawUriList_def rbind_eq_Inr_iff check_schemes_iff)

definition uri_ok :: "SrtUri \<Rightarrow> bool" where
  "uri_ok u \<longleftrightarrow> host u \<noteq> [] \<and> 1 \<le> port u \<and> port u \<le> 65535"

lemma ParseUri_uri_ok:
  assumes "ParseUriWithPrefix uri prefix scheme = Inr u"
  shows "uri_ok u"
  using assms
  by (auto simp: ParseUriWithPrefix_def uri_ok_def rbind_eq_Inr_iff
      split: if_splits prod.splits option.splits)

lemma ParseSrtUriList_ok:
  assumes "ParseSrtUriList spec = Inr us"
  shows "us \<noteq> [] \<and> (\<forall>u \<in> set us. uri_ok u)"
proof -
  from assms obtain raw where raw: "SplitSpecList spec = Inr raw" "rmap ParseSrtUri raw = Inr us"
    by (auto simp: ParseSrtUriList_def rbind_eq_Inr_iff)
  from rmap_Inr_length [OF raw(2)] SplitSpecList_ne [OF raw(1)] have "us \<noteq> []" by auto
  moreover have "\<forall>u \<in> set us. uri_ok u"
    using raw(2) by (rule rmap_Inr_all) (simp add: ParseSrtUri_def ParseUri_uri_ok)
  ultimately show ?thesis by simp
qed

section \<open>Options the URIs of a list agree on\<close>

definition fanout_bounds :: "fanout_state \<Rightarrow> bool" where
  "fanout_bounds st \<longleftrightarrow> 1 \<le> max_clients st \<and> max_clients st \<le> int kMaxTrackedMembers"

lemma fanout_step_bounds:
  assumes "fanout_value v st = Inr st1" and "max_clients_value w st1 = Inr st2"
    and "fanout_bounds st"
  shows "fanout_bounds st2"
  using assms
  by (auto simp: fanout_value_def max_clients_value_def fanout_bounds_def rbind_eq_Inr_iff
      split: if_splits)

lemma fanout_loop_bounds:
  "fanout_loop st us = Inr st' \<Longrightarrow> fanout_bounds st \<Longrightarrow> fanout_bounds st'"
proof (induction us arbitrary: st)
  case (Cons u us)
  then show ?case by (auto simp: rbind_eq_Inr_iff dest: fanout_step_bounds)
qed simp

lemma ResolveFanout_bounds:
  assumes "ResolveOutputListenerFanoutOptions us = Inr (f, n)"
  shows "1 \<le> n \<and> n \<le> int kMaxTrackedMembers \<and> (\<not> f \<longrightarrow> n = 1)"
  using assms
  by (auto simp: ResolveOutputListenerFanoutOptions_def rbind_eq_Inr_iff fanout_bounds_def
      kMaxTrackedMembers_def dest!: fanout_loop_bounds split: if_splits)

text \<open>What a URI asks for agrees with what was selected.\<close>

definition fanout_agrees :: "fanout_state \<Rightarrow> SrtUri \<Rightarrow> bool" where
  "fanout_agrees st u \<longleftrightarrow>
     (QueryString (query u) ''fanout'' \<noteq> [] \<longrightarrow>
        fanout_seen st \<and> ParseFanoutBoolValue (QueryString (query u) ''fanout'') = Inr (fanout_enabled st)) \<and>
     (QueryString (query u) ''max_clients'' \<noteq> [] \<longrightarrow>
        max_clients_seen st \<and>
        ParseIntOptionValue (QueryString (query u) ''max_clients'') ''max_clients'' = Inr (max_clients st))"

lemma fanout_step_keeps:
  assumes "fanout_value v st = Inr st1" and "max_clients_value w st1 = Inr st2"
  shows "(fanout_seen st \<longrightarrow> fanout_seen st2 \<and> fanout_enabled st2 = fanout_enabled st) \<and>
         (max_clients_seen st \<longrightarrow> max_clients_seen st2 \<and> max_clients st2 = max_clients st)"
  using assms
  by (auto simp: fanout_value_def max_clients_value_def rbind_eq_Inr_iff split: if_splits)

lemma fanout_loop_keeps:
  "fanout_loop st us = Inr st' \<Longrightarrow>
   (fanout_seen st \<longrightarrow> fanout_seen st' \<and> fanout_enabled st' = fanout_enabled st) \<and>
   (max_clients_seen st \<longrightarrow> max_clients_seen st' \<and> max_clients st' = max_clients st)"
proof (induction us arbitrary: st)
  case (Cons u us)
  from Cons.prems obtain st1 st2 where
    steps: "fanout_value (QueryString (query u) ''fanout'') st = Inr st1"
      "max_clients_value (if QueryString (query u) ''max_clients'' = []
               then QueryString (query u) ''fanout_max_clients''
               else QueryString (query u) ''max_clients'') st1 = Inr st2"
      "fanout_loop st2 us = Inr st'"
    by (auto simp: rbind_eq_Inr_iff)
  from Cons.IH [OF steps(3)] fanout_step_keeps [OF steps(1,2)] show ?case by auto
qed simp

lemma fanout_step_agrees:
  assumes "fanout_value (QueryString (query u) ''fanout'') st = Inr st1"
    and "max_clients_value (if QueryString (query u) ''max_clients'' = []
               then QueryString (query u) ''fanout_max_clients''
               else QueryString (query u) ''max_clients'') st1 = Inr st2"
  shows "fanout_agrees st2 u"
  using assms
  by (auto simp: fanout_value_def max_clients_value_def fanout_agrees_def rbind_eq_Inr_iff
      split: if_splits)

lemma fanout_loop_agrees:
  "fanout_loop st us = Inr st' \<Longrightarrow> \<forall>u \<in> set us. fanout_agrees st' u"
proof (induction us arbitrary: st)
  case (Cons u us)
  from Cons.prems obtain st1 st2 where
    steps: "fanout_value (QueryString (query u) ''fanout'') st = Inr st1"
      "max_clients_value (if QueryString (query u) ''max_clients'' = []
               then QueryString (query u) ''fanout_max_clients''
               else QueryString (query u) ''max_clients'') st1 = Inr st2"
      "fanout_loop st2 us = Inr st'"
    by (auto simp: rbind_eq_Inr_iff)
  from fanout_step_agrees [OF steps(1,2)] fanout_loop_keeps [OF steps(3)]
  have "fanout_agrees st' u" by (auto simp: fanout_agrees_def)
  with Cons.IH [OF steps(3)] show ?case by simp
qed simp

definition group_agrees :: "SRT_GROUP_TYPE option \<Rightarrow> SrtUri \<Rightarrow> bool" where
  "group_agrees sel u \<longleftrightarrow>
     (\<exists>p. ParseBondGroupType (query u) = Inr p \<and> (p = None \<or> p = sel))"

lemma select_group_type_Cons:
  "select_group_type sel (u # us) = Inr sel' \<longleftrightarrow>
     (\<exists>p. ParseBondGroupType (query u) = Inr p \<and> (p = None \<or> sel = None \<or> p = sel) \<and>
        select_group_type (if p = None then sel else p) us = Inr sel')"
  by (auto simp: rbind_eq_Inr_iff split: option.splits if_splits)

lemma select_group_type_agrees:
  "select_group_type sel us = Inr sel' \<Longrightarrow>
   (\<forall>u \<in> set us. group_agrees sel' u) \<and> (sel \<noteq> None \<longrightarrow> sel' = sel)"
proof (induction us arbitrary: sel)
  case (Cons u us)
  from Cons.prems obtain p where p: "ParseBondGroupType (query u) = Inr p"
      "p = None \<or> sel = None \<or> p = sel"
    and rest: "select_group_type (if p = None then sel else p) us = Inr sel'"
    unfolding select_group_type_Cons by blast
  from Cons.IH [OF rest] p show ?case by (auto simp: group_agrees_def split: if_splits)
qed simp

lemma ParseBondGroupType_defined: "ParseBondGroupType q \<noteq> Inr (Some SRT_GTYPE_UNDEFINED)"
  by (simp add: ParseBondGroupType_def Let_def)

lemma select_group_type_defined:
  "select_group_type sel us = Inr sel' \<Longrightarrow> sel \<noteq> Some SRT_GTYPE_UNDEFINED \<Longrightarrow>
   sel' \<noteq> Some SRT_GTYPE_UNDEFINED"
proof (induction us arbitrary: sel)
  case (Cons u us)
  from Cons.prems(1) obtain p where p: "ParseBondGroupType (query u) = Inr p"
    and rest: "select_group_type (if p = None then sel else p) us = Inr sel'"
    unfolding select_group_type_Cons by blast
  from p ParseBondGroupType_defined [of "query u"] Cons.prems(2)
  have "(if p = None then sel else p) \<noteq> Some SRT_GTYPE_UNDEFINED" by auto
  with Cons.IH [OF rest] show ?case .
qed simp

lemma ResolveGroupType_agrees:
  assumes "ResolveGroupType us = Inr gt" and "u \<in> set us"
  shows "group_agrees (Some gt) u"
proof -
  from assms(1) obtain sel where sel: "select_group_type None us = Inr sel"
    and gt: "\<And>s. sel = Some s \<Longrightarrow> s = gt"
    by (auto simp: ResolveGroupType_def rbind_eq_Inr_iff split: option.splits)
  from select_group_type_agrees [OF sel] assms(2) gt show ?thesis
    by (cases sel) (auto simp: group_agrees_def)
qed

lemma ResolveGroupType_multi:
  "ResolveGroupType us = Inr gt \<Longrightarrow> 1 < length us \<Longrightarrow> gt \<noteq> SRT_GTYPE_UNDEFINED"
  by (auto simp: ResolveGroupType_def rbind_eq_Inr_iff dest: select_group_type_defined
      split: option.splits)

section \<open>Well-formed specifications\<close>

definition no_uris :: "('k, 'z) endpoint_spec_scheme \<Rightarrow> bool" where
  "no_uris spec \<longleftrightarrow> uris spec = [] \<and> \<not> bonded spec \<and> group_type spec = SRT_GTYPE_UNDEFINED"

definition srt_uris_ok :: "string \<Rightarrow> string \<Rightarrow> ('k, 'z) endpoint_spec_scheme \<Rightarrow> bool" where
  "srt_uris_ok default_mode mode spec \<longleftrightarrow>
     uris spec \<noteq> [] \<and>
     (\<forall>u \<in> set (uris spec). uri_ok u \<and> resolved_mode default_mode u = mode \<and>
        group_agrees (Some (group_type spec)) u) \<and>
     (bonded spec \<longleftrightarrow> group_type spec \<noteq> SRT_GTYPE_UNDEFINED) \<and>
     (1 < length (uris spec) \<longrightarrow> bonded spec)"

definition wf_input_spec :: "InputEndpointSpec \<Rightarrow> bool" where
  "wf_input_spec spec \<longleftrightarrow>
     (case kind spec of
        InputEndpointKind.kStdin \<Rightarrow> no_uris spec
      | InputEndpointKind.kSrtListener \<Rightarrow> srt_uris_ok ''listener'' ''listener'' spec
      | InputEndpointKind.kSrtCaller \<Rightarrow> srt_uris_ok ''listener'' ''caller'' spec
      | InputEndpointKind.kUdpListener \<Rightarrow> no_uris spec \<and> uri_ok (udp_uri spec)
      | InputEndpointKind.kUdpCaller \<Rightarrow> False)"

definition wf_output_spec :: "OutputEndpointSpec \<Rightarrow> bool" where
  "wf_output_spec spec \<longleftrightarrow>
     1 \<le> listener_max_clients spec \<and> listener_max_clients spec \<le> int kMaxTrackedMembers \<and>
     (\<not> listener_fanout_enabled spec \<longrightarrow> listener_max_clients spec = 1) \<and>
     (case kind spec of
        OutputEndpointKind.kStdout \<Rightarrow> no_uris spec \<and> \<not> listener_fanout_enabled spec
      | OutputEndpointKind.kSrtListener \<Rightarrow> srt_uris_ok ''caller'' ''listener'' spec
      | OutputEndpointKind.kSrtCaller \<Rightarrow>
          srt_uris_ok ''caller'' ''caller'' spec \<and> \<not> listener_fanout_enabled spec \<and>
          (\<forall>u \<in> set (uris spec). \<not> HasOutputListenerFanoutQueryOption (query u))
      | OutputEndpointKind.kUdpCaller \<Rightarrow>
          no_uris spec \<and> uri_ok (udp_uri spec) \<and> \<not> listener_fanout_enabled spec
      | OutputEndpointKind.kUdpListener \<Rightarrow> False)"

lemma set_bonding_ok:
  assumes "ResolveGroupType (uris out) = Inr gt" and "uris out \<noteq> []"
    and "\<forall>u \<in> set (uris out). uri_ok u \<and> resolved_mode d u = mode"
  shows "srt_uris_ok d mode (set_bonding gt out)"
  using assms ResolveGroupType_multi [OF assms(1)]
  by (auto simp: srt_uris_ok_def set_bonding_def Let_def dest: ResolveGroupType_agrees)

lemma set_bonding_frame [simp, frame_simps]:
  "kind (set_bonding gt out) = kind out"
  "uris (set_bonding gt out) = uris out"
  "udp_uri (set_bonding gt out) = udp_uri out"
  by (simp_all add: set_bonding_def Let_def)

lemma set_bonding_out_frame [simp, frame_simps]:
  "listener_fanout_enabled (set_bonding gt out) = listener_fanout_enabled out"
  "listener_max_clients (set_bonding gt out) = listener_max_clients out"
  by (simp_all add: set_bonding_def Let_def)

lemma no_uris_default:
  "no_uris (default_InputEndpointSpec\<lparr>kind := k, udp_uri := u\<rparr>)"
  "no_uris (default_InputEndpointSpec\<lparr>kind := k\<rparr>)"
  "no_uris (default_OutputEndpointSpec\<lparr>kind := l, udp_uri := u\<rparr>)"
  "no_uris (default_OutputEndpointSpec\<lparr>kind := l\<rparr>)"
  by (simp_all add: no_uris_def default_InputEndpointSpec_def default_OutputEndpointSpec_def)

lemma same_mode_iff: "\<not> list_ex (\<lambda>u. f u \<noteq> m) us \<longleftrightarrow> (\<forall>u \<in> set us. f u = m)"
  by (auto simp: list_ex_iff)

lemma input_srt_spec_wf:
  assumes "input_srt_spec uri = Inr spec"
  shows "wf_input_spec spec"
proof -
  from assms obtain us m k gt where us: "ParseSrtUriList uri = Inr us"
    and mode: "\<forall>u \<in> set us. resolved_mode ''listener'' u = m"
    and k: "input_srt_kind m = Inr k"
    and gt: "ResolveGroupType us = Inr gt"
    and spec: "spec = set_bonding gt (default_InputEndpointSpec\<lparr>kind := k, uris := us\<rparr>)"
    unfolding input_srt_spec_def rbind_eq_Inr_iff guard_exn_Inr_iff same_mode_iff sum.inject
    by (elim exE conjE) (rule that, assumption+, erule sym)
  have "srt_uris_ok ''listener'' m spec"
    unfolding spec using gt mode ParseSrtUriList_ok [OF us] by (intro set_bonding_ok) simp_all
  with k show ?thesis
    by (auto simp: wf_input_spec_def input_srt_kind_def spec split: if_splits)
qed

lemma input_udp_spec_wf:
  assumes "input_udp_spec raw = Inr spec"
  shows "wf_input_spec spec"
proof -
  from assms obtain u where "ParseUdpUri (hd raw) = Inr u"
    and spec: "spec = default_InputEndpointSpec\<lparr>kind := InputEndpointKind.kUdpListener, udp_uri := u\<rparr>"
    by (auto simp: input_udp_spec_def rbind_eq_Inr_iff split: if_splits)
  then show ?thesis
    by (simp add: wf_input_spec_def no_uris_default ParseUdpUri_def ParseUri_uri_ok)
qed

lemma ParseInputEndpointSpecFromUri_wf_aux:
  assumes "ParseInputEndpointSpecFromUri uri = Inr spec"
  shows "wf_input_spec spec"
proof (cases "IsStdinInputSpec uri")
  case True
  with assms show ?thesis
    by (auto simp: ParseInputEndpointSpecFromUri_def wf_input_spec_def no_uris_default)
next
  case False
  with assms have "rbind (ParseRawUriList uri) (\<lambda>(scheme, raw).
        if scheme = EndpointScheme.kSrt then input_srt_spec uri else input_udp_spec raw) = Inr spec"
    by (simp only: ParseInputEndpointSpecFromUri_def if_False)
  then obtain scheme raw where
    "(if scheme = EndpointScheme.kSrt then input_srt_spec uri else input_udp_spec raw) = Inr spec"
    unfolding rbind_eq_Inr_iff by (elim exE conjE) (simp only: split: prod.split_asm)
  then have "input_srt_spec uri = Inr spec \<or> input_udp_spec raw = Inr spec"
    by (cases "scheme = EndpointScheme.kSrt") simp_all
  then show ?thesis using input_srt_spec_wf input_udp_spec_wf by blast
qed

lemma default_OutputEndpointSpec_fields [simp]:
  "listener_fanout_enabled default_OutputEndpointSpec = False"
  "listener_max_clients default_OutputEndpointSpec = 1"
  by (simp_all add: default_OutputEndpointSpec_def)

lemma output_srt_kind_ok:
  assumes "output_srt_kind mode us = Inr out"
  shows "uris out = us \<and> 1 \<le> listener_max_clients out \<and>
    listener_max_clients out \<le> int kMaxTrackedMembers \<and>
    (\<not> listener_fanout_enabled out \<longrightarrow> listener_max_clients out = 1) \<and>
    (mode = ''listener'' \<and> kind out = OutputEndpointKind.kSrtListener \<or>
     mode = ''caller'' \<and> kind out = OutputEndpointKind.kSrtCaller \<and>
       \<not> listener_fanout_enabled out \<and>
       (\<forall>u \<in> set us. \<not> HasOutputListenerFanoutQueryOption (query u)))"
  using assms
  by (auto simp: output_srt_kind_def rbind_eq_Inr_iff list_ex_iff kMaxTrackedMembers_def
      dest!: ResolveFanout_bounds split: if_splits)

lemma output_srt_spec_wf:
  assumes "output_srt_spec uri = Inr spec"
  shows "wf_output_spec spec"
proof -
  from assms obtain us m out gt where us: "ParseSrtUriList uri = Inr us"
    and mode: "\<forall>u \<in> set us. resolved_mode ''caller'' u = m"
    and out: "output_srt_kind m us = Inr out"
    and gt: "ResolveGroupType us = Inr gt"
    and spec: "spec = set_bonding gt out"
    unfolding output_srt_spec_def rbind_eq_Inr_iff guard_exn_Inr_iff same_mode_iff sum.inject
    by (elim exE conjE) (rule that, assumption+, erule sym)
  note out = output_srt_kind_ok [OF out]
  have "srt_uris_ok ''caller'' m spec"
    unfolding spec using gt mode ParseSrtUriList_ok [OF us] out by (intro set_bonding_ok) simp_all
  with out show ?thesis by (auto simp: wf_output_spec_def spec)
qed

lemma output_udp_spec_wf:
  assumes "output_udp_spec raw = Inr spec"
  shows "wf_output_spec spec"
proof -
  from assms obtain u where "ParseUdpUri (hd raw) = Inr u"
    and spec: "spec = default_OutputEndpointSpec\<lparr>kind := OutputEndpointKind.kUdpCaller, udp_uri := u\<rparr>"
    by (auto simp: output_udp_spec_def rbind_eq_Inr_iff split: if_splits)
  then show ?thesis
    by (simp add: wf_output_spec_def no_uris_default ParseUdpUri_def ParseUri_uri_ok
        kMaxTrackedMembers_def)
qed

lemma ParseOutputEndpointSpecFromUri_wf_aux:
  assumes "ParseOutputEndpointSpecFromUri uri = Inr spec"
  shows "wf_output_spec spec"
proof (cases "IsStdoutOutputSpec uri")
  case True
  with assms show ?thesis
    by (auto simp: ParseOutputEndpointSpecFromUri_def wf_output_spec_def no_uris_default
        kMaxTrackedMembers_def)
next
  case False
  with assms have "rbind (ParseRawUriList uri) (\<lambda>(scheme, raw).
        if scheme = EndpointScheme.kSrt then output_srt_spec uri else output_udp_spec raw) = Inr spec"
    by (simp only: ParseOutputEndpointSpecFromUri_def if_False)
  then obtain scheme raw where
    "(if scheme = EndpointScheme.kSrt then output_srt_spec uri else output_udp_spec raw) = Inr spec"
    unfolding rbind_eq_Inr_iff by (elim exE conjE) (simp only: split: prod.split_asm)
  then have "output_srt_spec uri = Inr spec \<or> output_udp_spec raw = Inr spec"
    by (cases "scheme = EndpointScheme.kSrt") simp_all
  then show ?thesis using output_srt_spec_wf output_udp_spec_wf by blast
qed

lemma spec_loop_ok:
  "spec_loop parse std msg n us = Inr specs \<Longrightarrow>
   list_all2 (\<lambda>u spec. parse u = Inr spec) us specs \<and>
   (n \<le> 1 \<longrightarrow> n + length (filter (\<lambda>spec. kind spec = std) specs) \<le> 1)"
proof (induction us arbitrary: n specs)
  case (Cons u us)
  from Cons.prems obtain spec rest where
    spec: "parse u = Inr spec" "specs = spec # rest"
    and one: "\<not> (kind spec = std \<and> 1 < (if kind spec = std then Suc n else n))"
    and rest: "spec_loop parse std msg (if kind spec = std then Suc n else n) us = Inr rest"
    by (auto simp: rbind_eq_Inr_iff Let_def)
  from Cons.IH [OF rest] spec one show ?case by (auto split: if_splits)
qed simp

lemma spec_loop_all:
  assumes "spec_loop parse std msg n us = Inr specs"
    and "\<And>u spec. parse u = Inr spec \<Longrightarrow> P spec" and "spec \<in> set specs"
  shows "P spec"
  using spec_loop_ok [OF assms(1)] assms(2,3) by (auto simp: list_all2_conv_all_nth in_set_conv_nth)

lemmas spec_loop_facts = spec_loop_ok [THEN conjunct1, THEN list_all2_lengthD] spec_loop_ok [THEN conjunct2]

section \<open>Properties of the accepted specifications\<close>

text \<open>
  C19. Every accepted input list has one well-formed specification per \<open>--input\<close> value: an SRT
  specification has URIs that agree on mode and group type, and it is bonded exactly when it has a
  group type, always so with two or more URIs; a UDP source is a listener; there is at most one
  stdin source.
\<close>

theorem ParseInputEndpointSpecs_wf:
  assumes "ParseInputEndpointSpecs cfg = Inr specs"
  shows "length specs = length (input_uris cfg) \<and> specs \<noteq> [] \<and> (\<forall>s \<in> set specs. wf_input_spec s) \<and>
    length (filter (\<lambda>s. kind s = InputEndpointKind.kStdin) specs) \<le> 1"
proof -
  from assms have loop: "spec_loop ParseInputEndpointSpecFromUri InputEndpointKind.kStdin
      ''multi-input mode supports at most one stdin source'' 0 (input_uris cfg) = Inr specs"
    and ne: "specs \<noteq> []"
    by (auto simp: ParseInputEndpointSpecs_def rbind_eq_Inr_iff)
  have "wf_input_spec s" if "s \<in> set specs" for s
    using loop ParseInputEndpointSpecFromUri_wf_aux that by (rule spec_loop_all)
  with spec_loop_facts [OF loop] ne show ?thesis by simp
qed

theorem ParseInputEndpointSpecs_wf_witness:
  "\<exists>specs. ParseInputEndpointSpecs (default_Config\<lparr>input_uris := [''srt://:1,srt://:2'', ''-'']\<rparr>) = Inr specs
     \<and> length specs = 2 \<and> (\<forall>s \<in> set specs. wf_input_spec s)"
proof -
  let ?cfg = "default_Config\<lparr>input_uris := [''srt://:1,srt://:2'', ''-'']\<rparr>"
  have "case ParseInputEndpointSpecs ?cfg of Inr _ \<Rightarrow> True | Inl _ \<Rightarrow> False" by code_simp
  then obtain specs where specs: "ParseInputEndpointSpecs ?cfg = Inr specs"
    by (auto split: sum.splits)
  from ParseInputEndpointSpecs_wf [OF specs] specs show ?thesis by simp
qed

text \<open>
  C20. Every accepted output list has one well-formed specification per \<open>--output\<close> value, as for
  inputs; besides, fan-out options appear only with SRT listeners, \<open>max_clients\<close> is within 1..16 and
  it is 1 unless fan-out is on, and there is at most one stdout sink.
\<close>

theorem ParseOutputEndpointSpecs_wf:
  assumes "ParseOutputEndpointSpecs cfg = Inr specs"
  shows "length specs = length (output_uris cfg) \<and> specs \<noteq> [] \<and> (\<forall>s \<in> set specs. wf_output_spec s) \<and>
    length (filter (\<lambda>s. kind s = OutputEndpointKind.kStdout) specs) \<le> 1"
proof -
  from assms have loop: "spec_loop ParseOutputEndpointSpecFromUri OutputEndpointKind.kStdout
      ''multi-output mode supports at most one stdout sink'' 0 (output_uris cfg) = Inr specs"
    and ne: "specs \<noteq> []"
    by (auto simp: ParseOutputEndpointSpecs_def rbind_eq_Inr_iff)
  have "wf_output_spec s" if "s \<in> set specs" for s
    using loop ParseOutputEndpointSpecFromUri_wf_aux that by (rule spec_loop_all)
  with spec_loop_facts [OF loop] ne show ?thesis by simp
qed

theorem ParseOutputEndpointSpecs_wf_witness:
  "\<exists>specs. ParseOutputEndpointSpecs
       (default_Config\<lparr>output_uris := [''srt://:1?mode=listener&fanout=on&max_clients=4'']\<rparr>) = Inr specs
     \<and> length specs = 1 \<and> (\<forall>s \<in> set specs. wf_output_spec s)"
proof -
  let ?cfg = "default_Config\<lparr>output_uris := [''srt://:1?mode=listener&fanout=on&max_clients=4'']\<rparr>"
  have "case ParseOutputEndpointSpecs ?cfg of Inr _ \<Rightarrow> True | Inl _ \<Rightarrow> False" by code_simp
  then obtain specs where specs: "ParseOutputEndpointSpecs ?cfg = Inr specs"
    by (auto split: sum.splits)
  from ParseOutputEndpointSpecs_wf [OF specs] specs show ?thesis by simp
qed

text \<open>
  When the fan-out options of a listener list resolve, every URI that sets \<open>fanout\<close> or
  \<open>max_clients\<close> asks for exactly the resolved value, so no URI of a list is overruled by another.
\<close>

theorem ResolveFanout_agrees:
  assumes "ResolveOutputListenerFanoutOptions us = Inr (on, n)" and "u \<in> set us"
  shows "(QueryString (query u) ''fanout'' \<noteq> [] \<longrightarrow>
            ParseFanoutBoolValue (QueryString (query u) ''fanout'') = Inr on) \<and>
         (QueryString (query u) ''max_clients'' \<noteq> [] \<longrightarrow>
            ParseIntOptionValue (QueryString (query u) ''max_clients'') ''max_clients'' = Inr n)"
proof -
  from assms(1) obtain st where
    loop: "fanout_loop \<lparr>fanout_enabled = False, fanout_seen = False, max_clients = 1,
                          max_clients_seen = False\<rparr> us = Inr st"
    and res: "fanout_enabled st = on" "max_clients st = n"
    by (auto simp: ResolveOutputListenerFanoutOptions_def rbind_eq_Inr_iff split: if_splits)
  from fanout_loop_agrees [OF loop] assms(2) have "fanout_agrees st u" by simp
  then show ?thesis by (simp add: fanout_agrees_def res)
qed

theorem ResolveFanout_agrees_witness:
  "\<exists>on n. ResolveOutputListenerFanoutOptions
       [default_uri\<lparr>query := [''fanout'' \<mapsto> ''on'', ''max_clients'' \<mapsto> ''4'']\<rparr>, default_uri] = Inr (on, n)
     \<and> ParseFanoutBoolValue ''on'' = Inr on \<and> ParseIntOptionValue ''4'' ''max_clients'' = Inr n"
proof -
  let ?u = "default_uri\<lparr>query := [''fanout'' \<mapsto> ''on'', ''max_clients'' \<mapsto> ''4'']\<rparr>"
  have "case ResolveOutputListenerFanoutOptions [?u, default_uri] of Inr _ \<Rightarrow> True | Inl _ \<Rightarrow> False"
    by code_simp
  then obtain on n where r: "ResolveOutputListenerFanoutOptions [?u, default_uri] = Inr (on, n)"
    by (auto split: sum.splits)
  from ResolveFanout_agrees [OF r, of ?u] r show ?thesis by (simp add: QueryString_def)
qed

end
