(* ===== verification/LinkSlots.thy ===== *)
theory LinkSlots
  imports EndpointSpecs
begin

text \<open>
  The link-slot table (\<open>src/include/srtrelay/metrics.hpp\<close>, \<open>src/src/metrics_link_slots.cpp\<close>): sixteen
  slots per side remember the members of a bonded group across snapshots by an identity key. The
  operations record a snapshot, clear the table, mark its links disconnected, compact it and print
  its status. \<open>srt_getsockname\<close> and \<open>inet_ntop\<close> are parameters. The fixed arrays are lists of sixteen;
  a slot of the output side is the record \<open>TrackedSlot\<close> and one of the input side extends it.
\<close>

section \<open>Group members as libsrt reports them\<close>

text \<open>
  The enumerators the program names; \<open>int\<close> values libsrt may add are the last constructor.
\<close>

datatype SRT_SOCKSTATUS =
    SRTS_INIT | SRTS_OPENED | SRTS_LISTENING | SRTS_CONNECTING | SRTS_CONNECTED
  | SRTS_BROKEN | SRTS_CLOSING | SRTS_CLOSED | SRTS_NONEXIST | sockstatus_other int

datatype SRT_MEMBERSTATUS =
    SRT_GST_PENDING | SRT_GST_IDLE | SRT_GST_RUNNING | SRT_GST_BROKEN | memberstatus_other int

text \<open>An address: its bytes in network order and the port in host order, or another family.\<close>

datatype sockaddr_storage =
    AF_INET "byte list" u16
  | AF_INET6 "byte list" u16
  | AF_OTHER

definition SRT_INVALID_SOCK :: int where "SRT_INVALID_SOCK = -1"

record SRT_SOCKGROUPDATA =
  socket_id :: int
  peeraddr :: sockaddr_storage
  sockstate :: SRT_SOCKSTATUS
  memberstate :: SRT_MEMBERSTATUS
  token :: "32 word"

datatype LinkSide = kInput | kOutput

text \<open>What the slot table asks the libraries.\<close>

record link_env =
  srt_getsockname :: "int \<Rightarrow> sockaddr_storage option"
  inet_ntop :: "sockaddr_storage \<Rightarrow> string option"

definition IsConnectedGroupMember :: "SRT_SOCKGROUPDATA \<Rightarrow> bool" where
  "IsConnectedGroupMember member \<longleftrightarrow>
     memberstate member = SRT_GST_RUNNING \<or> sockstate member = SRTS_CONNECTED"

fun TryExtractEndpoint :: "'e link_env_scheme \<Rightarrow> sockaddr_storage \<Rightarrow> (string \<times> int) option" where
  "TryExtractEndpoint env (AF_INET a p) =
     (case inet_ntop env (AF_INET a p) of None \<Rightarrow> None | Some h \<Rightarrow> Some (h, uint p))"
| "TryExtractEndpoint env (AF_INET6 a p) =
     (case inet_ntop env (AF_INET6 a p) of None \<Rightarrow> None | Some h \<Rightarrow> Some (h, uint p))"
| "TryExtractEndpoint env AF_OTHER = None"

section \<open>Identity keys\<close>

definition fnv_seed :: u64 where "fnv_seed = 1469598103934665603"
definition fnv_prime :: u64 where "fnv_prime = 1099511628211"

definition HashBytesFnv1a64 :: "byte list \<Rightarrow> u64 \<Rightarrow> u64" where
  "HashBytesFnv1a64 bytes seed = foldl (\<lambda>h b. (h XOR ucast b) * fnv_prime) seed bytes"

text \<open>The bytes of an integer in memory, least significant first.\<close>

definition u16_bytes :: "u16 \<Rightarrow> byte list" where
  "u16_bytes p = [ucast p, ucast (drop_bit 8 p)]"

definition u32_bytes :: "32 word \<Rightarrow> byte list" where
  "u32_bytes t = [ucast t, ucast (drop_bit 8 t), ucast (drop_bit 16 t), ucast (drop_bit 24 t)]"

fun TryHashSockaddrEndpoint :: "sockaddr_storage \<Rightarrow> u64 option" where
  "TryHashSockaddrEndpoint (AF_INET a p) =
     Some (HashBytesFnv1a64 (u16_bytes p) (HashBytesFnv1a64 a fnv_seed))"
| "TryHashSockaddrEndpoint (AF_INET6 a p) =
     Some (HashBytesFnv1a64 (u16_bytes p) (HashBytesFnv1a64 a fnv_seed))"
| "TryHashSockaddrEndpoint AF_OTHER = None"

definition TryReadSocketLocalAddress :: "'e link_env_scheme \<Rightarrow> int \<Rightarrow> sockaddr_storage option" where
  "TryReadSocketLocalAddress env sock =
     (if sock = SRT_INVALID_SOCK \<or> sock = 0 then None else srt_getsockname env sock)"

definition MemberIdentityKey :: "'e link_env_scheme \<Rightarrow> LinkSide \<Rightarrow> SRT_SOCKGROUPDATA \<Rightarrow> u64" where
  "MemberIdentityKey env side member =
     (case (if side = LinkSide.kInput
            then Option.bind (TryReadSocketLocalAddress env (socket_id member)) TryHashSockaddrEndpoint
            else None) of
        Some h \<Rightarrow> h
      | None \<Rightarrow>
          (case TryHashSockaddrEndpoint (peeraddr member) of
             Some h \<Rightarrow> h
           | None \<Rightarrow>
               if token member \<noteq> 0 then HashBytesFnv1a64 (u32_bytes (token member)) fnv_seed else 0))"

section \<open>The slots\<close>

record TrackedSlot =
  member_id :: int
  member_connected :: int
  member_identity_key :: u64
  member_sock_state :: SRT_SOCKSTATUS
  member_group_state :: SRT_MEMBERSTATUS
  member_peer_port :: int
  member_peer_host :: string
  member_status_last_logged :: int
  member_connected_last_logged :: int
  link_rx_bytes_total :: u64
  link_tx_bytes_total :: u64
  link_rx_bytes_current :: u64
  link_tx_bytes_current :: u64
  link_rx_bytes_last :: u64
  link_tx_bytes_last :: u64
  link_rtt_ms :: int

type_synonym OutputTrackedSlot = TrackedSlot

record InputTrackedSlot = TrackedSlot +
  link_packet_belated_total :: u64
  link_packet_belated_current :: u64
  link_packet_belated_last :: u64

definition default_OutputTrackedSlot :: OutputTrackedSlot where
  "default_OutputTrackedSlot =
     \<lparr>member_id = SRT_INVALID_SOCK, member_connected = 0, member_identity_key = 0,
      member_sock_state = SRTS_NONEXIST, member_group_state = SRT_GST_IDLE, member_peer_port = 0,
      member_peer_host = [], member_status_last_logged = -1, member_connected_last_logged = -1,
      link_rx_bytes_total = 0, link_tx_bytes_total = 0, link_rx_bytes_current = 0,
      link_tx_bytes_current = 0, link_rx_bytes_last = 0, link_tx_bytes_last = 0, link_rtt_ms = -1\<rparr>"

definition default_InputTrackedSlot :: InputTrackedSlot where
  "default_InputTrackedSlot =
     TrackedSlot.extend default_OutputTrackedSlot
       (InputTrackedSlot.fields 0 0 0)"

text \<open>The part of \<open>MetricsState\<close> the link slots use.\<close>

record LinkMetrics =
  input_links_total :: int
  input_links_healthy :: int
  input_links_running :: int
  input_links_snapshot_count :: int
  output_links_total :: int
  output_links_healthy :: int
  output_links_running :: int
  output_links_snapshot_count :: int
  input_tracked :: "InputTrackedSlot list"
  output_tracked :: "OutputTrackedSlot list"
  auto_compact_state :: "int list"

definition SnapshotCountCapped :: "LinkSide \<Rightarrow> 'm LinkMetrics_scheme \<Rightarrow> nat" where
  "SnapshotCountCapped side m =
     (let count = (if side = LinkSide.kInput then input_links_snapshot_count m
                   else output_links_snapshot_count m)
      in min (nat (if count < 0 then 0 else count)) kMaxTrackedMembers)"

section \<open>Traffic counters and the compacted part of a slot\<close>

definition reset_traffic :: "'z TrackedSlot_scheme \<Rightarrow> 'z TrackedSlot_scheme" where
  "reset_traffic s =
     s\<lparr>link_rx_bytes_current := 0, link_tx_bytes_current := 0, link_rx_bytes_last := 0,
       link_tx_bytes_last := 0, link_rx_bytes_total := 0, link_tx_bytes_total := 0\<rparr>"

text \<open>\<open>ResetTrafficCountersForSlot\<close> on a slot of either side.\<close>

definition reset_output_slot :: "OutputTrackedSlot \<Rightarrow> OutputTrackedSlot" where
  "reset_output_slot s = reset_traffic s"

definition reset_input_slot :: "InputTrackedSlot \<Rightarrow> InputTrackedSlot" where
  "reset_input_slot s =
     (reset_traffic s)\<lparr>link_packet_belated_current := 0, link_packet_belated_last := 0,
                       link_packet_belated_total := 0\<rparr>"

record CompactionSlotState =
  cs_member_id :: int
  cs_member_connected :: int
  cs_member_identity :: u64
  cs_rx_total :: u64
  cs_tx_total :: u64
  cs_rx_current :: u64
  cs_tx_current :: u64
  cs_rx_last :: u64
  cs_tx_last :: u64
  cs_belated_total :: u64
  cs_belated_current :: u64
  cs_belated_last :: u64
  cs_rtt_ms :: int

definition default_CompactionSlotState :: CompactionSlotState where
  "default_CompactionSlotState =
     \<lparr>cs_member_id = SRT_INVALID_SOCK, cs_member_connected = 0, cs_member_identity = 0,
      cs_rx_total = 0, cs_tx_total = 0, cs_rx_current = 0, cs_tx_current = 0, cs_rx_last = 0,
      cs_tx_last = 0, cs_belated_total = 0, cs_belated_current = 0, cs_belated_last = 0,
      cs_rtt_ms = -1\<rparr>"

definition read_compaction_common :: "'z TrackedSlot_scheme \<Rightarrow> CompactionSlotState" where
  "read_compaction_common s =
     default_CompactionSlotState
       \<lparr>cs_member_id := member_id s, cs_member_connected := member_connected s,
        cs_member_identity := member_identity_key s, cs_rx_total := link_rx_bytes_total s,
        cs_tx_total := link_tx_bytes_total s, cs_rx_current := link_rx_bytes_current s,
        cs_tx_current := link_tx_bytes_current s, cs_rx_last := link_rx_bytes_last s,
        cs_tx_last := link_tx_bytes_last s, cs_rtt_ms := link_rtt_ms s\<rparr>"

definition write_compaction_common ::
  "CompactionSlotState \<Rightarrow> 'z TrackedSlot_scheme \<Rightarrow> 'z TrackedSlot_scheme" where
  "write_compaction_common st s =
     s\<lparr>member_id := cs_member_id st, member_connected := cs_member_connected st,
       member_identity_key := cs_member_identity st, link_rx_bytes_total := cs_rx_total st,
       link_tx_bytes_total := cs_tx_total st, link_rx_bytes_current := cs_rx_current st,
       link_tx_bytes_current := cs_tx_current st, link_rx_bytes_last := cs_rx_last st,
       link_tx_bytes_last := cs_tx_last st, link_rtt_ms := cs_rtt_ms st\<rparr>"

definition read_output_compaction :: "OutputTrackedSlot \<Rightarrow> CompactionSlotState" where
  "read_output_compaction s = read_compaction_common s"

definition write_output_compaction ::
  "CompactionSlotState \<Rightarrow> OutputTrackedSlot \<Rightarrow> OutputTrackedSlot" where
  "write_output_compaction st s = write_compaction_common st s"

definition read_input_compaction :: "InputTrackedSlot \<Rightarrow> CompactionSlotState" where
  "read_input_compaction s =
     (read_compaction_common s)
       \<lparr>cs_belated_total := link_packet_belated_total s,
        cs_belated_current := link_packet_belated_current s,
        cs_belated_last := link_packet_belated_last s\<rparr>"

definition write_input_compaction ::
  "CompactionSlotState \<Rightarrow> InputTrackedSlot \<Rightarrow> InputTrackedSlot" where
  "write_input_compaction st s =
     (write_compaction_common st s)
       \<lparr>link_packet_belated_total := cs_belated_total st,
        link_packet_belated_current := cs_belated_current st,
        link_packet_belated_last := cs_belated_last st\<rparr>"

section \<open>Recording a snapshot\<close>

record SnapshotSlotState =
  ss_id :: int
  ss_connected :: int
  ss_identity_key :: u64
  ss_sock_state :: SRT_SOCKSTATUS
  ss_group_state :: SRT_MEMBERSTATUS
  ss_peer_port :: int
  ss_peer_host :: string

definition read_snapshot_slot :: "'z TrackedSlot_scheme \<Rightarrow> SnapshotSlotState" where
  "read_snapshot_slot s =
     \<lparr>ss_id = member_id s, ss_connected = member_connected s,
      ss_identity_key = member_identity_key s, ss_sock_state = member_sock_state s,
      ss_group_state = member_group_state s, ss_peer_port = member_peer_port s,
      ss_peer_host = member_peer_host s\<rparr>"

definition write_snapshot_slot ::
  "SnapshotSlotState \<Rightarrow> 'z TrackedSlot_scheme \<Rightarrow> 'z TrackedSlot_scheme" where
  "write_snapshot_slot st s =
     s\<lparr>member_id := ss_id st, member_connected := ss_connected st,
       member_identity_key := ss_identity_key st, member_sock_state := ss_sock_state st,
       member_group_state := ss_group_state st, member_peer_port := ss_peer_port st,
       member_peer_host := ss_peer_host st\<rparr>"

definition ReadSnapshotSlots :: "'z TrackedSlot_scheme list \<Rightarrow> SnapshotSlotState list" where
  "ReadSnapshotSlots tracked = map read_snapshot_slot tracked"

text \<open>The slots written back and the span: one more than the last slot with an identity.\<close>

definition WriteSnapshotSlots ::
  "SnapshotSlotState list \<Rightarrow> 'z TrackedSlot_scheme list \<Rightarrow> 'z TrackedSlot_scheme list \<times> nat" where
  "WriteSnapshotSlots slots tracked =
     (map2 write_snapshot_slot slots tracked,
      foldl (\<lambda>span i. if ss_identity_key (slots ! i) \<noteq> 0 then i + 1 else span) 0
        [0..<kMaxTrackedMembers])"

text \<open>
  \<open>slot_used\<close> and \<open>member_slot\<close> while members are given slots. The source's \<open>-1\<close> in
  \<open>member_slot\<close> is \<open>None\<close>; \<open>matched[i]\<close> is set exactly when \<open>member_slot[i]\<close> is.
\<close>

record assignment =
  slot_used :: "bool list"
  member_slot :: "nat option list"

definition no_assignment :: "nat \<Rightarrow> assignment" where
  "no_assignment n =
     \<lparr>slot_used = replicate kMaxTrackedMembers False, member_slot = replicate n None\<rparr>"

definition first_slot :: "(nat \<Rightarrow> bool) \<Rightarrow> assignment \<Rightarrow> nat option" where
  "first_slot ok a = find (\<lambda>slot. \<not> slot_used a ! slot \<and> ok slot) [0..<kMaxTrackedMembers]"

definition take_slot :: "nat \<Rightarrow> nat \<Rightarrow> assignment \<Rightarrow> assignment" where
  "take_slot i slot a =
     a\<lparr>slot_used := (slot_used a)[slot := True], member_slot := (member_slot a)[i := Some slot]\<rparr>"

text \<open>One iteration of an assignment loop: a member without a slot takes the first free one allowed.\<close>

definition assign_step :: "(nat \<Rightarrow> nat \<Rightarrow> bool) \<Rightarrow> assignment \<Rightarrow> nat \<Rightarrow> assignment" where
  "assign_step ok a i =
     (if member_slot a ! i \<noteq> None then a
      else (case first_slot (ok i) a of None \<Rightarrow> a | Some slot \<Rightarrow> take_slot i slot a))"

text \<open>First loop: a slot that holds the member's identity. Second: a slot without identity.\<close>

definition match_identity :: "SnapshotSlotState list \<Rightarrow> u64 list \<Rightarrow> assignment \<Rightarrow> assignment" where
  "match_identity slots keys a =
     foldl (assign_step (\<lambda>i slot. keys ! i \<noteq> 0 \<and> ss_identity_key (slots ! slot) = keys ! i)) a
       [0..<length keys]"

definition match_empty :: "SnapshotSlotState list \<Rightarrow> nat \<Rightarrow> assignment \<Rightarrow> assignment" where
  "match_empty slots n a =
     foldl (assign_step (\<lambda>i slot. ss_identity_key (slots ! slot) = 0)) a [0..<n]"

text \<open>Third loop: any slot not taken; what it remembered is dropped with its traffic counters.\<close>

definition evict_slot :: "SnapshotSlotState \<Rightarrow> SnapshotSlotState" where
  "evict_slot st = st\<lparr>ss_id := SRT_INVALID_SOCK, ss_connected := 0, ss_identity_key := 0\<rparr>"

definition evict_step ::
  "('z TrackedSlot_scheme \<Rightarrow> 'z TrackedSlot_scheme)
     \<Rightarrow> assignment \<times> SnapshotSlotState list \<times> 'z TrackedSlot_scheme list \<Rightarrow> nat
     \<Rightarrow> assignment \<times> SnapshotSlotState list \<times> 'z TrackedSlot_scheme list" where
  "evict_step reset st i =
     (case st of (a, slots, tracked) \<Rightarrow>
        if member_slot a ! i \<noteq> None then st
        else (case first_slot (\<lambda>_. True) a of
                None \<Rightarrow> st
              | Some slot \<Rightarrow>
                  (take_slot i slot a, slots[slot := evict_slot (slots ! slot)],
                   tracked[slot := reset (tracked ! slot)])))"

definition fill_slot ::
  "'e link_env_scheme \<Rightarrow> u64 \<Rightarrow> SRT_SOCKGROUPDATA \<Rightarrow> SnapshotSlotState \<Rightarrow> SnapshotSlotState" where
  "fill_slot env key member st =
     (let (h, p) = (case TryExtractEndpoint env (peeraddr member) of
                      Some hp \<Rightarrow> hp | None \<Rightarrow> ([], 0))
      in st\<lparr>ss_id := socket_id member,
            ss_connected := (if IsConnectedGroupMember member then 1 else 0),
            ss_sock_state := sockstate member, ss_group_state := memberstate member,
            ss_peer_host := h, ss_peer_port := p,
            ss_identity_key := (if key = 0 then ss_identity_key st else key)\<rparr>)"

definition fill_step ::
  "'e link_env_scheme \<Rightarrow> u64 list \<Rightarrow> SRT_SOCKGROUPDATA list \<Rightarrow> nat option list
     \<Rightarrow> SnapshotSlotState list \<times> bool list \<Rightarrow> nat \<Rightarrow> SnapshotSlotState list \<times> bool list" where
  "fill_step env keys members ms st i =
     (case st of (slots, matched_slot) \<Rightarrow>
        (case ms ! i of
           None \<Rightarrow> st
         | Some slot \<Rightarrow>
             (slots[slot := fill_slot env (keys ! i) (members ! i) (slots ! slot)],
              matched_slot[slot := True])))"

definition clear_unmatched :: "bool \<Rightarrow> SnapshotSlotState \<Rightarrow> SnapshotSlotState" where
  "clear_unmatched is_matched st =
     (if is_matched then st
      else if ss_identity_key st = 0 then
        st\<lparr>ss_id := SRT_INVALID_SOCK, ss_connected := 0, ss_sock_state := SRTS_NONEXIST,
           ss_group_state := SRT_GST_IDLE, ss_peer_host := [], ss_peer_port := 0\<rparr>
      else st\<lparr>ss_id := SRT_INVALID_SOCK, ss_connected := 0\<rparr>)"

text \<open>
  The body of \<open>SaveMemberSnapshot\<close> for one side: the slots afterwards and the span.
\<close>

definition snapshot_slots ::
  "('z TrackedSlot_scheme \<Rightarrow> 'z TrackedSlot_scheme) \<Rightarrow> 'e link_env_scheme \<Rightarrow> LinkSide
     \<Rightarrow> SRT_SOCKGROUPDATA list \<Rightarrow> 'z TrackedSlot_scheme list \<Rightarrow> 'z TrackedSlot_scheme list \<times> nat" where
  "snapshot_slots reset env side members tracked =
     (let slots = ReadSnapshotSlots tracked;
          keys = map (MemberIdentityKey env side) members;
          n = length members;
          a = match_empty slots n (match_identity slots keys (no_assignment n));
          (a', slots', tracked') = foldl (evict_step reset) (a, slots, tracked) [0..<n];
          (filled, matched_slot) =
            foldl (fill_step env keys members (member_slot a'))
              (slots', replicate kMaxTrackedMembers False) [0..<n]
      in WriteSnapshotSlots (map2 clear_unmatched matched_slot filled) tracked')"

definition SaveMemberSnapshot ::
  "'e link_env_scheme \<Rightarrow> LinkSide \<Rightarrow> SRT_SOCKGROUPDATA list
     \<Rightarrow> 'm LinkMetrics_scheme \<Rightarrow> 'm LinkMetrics_scheme" where
  "SaveMemberSnapshot env side group_members m =
     (case side of
        LinkSide.kInput \<Rightarrow>
          (case snapshot_slots reset_input_slot env side group_members (input_tracked m) of
             (tracked, span) \<Rightarrow>
               m\<lparr>input_tracked := tracked, input_links_snapshot_count := int span\<rparr>)
      | LinkSide.kOutput \<Rightarrow>
          (case snapshot_slots reset_output_slot env side group_members (output_tracked m) of
             (tracked, span) \<Rightarrow>
               m\<lparr>output_tracked := tracked, output_links_snapshot_count := int span\<rparr>))"

section \<open>Clearing and marking\<close>

definition clear_slot ::
  "('z TrackedSlot_scheme \<Rightarrow> 'z TrackedSlot_scheme)
     \<Rightarrow> 'z TrackedSlot_scheme \<Rightarrow> 'z TrackedSlot_scheme" where
  "clear_slot reset s =
     (if member_identity_key s = 0 then s
      else reset (s\<lparr>member_connected := 0, member_id := SRT_INVALID_SOCK, member_identity_key := 0,
                     member_sock_state := SRTS_NONEXIST, member_group_state := SRT_GST_IDLE,
                     member_peer_port := 0, member_peer_host := []\<rparr>))"

definition ClearTrackedMembersForDisconnectedSocket ::
  "LinkSide \<Rightarrow> 'm LinkMetrics_scheme \<Rightarrow> 'm LinkMetrics_scheme" where
  "ClearTrackedMembersForDisconnectedSocket side m =
     (case side of
        LinkSide.kInput \<Rightarrow>
          m\<lparr>input_tracked := map (clear_slot reset_input_slot) (input_tracked m),
            input_links_snapshot_count := 0\<rparr>
      | LinkSide.kOutput \<Rightarrow>
          m\<lparr>output_tracked := map (clear_slot reset_output_slot) (output_tracked m),
            output_links_snapshot_count := 0\<rparr>)"

definition mark_disconnected :: "'z TrackedSlot_scheme \<Rightarrow> 'z TrackedSlot_scheme" where
  "mark_disconnected s = (if member_identity_key s = 0 then s else s\<lparr>member_connected := 0\<rparr>)"

definition mark_prefix :: "nat \<Rightarrow> 'z TrackedSlot_scheme list \<Rightarrow> 'z TrackedSlot_scheme list" where
  "mark_prefix capped tracked = map mark_disconnected (take capped tracked) @ drop capped tracked"

definition MarkAllTrackedLinksDisconnected ::
  "LinkSide \<Rightarrow> 'm LinkMetrics_scheme \<Rightarrow> 'm LinkMetrics_scheme" where
  "MarkAllTrackedLinksDisconnected side m =
     (case side of
        LinkSide.kInput \<Rightarrow>
          m\<lparr>input_tracked := mark_prefix (SnapshotCountCapped side m) (input_tracked m)\<rparr>
      | LinkSide.kOutput \<Rightarrow>
          m\<lparr>output_tracked := mark_prefix (SnapshotCountCapped side m) (output_tracked m)\<rparr>)"

section \<open>Compaction\<close>

record CompactResult =
  before_slots :: nat
  after_slots :: nat
  moved :: nat
  dropped :: nat

definition default_CompactResult :: CompactResult where
  "default_CompactResult = \<lparr>before_slots = 0, after_slots = 0, moved = 0, dropped = 0\<rparr>"

text \<open>A slot that remembers a member, and one whose member is connected over a valid socket.\<close>

definition tracks :: "'z TrackedSlot_scheme \<Rightarrow> bool" where
  "tracks s \<longleftrightarrow> member_identity_key s \<noteq> 0"

definition live :: "'z TrackedSlot_scheme \<Rightarrow> bool" where
  "live s \<longleftrightarrow>
     tracks s \<and> member_connected s = 1 \<and> member_id s \<noteq> SRT_INVALID_SOCK \<and> member_id s \<noteq> 0"

definition keep_slots :: "'z TrackedSlot_scheme list \<Rightarrow> nat list" where
  "keep_slots tracked = filter (\<lambda>i. live (tracked ! i)) [0..<kMaxTrackedMembers]"

definition compact_slots ::
  "('z TrackedSlot_scheme \<Rightarrow> CompactionSlotState)
     \<Rightarrow> (CompactionSlotState \<Rightarrow> 'z TrackedSlot_scheme \<Rightarrow> 'z TrackedSlot_scheme)
     \<Rightarrow> 'z TrackedSlot_scheme list \<Rightarrow> 'z TrackedSlot_scheme list \<times> CompactResult" where
  "compact_slots rd wr tracked =
     (let keep = keep_slots tracked;
          slots_before = length (filter (\<lambda>i. tracks (tracked ! i)) [0..<kMaxTrackedMembers]);
          compacted = map (\<lambda>dst. if dst < length keep then rd (tracked ! (keep ! dst))
                                 else default_CompactionSlotState) [0..<kMaxTrackedMembers]
      in (map2 wr compacted tracked,
          \<lparr>before_slots = slots_before, after_slots = length keep,
           moved = length (filter (\<lambda>dst. keep ! dst \<noteq> dst) [0..<length keep]),
           dropped = slots_before - length keep\<rparr>))"

definition CompactSlotsLocked ::
  "LinkSide \<Rightarrow> 'm LinkMetrics_scheme \<Rightarrow> 'm LinkMetrics_scheme \<times> CompactResult" where
  "CompactSlotsLocked side m =
     (case side of
        LinkSide.kInput \<Rightarrow>
          (case compact_slots read_input_compaction write_input_compaction (input_tracked m) of
             (tracked, r) \<Rightarrow>
               (m\<lparr>input_tracked := tracked, input_links_snapshot_count := int (after_slots r)\<rparr>, r))
      | LinkSide.kOutput \<Rightarrow>
          (case compact_slots read_output_compaction write_output_compaction (output_tracked m) of
             (tracked, r) \<Rightarrow>
               (m\<lparr>output_tracked := tracked, output_links_snapshot_count := int (after_slots r)\<rparr>, r)))"

section \<open>The status line\<close>

definition slot_status :: "nat \<Rightarrow> 'z TrackedSlot_scheme \<Rightarrow> string" where
  "slot_status i s =
     ''slot'' @ show_nat (i + 1) @ ''[socket='' @ show_int (member_id s) @ '',state='' @
     (if member_connected s = 1 then ''up'' else ''down'') @ '']''"

fun join_with :: "string \<Rightarrow> string list \<Rightarrow> string" where
  "join_with sep [] = []"
| "join_with sep [x] = x"
| "join_with sep (x # y # ys) = x @ sep @ join_with sep (y # ys)"

definition status_of :: "nat \<Rightarrow> 'z TrackedSlot_scheme list \<Rightarrow> string" where
  "status_of capped tracked =
     join_with '','' (map (\<lambda>i. slot_status i (tracked ! i))
       (filter (\<lambda>i. tracks (tracked ! i)) [0..<capped]))"

definition BuildLinkStatusCompact :: "LinkSide \<Rightarrow> 'm LinkMetrics_scheme \<Rightarrow> string" where
  "BuildLinkStatusCompact side m =
     (case side of
        LinkSide.kInput \<Rightarrow> status_of (SnapshotCountCapped side m) (input_tracked m)
      | LinkSide.kOutput \<Rightarrow> status_of (SnapshotCountCapped side m) (output_tracked m))"

section \<open>The interface of a side\<close>

text \<open>
  What the slot operations need of the two kinds of slots: resetting the traffic counters leaves
  the identity, the state and the peer of a slot alone, and compaction moves exactly the state
  it reads.
\<close>

locale slot_kind =
  fixes reset :: "'z TrackedSlot_scheme \<Rightarrow> 'z TrackedSlot_scheme"
    and rd :: "'z TrackedSlot_scheme \<Rightarrow> CompactionSlotState"
    and wr :: "CompactionSlotState \<Rightarrow> 'z TrackedSlot_scheme \<Rightarrow> 'z TrackedSlot_scheme"
    and wf :: "CompactionSlotState \<Rightarrow> bool"
  assumes reset_read: "read_snapshot_slot (reset s) = read_snapshot_slot s"
    and rd_wf: "wf (rd s)"
    and default_wf: "wf default_CompactionSlotState"
    and rd_wr: "wf st \<Longrightarrow> rd (wr st s) = st"
    and rd_fields: "cs_member_id (rd s) = member_id s" "cs_member_connected (rd s) = member_connected s"
      "cs_member_identity (rd s) = member_identity_key s"
    and rd_reset: "rd (reset s) = default_CompactionSlotState
      \<lparr>cs_member_id := member_id s, cs_member_connected := member_connected s,
       cs_member_identity := member_identity_key s, cs_rtt_ms := link_rtt_ms s\<rparr>"
    and rd_write_snapshot: "rd (write_snapshot_slot st' s) = (rd s)
      \<lparr>cs_member_id := ss_id st', cs_member_connected := ss_connected st',
       cs_member_identity := ss_identity_key st'\<rparr>"
    and wr_peer: "member_peer_host (wr st s) = member_peer_host s"
      "member_peer_port (wr st s) = member_peer_port s"
      "member_sock_state (wr st s) = member_sock_state s"
      "member_group_state (wr st s) = member_group_state s"
    and wr_logged: "member_status_last_logged (wr st s) = member_status_last_logged s"
      "member_connected_last_logged (wr st s) = member_connected_last_logged s"

definition no_belated :: "CompactionSlotState \<Rightarrow> bool" where
  "no_belated st \<longleftrightarrow>
     cs_belated_total st = 0 \<and> cs_belated_current st = 0 \<and> cs_belated_last st = 0"

lemmas slot_defs =
  reset_traffic_def reset_output_slot_def reset_input_slot_def default_CompactionSlotState_def
  read_compaction_common_def write_compaction_common_def read_output_compaction_def
  write_output_compaction_def read_input_compaction_def write_input_compaction_def
  read_snapshot_slot_def write_snapshot_slot_def

interpretation output_slot: slot_kind reset_output_slot read_output_compaction
  write_output_compaction no_belated
  by unfold_locales (simp_all add: slot_defs no_belated_def)

interpretation input_slot: slot_kind reset_input_slot read_input_compaction
  write_input_compaction "\<lambda>_. True"
  by unfold_locales (simp_all add: slot_defs)

section \<open>Compaction is a filter\<close>

definition cs_tracks :: "CompactionSlotState \<Rightarrow> bool" where
  "cs_tracks st \<longleftrightarrow> cs_member_identity st \<noteq> 0"

definition cs_live :: "CompactionSlotState \<Rightarrow> bool" where
  "cs_live st \<longleftrightarrow> cs_tracks st \<and> cs_member_connected st = 1 \<and>
     cs_member_id st \<noteq> SRT_INVALID_SOCK \<and> cs_member_id st \<noteq> 0"

lemma cs_live_default [simp]:
  "\<not> cs_live default_CompactionSlotState" "\<not> cs_tracks default_CompactionSlotState"
  by (simp_all add: cs_live_def cs_tracks_def default_CompactionSlotState_def)

lemma cs_live_tracks: "cs_live st \<Longrightarrow> cs_tracks st"
  by (simp add: cs_live_def)

lemma length_filter_mono: "(\<And>x. P x \<Longrightarrow> Q x) \<Longrightarrow> length (filter P xs) \<le> length (filter Q xs)"
  by (induction xs) auto

lemma map_nth_filter:
  "map ((!) xs) (filter (\<lambda>i. P (xs ! i)) [0..<length xs]) = filter P xs"
  using filter_map [of P "(!) xs" "[0..<length xs]"] by (simp add: map_nth comp_def)

lemma length_filter_nth:
  "length (filter (\<lambda>i. P (xs ! i)) [0..<length xs]) = length (filter P xs)"
  using arg_cong [OF map_nth_filter [of xs P], of length] by simp

lemma length_keep_slots:
  "length tracked = kMaxTrackedMembers \<Longrightarrow> length (keep_slots tracked) = length (filter live tracked)"
  using length_filter_nth [of live tracked] by (simp add: keep_slots_def)

lemma keep_slots_nth:
  assumes "length tracked = kMaxTrackedMembers" and "dst < length (filter live tracked)"
  shows "tracked ! (keep_slots tracked ! dst) = filter live tracked ! dst"
proof -
  have "map ((!) tracked) (keep_slots tracked) = filter live tracked"
    using map_nth_filter [of tracked live] assms(1) by (simp add: keep_slots_def)
  with assms length_keep_slots [OF assms(1)] show ?thesis by (metis nth_map)
qed

lemma map_prefix_fill:
  assumes "k \<le> n"
  shows "map (\<lambda>i. if i < k then f i else d) [0..<n] = map f [0..<k] @ replicate (n - k) d"
proof (rule nth_equalityI)
  show "length (map (\<lambda>i. if i < k then f i else d) [0..<n]) = length (map f [0..<k] @ replicate (n - k) d)"
    using assms by simp
qed (use assms in \<open>auto simp: nth_append\<close>)

text \<open>
  The positions of the kept elements of a list that do not stay where they are: the kept elements
  behind the first one that is not kept.
\<close>

lemma moved_positions:
  defines "pos xs P \<equiv> filter (\<lambda>i. P (xs ! i)) [0..<length xs]"
  shows "length (filter (\<lambda>dst. pos xs P ! dst \<noteq> dst) [0..<length (pos xs P)])
    = length (filter P (dropWhile P xs))"
proof (induction xs rule: rev_induct)
  case (snoc x xs)
  have len: "length (pos xs P) = length (filter P xs)"
    unfolding pos_def by (rule length_filter_nth)
  have pos: "pos (xs @ [x]) P = pos xs P @ (if P x then [length xs] else [])"
    by (auto simp: pos_def nth_append intro: filter_cong)
  have all: "length (filter P xs) = length xs \<longleftrightarrow> (\<forall>y \<in> set xs. P y)"
    by (metis filter_id_conv length_filter_less nat_less_le)
  have "filter (\<lambda>dst. (pos xs P @ ys) ! dst \<noteq> dst) [0..<length (pos xs P)]
      = filter (\<lambda>dst. pos xs P ! dst \<noteq> dst) [0..<length (pos xs P)]" for ys
    by (rule filter_cong) (simp_all add: nth_append)
  then have step: "length (filter (\<lambda>dst. pos (xs @ [x]) P ! dst \<noteq> dst)
        [0..<length (pos (xs @ [x]) P)])
      = length (filter P (dropWhile P xs)) +
        (if P x \<and> length (filter P xs) \<noteq> length xs then 1 else 0)"
    using snoc nth_append_length [of "pos xs P" "length xs" "[]"] by (auto simp: pos len)
  show ?case
  proof (cases "\<forall>y \<in> set xs. P y")
    case True
    then show ?thesis using step all by (simp add: dropWhile_append3 dropWhile_eq_Nil_conv [THEN iffD2])
  next
    case False
    then obtain y where "y \<in> set xs" "\<not> P y" by blast
    then show ?thesis using step all by (auto simp: dropWhile_append1)
  qed
qed (simp add: pos_def)

text \<open>A table whose live slots are its first \<open>k\<close>: compaction moves nothing in it.\<close>

lemma filter_prefix_positions:
  "filter (\<lambda>i. i < k) [0..<n] = [0..<min k n]"
proof (induction n)
  case (Suc n)
  then show ?case by (cases "n < k"; cases "k = Suc n") (auto simp: min_def)
qed simp

text \<open>The columns of a slot that compaction leaves where they are.\<close>

definition left_in_place ::
  "'z TrackedSlot_scheme
     \<Rightarrow> SRT_SOCKSTATUS \<times> SRT_MEMBERSTATUS \<times> int \<times> string \<times> int \<times> int" where
  "left_in_place s =
     (member_sock_state s, member_group_state s, member_peer_port s, member_peer_host s,
      member_status_last_logged s, member_connected_last_logged s)"

context slot_kind
begin

lemma live_rd: "live s \<longleftrightarrow> cs_live (rd s)"
  by (simp add: live_def cs_live_def tracks_def cs_tracks_def rd_fields)

lemma tracks_rd: "tracks s \<longleftrightarrow> cs_tracks (rd s)"
  by (simp add: tracks_def cs_tracks_def rd_fields)

lemma filter_live_rd: "map rd (filter live ts) = filter cs_live (map rd ts)"
  by (induction ts) (simp_all add: live_rd)

lemma length_live: "length (filter live ts) = length (filter cs_live (map rd ts))"
  by (metis filter_live_rd length_map)

lemma length_tracks: "length (filter tracks ts) = length (filter cs_tracks (map rd ts))"
  by (induction ts) (simp_all add: tracks_rd)

lemma compact_view:
  assumes len: "length ts = kMaxTrackedMembers"
  shows "map rd (fst (compact_slots rd wr ts)) =
    filter cs_live (map rd ts) @
    replicate (kMaxTrackedMembers - length (filter cs_live (map rd ts))) default_CompactionSlotState"
proof -
  let ?k = "length (filter live ts)"
  let ?c = "map (\<lambda>dst. if dst < length (keep_slots ts) then rd (ts ! (keep_slots ts ! dst))
                       else default_CompactionSlotState) [0..<kMaxTrackedMembers]"
  have k: "?k \<le> kMaxTrackedMembers" using len length_filter_le [of live ts] by simp
  have "map rd (map2 wr ?c ts) = ?c"
  proof (rule nth_equalityI)
    fix i assume "i < length (map rd (map2 wr ?c ts))"
    then have "i < kMaxTrackedMembers" using len by simp
    then show "map rd (map2 wr ?c ts) ! i = ?c ! i"
      using len by (auto simp: rd_wr rd_wf default_wf)
  qed (simp add: len)
  also have "?c = map (\<lambda>dst. rd (ts ! (keep_slots ts ! dst))) [0..<?k] @
      replicate (kMaxTrackedMembers - ?k) default_CompactionSlotState"
    using map_prefix_fill [OF k] by (simp add: length_keep_slots [OF len])
  also have "map (\<lambda>dst. rd (ts ! (keep_slots ts ! dst))) [0..<?k] = map rd (filter live ts)"
    by (rule nth_equalityI) (simp_all add: keep_slots_nth [OF len])
  finally show ?thesis by (simp add: compact_slots_def Let_def filter_live_rd length_live)
qed

lemma compact_counts:
  assumes len: "length ts = kMaxTrackedMembers"
  shows "before_slots (snd (compact_slots rd wr ts)) = length (filter cs_tracks (map rd ts))"
    and "after_slots (snd (compact_slots rd wr ts)) = length (filter cs_live (map rd ts))"
    and "dropped (snd (compact_slots rd wr ts)) =
      length (filter cs_tracks (map rd ts)) - length (filter cs_live (map rd ts))"
  using length_filter_nth [of tracks ts] length_keep_slots [OF len]
  by (simp_all add: compact_slots_def Let_def len length_live length_tracks)

lemma compact_moved_0:
  assumes len: "length ts = kMaxTrackedMembers"
    and prefix: "map rd ts = as @ replicate n default_CompactionSlotState" "\<forall>a \<in> set as. cs_live a"
  shows "moved (snd (compact_slots rd wr ts)) = 0"
proof -
  have live: "live (ts ! i) \<longleftrightarrow> i < length as" if "i < kMaxTrackedMembers" for i
  proof -
    have "rd (ts ! i) = (as @ replicate n default_CompactionSlotState) ! i"
      using prefix(1) that len by (metis nth_map)
    moreover have "length as + n = kMaxTrackedMembers"
      using arg_cong [OF prefix(1), of length] len by simp
    ultimately show ?thesis
      using prefix(2) that by (auto simp: live_rd nth_append)
  qed
  have "keep_slots ts = filter (\<lambda>i. i < length as) [0..<kMaxTrackedMembers]"
    unfolding keep_slots_def by (rule filter_cong) (simp_all add: live)
  then have "keep_slots ts = [0..<min (length as) kMaxTrackedMembers]"
    by (simp add: filter_prefix_positions)
  then show ?thesis by (simp add: compact_slots_def Let_def)
qed

lemma compact_length [simp]:
  "length ts = kMaxTrackedMembers \<Longrightarrow> length (fst (compact_slots rd wr ts)) = kMaxTrackedMembers"
  by (simp add: compact_slots_def Let_def)

lemma compact_moved:
  assumes len: "length ts = kMaxTrackedMembers"
  shows "moved (snd (compact_slots rd wr ts))
    = length (filter cs_live (dropWhile cs_live (map rd ts)))"
proof -
  have "moved (snd (compact_slots rd wr ts)) = length (filter live (dropWhile live ts))"
    using moved_positions [of live ts] len by (simp add: compact_slots_def Let_def keep_slots_def)
  moreover have "dropWhile cs_live (map rd ts) = map rd (dropWhile live ts)"
    by (simp add: dropWhile_map comp_def live_rd [symmetric])
  ultimately show ?thesis by (simp add: length_live)
qed

lemma compact_left:
  assumes "length ts = kMaxTrackedMembers"
  shows "map left_in_place (fst (compact_slots rd wr ts)) = map left_in_place ts"
  by (rule nth_equalityI)
    (simp_all add: compact_slots_def Let_def assms left_in_place_def wr_peer wr_logged)

lemma compact_peer:
  assumes "length ts = kMaxTrackedMembers"
  shows "map member_peer_host (fst (compact_slots rd wr ts)) = map member_peer_host ts"
    and "map member_peer_port (fst (compact_slots rd wr ts)) = map member_peer_port ts"
    and "map member_sock_state (fst (compact_slots rd wr ts)) = map member_sock_state ts"
    and "map member_group_state (fst (compact_slots rd wr ts)) = map member_group_state ts"
  by (rule nth_equalityI; simp add: compact_slots_def Let_def assms wr_peer)+

lemma compact_logged:
  assumes "length ts = kMaxTrackedMembers"
  shows "map member_status_last_logged (fst (compact_slots rd wr ts)) = map member_status_last_logged ts"
    and "map member_connected_last_logged (fst (compact_slots rd wr ts))
      = map member_connected_last_logged ts"
  by (rule nth_equalityI; simp add: compact_slots_def Let_def assms wr_logged)+

end

section \<open>Compaction of a side\<close>

definition tables_ok :: "'m LinkMetrics_scheme \<Rightarrow> bool" where
  "tables_ok m \<longleftrightarrow>
     length (input_tracked m) = kMaxTrackedMembers \<and> length (output_tracked m) = kMaxTrackedMembers"

text \<open>What compaction may move of a side's slots, over both kinds of slots.\<close>

definition compaction_view :: "LinkSide \<Rightarrow> 'm LinkMetrics_scheme \<Rightarrow> CompactionSlotState list" where
  "compaction_view side m =
     (case side of
        LinkSide.kInput \<Rightarrow> map read_input_compaction (input_tracked m)
      | LinkSide.kOutput \<Rightarrow> map read_output_compaction (output_tracked m))"

definition live_view :: "LinkSide \<Rightarrow> 'm LinkMetrics_scheme \<Rightarrow> CompactionSlotState list" where
  "live_view side m = filter cs_live (compaction_view side m)"

fun other_side :: "LinkSide \<Rightarrow> LinkSide" where
  "other_side LinkSide.kInput = LinkSide.kOutput"
| "other_side LinkSide.kOutput = LinkSide.kInput"

lemma length_live_view: "tables_ok m \<Longrightarrow> length (live_view side m) \<le> kMaxTrackedMembers"
  by (cases side)
    (simp_all add: live_view_def compaction_view_def tables_ok_def le_trans [OF length_filter_le])

lemma CompactSlotsLocked_fst:
  assumes "tables_ok m"
  shows "compaction_view side (fst (CompactSlotsLocked side m)) = live_view side m @
      replicate (kMaxTrackedMembers - length (live_view side m)) default_CompactionSlotState"
    and "compaction_view (other_side side) (fst (CompactSlotsLocked side m))
      = compaction_view (other_side side) m"
    and "tables_ok (fst (CompactSlotsLocked side m))"
  using assms
  by (cases side; simp add: CompactSlotsLocked_def compaction_view_def live_view_def tables_ok_def
      split_beta input_slot.compact_view output_slot.compact_view)+

lemma CompactSlotsLocked_snd:
  assumes "tables_ok m"
  shows "before_slots (snd (CompactSlotsLocked side m)) = length (filter cs_tracks (compaction_view side m))"
    and "after_slots (snd (CompactSlotsLocked side m)) = length (live_view side m)"
    and "dropped (snd (CompactSlotsLocked side m))
      = length (filter cs_tracks (compaction_view side m)) - length (live_view side m)"
  using assms
  by (cases side; simp add: CompactSlotsLocked_def compaction_view_def live_view_def tables_ok_def
      split_beta input_slot.compact_counts output_slot.compact_counts)+

lemma CompactSlotsLocked_count:
  assumes "tables_ok m"
  shows "SnapshotCountCapped side (fst (CompactSlotsLocked side m)) = length (live_view side m)"
proof -
  have "SnapshotCountCapped side (fst (CompactSlotsLocked side m))
      = min (after_slots (snd (CompactSlotsLocked side m))) kMaxTrackedMembers"
    by (cases side) (simp_all add: CompactSlotsLocked_def SnapshotCountCapped_def split_beta)
  with length_live_view [OF assms, of side] CompactSlotsLocked_snd(2) [OF assms, of side]
  show ?thesis by simp
qed

lemma CompactSlotsLocked_moved:
  assumes "tables_ok m"
    and "compaction_view side m = as @ replicate n default_CompactionSlotState"
    and "\<forall>a \<in> set as. cs_live a"
  shows "moved (snd (CompactSlotsLocked side m)) = 0"
proof (cases side)
  case kInput
  then show ?thesis
    using input_slot.compact_moved_0 [of "input_tracked m" as n] assms
    by (simp add: CompactSlotsLocked_def compaction_view_def tables_ok_def split_beta)
next
  case kOutput
  then show ?thesis
    using output_slot.compact_moved_0 [of "output_tracked m" as n] assms
    by (simp add: CompactSlotsLocked_def compaction_view_def tables_ok_def split_beta)
qed

lemma CompactSlotsLocked_spec_aux:
  assumes "tables_ok m" and "CompactSlotsLocked side m = (m', r)"
  shows "compaction_view side m' = live_view side m @
      replicate (kMaxTrackedMembers - length (live_view side m)) default_CompactionSlotState"
    and "before_slots r = length (filter cs_tracks (compaction_view side m))"
    and "after_slots r = length (live_view side m)"
    and "dropped r = before_slots r - after_slots r"
    and "SnapshotCountCapped side m' = length (live_view side m)"
    and "compaction_view (other_side side) m' = compaction_view (other_side side) m"
    and "tables_ok m'"
  using CompactSlotsLocked_fst [OF assms(1), of side] CompactSlotsLocked_snd [OF assms(1), of side]
    CompactSlotsLocked_count [OF assms(1), of side]
  unfolding assms(2) by simp_all

text \<open>The columns compaction leaves in place, and what of the state is not of a side.\<close>

definition left_columns :: "LinkSide \<Rightarrow> 'm LinkMetrics_scheme
     \<Rightarrow> (SRT_SOCKSTATUS \<times> SRT_MEMBERSTATUS \<times> int \<times> string \<times> int \<times> int) list" where
  "left_columns side m =
     (case side of
        LinkSide.kInput \<Rightarrow> map left_in_place (input_tracked m)
      | LinkSide.kOutput \<Rightarrow> map left_in_place (output_tracked m))"

definition only_tables_of ::
  "LinkSide \<Rightarrow> 'm LinkMetrics_scheme \<Rightarrow> 'm LinkMetrics_scheme \<Rightarrow> bool" where
  "only_tables_of side m m' \<longleftrightarrow>
     (case side of
        LinkSide.kInput \<Rightarrow>
          m' = m\<lparr>input_tracked := input_tracked m',
                 input_links_snapshot_count := input_links_snapshot_count m'\<rparr>
      | LinkSide.kOutput \<Rightarrow>
          m' = m\<lparr>output_tracked := output_tracked m',
                 output_links_snapshot_count := output_links_snapshot_count m'\<rparr>)"

lemma CompactSlotsLocked_columns:
  assumes "tables_ok m"
  shows "left_columns side (fst (CompactSlotsLocked side m)) = left_columns side m"
    and "moved (snd (CompactSlotsLocked side m))
      = length (filter cs_live (dropWhile cs_live (compaction_view side m)))"
  using assms
  by (cases side; simp add: CompactSlotsLocked_def compaction_view_def left_columns_def tables_ok_def
      split_beta input_slot.compact_left output_slot.compact_left input_slot.compact_moved
      output_slot.compact_moved)+

lemma CompactSlotsLocked_only:
  "CompactSlotsLocked side m = (m', r) \<Longrightarrow> only_tables_of side m m'"
  by (cases side) (auto simp: CompactSlotsLocked_def only_tables_of_def split: prod.splits)

text \<open>
  C14. Compacting a side filters what it copies, and leaves the rest where it is. The identity,
  socket, connected flag and counters of the side's slots become those of its live slots, in their
  old order, followed by empty ones. The socket state, the group state, the peer and the fields
  last logged of every slot stay in place, so they need not be those of the member the slot shows
  now. The reported numbers are the slots that were tracked, those kept, their difference and, as
  moved, the live slots that had a slot without live member before them; the visible span is the
  number kept, and nothing but the side's table and span changes.
\<close>

theorem CompactSlotsLocked_spec:
  assumes "tables_ok m" and "CompactSlotsLocked side m = (m', r)"
  shows "compaction_view side m' = live_view side m @
      replicate (kMaxTrackedMembers - length (live_view side m)) default_CompactionSlotState \<and>
    left_columns side m' = left_columns side m \<and>
    before_slots r = length (filter cs_tracks (compaction_view side m)) \<and>
    after_slots r = length (live_view side m) \<and> before_slots r = after_slots r + dropped r \<and>
    moved r = length (filter cs_live (dropWhile cs_live (compaction_view side m))) \<and>
    SnapshotCountCapped side m' = after_slots r \<and> only_tables_of side m m' \<and> tables_ok m'"
proof -
  have "length (live_view side m) \<le> length (filter cs_tracks (compaction_view side m))"
    unfolding live_view_def by (rule length_filter_mono) (rule cs_live_tracks)
  with CompactSlotsLocked_spec_aux [OF assms] CompactSlotsLocked_columns [OF assms(1), of side]
    CompactSlotsLocked_only [OF assms(2)] assms(2)
  show ?thesis by simp
qed

text \<open>
  Compaction is idempotent: a second compaction of the same side, with nothing in between,
  changes no slot, moves none and drops none.
\<close>

theorem CompactSlotsLocked_idempotent:
  assumes "tables_ok m" and "CompactSlotsLocked side m = (m1, r1)"
    and "CompactSlotsLocked side m1 = (m2, r2)"
  shows "compaction_view side m2 = compaction_view side m1 \<and> moved r2 = 0 \<and> dropped r2 = 0"
proof -
  note one = CompactSlotsLocked_spec_aux [OF assms(1,2)]
  note two = CompactSlotsLocked_spec_aux [OF one(7) assms(3)]
  have all_live: "filter cs_live (live_view side m) = live_view side m"
    "filter cs_tracks (live_view side m) = live_view side m"
    unfolding live_view_def by (auto simp: filter_id_conv cs_live_tracks simp del: filter_filter)
  have live1: "live_view side m1 = live_view side m"
    by (simp add: live_view_def [of side m1] one(1) all_live)
  have "filter cs_tracks (compaction_view side m1) = live_view side m"
    by (simp add: one(1) all_live)
  then have "dropped r2 = 0" using two(2-4) live1 by simp
  moreover have "\<forall>a \<in> set (live_view side m). cs_live a" by (simp add: live_view_def)
  from CompactSlotsLocked_moved [OF one(7) one(1) this] have "moved r2 = 0"
    by (simp add: assms(3))
  ultimately show ?thesis using one(1) two(1) live1 by simp
qed

text \<open>
  Compaction moves identities and counters but not the peer address, the socket state, the
  group state of a slot: those columns of the table are what they were, so a member that moves
  to another slot is shown there with the peer and the states of the slot's previous member.
\<close>

theorem CompactSlotsLocked_stale_columns:
  assumes "tables_ok m" and "CompactSlotsLocked LinkSide.kOutput m = (m', r)"
  shows "map member_peer_host (output_tracked m') = map member_peer_host (output_tracked m) \<and>
    map member_peer_port (output_tracked m') = map member_peer_port (output_tracked m) \<and>
    map member_sock_state (output_tracked m') = map member_sock_state (output_tracked m) \<and>
    map member_group_state (output_tracked m') = map member_group_state (output_tracked m)"
  using assms output_slot.compact_peer [of "output_tracked m"]
  by (auto simp: CompactSlotsLocked_def tables_ok_def split: prod.splits)

section \<open>Witnesses for compaction\<close>

definition example_slot :: "int \<Rightarrow> int \<Rightarrow> u64 \<Rightarrow> string \<Rightarrow> u64 \<Rightarrow> OutputTrackedSlot" where
  "example_slot sock connected key peer_name rx =
     default_OutputTrackedSlot\<lparr>member_id := sock, member_connected := connected,
       member_identity_key := key, member_peer_host := peer_name, link_rx_bytes_total := rx\<rparr>"

definition example_metrics :: LinkMetrics where
  "example_metrics =
     \<lparr>input_links_total = 0, input_links_healthy = 0, input_links_running = 0,
      input_links_snapshot_count = 0, output_links_total = 2, output_links_healthy = 1,
      output_links_running = 1, output_links_snapshot_count = 2,
      input_tracked = replicate 16 default_InputTrackedSlot,
      output_tracked = [example_slot (-1) 0 11 ''a'' 5, example_slot 7 1 22 ''b'' 9] @
        replicate 14 default_OutputTrackedSlot,
      auto_compact_state = [0, 0]\<rparr>"

lemma example_tables_ok: "tables_ok example_metrics"
  by (simp add: tables_ok_def example_metrics_def kMaxTrackedMembers_def)

theorem CompactSlotsLocked_spec_witness:
  "\<exists>m' r. CompactSlotsLocked LinkSide.kOutput example_metrics = (m', r) \<and>
     before_slots r = 2 \<and> after_slots r = 1 \<and> dropped r = 1 \<and> moved r = 1 \<and>
     left_columns LinkSide.kOutput m' = left_columns LinkSide.kOutput example_metrics"
proof -
  obtain m' r where c: "CompactSlotsLocked LinkSide.kOutput example_metrics = (m', r)"
    by (cases "CompactSlotsLocked LinkSide.kOutput example_metrics")
  have "length (filter cs_tracks (compaction_view LinkSide.kOutput example_metrics)) = 2"
    "length (live_view LinkSide.kOutput example_metrics) = 1"
    "length (filter cs_live (dropWhile cs_live
      (compaction_view LinkSide.kOutput example_metrics))) = 1"
    by code_simp+
  with CompactSlotsLocked_spec [OF example_tables_ok c] c show ?thesis by simp
qed

theorem CompactSlotsLocked_idempotent_witness:
  "\<exists>m1 r1 m2 r2. CompactSlotsLocked LinkSide.kOutput example_metrics = (m1, r1) \<and>
     CompactSlotsLocked LinkSide.kOutput m1 = (m2, r2) \<and> moved r2 = 0 \<and> dropped r2 = 0"
proof -
  obtain m1 r1 where c: "CompactSlotsLocked LinkSide.kOutput example_metrics = (m1, r1)"
    by (cases "CompactSlotsLocked LinkSide.kOutput example_metrics")
  obtain m2 r2 where d: "CompactSlotsLocked LinkSide.kOutput m1 = (m2, r2)"
    by (cases "CompactSlotsLocked LinkSide.kOutput m1")
  from CompactSlotsLocked_idempotent [OF example_tables_ok c d] c d show ?thesis by blast
qed

theorem CompactSlotsLocked_stale_columns_witness:
  "\<exists>m' r. CompactSlotsLocked LinkSide.kOutput example_metrics = (m', r) \<and>
     member_identity_key (output_tracked m' ! 0) = 22 \<and> member_peer_host (output_tracked m' ! 0) = ''a''"
proof -
  obtain m' r where c: "CompactSlotsLocked LinkSide.kOutput example_metrics = (m', r)"
    by (cases "CompactSlotsLocked LinkSide.kOutput example_metrics")
  have "member_identity_key (output_tracked (fst (CompactSlotsLocked LinkSide.kOutput example_metrics)) ! 0) = 22"
    by code_simp
  moreover have len: "length (output_tracked m') = 16"
    using CompactSlotsLocked_spec_aux(7) [OF example_tables_ok c]
    by (simp add: tables_ok_def kMaxTrackedMembers_def)
  have "map member_peer_host (output_tracked m') = map member_peer_host (output_tracked example_metrics)"
    using CompactSlotsLocked_stale_columns [OF example_tables_ok c] by simp
  then have "map member_peer_host (output_tracked m') ! 0
      = map member_peer_host (output_tracked example_metrics) ! 0" by simp
  then have "member_peer_host (output_tracked m' ! 0) = ''a''"
    using len by (simp add: example_metrics_def example_slot_def)
  ultimately show ?thesis using c by simp
qed

end
