(* ===== verification/Snapshot.thy ===== *)
theory Snapshot
  imports LinkSlots
begin

text \<open>
  What \<open>SaveMemberSnapshot\<close> of \<open>LinkSlots\<close> promises: the assignment of members to slots is
  injective and keeps identities in place, every member is recorded in its slot, a member that is
  gone is kept as disconnected with its identity and counters, and the span covers exactly the
  slots in use.
\<close>

section \<open>Assignments of members to slots\<close>

definition assign_ok :: "nat \<Rightarrow> assignment \<Rightarrow> bool" where
  "assign_ok n a \<longleftrightarrow>
     length (slot_used a) = kMaxTrackedMembers \<and> length (member_slot a) = n \<and>
     (\<forall>s < kMaxTrackedMembers. slot_used a ! s \<longleftrightarrow> (\<exists>i < n. member_slot a ! i = Some s)) \<and>
     (\<forall>i < n. \<forall>s. member_slot a ! i = Some s \<longrightarrow> s < kMaxTrackedMembers) \<and>
     (\<forall>i < n. \<forall>j < n. \<forall>s. member_slot a ! i = Some s \<and> member_slot a ! j = Some s \<longrightarrow> i = j)"

lemma assign_bound:
  "assign_ok n a \<Longrightarrow> i < n \<Longrightarrow> member_slot a ! i = Some s \<Longrightarrow> s < kMaxTrackedMembers"
  by (simp add: assign_ok_def)

lemma assign_inj:
  "assign_ok n a \<Longrightarrow> i < n \<Longrightarrow> j < n \<Longrightarrow> member_slot a ! i = Some s \<Longrightarrow>
   member_slot a ! j = Some s \<Longrightarrow> i = j"
  unfolding assign_ok_def by blast

lemma assign_used:
  "assign_ok n a \<Longrightarrow> s < kMaxTrackedMembers \<Longrightarrow>
   slot_used a ! s \<longleftrightarrow> (\<exists>i < n. member_slot a ! i = Some s)"
  by (simp add: assign_ok_def)

definition extends :: "nat \<Rightarrow> assignment \<Rightarrow> assignment \<Rightarrow> bool" where
  "extends n a b \<longleftrightarrow>
     (\<forall>i < n. \<forall>s. member_slot a ! i = Some s \<longrightarrow> member_slot b ! i = Some s) \<and>
     (\<forall>s < kMaxTrackedMembers. slot_used a ! s \<longrightarrow> slot_used b ! s)"

lemma extends_refl [simp]: "extends n a a"
  by (simp add: extends_def)

lemma extends_trans: "extends n a b \<Longrightarrow> extends n b c \<Longrightarrow> extends n a c"
  by (simp add: extends_def)

lemma assign_ok_none [simp]: "assign_ok n (no_assignment n)"
  by (simp add: assign_ok_def no_assignment_def)

lemma first_slot_Some:
  "first_slot ok a = Some s \<longleftrightarrow>
     s < kMaxTrackedMembers \<and> \<not> slot_used a ! s \<and> ok s \<and>
     (\<forall>j < s. \<not> (\<not> slot_used a ! j \<and> ok j))"
  unfolding first_slot_def find_upt_Some_iff by auto

lemma first_slot_None:
  "first_slot ok a = None \<longleftrightarrow> (\<forall>s < kMaxTrackedMembers. slot_used a ! s \<or> \<not> ok s)"
  unfolding first_slot_def find_upt_None_iff by auto

lemma take_slot_ok:
  assumes ok: "assign_ok n a" and "i < n" and "member_slot a ! i = None"
    and "s < kMaxTrackedMembers" and "\<not> slot_used a ! s"
  shows "assign_ok n (take_slot i s a)"
proof -
  have free: "member_slot a ! j \<noteq> Some s" if "j < n" for j
    using ok assms(4,5) that by (auto simp: assign_ok_def)
  have used: "slot_used a ! t \<longleftrightarrow> (\<exists>j < n. member_slot a ! j = Some t)"
    if "t < kMaxTrackedMembers" for t
    using ok that by (simp add: assign_ok_def)
  have len: "length (slot_used a) = kMaxTrackedMembers" "length (member_slot a) = n"
    using ok by (simp_all add: assign_ok_def)
  show ?thesis
    unfolding assign_ok_def
  proof (intro conjI allI impI)
    fix t assume t: "t < kMaxTrackedMembers"
    show "slot_used (take_slot i s a) ! t \<longleftrightarrow> (\<exists>j < n. member_slot (take_slot i s a) ! j = Some t)"
    proof (cases "t = s")
      case True
      then show ?thesis using assms(2,4) len by (auto simp: take_slot_def)
    next
      case False
      have "member_slot (take_slot i s a) ! j = Some t \<longleftrightarrow> member_slot a ! j = Some t" if "j < n" for j
        using False assms(2,3) len that by (cases "j = i") (simp_all add: take_slot_def)
      then have "(\<exists>j < n. member_slot (take_slot i s a) ! j = Some t) \<longleftrightarrow>
          (\<exists>j < n. member_slot a ! j = Some t)" by blast
      then show ?thesis using False used [OF t] by (simp add: take_slot_def)
    qed
  next
    fix j t assume "j < n" "member_slot (take_slot i s a) ! j = Some t"
    then show "t < kMaxTrackedMembers"
      using ok assms(4) len by (cases "j = i") (auto simp: take_slot_def assign_ok_def)
  next
    fix j k t
    assume "j < n" "k < n"
      "member_slot (take_slot i s a) ! j = Some t \<and> member_slot (take_slot i s a) ! k = Some t"
    then show "j = k"
      using ok free len by (cases "j = i"; cases "k = i") (auto simp: take_slot_def assign_ok_def)
  qed (simp_all add: take_slot_def len)
qed

lemma take_slot_extends:
  assumes "assign_ok n a" and "i < n" and "member_slot a ! i = None" and "s < kMaxTrackedMembers"
  shows "extends n a (take_slot i s a)"
  using assms by (auto simp: extends_def take_slot_def assign_ok_def nth_list_update)

lemma assign_step_ok:
  assumes "assign_ok n a" and "i < n"
  shows "assign_ok n (assign_step ok a i) \<and> extends n a (assign_step ok a i)"
  using assms
  by (auto simp: assign_step_def first_slot_Some take_slot_ok take_slot_extends split: option.split)

lemma foldl_assign_ok:
  "assign_ok n a \<Longrightarrow> k \<le> n \<Longrightarrow>
   assign_ok n (foldl (assign_step ok) a [0..<k]) \<and> extends n a (foldl (assign_step ok) a [0..<k])"
proof (induction k)
  case (Suc k)
  let ?b = "foldl (assign_step ok) a [0..<k]"
  from Suc have b: "assign_ok n ?b" "extends n a ?b" by simp_all
  from assign_step_ok [OF b(1), of k ok] Suc.prems(2) extends_trans [OF b(2)] show ?case by simp
qed simp

text \<open>A free slot is left for every member without one, when there are at most sixteen.\<close>

lemma free_slot:
  assumes ok: "assign_ok n a" and i: "i < n" "member_slot a ! i = None" and n: "n \<le> kMaxTrackedMembers"
  shows "\<exists>s < kMaxTrackedMembers. \<not> slot_used a ! s"
proof (rule ccontr)
  assume "\<not> ?thesis"
  then have "{..<kMaxTrackedMembers} \<subseteq> (\<lambda>j. the (member_slot a ! j)) ` ({..<n} - {i})"
    using ok i by (force simp: assign_ok_def image_iff)
  then have "kMaxTrackedMembers \<le> card ({..<n} - {i})"
    using surj_card_le [of "{..<n} - {i}" "{..<kMaxTrackedMembers}"] by simp
  then show False using i n by simp
qed

lemma assign_any_step:
  assumes "assign_ok n a" and "i < n" and "n \<le> kMaxTrackedMembers"
  shows "member_slot (assign_step (\<lambda>_ _. True) a i) ! i \<noteq> None"
proof (cases "member_slot a ! i")
  case None
  with free_slot [OF assms(1,2) None assms(3)] obtain s where
    "first_slot (\<lambda>_. True) a = Some s"
    by (cases "first_slot (\<lambda>_. True) a") (auto simp: first_slot_None)
  then show ?thesis
    using None assms(1,2) by (simp add: assign_step_def take_slot_def assign_ok_def)
qed (simp add: assign_step_def)

lemma foldl_assign_any_total:
  assumes "assign_ok n a" and "n \<le> kMaxTrackedMembers" and "k \<le> n" and "i < k"
  shows "member_slot (foldl (assign_step (\<lambda>_ _. True)) a [0..<k]) ! i \<noteq> None"
  using assms(3,4)
proof (induction k)
  case (Suc k)
  let ?b = "foldl (assign_step (\<lambda>_ _. True)) a [0..<k]"
  have b: "assign_ok n ?b" using foldl_assign_ok [OF assms(1), of k] Suc.prems by simp
  show ?case
  proof (cases "i = k")
    case True
    then show ?thesis using assign_any_step [OF b _ assms(2), of k] Suc.prems by simp
  next
    case False
    then have "member_slot ?b ! i \<noteq> None" using Suc by simp
    moreover have "extends n ?b (assign_step (\<lambda>_ _. True) ?b k)"
      using assign_step_ok [OF b, of k] Suc.prems by simp
    ultimately show ?thesis using Suc.prems by (auto simp: extends_def)
  qed
qed simp

section \<open>The loops of \<open>SaveMemberSnapshot\<close>\<close>

definition preferred_assignment :: "SnapshotSlotState list \<Rightarrow> u64 list \<Rightarrow> assignment" where
  "preferred_assignment slots keys =
     match_empty slots (length keys) (match_identity slots keys (no_assignment (length keys)))"

definition final_assignment :: "SnapshotSlotState list \<Rightarrow> u64 list \<Rightarrow> assignment" where
  "final_assignment slots keys =
     foldl (assign_step (\<lambda>_ _. True)) (preferred_assignment slots keys) [0..<length keys]"

lemma match_identity_ok:
  "assign_ok (length keys) (match_identity slots keys (no_assignment (length keys)))"
  unfolding match_identity_def by (simp add: foldl_assign_ok)

lemma preferred_ok:
  "assign_ok (length keys) (preferred_assignment slots keys) \<and>
   extends (length keys) (match_identity slots keys (no_assignment (length keys)))
     (preferred_assignment slots keys)"
  unfolding preferred_assignment_def match_empty_def
  by (rule foldl_assign_ok) (simp_all add: match_identity_ok)

lemma final_ok:
  "assign_ok (length keys) (final_assignment slots keys) \<and>
   extends (length keys) (preferred_assignment slots keys) (final_assignment slots keys)"
  unfolding final_assignment_def by (rule foldl_assign_ok) (simp_all add: preferred_ok)

lemma final_total:
  assumes "length keys \<le> kMaxTrackedMembers" and "i < length keys"
  shows "\<exists>s. member_slot (final_assignment slots keys) ! i = Some s"
  using foldl_assign_any_total [OF preferred_ok [THEN conjunct1] assms(1) order_refl assms(2)]
  unfolding final_assignment_def by auto

text \<open>The slots taken by eviction are those the final assignment uses and the preferred one does not.\<close>

definition newly_used :: "assignment \<Rightarrow> assignment \<Rightarrow> nat \<Rightarrow> bool" where
  "newly_used a b s \<longleftrightarrow> slot_used b ! s \<and> \<not> slot_used a ! s"

definition on_new ::
  "assignment \<Rightarrow> assignment \<Rightarrow> ('b \<Rightarrow> 'b) \<Rightarrow> 'b list \<Rightarrow> 'b list" where
  "on_new a b f xs = map (\<lambda>s. if newly_used a b s then f (xs ! s) else xs ! s) [0..<kMaxTrackedMembers]"

lemma on_new_same [simp]: "length xs = kMaxTrackedMembers \<Longrightarrow> on_new a a f xs = xs"
  using map_nth [of xs] by (simp add: on_new_def newly_used_def)

lemma on_new_take:
  assumes "length xs = kMaxTrackedMembers" and "assign_ok n b" and "s < kMaxTrackedMembers"
    and "\<not> slot_used b ! s" and "\<not> slot_used a ! s"
  shows "(on_new a b f xs)[s := f (on_new a b f xs ! s)] = on_new a (take_slot i s b) f xs"
proof (rule nth_equalityI)
  fix t assume "t < length ((on_new a b f xs)[s := f (on_new a b f xs ! s)])"
  then have "t < kMaxTrackedMembers" by (simp add: on_new_def)
  then show "(on_new a b f xs)[s := f (on_new a b f xs ! s)] ! t = on_new a (take_slot i s b) f xs ! t"
    using assms by (cases "t = s") (auto simp: on_new_def newly_used_def take_slot_def assign_ok_def)
qed (simp add: on_new_def)

lemma evict_foldl:
  assumes "assign_ok n a" and "length slots = kMaxTrackedMembers"
    and "length tracked = kMaxTrackedMembers" and "k \<le> n"
  shows "foldl (evict_step reset) (a, slots, tracked) [0..<k] =
    (let b = foldl (assign_step (\<lambda>_ _. True)) a [0..<k]
     in (b, on_new a b evict_slot slots, on_new a b reset tracked))"
  using assms(4)
proof (induction k)
  case 0
  then show ?case using assms by simp
next
  case (Suc k)
  define b where "b = foldl (assign_step (\<lambda>_ _. True)) a [0..<k]"
  have b: "assign_ok n b" "extends n a b"
    using foldl_assign_ok [OF assms(1), of k] Suc.prems by (simp_all add: b_def)
  have IH: "foldl (evict_step reset) (a, slots, tracked) [0..<k] =
      (b, on_new a b evict_slot slots, on_new a b reset tracked)"
    using Suc by (simp add: Let_def b_def)
  have next_b: "foldl (assign_step (\<lambda>_ _. True)) a [0..<Suc k] = assign_step (\<lambda>_ _. True) b k"
    by (simp add: b_def)
  have next_e: "foldl (evict_step reset) (a, slots, tracked) [0..<Suc k] =
      evict_step reset (b, on_new a b evict_slot slots, on_new a b reset tracked) k"
    by (simp add: IH)
  show ?case
  proof (cases "member_slot b ! k \<noteq> None \<or> first_slot (\<lambda>_. True) b = None")
    case True
    then show ?thesis
      unfolding next_b next_e
      by (auto simp: Let_def evict_step_def assign_step_def split: option.splits)
  next
    case False
    then obtain s where s: "member_slot b ! k = None" "first_slot (\<lambda>_. True) b = Some s" by auto
    then have free: "s < kMaxTrackedMembers" "\<not> slot_used b ! s"
      unfolding first_slot_Some by auto
    from free b(2) have "\<not> slot_used a ! s" by (auto simp: extends_def)
    then show ?thesis
      unfolding next_b next_e
      using s on_new_take [OF assms(2) b(1) free] on_new_take [OF assms(3) b(1) free]
      by (simp add: Let_def evict_step_def assign_step_def)
  qed
qed

lemma fill_foldl:
  assumes ok: "assign_ok n b" and len: "length slots = kMaxTrackedMembers" and "k \<le> n"
    and fold: "foldl (fill_step env keys members (member_slot b))
      (slots, replicate kMaxTrackedMembers False) [0..<k] = (filled, matched)"
  shows "length filled = kMaxTrackedMembers \<and> length matched = kMaxTrackedMembers \<and>
    (\<forall>s < kMaxTrackedMembers.
       (matched ! s \<longleftrightarrow> (\<exists>i < k. member_slot b ! i = Some s)) \<and>
       (\<not> matched ! s \<longrightarrow> filled ! s = slots ! s)) \<and>
    (\<forall>i < k. \<forall>s. member_slot b ! i = Some s \<longrightarrow>
       filled ! s = fill_slot env (keys ! i) (members ! i) (slots ! s))"
  using assms(3) fold
proof (induction k arbitrary: filled matched)
  case 0
  then show ?case using len by auto
next
  case (Suc k)
  obtain f m where fm: "foldl (fill_step env keys members (member_slot b))
      (slots, replicate kMaxTrackedMembers False) [0..<k] = (f, m)"
    by (meson surj_pair)
  from Suc.IH [OF _ fm] Suc.prems(1)
  have lens: "length f = kMaxTrackedMembers" "length m = kMaxTrackedMembers"
    and m: "\<And>s. s < kMaxTrackedMembers \<Longrightarrow> m ! s \<longleftrightarrow> (\<exists>i < k. member_slot b ! i = Some s)"
    and keep: "\<And>s. s < kMaxTrackedMembers \<Longrightarrow> \<not> m ! s \<Longrightarrow> f ! s = slots ! s"
    and f: "\<And>i s. i < k \<Longrightarrow> member_slot b ! i = Some s \<Longrightarrow>
      f ! s = fill_slot env (keys ! i) (members ! i) (slots ! s)"
    by auto
  have step: "fill_step env keys members (member_slot b) (f, m) k = (filled, matched)"
    using Suc.prems(2) fm by simp
  show ?case
  proof (cases "member_slot b ! k")
    case None
    with step have "filled = f" "matched = m" by (simp_all add: fill_step_def)
    then show ?thesis using lens m keep f None by (auto simp: less_Suc_eq)
  next
    case (Some t)
    have t: "t < kMaxTrackedMembers"
      using assign_bound [OF ok _ Some] Suc.prems(1) by simp
    have fresh: "\<not> (\<exists>i < k. member_slot b ! i = Some t)"
    proof
      assume "\<exists>i < k. member_slot b ! i = Some t"
      then obtain i where "i < k" "member_slot b ! i = Some t" by blast
      then show False using assign_inj [OF ok, of i k t] Some Suc.prems(1) by simp
    qed
    with keep [OF t] m [OF t] have old: "f ! t = slots ! t" by simp
    from step Some have res: "filled = f[t := fill_slot env (keys ! k) (members ! k) (f ! t)]"
      "matched = m[t := True]"
      by (simp_all add: fill_step_def)
    have "filled ! s = fill_slot env (keys ! i) (members ! i) (slots ! s)"
      if "i < Suc k" "member_slot b ! i = Some s" for i s
    proof (cases "i = k")
      case True
      then show ?thesis using that Some res lens t old by simp
    next
      case False
      then have "i < k" "s \<noteq> t" using that fresh by auto
      then show ?thesis using that f res lens by simp
    qed
    then show ?thesis
      using lens m keep Some t by (auto simp: res nth_list_update less_Suc_eq)
  qed
qed

text \<open>
  A member gets a slot from a loop only if the loop's condition allows it, and a member without a
  slot after a loop finds every slot allowed to it taken.
\<close>

lemma assign_step_picks:
  assumes "assign_ok n b" and "k < n" and "member_slot (assign_step ok b k) ! i = Some s"
  shows "member_slot b ! i = Some s \<or> ok i s"
proof (cases "member_slot b ! k = None \<and> i = k")
  case True
  then obtain t where t: "first_slot (ok k) b = Some t"
    using assms(3) by (cases "first_slot (ok k) b") (simp_all add: assign_step_def)
  then have "ok k t" unfolding first_slot_Some by simp
  moreover have "assign_step ok b k = take_slot k t b" using True t by (simp add: assign_step_def)
  then have "s = t" using assms True by (simp add: take_slot_def assign_ok_def)
  ultimately show ?thesis using True by simp
next
  case False
  then show ?thesis
    using assms(3) by (auto simp: assign_step_def take_slot_def split: if_splits option.splits)
qed

lemma foldl_assign_picks:
  assumes "assign_ok n a" and "k \<le> n"
    and "member_slot (foldl (assign_step ok) a [0..<k]) ! i = Some s"
  shows "member_slot a ! i = Some s \<or> ok i s"
  using assms(2,3)
proof (induction k)
  case (Suc k)
  define b where "b = foldl (assign_step ok) a [0..<k]"
  have b: "assign_ok n b" using foldl_assign_ok [OF assms(1), of k ok] Suc.prems by (simp add: b_def)
  have step: "foldl (assign_step ok) a [0..<Suc k] = assign_step ok b k" by (simp add: b_def)
  have "member_slot b ! i = Some s \<or> ok i s"
    using assign_step_picks [OF b, of k ok i s] Suc.prems unfolding step by simp
  then show ?case using Suc.IH Suc.prems(1) by (auto simp: b_def)
qed simp

lemma foldl_assign_full:
  assumes "assign_ok n a" and "k \<le> n" and "i < k" and "s < kMaxTrackedMembers" and "ok i s"
    and "member_slot (foldl (assign_step ok) a [0..<k]) ! i = None"
  shows "slot_used (foldl (assign_step ok) a [0..<k]) ! s"
  using assms(2,3,6)
proof (induction k)
  case (Suc k)
  define b where "b = foldl (assign_step ok) a [0..<k]"
  have b: "assign_ok n b" using foldl_assign_ok [OF assms(1), of k ok] Suc.prems by (simp add: b_def)
  have step: "foldl (assign_step ok) a [0..<Suc k] = assign_step ok b k" by (simp add: b_def)
  have ext: "extends n b (assign_step ok b k)" using assign_step_ok [OF b, of k ok] Suc.prems by simp
  have last: "member_slot (assign_step ok b k) ! i = None" using Suc.prems(3) unfolding step .
  have none: "member_slot b ! i = None"
    using ext last Suc.prems(1,2) by (cases "member_slot b ! i") (auto simp: extends_def)
  have "slot_used b ! s"
  proof (cases "i = k")
    case True
    have "first_slot (ok k) b = None"
    proof (cases "first_slot (ok k) b")
      case (Some t)
      then show ?thesis
        using last none True b Suc.prems(1)
        by (simp add: assign_step_def take_slot_def assign_ok_def)
    qed
    then show ?thesis using True assms(4,5) unfolding first_slot_None by blast
  next
    case False
    then show ?thesis using Suc none by (simp add: b_def)
  qed
  then show ?case using ext assms(4) unfolding step by (simp add: extends_def)
qed simp

section \<open>The slots after a snapshot\<close>

definition holds_member :: "assignment \<Rightarrow> nat \<Rightarrow> nat \<Rightarrow> bool" where
  "holds_member b n s \<longleftrightarrow> (\<exists>i < n. member_slot b ! i = Some s)"

context slot_kind
begin

lemma snapshot_slots_nth:
  fixes env side members and tracked :: "'z TrackedSlot_scheme list"
  defines "slots \<equiv> ReadSnapshotSlots tracked"
    and "keys \<equiv> map (MemberIdentityKey env side) members"
  assumes len: "length tracked = kMaxTrackedMembers"
  defines "a \<equiv> preferred_assignment slots keys" and "b \<equiv> final_assignment slots keys"
    and "res \<equiv> fst (snapshot_slots reset env side members tracked)"
  shows "length res = kMaxTrackedMembers"
    and "\<exists>ss ts. snapshot_slots reset env side members tracked = WriteSnapshotSlots ss ts \<and>
      length ss = kMaxTrackedMembers \<and> length (ts :: 'z TrackedSlot_scheme list) = kMaxTrackedMembers"
    and "i < length members \<Longrightarrow> member_slot b ! i = Some s \<Longrightarrow>
      res ! s = write_snapshot_slot
        (fill_slot env (keys ! i) (members ! i)
          (if newly_used a b s then evict_slot (slots ! s) else slots ! s))
        (if newly_used a b s then reset (tracked ! s) else tracked ! s)"
    and "s < kMaxTrackedMembers \<Longrightarrow> \<not> holds_member b (length members) s \<Longrightarrow>
      res ! s = write_snapshot_slot (clear_unmatched False (slots ! s)) (tracked ! s)"
proof -
  let ?n = "length members"
  have n: "length keys = ?n" by (simp add: keys_def)
  have slots: "length slots = kMaxTrackedMembers" by (simp add: slots_def ReadSnapshotSlots_def len)
  have a: "assign_ok ?n a" using preferred_ok [of keys slots] by (simp add: a_def n)
  have b: "assign_ok ?n b" using final_ok [of keys slots] by (simp add: b_def n)
  have evict: "foldl (evict_step reset) (a, slots, tracked) [0..<?n] =
      (b, on_new a b evict_slot slots, on_new a b reset tracked)"
    using evict_foldl [OF a slots len order_refl, of reset]
    unfolding Let_def b_def final_assignment_def a_def [symmetric] n .
  obtain filled matched where fill: "foldl (fill_step env keys members (member_slot b))
      (on_new a b evict_slot slots, replicate kMaxTrackedMembers False) [0..<?n] = (filled, matched)"
    by (meson surj_pair)
  have "length (on_new a b evict_slot slots) = kMaxTrackedMembers" by (simp add: on_new_def)
  from fill_foldl [OF b this order_refl fill]
  have lens: "length filled = kMaxTrackedMembers" "length matched = kMaxTrackedMembers"
    and m: "\<And>s. s < kMaxTrackedMembers \<Longrightarrow> matched ! s \<longleftrightarrow> holds_member b ?n s"
    and keep: "\<And>s. s < kMaxTrackedMembers \<Longrightarrow> \<not> matched ! s \<Longrightarrow>
      filled ! s = on_new a b evict_slot slots ! s"
    and f: "\<And>i s. i < ?n \<Longrightarrow> member_slot b ! i = Some s \<Longrightarrow> filled ! s =
      fill_slot env (keys ! i) (members ! i) (on_new a b evict_slot slots ! s)"
    by (auto simp: holds_member_def)
  have snap: "snapshot_slots reset env side members tracked =
      WriteSnapshotSlots (map2 clear_unmatched matched filled) (on_new a b reset tracked)"
    using evict fill
    by (simp add: snapshot_slots_def Let_def keys_def [symmetric] slots_def [symmetric]
        a_def preferred_assignment_def n)
  then show "\<exists>ss ts. snapshot_slots reset env side members tracked = WriteSnapshotSlots ss ts \<and>
      length ss = kMaxTrackedMembers \<and> length (ts :: 'z TrackedSlot_scheme list) = kMaxTrackedMembers"
    by (rule_tac x = "map2 clear_unmatched matched filled" in exI,
        rule_tac x = "on_new a b reset tracked" in exI) (simp add: lens on_new_def)
  have res: "res = map2 write_snapshot_slot (map2 clear_unmatched matched filled)
      (on_new a b reset tracked)"
    by (simp add: res_def snap WriteSnapshotSlots_def)
  show "length res = kMaxTrackedMembers" by (simp add: res lens on_new_def)
  have nth: "res ! s = write_snapshot_slot (clear_unmatched (matched ! s) (filled ! s))
      (on_new a b reset tracked ! s)" if "s < kMaxTrackedMembers" for s
    using that by (simp add: res lens on_new_def)
  have new_t: "on_new a b reset tracked ! s =
      (if newly_used a b s then reset (tracked ! s) else tracked ! s)"
    if "s < kMaxTrackedMembers" for s
    using that by (simp add: on_new_def)
  {
    assume i: "i < ?n" "member_slot b ! i = Some s"
    then have s: "s < kMaxTrackedMembers" using assign_bound [OF b] by simp
    have "matched ! s" using m [OF s] i by (auto simp: holds_member_def)
    then show "res ! s = write_snapshot_slot
        (fill_slot env (keys ! i) (members ! i)
          (if newly_used a b s then evict_slot (slots ! s) else slots ! s))
        (if newly_used a b s then reset (tracked ! s) else tracked ! s)"
      using nth [OF s] new_t [OF s] f [OF i] s
      by (simp add: clear_unmatched_def on_new_def)
  next
    assume s: "s < kMaxTrackedMembers" and free: "\<not> holds_member b ?n s"
    then have "\<not> slot_used b ! s" using assign_used [OF b s] by (simp add: holds_member_def)
    then have "\<not> newly_used a b s" by (simp add: newly_used_def)
    then show "res ! s = write_snapshot_slot (clear_unmatched False (slots ! s)) (tracked ! s)"
      using nth [OF s] new_t [OF s] keep [OF s] m [OF s] free s by (simp add: on_new_def)
  }
qed

end

section \<open>Identities and slots\<close>

lemma match_identity_picks:
  assumes "i < length keys"
    and "member_slot (match_identity slots keys (no_assignment (length keys))) ! i = Some s"
  shows "keys ! i \<noteq> 0 \<and> ss_identity_key (slots ! s) = keys ! i"
  using foldl_assign_picks [OF assign_ok_none order_refl assms(2) [unfolded match_identity_def]]
    assms(1)
  by (simp add: no_assignment_def)

lemma preferred_picks:
  assumes "i < length keys" and "member_slot (preferred_assignment slots keys) ! i = Some s"
  shows "(keys ! i \<noteq> 0 \<and> ss_identity_key (slots ! s) = keys ! i) \<or> ss_identity_key (slots ! s) = 0"
  using foldl_assign_picks [OF match_identity_ok order_refl
      assms(2) [unfolded preferred_assignment_def match_empty_def]]
    match_identity_picks [OF assms(1)]
  by blast

lemma final_slot_cases:
  assumes "i < length keys" and "member_slot (final_assignment slots keys) ! i = Some s"
  shows "newly_used (preferred_assignment slots keys) (final_assignment slots keys) s \<or>
    member_slot (preferred_assignment slots keys) ! i = Some s"
proof (cases "slot_used (preferred_assignment slots keys) ! s")
  case True
  note a = preferred_ok [of keys slots] and b = final_ok [of keys slots]
  have s: "s < kMaxTrackedMembers" using assign_bound b assms by blast
  obtain j where j: "j < length keys" "member_slot (preferred_assignment slots keys) ! j = Some s"
    using assign_used [OF a [THEN conjunct1] s] True by blast
  then have "member_slot (final_assignment slots keys) ! j = Some s"
    using b by (simp add: extends_def)
  then have "i = j" using assign_inj [OF b [THEN conjunct1] assms(1) j(1) assms(2)] by simp
  then show ?thesis using j by simp
next
  case False
  note b = final_ok [of keys slots]
  have s: "s < kMaxTrackedMembers" using assign_bound b assms by blast
  then show ?thesis
    using assign_used [OF b [THEN conjunct1] s] assms False by (auto simp: newly_used_def)
qed

text \<open>No two entries of a list of identities are the same nonzero key.\<close>

definition distinct_keys :: "u64 list \<Rightarrow> bool" where
  "distinct_keys ks \<longleftrightarrow>
     (\<forall>i < length ks. \<forall>j < length ks. ks ! i = ks ! j \<and> ks ! i \<noteq> 0 \<longrightarrow> i = j)"

definition identities :: "SnapshotSlotState list \<Rightarrow> u64 list" where
  "identities slots = map ss_identity_key slots"

lemma identity_kept:
  assumes len: "length slots = kMaxTrackedMembers"
    and dk: "distinct_keys keys" and ds: "distinct_keys (identities slots)"
    and i: "i < length keys" and s: "s < kMaxTrackedMembers"
    and key: "ss_identity_key (slots ! s) = keys ! i" "keys ! i \<noteq> 0"
  shows "member_slot (preferred_assignment slots keys) ! i = Some s"
proof -
  let ?a = "match_identity slots keys (no_assignment (length keys))"
  have "member_slot ?a ! i = Some s"
  proof (cases "member_slot ?a ! i")
    case None
    have "slot_used ?a ! s"
      unfolding match_identity_def
      by (rule foldl_assign_full [OF assign_ok_none order_refl i s])
        (use key None in \<open>simp_all add: match_identity_def\<close>)
    then obtain j where j: "j < length keys" "member_slot ?a ! j = Some s"
      using assign_used [OF match_identity_ok s] by blast
    with match_identity_picks [OF j] dk i key have "j = i" by (auto simp: distinct_keys_def)
    with j None show ?thesis by simp
  next
    case (Some t)
    then have "t < kMaxTrackedMembers" by (rule assign_bound [OF match_identity_ok i])
    with match_identity_picks [OF i Some] ds len s key have "t = s"
      by (auto simp: distinct_keys_def identities_def)
    with Some show ?thesis by simp
  qed
  then show ?thesis using preferred_ok [of keys slots] i by (simp add: extends_def)
qed

text \<open>A slot with an identity is given up only when every other slot is remembered or taken.\<close>

lemma newly_used_full:
  assumes i: "i < length keys" and "member_slot (final_assignment slots keys) ! i = Some s"
    and new: "newly_used (preferred_assignment slots keys) (final_assignment slots keys) s"
    and t: "t < kMaxTrackedMembers" "ss_identity_key (slots ! t) = 0"
  shows "slot_used (preferred_assignment slots keys) ! t"
proof -
  have "member_slot (preferred_assignment slots keys) ! i = None"
  proof (cases "member_slot (preferred_assignment slots keys) ! i")
    case (Some u)
    then have "member_slot (final_assignment slots keys) ! i = Some u"
      using final_ok [of keys slots] i by (simp add: extends_def)
    with assms(2) have "u = s" by simp
    with Some i have "slot_used (preferred_assignment slots keys) ! s"
      using assign_used preferred_ok assign_bound by blast
    with new show ?thesis by (simp add: newly_used_def)
  qed
  then show ?thesis
    unfolding preferred_assignment_def match_empty_def
    by (intro foldl_assign_full [OF match_identity_ok order_refl i t(1)])
      (simp_all add: t preferred_assignment_def match_empty_def)
qed

lemma not_newly_used:
  assumes "length slots = kMaxTrackedMembers"
    and room: "length (filter (\<lambda>k. k \<noteq> 0) (identities slots)) + length keys \<le> kMaxTrackedMembers"
    and i: "i < length keys" and slot: "member_slot (final_assignment slots keys) ! i = Some s"
  shows "\<not> newly_used (preferred_assignment slots keys) (final_assignment slots keys) s"
proof
  let ?a = "preferred_assignment slots keys"
  assume new: "newly_used ?a (final_assignment slots keys) s"
  let ?T = "{t. t < kMaxTrackedMembers \<and> ss_identity_key (slots ! t) \<noteq> 0}"
  have T: "card ?T = length (filter (\<lambda>k. k \<noteq> 0) (identities slots))"
    using assms(1) by (simp add: length_filter_conv_card identities_def cong: conj_cong)
  have none: "member_slot ?a ! i \<noteq> Some s"
    using new i assign_used [OF preferred_ok [THEN conjunct1]]
      assign_bound [OF final_ok [THEN conjunct1] i slot] by (auto simp: newly_used_def)
  let ?U = "?T \<union> (\<lambda>j. the (member_slot ?a ! j)) ` ({..<length keys} - {i})"
  have sub: "{..<kMaxTrackedMembers} \<subseteq> ?T \<union> (\<lambda>j. the (member_slot ?a ! j)) ` ({..<length keys} - {i})"
  proof
    fix t assume "t \<in> {..<kMaxTrackedMembers}"
    then have t: "t < kMaxTrackedMembers" by simp
    show "t \<in> ?T \<union> (\<lambda>j. the (member_slot ?a ! j)) ` ({..<length keys} - {i})"
    proof (cases "ss_identity_key (slots ! t) = 0")
      case True
      with newly_used_full [OF i slot new t] obtain j where
        j: "j < length keys" "member_slot ?a ! j = Some t"
        using assign_used [OF preferred_ok [THEN conjunct1] t] by blast
      have "j \<noteq> i"
      proof
        assume "j = i"
        with j(2) have "member_slot (final_assignment slots keys) ! i = Some t"
          using final_ok [of keys slots] i by (simp add: extends_def)
        with slot none j(2) \<open>j = i\<close> show False by simp
      qed
      with j show ?thesis by (force intro: rev_image_eqI)
    qed (use t in simp)
  qed
  have "finite ?U" by simp
  from card_mono [OF this sub] have "kMaxTrackedMembers \<le> card ?U" by simp
  also have "\<dots> \<le> card ?T + card ((\<lambda>j. the (member_slot ?a ! j)) ` ({..<length keys} - {i}))"
    by (rule card_Un_le)
  also have "\<dots> \<le> card ?T + (length keys - 1)"
    using card_image_le [of "{..<length keys} - {i}" "\<lambda>j. the (member_slot ?a ! j)"] i by simp
  finally show False using room i T by simp
qed

section \<open>What the slots show after a snapshot\<close>

definition member_entry :: "'e link_env_scheme \<Rightarrow> LinkSide \<Rightarrow> SRT_SOCKGROUPDATA \<Rightarrow> SnapshotSlotState" where
  "member_entry env side member =
     (let (h, p) = (case TryExtractEndpoint env (peeraddr member) of
                      Some hp \<Rightarrow> hp | None \<Rightarrow> ([], 0))
      in \<lparr>ss_id = socket_id member, ss_connected = (if IsConnectedGroupMember member then 1 else 0),
          ss_identity_key = MemberIdentityKey env side member, ss_sock_state = sockstate member,
          ss_group_state = memberstate member, ss_peer_port = p, ss_peer_host = h\<rparr>)"

lemma fill_slot_entry:
  assumes "ss_identity_key st = 0 \<or> MemberIdentityKey env side member \<noteq> 0"
  shows "fill_slot env (MemberIdentityKey env side member) member st = member_entry env side member"
  using assms by (auto simp: fill_slot_def member_entry_def split: prod.split)

lemma read_write_snapshot [simp]: "read_snapshot_slot (write_snapshot_slot st s) = st"
  by (simp add: read_snapshot_slot_def write_snapshot_slot_def)

lemma read_snapshot_fields [simp]:
  "ss_id (read_snapshot_slot s) = member_id s"
  "ss_connected (read_snapshot_slot s) = member_connected s"
  "ss_identity_key (read_snapshot_slot s) = member_identity_key s"
  by (simp_all add: read_snapshot_slot_def)

lemma clear_unmatched_identity [simp]:
  "ss_identity_key (clear_unmatched b st) = ss_identity_key st"
  by (simp add: clear_unmatched_def)

lemma clear_unmatched_disconnected [simp]:
  "ss_id (clear_unmatched False st) = SRT_INVALID_SOCK"
  "ss_connected (clear_unmatched False st) = 0"
  by (simp_all add: clear_unmatched_def)

lemma member_entry_identity [simp]:
  "ss_identity_key (member_entry env side member) = MemberIdentityKey env side member"
  by (simp add: member_entry_def split: prod.split)

lemma member_entry_id [simp]:
  "ss_id (member_entry env side member) = socket_id member"
  "ss_connected (member_entry env side member) = (if IsConnectedGroupMember member then 1 else 0)"
  by (simp_all add: member_entry_def split: prod.split)

text \<open>The slots of a list of members, over the table as the snapshot reads it.\<close>

definition assigned ::
  "'e link_env_scheme \<Rightarrow> LinkSide \<Rightarrow> SRT_SOCKGROUPDATA list \<Rightarrow> SnapshotSlotState list \<Rightarrow> nat \<Rightarrow> nat" where
  "assigned env side members slots i =
     the (member_slot (final_assignment slots (map (MemberIdentityKey env side) members)) ! i)"

lemma assigned_Some:
  assumes "length members \<le> kMaxTrackedMembers" and "i < length members"
  shows "member_slot (final_assignment slots (map (MemberIdentityKey env side) members)) ! i
    = Some (assigned env side members slots i)"
  using final_total [of "map (MemberIdentityKey env side) members" i slots] assms
  by (auto simp: assigned_def)

lemma assigned_bound:
  assumes "length members \<le> kMaxTrackedMembers" and "i < length members"
  shows "assigned env side members slots i < kMaxTrackedMembers"
  using assign_bound [OF final_ok [THEN conjunct1] _ assigned_Some [OF assms]] assms(2) by simp

lemma assigned_inj:
  assumes "length members \<le> kMaxTrackedMembers"
  shows "inj_on (assigned env side members slots) {..<length members}"
proof (rule inj_onI)
  fix i j
  assume ij: "i \<in> {..<length members}" "j \<in> {..<length members}"
    "assigned env side members slots i = assigned env side members slots j"
  then have i: "i < length members" and j: "j < length members" by simp_all
  have "member_slot (final_assignment slots (map (MemberIdentityKey env side) members)) ! j
      = Some (assigned env side members slots i)"
    using assigned_Some [OF assms j] ij(3) by simp
  from assign_inj [OF final_ok [THEN conjunct1] _ _ assigned_Some [OF assms i] this] i j
  show "i = j" by simp
qed

lemma holds_member_assigned:
  assumes "length members \<le> kMaxTrackedMembers"
  shows "holds_member (final_assignment slots (map (MemberIdentityKey env side) members))
      (length members) s \<longleftrightarrow> s \<in> assigned env side members slots ` {..<length members}"
  using assigned_Some [OF assms, of _ slots env side]
  by (auto simp: holds_member_def image_iff)

context slot_kind
begin

lemma snapshot_recorded:
  fixes tracked :: "'z TrackedSlot_scheme list"
  assumes len: "length tracked = kMaxTrackedMembers" and n: "length members \<le> kMaxTrackedMembers"
    and i: "i < length members"
  shows "read_snapshot_slot (fst (snapshot_slots reset env side members tracked) !
      assigned env side members (map read_snapshot_slot tracked) i) = member_entry env side (members ! i)"
proof -
  let ?slots = "ReadSnapshotSlots tracked" and ?keys = "map (MemberIdentityKey env side) members"
  let ?s = "assigned env side members ?slots i"
  let ?new = "newly_used (preferred_assignment ?slots ?keys) (final_assignment ?slots ?keys) ?s"
  note slot = assigned_Some [OF n i, of ?slots env side]
  have "ss_identity_key (if ?new then evict_slot (?slots ! ?s) else ?slots ! ?s) = 0 \<or>
      MemberIdentityKey env side (members ! i) \<noteq> 0"
    using final_slot_cases [OF _ slot] preferred_picks [of i ?keys ?slots ?s] i
    by (auto simp: evict_slot_def)
  from fill_slot_entry [OF this] snapshot_slots_nth(3) [OF len i slot]
  show ?thesis using i by (simp add: ReadSnapshotSlots_def)
qed

lemma snapshot_unmatched:
  fixes tracked :: "'z TrackedSlot_scheme list"
  assumes len: "length tracked = kMaxTrackedMembers" and n: "length members \<le> kMaxTrackedMembers"
    and s: "s < kMaxTrackedMembers"
    and free: "s \<notin> assigned env side members (map read_snapshot_slot tracked) ` {..<length members}"
  shows "read_snapshot_slot (fst (snapshot_slots reset env side members tracked) ! s) =
      clear_unmatched False (read_snapshot_slot (tracked ! s))"
    and "rd (fst (snapshot_slots reset env side members tracked) ! s) =
      (rd (tracked ! s))\<lparr>cs_member_id := SRT_INVALID_SOCK, cs_member_connected := 0\<rparr>"
proof -
  have "fst (snapshot_slots reset env side members tracked) ! s =
      write_snapshot_slot (clear_unmatched False (ReadSnapshotSlots tracked ! s)) (tracked ! s)"
    using free s
    by (intro snapshot_slots_nth(4) [OF len])
      (simp_all add: holds_member_assigned [OF n] ReadSnapshotSlots_def)
  then have res: "fst (snapshot_slots reset env side members tracked) ! s =
      write_snapshot_slot (clear_unmatched False (read_snapshot_slot (tracked ! s))) (tracked ! s)"
    using s len by (simp add: ReadSnapshotSlots_def)
  show "read_snapshot_slot (fst (snapshot_slots reset env side members tracked) ! s) =
      clear_unmatched False (read_snapshot_slot (tracked ! s))"
    by (simp add: res)
  have "cs_member_identity (rd (tracked ! s)) = member_identity_key (tracked ! s)"
    by (rule rd_fields)
  then show "rd (fst (snapshot_slots reset env side members tracked) ! s) =
      (rd (tracked ! s))\<lparr>cs_member_id := SRT_INVALID_SOCK, cs_member_connected := 0\<rparr>"
    by (simp add: res rd_write_snapshot)
qed

lemma snapshot_stable:
  fixes tracked :: "'z TrackedSlot_scheme list"
  assumes len: "length tracked = kMaxTrackedMembers" and n: "length members \<le> kMaxTrackedMembers"
    and dk: "distinct_keys (map (MemberIdentityKey env side) members)"
    and ds: "distinct_keys (map member_identity_key tracked)"
    and i: "i < length members" and s: "s < kMaxTrackedMembers"
    and key: "member_identity_key (tracked ! s) = MemberIdentityKey env side (members ! i)"
      "MemberIdentityKey env side (members ! i) \<noteq> 0"
  shows "assigned env side members (map read_snapshot_slot tracked) i = s"
    and "rd (fst (snapshot_slots reset env side members tracked) ! s) =
      (rd (tracked ! s))\<lparr>cs_member_id := socket_id (members ! i),
        cs_member_connected := (if IsConnectedGroupMember (members ! i) then 1 else 0)\<rparr>"
proof -
  let ?slots = "ReadSnapshotSlots tracked" and ?keys = "map (MemberIdentityKey env side) members"
  have pref: "member_slot (preferred_assignment ?slots ?keys) ! i = Some s"
    by (rule identity_kept)
      (use len dk ds i s key in \<open>simp_all add: ReadSnapshotSlots_def identities_def comp_def\<close>)
  then have final: "member_slot (final_assignment ?slots ?keys) ! i = Some s"
    using final_ok [of ?keys ?slots] i by (simp add: extends_def)
  then show "assigned env side members (map read_snapshot_slot tracked) i = s"
    by (simp add: assigned_def ReadSnapshotSlots_def)
  have "slot_used (preferred_assignment ?slots ?keys) ! s"
    using assign_used [OF preferred_ok [THEN conjunct1] s] pref i by auto
  then have "\<not> newly_used (preferred_assignment ?slots ?keys) (final_assignment ?slots ?keys) s"
    by (simp add: newly_used_def)
  then have res: "fst (snapshot_slots reset env side members tracked) ! s = write_snapshot_slot
      (fill_slot env (MemberIdentityKey env side (members ! i)) (members ! i) (?slots ! s)) (tracked ! s)"
    using snapshot_slots_nth(3) [OF len i final] i by simp
  have "cs_member_identity (rd (tracked ! s)) = MemberIdentityKey env side (members ! i)"
    by (simp add: rd_fields key(1))
  then show "rd (fst (snapshot_slots reset env side members tracked) ! s) =
      (rd (tracked ! s))\<lparr>cs_member_id := socket_id (members ! i),
        cs_member_connected := (if IsConnectedGroupMember (members ! i) then 1 else 0)\<rparr>"
    using key(2) by (simp add: res rd_write_snapshot fill_slot_entry)
qed

lemma snapshot_distinct:
  fixes tracked :: "'z TrackedSlot_scheme list"
  assumes len: "length tracked = kMaxTrackedMembers" and n: "length members \<le> kMaxTrackedMembers"
    and dk: "distinct_keys (map (MemberIdentityKey env side) members)"
    and ds: "distinct_keys (map member_identity_key tracked)"
  shows "distinct_keys (map member_identity_key (fst (snapshot_slots reset env side members tracked)))"
proof -
  let ?res = "fst (snapshot_slots reset env side members tracked)"
  let ?slot = "assigned env side members (map read_snapshot_slot tracked)"
  have held: "member_identity_key (?res ! ?slot i) = MemberIdentityKey env side (members ! i)"
    if "i < length members" for i
    using arg_cong [OF snapshot_recorded [OF len n that, of env side], of ss_identity_key] by simp
  have free: "member_identity_key (?res ! s) = member_identity_key (tracked ! s)"
    if "s < kMaxTrackedMembers" "s \<notin> ?slot ` {..<length members}" for s
    using arg_cong [OF snapshot_unmatched(1) [OF len n that], of ss_identity_key] by simp
  have mixed: False
    if "i < length members" "t < kMaxTrackedMembers" "t \<notin> ?slot ` {..<length members}"
      "member_identity_key (?res ! ?slot i) = member_identity_key (?res ! t)"
      "member_identity_key (?res ! t) \<noteq> 0" for i t
    using snapshot_stable(1) [OF len n dk ds that(1,2)] that held free by auto
  show ?thesis
    unfolding distinct_keys_def
  proof (intro allI impI)
    fix s t
    assume "s < length (map member_identity_key ?res)" "t < length (map member_identity_key ?res)"
    then have st: "s < kMaxTrackedMembers" "t < kMaxTrackedMembers"
      using snapshot_slots_nth(1) [OF len, of env side members] by simp_all
    assume "map member_identity_key ?res ! s = map member_identity_key ?res ! t \<and>
      map member_identity_key ?res ! s \<noteq> 0"
    then have eq: "member_identity_key (?res ! s) = member_identity_key (?res ! t)"
      "member_identity_key (?res ! s) \<noteq> 0"
      using st snapshot_slots_nth(1) [OF len, of env side members] by auto
    show "s = t"
    proof (cases "s \<in> ?slot ` {..<length members}"; cases "t \<in> ?slot ` {..<length members}")
      assume "s \<in> ?slot ` {..<length members}" "t \<in> ?slot ` {..<length members}"
      then obtain i j where "i < length members" "j < length members" "s = ?slot i" "t = ?slot j"
        by auto
      then show ?thesis using eq held dk by (auto simp: distinct_keys_def)
    next
      assume "s \<in> ?slot ` {..<length members}" "t \<notin> ?slot ` {..<length members}"
      then show ?thesis using mixed st eq by auto
    next
      assume s: "s \<notin> ?slot ` {..<length members}" and "t \<in> ?slot ` {..<length members}"
      then obtain j where "j < length members" "t = ?slot j" by auto
      then show ?thesis using mixed [of j s] s st eq by simp
    next
      assume "s \<notin> ?slot ` {..<length members}" "t \<notin> ?slot ` {..<length members}"
      then show ?thesis using free st eq ds len by (auto simp: distinct_keys_def)
    qed
  qed
qed

lemma snapshot_remembers:
  fixes tracked :: "'z TrackedSlot_scheme list"
  assumes len: "length tracked = kMaxTrackedMembers"
    and room: "length (filter tracks tracked) + length members \<le> kMaxTrackedMembers"
    and s: "s < kMaxTrackedMembers" and tr: "tracks (tracked ! s)"
  shows "member_identity_key (fst (snapshot_slots reset env side members tracked) ! s)
    = member_identity_key (tracked ! s)"
proof -
  let ?slots = "ReadSnapshotSlots tracked" and ?keys = "map (MemberIdentityKey env side) members"
  have n: "length members \<le> kMaxTrackedMembers" using room by simp
  show ?thesis
  proof (cases "s \<in> assigned env side members (map read_snapshot_slot tracked) ` {..<length members}")
    case False
    from arg_cong [OF snapshot_unmatched(1) [OF len n s this], of ss_identity_key]
    show ?thesis by simp
  next
    case True
    then obtain i where i: "i < length members"
      and s_eq: "s = assigned env side members (map read_snapshot_slot tracked) i" by auto
    have slot: "member_slot (final_assignment ?slots ?keys) ! i = Some s"
      using assigned_Some [OF n i, of ?slots env side] s_eq by (simp add: ReadSnapshotSlots_def)
    have cnt: "length (filter (\<lambda>k. k \<noteq> 0) (identities ?slots)) = length (filter tracks tracked)"
      by (simp add: identities_def ReadSnapshotSlots_def filter_map comp_def tracks_def [abs_def])
    have "\<not> newly_used (preferred_assignment ?slots ?keys) (final_assignment ?slots ?keys) s"
      by (rule not_newly_used [OF _ _ _ slot])
        (use len room i cnt in \<open>simp_all add: ReadSnapshotSlots_def\<close>)
    then have "member_slot (preferred_assignment ?slots ?keys) ! i = Some s"
      using final_slot_cases [OF _ slot] i by simp
    from preferred_picks [OF _ this] i s len tr
    have "MemberIdentityKey env side (members ! i) = member_identity_key (tracked ! s)"
      by (simp add: ReadSnapshotSlots_def tracks_def)
    with arg_cong [OF snapshot_recorded [OF len n i, of env side], of ss_identity_key] s_eq
    show ?thesis by simp
  qed
qed

end

section \<open>The span\<close>

lemma foldl_span:
  fixes n :: nat and P :: "nat \<Rightarrow> bool"
  defines "k \<equiv> foldl (\<lambda>span i. if P i then i + 1 else span) 0 [0..<n]"
  shows "k \<le> n \<and> (\<forall>i. k \<le> i \<and> i < n \<longrightarrow> \<not> P i) \<and> (0 < k \<longrightarrow> P (k - 1))"
  unfolding k_def
proof (induction n)
  case (Suc n)
  then show ?case by (auto simp: less_Suc_eq le_less_Suc_eq)
qed simp

text \<open>The least number of slots that holds every identity of a table.\<close>

definition is_span :: "SnapshotSlotState list \<Rightarrow> nat \<Rightarrow> bool" where
  "is_span slots k \<longleftrightarrow>
     k \<le> kMaxTrackedMembers \<and>
     (\<forall>i. k \<le> i \<and> i < kMaxTrackedMembers \<longrightarrow> ss_identity_key (slots ! i) = 0) \<and>
     (0 < k \<longrightarrow> ss_identity_key (slots ! (k - 1)) \<noteq> 0)"

lemma WriteSnapshotSlots_span:
  assumes "length slots = kMaxTrackedMembers" and "length tracked = kMaxTrackedMembers"
  shows "is_span (map read_snapshot_slot (fst (WriteSnapshotSlots slots tracked)))
    (snd (WriteSnapshotSlots slots tracked))"
proof -
  have "map read_snapshot_slot (map2 write_snapshot_slot slots tracked) = slots"
    using assms by (intro nth_equalityI) simp_all
  then show ?thesis
    using foldl_span [of "\<lambda>i. ss_identity_key (slots ! i) \<noteq> 0" kMaxTrackedMembers]
    by (auto simp: WriteSnapshotSlots_def is_span_def)
qed

context slot_kind
begin

lemma snapshot_span:
  fixes tracked :: "'z TrackedSlot_scheme list"
  assumes "length tracked = kMaxTrackedMembers"
  shows "is_span (map read_snapshot_slot (fst (snapshot_slots reset env side members tracked)))
    (snd (snapshot_slots reset env side members tracked))"
  using snapshot_slots_nth(2) [OF assms, of env side members] WriteSnapshotSlots_span by metis

end

section \<open>Properties of \<open>SaveMemberSnapshot\<close>\<close>

definition snapshot_view :: "LinkSide \<Rightarrow> 'm LinkMetrics_scheme \<Rightarrow> SnapshotSlotState list" where
  "snapshot_view side m =
     (case side of
        LinkSide.kInput \<Rightarrow> map read_snapshot_slot (input_tracked m)
      | LinkSide.kOutput \<Rightarrow> map read_snapshot_slot (output_tracked m))"

definition snapshot_count :: "LinkSide \<Rightarrow> 'm LinkMetrics_scheme \<Rightarrow> int" where
  "snapshot_count side m =
     (case side of LinkSide.kInput \<Rightarrow> input_links_snapshot_count m
                 | LinkSide.kOutput \<Rightarrow> output_links_snapshot_count m)"

abbreviation member_keys :: "'e link_env_scheme \<Rightarrow> LinkSide \<Rightarrow> SRT_SOCKGROUPDATA list \<Rightarrow> u64 list" where
  "member_keys env side members \<equiv> map (MemberIdentityKey env side) members"

lemma save_input [simp]:
  "input_tracked (SaveMemberSnapshot env LinkSide.kInput members m) =
     fst (snapshot_slots reset_input_slot env LinkSide.kInput members (input_tracked m))"
  "output_tracked (SaveMemberSnapshot env LinkSide.kInput members m) = output_tracked m"
  "input_links_snapshot_count (SaveMemberSnapshot env LinkSide.kInput members m) =
     int (snd (snapshot_slots reset_input_slot env LinkSide.kInput members (input_tracked m)))"
  "output_links_snapshot_count (SaveMemberSnapshot env LinkSide.kInput members m) =
     output_links_snapshot_count m"
  by (simp_all add: SaveMemberSnapshot_def split_beta)

lemma save_output [simp]:
  "output_tracked (SaveMemberSnapshot env LinkSide.kOutput members m) =
     fst (snapshot_slots reset_output_slot env LinkSide.kOutput members (output_tracked m))"
  "input_tracked (SaveMemberSnapshot env LinkSide.kOutput members m) = input_tracked m"
  "output_links_snapshot_count (SaveMemberSnapshot env LinkSide.kOutput members m) =
     int (snd (snapshot_slots reset_output_slot env LinkSide.kOutput members (output_tracked m)))"
  "input_links_snapshot_count (SaveMemberSnapshot env LinkSide.kOutput members m) =
     input_links_snapshot_count m"
  by (simp_all add: SaveMemberSnapshot_def split_beta)

lemma save_tables_ok: "tables_ok m \<Longrightarrow> tables_ok (SaveMemberSnapshot env side members m)"
  by (cases side)
    (simp_all add: tables_ok_def input_slot.snapshot_slots_nth(1) output_slot.snapshot_slots_nth(1))

lemma save_other_side:
  "compaction_view (other_side side) (SaveMemberSnapshot env side members m)
     = compaction_view (other_side side) m \<and>
   snapshot_view (other_side side) (SaveMemberSnapshot env side members m)
     = snapshot_view (other_side side) m \<and>
   snapshot_count (other_side side) (SaveMemberSnapshot env side members m)
     = snapshot_count (other_side side) m"
  by (cases side) (simp_all add: compaction_view_def snapshot_view_def snapshot_count_def)

lemma save_recorded:
  assumes "tables_ok m" and "length members \<le> kMaxTrackedMembers" and "i < length members"
  shows "snapshot_view side (SaveMemberSnapshot env side members m) !
    assigned env side members (snapshot_view side m) i = member_entry env side (members ! i)"
  using assms assigned_bound [OF assms(2,3), of env side "snapshot_view side m"]
  by (cases side)
    (simp_all add: snapshot_view_def tables_ok_def input_slot.snapshot_recorded
      output_slot.snapshot_recorded input_slot.snapshot_slots_nth(1) output_slot.snapshot_slots_nth(1))

lemma save_unmatched:
  assumes "tables_ok m" and "length members \<le> kMaxTrackedMembers" and "s < kMaxTrackedMembers"
    and "s \<notin> assigned env side members (snapshot_view side m) ` {..<length members}"
  shows "snapshot_view side (SaveMemberSnapshot env side members m) ! s
      = clear_unmatched False (snapshot_view side m ! s)"
    and "compaction_view side (SaveMemberSnapshot env side members m) ! s
      = (compaction_view side m ! s)\<lparr>cs_member_id := SRT_INVALID_SOCK, cs_member_connected := 0\<rparr>"
  using assms
  by (cases side;
      simp add: snapshot_view_def compaction_view_def tables_ok_def
        input_slot.snapshot_unmatched output_slot.snapshot_unmatched
        input_slot.snapshot_slots_nth(1) output_slot.snapshot_slots_nth(1))+

text \<open>
  C11. A snapshot of at most sixteen members records every member: each has a slot of its own
  that shows its socket, its states, its peer and its identity key; every other slot is shown
  disconnected with no socket but keeps its identity and its traffic counters; the other side is
  untouched.
\<close>

theorem SaveMemberSnapshot_records:
  assumes "tables_ok m" and "length members \<le> kMaxTrackedMembers"
    and m': "m' = SaveMemberSnapshot env side members m"
  shows "\<exists>slot. inj_on slot {..<length members} \<and> slot ` {..<length members} \<subseteq> {..<kMaxTrackedMembers} \<and>
    (\<forall>i < length members. snapshot_view side m' ! slot i = member_entry env side (members ! i)) \<and>
    (\<forall>s < kMaxTrackedMembers. s \<notin> slot ` {..<length members} \<longrightarrow>
       snapshot_view side m' ! s = clear_unmatched False (snapshot_view side m ! s) \<and>
       compaction_view side m' ! s = (compaction_view side m ! s)
         \<lparr>cs_member_id := SRT_INVALID_SOCK, cs_member_connected := 0\<rparr>) \<and>
    compaction_view (other_side side) m' = compaction_view (other_side side) m \<and>
    snapshot_view (other_side side) m' = snapshot_view (other_side side) m"
proof (intro exI conjI)
  let ?slot = "assigned env side members (snapshot_view side m)"
  show "inj_on ?slot {..<length members}" by (rule assigned_inj [OF assms(2)])
  show "?slot ` {..<length members} \<subseteq> {..<kMaxTrackedMembers}"
    using assigned_bound [OF assms(2)] by auto
  show "\<forall>i < length members. snapshot_view side m' ! ?slot i = member_entry env side (members ! i)"
    unfolding m' using assms(1,2) by (simp add: save_recorded)
  show "\<forall>s < kMaxTrackedMembers. s \<notin> ?slot ` {..<length members} \<longrightarrow>
       snapshot_view side m' ! s = clear_unmatched False (snapshot_view side m ! s) \<and>
       compaction_view side m' ! s = (compaction_view side m ! s)
         \<lparr>cs_member_id := SRT_INVALID_SOCK, cs_member_connected := 0\<rparr>"
    unfolding m' using assms(1,2) by (simp add: save_unmatched)
qed (simp_all add: m' save_other_side)

text \<open>
  Identities are stable: when the remembered identities and those of the members are
  distinct, a member whose key a slot remembers is recorded in that very slot, and its traffic
  counters go on from where they were.
\<close>

theorem SaveMemberSnapshot_stable:
  assumes "tables_ok m" and "length members \<le> kMaxTrackedMembers"
    and "distinct_keys (member_keys env side members)"
    and "distinct_keys (identities (snapshot_view side m))"
    and "i < length members" and "s < kMaxTrackedMembers"
    and "ss_identity_key (snapshot_view side m ! s) = MemberIdentityKey env side (members ! i)"
    and "MemberIdentityKey env side (members ! i) \<noteq> 0"
    and m': "m' = SaveMemberSnapshot env side members m"
  shows "snapshot_view side m' ! s = member_entry env side (members ! i) \<and>
    compaction_view side m' ! s = (compaction_view side m ! s)
      \<lparr>cs_member_id := socket_id (members ! i),
       cs_member_connected := (if IsConnectedGroupMember (members ! i) then 1 else 0)\<rparr>"
proof (cases side)
  case kInput
  have len: "length (input_tracked m) = kMaxTrackedMembers" using assms(1) by (simp add: tables_ok_def)
  have "distinct_keys (map member_identity_key (input_tracked m))"
    using assms(4) kInput by (simp add: identities_def snapshot_view_def comp_def)
  moreover have "member_identity_key (input_tracked m ! s) = MemberIdentityKey env side (members ! i)"
    using assms(6,7) kInput len by (simp add: snapshot_view_def)
  ultimately show ?thesis
    using input_slot.snapshot_stable [of "input_tracked m" members env side i s]
      input_slot.snapshot_recorded [of "input_tracked m" members i env side] assms len kInput
    by (auto simp: snapshot_view_def compaction_view_def m' input_slot.snapshot_slots_nth(1))
next
  case kOutput
  have len: "length (output_tracked m) = kMaxTrackedMembers" using assms(1) by (simp add: tables_ok_def)
  have "distinct_keys (map member_identity_key (output_tracked m))"
    using assms(4) kOutput by (simp add: identities_def snapshot_view_def comp_def)
  moreover have "member_identity_key (output_tracked m ! s) = MemberIdentityKey env side (members ! i)"
    using assms(6,7) kOutput len by (simp add: snapshot_view_def)
  ultimately show ?thesis
    using output_slot.snapshot_stable [of "output_tracked m" members env side i s]
      output_slot.snapshot_recorded [of "output_tracked m" members i env side] assms len kOutput
    by (auto simp: snapshot_view_def compaction_view_def m' output_slot.snapshot_slots_nth(1))
qed

lemma length_snapshot_view: "tables_ok m \<Longrightarrow> length (snapshot_view side m) = kMaxTrackedMembers"
  by (cases side) (simp_all add: snapshot_view_def tables_ok_def)

lemma snapshot_shares_keys:
  assumes "tables_ok m" and "length members \<le> kMaxTrackedMembers"
    and after: "distinct_keys (identities (snapshot_view side (SaveMemberSnapshot env side members m)))"
  shows "distinct_keys (member_keys env side members)"
  unfolding distinct_keys_def
proof (intro allI impI)
  let ?slot = "assigned env side members (snapshot_view side m)"
  let ?after = "snapshot_view side (SaveMemberSnapshot env side members m)"
  fix i j assume "i < length (member_keys env side members)" "j < length (member_keys env side members)"
  then have ij: "i < length members" "j < length members" by simp_all
  assume eq: "member_keys env side members ! i = member_keys env side members ! j \<and>
    member_keys env side members ! i \<noteq> 0"
  have key: "identities ?after ! ?slot k = MemberIdentityKey env side (members ! k)"
    and bound: "?slot k < length (identities ?after)" if k: "k < length members" for k
  proof -
    have "length ?after = kMaxTrackedMembers"
      by (rule length_snapshot_view [OF save_tables_ok [OF assms(1)]])
    then show "?slot k < length (identities ?after)"
      using assigned_bound [OF assms(2) k] by (simp add: identities_def)
    then show "identities ?after ! ?slot k = MemberIdentityKey env side (members ! k)"
      using arg_cong [OF save_recorded [OF assms(1,2) k, of side env], of ss_identity_key]
      by (simp add: identities_def member_entry_def split_beta)
  qed
  have "?slot i = ?slot j"
    using after [unfolded distinct_keys_def, rule_format, OF bound [OF ij(1)] bound [OF ij(2)]]
      eq ij key [OF ij(1)] key [OF ij(2)] by auto
  then show "i = j" using assigned_inj [OF assms(2)] ij by (auto dest: inj_onD)
qed

text \<open>
  C12. When the slots of a side remember no key twice, they remember none twice after a snapshot
  exactly when the members of the snapshot have distinct keys (a key of 0, no identity, aside): the
  matching never copies a key to a second slot, and nothing merges members that share one. An
  input member is identified by its local endpoint, so two links to the same local endpoint share
  a key and take two slots that remember it.
\<close>

theorem SaveMemberSnapshot_distinct:
  assumes "tables_ok m" and "length members \<le> kMaxTrackedMembers"
    and "distinct_keys (identities (snapshot_view side m))"
  shows "distinct_keys (identities (snapshot_view side (SaveMemberSnapshot env side members m))) \<longleftrightarrow>
    distinct_keys (member_keys env side members)"
proof
  assume "distinct_keys (member_keys env side members)"
  then show "distinct_keys (identities (snapshot_view side (SaveMemberSnapshot env side members m)))"
    using assms
      input_slot.snapshot_distinct [of "input_tracked m" members env side]
      output_slot.snapshot_distinct [of "output_tracked m" members env side]
    by (cases side) (simp_all add: identities_def snapshot_view_def tables_ok_def comp_def)
qed (rule snapshot_shares_keys [OF assms(1,2)])

text \<open>
  C13. No identity is forgotten while there is room: when the remembered identities and the
  members together are at most sixteen, every slot that remembers an identity still remembers it
  after the snapshot, so eviction happens only in a full table.
\<close>

theorem SaveMemberSnapshot_remembers:
  assumes "tables_ok m"
    and "length (filter (\<lambda>st. ss_identity_key st \<noteq> 0) (snapshot_view side m)) + length members
      \<le> kMaxTrackedMembers"
    and "s < kMaxTrackedMembers" and "ss_identity_key (snapshot_view side m ! s) \<noteq> 0"
  shows "ss_identity_key (snapshot_view side (SaveMemberSnapshot env side members m) ! s)
    = ss_identity_key (snapshot_view side m ! s)"
  using assms
    input_slot.snapshot_remembers [of "input_tracked m" members s env side]
    output_slot.snapshot_remembers [of "output_tracked m" members s env side]
  by (cases side)
    (simp_all add: snapshot_view_def tables_ok_def filter_map comp_def tracks_def [abs_def]
      input_slot.snapshot_slots_nth(1) output_slot.snapshot_slots_nth(1))

text \<open>
  The visible span of a side after a snapshot is exact: it is at most sixteen, every slot from
  it on is without identity and, unless it is zero, the last slot in it has one.
\<close>

theorem SaveMemberSnapshot_span:
  assumes "tables_ok m" and m': "m' = SaveMemberSnapshot env side members m"
  shows "is_span (snapshot_view side m') (SnapshotCountCapped side m') \<and>
    snapshot_count side m' = int (SnapshotCountCapped side m')"
proof (cases side)
  case kInput
  then show ?thesis
    using assms input_slot.snapshot_span [of "input_tracked m" env side members]
    by (auto simp: snapshot_view_def tables_ok_def SnapshotCountCapped_def is_span_def snapshot_count_def)
next
  case kOutput
  then show ?thesis
    using assms output_slot.snapshot_span [of "output_tracked m" env side members]
    by (auto simp: snapshot_view_def tables_ok_def SnapshotCountCapped_def is_span_def snapshot_count_def)
qed

section \<open>Clearing and marking\<close>

text \<open>
  Marking a side disconnected keeps every identity, socket and counter of it: only the
  connected flags of the tracked slots within the span become 0, so afterwards no tracked slot in
  the span is live; clearing a side instead forgets every identity and sets the span to zero. Both
  leave the other side alone.
\<close>

theorem mark_and_clear:
  assumes "tables_ok m" and "s < SnapshotCountCapped side m"
  shows "compaction_view side (MarkAllTrackedLinksDisconnected side m) ! s =
      (compaction_view side m ! s)
        \<lparr>cs_member_connected := (if cs_tracks (compaction_view side m ! s) then 0
           else cs_member_connected (compaction_view side m ! s))\<rparr> \<and>
    \<not> cs_live (compaction_view side (MarkAllTrackedLinksDisconnected side m) ! s) \<and>
    compaction_view (other_side side) (MarkAllTrackedLinksDisconnected side m)
      = compaction_view (other_side side) m \<and>
    \<not> cs_tracks (compaction_view side (ClearTrackedMembersForDisconnectedSocket side m) ! s) \<and>
    SnapshotCountCapped side (ClearTrackedMembersForDisconnectedSocket side m) = 0 \<and>
    compaction_view (other_side side) (ClearTrackedMembersForDisconnectedSocket side m)
      = compaction_view (other_side side) m"
proof -
  have s: "s < kMaxTrackedMembers" using assms(2) by (simp add: SnapshotCountCapped_def Let_def)
  show ?thesis
    using assms s
    by (cases side)
      (simp_all add: compaction_view_def MarkAllTrackedLinksDisconnected_def tables_ok_def
        mark_prefix_def nth_append mark_disconnected_def slot_defs cs_tracks_def cs_live_def
        ClearTrackedMembersForDisconnectedSocket_def clear_slot_def SnapshotCountCapped_def)
qed

section \<open>Witnesses\<close>

definition example_env :: link_env where
  "example_env = \<lparr>srt_getsockname = (\<lambda>_. None), inet_ntop = (\<lambda>_. Some ''10.0.0.1'')\<rparr>"

definition example_member :: SRT_SOCKGROUPDATA where
  "example_member =
     \<lparr>socket_id = 40, peeraddr = AF_INET [10, 0, 0, 1] 9000, sockstate = SRTS_CONNECTED,
      memberstate = SRT_GST_RUNNING, token = 0\<rparr>"

text \<open>A table that remembers the example member as disconnected, with 77 bytes received.\<close>

definition remembering_metrics :: LinkMetrics where
  "remembering_metrics = example_metrics
     \<lparr>output_tracked := default_OutputTrackedSlot
        \<lparr>member_identity_key := MemberIdentityKey example_env LinkSide.kOutput example_member,
         link_rx_bytes_total := 77\<rparr> # replicate 15 default_OutputTrackedSlot,
      output_links_snapshot_count := 1\<rparr>"

lemma example_key: "MemberIdentityKey example_env LinkSide.kOutput example_member \<noteq> 0"
  by code_simp

lemma remembering_tables_ok: "tables_ok remembering_metrics"
  by (simp add: tables_ok_def remembering_metrics_def example_metrics_def kMaxTrackedMembers_def)

lemma remembering_view: "snapshot_view LinkSide.kOutput remembering_metrics =
    read_snapshot_slot (default_OutputTrackedSlot
        \<lparr>member_identity_key := MemberIdentityKey example_env LinkSide.kOutput example_member,
         link_rx_bytes_total := 77\<rparr>) # replicate 15 (read_snapshot_slot default_OutputTrackedSlot)"
  by (simp add: snapshot_view_def remembering_metrics_def)

lemma remembering_rx: "cs_rx_total (compaction_view LinkSide.kOutput remembering_metrics ! 0) = 77"
  by (simp add: compaction_view_def remembering_metrics_def read_output_compaction_def
      read_compaction_common_def)

lemma distinct_keys_single: "distinct_keys [k]"
  by (simp add: distinct_keys_def)

lemma distinct_keys_remembering:
  "distinct_keys (identities (snapshot_view LinkSide.kOutput remembering_metrics))"
  by (auto simp: distinct_keys_def identities_def remembering_view nth_Cons'
      default_OutputTrackedSlot_def split: if_splits)

theorem SaveMemberSnapshot_records_witness:
  "\<exists>slot. slot ` {..<Suc 0} \<subseteq> {..<kMaxTrackedMembers} \<and>
     snapshot_view LinkSide.kOutput
       (SaveMemberSnapshot example_env LinkSide.kOutput [example_member] example_metrics) ! slot (0::nat)
     = member_entry example_env LinkSide.kOutput example_member"
proof -
  from SaveMemberSnapshot_records [OF example_tables_ok _ refl, of "[example_member]" LinkSide.kOutput example_env]
  obtain slot where "slot ` {..<length [example_member]} \<subseteq> {..<kMaxTrackedMembers}"
    "\<forall>i < length [example_member]. snapshot_view LinkSide.kOutput
       (SaveMemberSnapshot example_env LinkSide.kOutput [example_member] example_metrics) ! slot i
     = member_entry example_env LinkSide.kOutput ([example_member] ! i)"
    by (auto simp: kMaxTrackedMembers_def)
  then show ?thesis by (intro exI [of _ slot]) simp
qed

theorem SaveMemberSnapshot_stable_witness:
  "cs_rx_total (compaction_view LinkSide.kOutput
     (SaveMemberSnapshot example_env LinkSide.kOutput [example_member] remembering_metrics) ! 0) = 77 \<and>
   snapshot_view LinkSide.kOutput
     (SaveMemberSnapshot example_env LinkSide.kOutput [example_member] remembering_metrics) ! 0
   = member_entry example_env LinkSide.kOutput example_member"
  using SaveMemberSnapshot_stable [OF remembering_tables_ok _ _ distinct_keys_remembering _ _ _ _ refl,
      of "[example_member]" example_env 0 0] example_key
  by (simp add: kMaxTrackedMembers_def distinct_keys_single remembering_view remembering_rx)

theorem SaveMemberSnapshot_distinct_witness:
  "distinct_keys (identities (snapshot_view LinkSide.kOutput
     (SaveMemberSnapshot example_env LinkSide.kOutput [example_member] remembering_metrics))) \<and>
   \<not> distinct_keys (identities (snapshot_view LinkSide.kOutput
     (SaveMemberSnapshot example_env LinkSide.kOutput [example_member, example_member]
       remembering_metrics)))"
proof -
  have "\<not> distinct_keys (member_keys example_env LinkSide.kOutput [example_member, example_member])"
    using example_key by (force simp: distinct_keys_def)
  then show ?thesis
    using SaveMemberSnapshot_distinct [OF remembering_tables_ok _ distinct_keys_remembering,
        of "[example_member]" example_env]
      SaveMemberSnapshot_distinct [OF remembering_tables_ok _ distinct_keys_remembering,
        of "[example_member, example_member]" example_env]
    by (simp add: kMaxTrackedMembers_def distinct_keys_single)
qed

theorem SaveMemberSnapshot_remembers_witness:
  "ss_identity_key (snapshot_view LinkSide.kOutput
     (SaveMemberSnapshot example_env LinkSide.kOutput [example_member] remembering_metrics) ! 0)
   = MemberIdentityKey example_env LinkSide.kOutput example_member"
proof -
  have key: "ss_identity_key (snapshot_view LinkSide.kOutput remembering_metrics ! 0)
      = MemberIdentityKey example_env LinkSide.kOutput example_member"
    by (simp add: remembering_view)
  have room: "length (filter (\<lambda>st. ss_identity_key st \<noteq> 0)
      (snapshot_view LinkSide.kOutput remembering_metrics)) + length [example_member] \<le> kMaxTrackedMembers"
    using example_key
    by (simp add: remembering_view default_OutputTrackedSlot_def kMaxTrackedMembers_def)
  show ?thesis
    using SaveMemberSnapshot_remembers [OF remembering_tables_ok room, of 0 example_env] key example_key
    by (simp add: kMaxTrackedMembers_def)
qed

theorem SaveMemberSnapshot_span_witness:
  "is_span (snapshot_view LinkSide.kOutput
     (SaveMemberSnapshot example_env LinkSide.kOutput [example_member] example_metrics))
   (SnapshotCountCapped LinkSide.kOutput
     (SaveMemberSnapshot example_env LinkSide.kOutput [example_member] example_metrics))"
  using SaveMemberSnapshot_span [OF example_tables_ok refl] by blast

theorem mark_and_clear_witness:
  "\<not> cs_live (compaction_view LinkSide.kOutput
     (MarkAllTrackedLinksDisconnected LinkSide.kOutput example_metrics) ! 1)"
proof -
  have "1 < SnapshotCountCapped LinkSide.kOutput example_metrics"
    by (simp add: SnapshotCountCapped_def example_metrics_def kMaxTrackedMembers_def)
  from mark_and_clear [OF example_tables_ok this] show ?thesis by blast
qed

end
