(* ===== verification/AutoCompact.thy ===== *)
theory AutoCompact
  imports LinkSlots
begin

text \<open>
  Compaction on request and on a timer: the POST handler of \<open>/metrics/links/compact\<close>
  (\<open>src/src/metrics.cpp\<close>) and \<open>MaybeAutoCompactLinkSlots\<close> (\<open>src/src/link_slot_tracker.cpp\<close>), a
  deadline per side that starts when a disconnected slot is seen and compacts the side when it has
  passed. Times are \<open>int\<close>s of milliseconds; a deadline of 0 is unset.
\<close>

section \<open>The timer\<close>

definition delay_enabled :: "Config \<Rightarrow> bool" where
  "delay_enabled cfg \<longleftrightarrow> 0 \<le> links_compact_disconnect_delay_ms cfg"

definition side_enabled :: "Config \<Rightarrow> LinkSide \<Rightarrow> bool" where
  "side_enabled cfg side =
     (case links_compact_sides cfg of
        AutoCompactSides.kBoth \<Rightarrow> True
      | AutoCompactSides.kInput \<Rightarrow> side = LinkSide.kInput
      | AutoCompactSides.kOutput \<Rightarrow> side = LinkSide.kOutput)"

record TriggerOutcome =
  delay_triggered :: bool
  outcome_result :: CompactResult

definition no_outcome :: TriggerOutcome where
  "no_outcome = \<lparr>delay_triggered = False, outcome_result = default_CompactResult\<rparr>"

definition any_disconnected :: "nat \<Rightarrow> 'z TrackedSlot_scheme list \<Rightarrow> bool" where
  "any_disconnected capped tracked \<longleftrightarrow>
     list_ex (\<lambda>i. tracks (tracked ! i) \<and> \<not> live (tracked ! i)) [0..<capped]"

definition has_disconnected_slots :: "LinkSide \<Rightarrow> 'm LinkMetrics_scheme \<Rightarrow> bool" where
  "has_disconnected_slots side m =
     (case side of
        LinkSide.kInput \<Rightarrow> any_disconnected (SnapshotCountCapped side m) (input_tracked m)
      | LinkSide.kOutput \<Rightarrow> any_disconnected (SnapshotCountCapped side m) (output_tracked m))"

definition state_index :: "LinkSide \<Rightarrow> nat" where
  "state_index side = (if side = LinkSide.kInput then 0 else 1)"

definition deadline :: "LinkSide \<Rightarrow> 'm LinkMetrics_scheme \<Rightarrow> int" where
  "deadline side m = auto_compact_state m ! state_index side"

definition set_deadline :: "LinkSide \<Rightarrow> int \<Rightarrow> 'm LinkMetrics_scheme \<Rightarrow> 'm LinkMetrics_scheme" where
  "set_deadline side d m =
     m\<lparr>auto_compact_state := (auto_compact_state m)[state_index side := d]\<rparr>"

definition run_for_side ::
  "Config \<Rightarrow> int \<Rightarrow> LinkSide \<Rightarrow> 'm LinkMetrics_scheme \<Rightarrow> 'm LinkMetrics_scheme \<times> TriggerOutcome" where
  "run_for_side cfg now side m =
     (if \<not> side_enabled cfg side then (set_deadline side 0 m, no_outcome)
      else
        let (m1, trigger) =
          (if \<not> has_disconnected_slots side m then (set_deadline side 0 m, False)
           else if deadline side m = 0 then
             (set_deadline side (now + links_compact_disconnect_delay_ms cfg) m, False)
           else if deadline side m \<le> now then (set_deadline side 0 m, True)
           else (m, False))
        in if \<not> trigger then (m1, no_outcome)
           else (case CompactSlotsLocked side m1 of
                   (m2, r) \<Rightarrow> (m2, \<lparr>delay_triggered = True, outcome_result = r\<rparr>)))"

text \<open>The outcomes are what the log lines of the two sides report.\<close>

definition MaybeAutoCompactLinkSlots ::
  "Config \<Rightarrow> int \<Rightarrow> 'm LinkMetrics_scheme \<Rightarrow> 'm LinkMetrics_scheme \<times> TriggerOutcome \<times> TriggerOutcome" where
  "MaybeAutoCompactLinkSlots cfg now m =
     (if now \<le> 0 \<or> \<not> delay_enabled cfg then (m, no_outcome, no_outcome)
      else (case run_for_side cfg now LinkSide.kInput m of
              (m1, input_outcome) \<Rightarrow>
                (case run_for_side cfg now LinkSide.kOutput m1 of
                   (m2, output_outcome) \<Rightarrow> (m2, input_outcome, output_outcome))))"

section \<open>The request handler\<close>

datatype CompactDirection = kInput | kOutput | kBoth

text \<open>The parameter is the query parameter \<open>direction\<close> of the request, if it has one.\<close>

definition ParseCompactDirection :: "string option \<Rightarrow> CompactDirection option" where
  "ParseCompactDirection param =
     (case param of
        None \<Rightarrow> Some CompactDirection.kBoth
      | Some value \<Rightarrow>
          if value = ''input'' then Some CompactDirection.kInput
          else if value = ''output'' then Some CompactDirection.kOutput
          else if value = ''both'' then Some CompactDirection.kBoth
          else None)"

record CompactResponse =
  direction :: string
  include_input :: bool
  include_output :: bool
  response_input :: CompactResult
  response_output :: CompactResult

definition default_CompactResponse :: CompactResponse where
  "default_CompactResponse =
     \<lparr>direction = [], include_input = False, include_output = False,
      response_input = default_CompactResult, response_output = default_CompactResult\<rparr>"

text \<open>\<open>None\<close> is the answer with status 400.\<close>

definition handle_compact ::
  "string option \<Rightarrow> 'm LinkMetrics_scheme \<Rightarrow> 'm LinkMetrics_scheme \<times> CompactResponse option" where
  "handle_compact param m =
     (case ParseCompactDirection param of
        None \<Rightarrow> (m, None)
      | Some CompactDirection.kInput \<Rightarrow>
          (case CompactSlotsLocked LinkSide.kInput m of
             (m1, r) \<Rightarrow> (m1, Some (default_CompactResponse
                \<lparr>direction := ''input'', include_input := True, response_input := r\<rparr>)))
      | Some CompactDirection.kOutput \<Rightarrow>
          (case CompactSlotsLocked LinkSide.kOutput m of
             (m1, r) \<Rightarrow> (m1, Some (default_CompactResponse
                \<lparr>direction := ''output'', include_output := True, response_output := r\<rparr>)))
      | Some CompactDirection.kBoth \<Rightarrow>
          (case CompactSlotsLocked LinkSide.kInput m of
             (m1, ri) \<Rightarrow>
               (case CompactSlotsLocked LinkSide.kOutput m1 of
                  (m2, ro) \<Rightarrow> (m2, Some (default_CompactResponse
                     \<lparr>direction := ''both'', include_input := True, include_output := True,
                      response_input := ri, response_output := ro\<rparr>)))))"

section \<open>One tick of a side\<close>

lemma CompactSlotsLocked_frame [simp, frame_simps]:
  "auto_compact_state (fst (CompactSlotsLocked side m)) = auto_compact_state m"
  by (cases side) (simp_all add: CompactSlotsLocked_def split_beta)

lemma set_deadline_frame [simp, frame_simps]:
  "input_tracked (set_deadline side d m) = input_tracked m"
  "output_tracked (set_deadline side d m) = output_tracked m"
  "input_links_snapshot_count (set_deadline side d m) = input_links_snapshot_count m"
  "output_links_snapshot_count (set_deadline side d m) = output_links_snapshot_count m"
  "length (auto_compact_state (set_deadline side d m)) = length (auto_compact_state m)"
  by (simp_all add: set_deadline_def)

lemma set_deadline_views [simp]:
  "compaction_view side' (set_deadline side d m) = compaction_view side' m"
  "live_view side' (set_deadline side d m) = live_view side' m"
  "tables_ok (set_deadline side d m) \<longleftrightarrow> tables_ok m"
  "SnapshotCountCapped side' (set_deadline side d m) = SnapshotCountCapped side' m"
  "has_disconnected_slots side' (set_deadline side d m) \<longleftrightarrow> has_disconnected_slots side' m"
  by (cases side';
      simp add: compaction_view_def live_view_def tables_ok_def SnapshotCountCapped_def
        has_disconnected_slots_def)+

definition deadlines_ok :: "'m LinkMetrics_scheme \<Rightarrow> bool" where
  "deadlines_ok m \<longleftrightarrow> length (auto_compact_state m) = 2"

lemma state_index_lt [simp]: "state_index side < 2"
  by (simp add: state_index_def)

lemma deadline_set [simp]:
  "deadlines_ok m \<Longrightarrow> deadline side (set_deadline side d m) = d"
  "deadline (other_side side) (set_deadline side d m) = deadline (other_side side) m"
  by (cases side; simp add: deadlines_ok_def deadline_def set_deadline_def state_index_def)+

lemma deadlines_ok_set [simp]: "deadlines_ok (set_deadline side d m) \<longleftrightarrow> deadlines_ok m"
  by (simp add: deadlines_ok_def)

text \<open>When a tick compacts a side.\<close>

definition fires :: "Config \<Rightarrow> int \<Rightarrow> LinkSide \<Rightarrow> 'm LinkMetrics_scheme \<Rightarrow> bool" where
  "fires cfg now side m \<longleftrightarrow>
     side_enabled cfg side \<and> has_disconnected_slots side m \<and>
     deadline side m \<noteq> 0 \<and> deadline side m \<le> now"

definition next_deadline :: "Config \<Rightarrow> int \<Rightarrow> LinkSide \<Rightarrow> 'm LinkMetrics_scheme \<Rightarrow> int" where
  "next_deadline cfg now side m =
     (if \<not> side_enabled cfg side \<or> \<not> has_disconnected_slots side m then 0
      else if deadline side m = 0 then now + links_compact_disconnect_delay_ms cfg
      else if deadline side m \<le> now then 0
      else deadline side m)"

lemma run_for_side_fires:
  "fires cfg now side m \<Longrightarrow>
   run_for_side cfg now side m =
     (fst (CompactSlotsLocked side (set_deadline side 0 m)),
      \<lparr>delay_triggered = True,
       outcome_result = snd (CompactSlotsLocked side (set_deadline side 0 m))\<rparr>)"
  by (simp add: run_for_side_def fires_def split_beta)

lemma run_for_side_quiet:
  assumes "deadlines_ok m" and "\<not> fires cfg now side m"
  shows "run_for_side cfg now side m = (set_deadline side (next_deadline cfg now side m) m, no_outcome)"
proof -
  have same: "set_deadline side (deadline side m) m = m"
    by (simp add: set_deadline_def deadline_def)
  from assms same show ?thesis
    by (auto simp: run_for_side_def fires_def next_deadline_def Let_def)
qed

section \<open>One tick of both sides\<close>

lemma CompactSlotsLocked_one_side:
  "output_tracked (fst (CompactSlotsLocked LinkSide.kInput m)) = output_tracked m"
  "output_links_snapshot_count (fst (CompactSlotsLocked LinkSide.kInput m)) = output_links_snapshot_count m"
  "input_tracked (fst (CompactSlotsLocked LinkSide.kOutput m)) = input_tracked m"
  "input_links_snapshot_count (fst (CompactSlotsLocked LinkSide.kOutput m)) = input_links_snapshot_count m"
  by (simp_all add: CompactSlotsLocked_def split_beta)

text \<open>What a side's timer looks at and acts on.\<close>

definition same_side :: "LinkSide \<Rightarrow> 'm LinkMetrics_scheme \<Rightarrow> 'm LinkMetrics_scheme \<Rightarrow> bool" where
  "same_side side m m' \<longleftrightarrow>
     (case side of
        LinkSide.kInput \<Rightarrow> input_tracked m' = input_tracked m \<and>
          input_links_snapshot_count m' = input_links_snapshot_count m
      | LinkSide.kOutput \<Rightarrow> output_tracked m' = output_tracked m \<and>
          output_links_snapshot_count m' = output_links_snapshot_count m)"

lemma same_side_facts:
  assumes "same_side side m m'"
  shows "compaction_view side m' = compaction_view side m" "live_view side m' = live_view side m"
    "SnapshotCountCapped side m' = SnapshotCountCapped side m"
    "has_disconnected_slots side m' = has_disconnected_slots side m"
  using assms
  by (cases side; simp add: same_side_def compaction_view_def live_view_def SnapshotCountCapped_def
      has_disconnected_slots_def)+

lemma same_side_refl [simp]: "same_side side m m" "same_side side m (set_deadline s d m)"
  by (cases side; simp add: same_side_def)+

lemma same_side_trans: "same_side side a b \<Longrightarrow> same_side side b c \<Longrightarrow> same_side side a c"
  by (cases side) (simp_all add: same_side_def)

lemma run_for_side_other:
  assumes "deadlines_ok m"
  shows "same_side (other_side side) m (fst (run_for_side cfg now side m))"
    and "deadline (other_side side) (fst (run_for_side cfg now side m)) = deadline (other_side side) m"
    and "deadlines_ok (fst (run_for_side cfg now side m))"
    and "tables_ok m \<Longrightarrow> tables_ok (fst (run_for_side cfg now side m))"
proof -
  let ?c = "fst (CompactSlotsLocked side (set_deadline side 0 m))"
  have "same_side (other_side side) m ?c"
    by (cases side) (simp_all add: same_side_def CompactSlotsLocked_one_side)
  moreover have "deadline (other_side side) ?c = deadline (other_side side) (set_deadline side 0 m)"
    by (simp add: deadline_def)
  moreover have "deadlines_ok ?c" using assms by (simp add: deadlines_ok_def)
  moreover have "tables_ok m \<Longrightarrow> tables_ok ?c" by (simp add: CompactSlotsLocked_fst)
  ultimately show "same_side (other_side side) m (fst (run_for_side cfg now side m))"
    and "deadline (other_side side) (fst (run_for_side cfg now side m)) = deadline (other_side side) m"
    and "deadlines_ok (fst (run_for_side cfg now side m))"
    and "tables_ok m \<Longrightarrow> tables_ok (fst (run_for_side cfg now side m))"
    by (cases "fires cfg now side m"; simp add: run_for_side_fires run_for_side_quiet assms)+
qed

lemma run_for_side_own:
  assumes "deadlines_ok m" and "tables_ok m"
  shows "deadline side (fst (run_for_side cfg now side m)) = next_deadline cfg now side m"
    and "delay_triggered (snd (run_for_side cfg now side m)) = fires cfg now side m"
    and "compaction_view side (fst (run_for_side cfg now side m)) =
      (if fires cfg now side m
       then live_view side m @ replicate (kMaxTrackedMembers - length (live_view side m))
              default_CompactionSlotState
       else compaction_view side m)"
    and "\<not> fires cfg now side m \<Longrightarrow> same_side side m (fst (run_for_side cfg now side m))"
proof -
  let ?c = "fst (CompactSlotsLocked side (set_deadline side 0 m))"
  have d: "deadline side ?c = deadline side (set_deadline side 0 m)" by (simp add: deadline_def)
  show "deadline side (fst (run_for_side cfg now side m)) = next_deadline cfg now side m"
    using d assms
    by (cases "fires cfg now side m")
      (auto simp: run_for_side_fires run_for_side_quiet next_deadline_def fires_def)
  show "delay_triggered (snd (run_for_side cfg now side m)) = fires cfg now side m"
    and "compaction_view side (fst (run_for_side cfg now side m)) =
      (if fires cfg now side m
       then live_view side m @ replicate (kMaxTrackedMembers - length (live_view side m))
              default_CompactionSlotState
       else compaction_view side m)"
    and "\<not> fires cfg now side m \<Longrightarrow> same_side side m (fst (run_for_side cfg now side m))"
    using assms
    by (cases "fires cfg now side m";
        simp add: run_for_side_fires run_for_side_quiet CompactSlotsLocked_fst no_outcome_def)+
qed

lemma fires_cong:
  "same_side side m m' \<Longrightarrow> deadline side m' = deadline side m \<Longrightarrow>
   fires cfg now side m' = fires cfg now side m \<and>
   next_deadline cfg now side m' = next_deadline cfg now side m"
  by (simp add: fires_def next_deadline_def same_side_facts)

fun outcome_of :: "LinkSide \<Rightarrow> TriggerOutcome \<times> TriggerOutcome \<Rightarrow> TriggerOutcome" where
  "outcome_of LinkSide.kInput (i, out) = i"
| "outcome_of LinkSide.kOutput (i, out) = out"

lemma tick_eq:
  "0 < now \<Longrightarrow> delay_enabled cfg \<Longrightarrow>
   MaybeAutoCompactLinkSlots cfg now m =
     (let ri = run_for_side cfg now LinkSide.kInput m;
          ro = run_for_side cfg now LinkSide.kOutput (fst ri)
      in (fst ro, snd ri, snd ro))"
  by (simp add: MaybeAutoCompactLinkSlots_def split_beta Let_def)

lemma tick_spec:
  assumes "0 < now" and "delay_enabled cfg" and ok: "deadlines_ok m" "tables_ok m"
  shows "deadline side (fst (MaybeAutoCompactLinkSlots cfg now m)) = next_deadline cfg now side m"
    and "delay_triggered (outcome_of side (snd (MaybeAutoCompactLinkSlots cfg now m)))
      = fires cfg now side m"
    and "compaction_view side (fst (MaybeAutoCompactLinkSlots cfg now m)) =
      (if fires cfg now side m
       then live_view side m @ replicate (kMaxTrackedMembers - length (live_view side m))
              default_CompactionSlotState
       else compaction_view side m)"
    and "\<not> fires cfg now side m \<Longrightarrow> same_side side m (fst (MaybeAutoCompactLinkSlots cfg now m))"
    and "deadlines_ok (fst (MaybeAutoCompactLinkSlots cfg now m))"
    and "tables_ok (fst (MaybeAutoCompactLinkSlots cfg now m))"
proof -
  let ?m1 = "fst (run_for_side cfg now LinkSide.kInput m)"
  note first = run_for_side_other [OF ok(1), where side = LinkSide.kInput and cfg = cfg and now = now]
    run_for_side_own [OF ok, where side = LinkSide.kInput and cfg = cfg and now = now]
  have m1: "deadlines_ok ?m1" "tables_ok ?m1" using first(3,4) ok by simp_all
  note second = run_for_side_other [OF m1(1), where side = LinkSide.kOutput and cfg = cfg and now = now]
    run_for_side_own [OF m1, where side = LinkSide.kOutput and cfg = cfg and now = now]
  note eq = tick_eq [OF assms(1,2), of m, unfolded Let_def]
  have other: "fires cfg now LinkSide.kOutput ?m1 = fires cfg now LinkSide.kOutput m"
    "next_deadline cfg now LinkSide.kOutput ?m1 = next_deadline cfg now LinkSide.kOutput m"
    "compaction_view LinkSide.kOutput ?m1 = compaction_view LinkSide.kOutput m"
    "live_view LinkSide.kOutput ?m1 = live_view LinkSide.kOutput m"
    using first(1,2) fires_cong [of LinkSide.kOutput m ?m1] same_side_facts [of LinkSide.kOutput m ?m1]
    by simp_all
  have view: "compaction_view LinkSide.kInput (fst (run_for_side cfg now LinkSide.kOutput ?m1))
      = compaction_view LinkSide.kInput ?m1"
    using second(1) same_side_facts(1) by simp
  show "deadline side (fst (MaybeAutoCompactLinkSlots cfg now m)) = next_deadline cfg now side m"
    using first(5) second(2,5) other by (cases side) (simp_all add: eq)
  show "delay_triggered (outcome_of side (snd (MaybeAutoCompactLinkSlots cfg now m)))
      = fires cfg now side m"
    using first(6) second(6) other by (cases side) (simp_all add: eq)
  show "compaction_view side (fst (MaybeAutoCompactLinkSlots cfg now m)) =
      (if fires cfg now side m
       then live_view side m @ replicate (kMaxTrackedMembers - length (live_view side m))
              default_CompactionSlotState
       else compaction_view side m)"
  proof (cases side)
    case kInput
    then show ?thesis using first(7) view by (simp only: eq fst_conv)
  next
    case kOutput
    then show ?thesis using second(7) other by (simp only: eq fst_conv)
  qed
  show "\<not> fires cfg now side m \<Longrightarrow> same_side side m (fst (MaybeAutoCompactLinkSlots cfg now m))"
    using first(1,8) second(1,8) other same_side_trans by (cases side) (auto simp: eq)
  show "deadlines_ok (fst (MaybeAutoCompactLinkSlots cfg now m))"
    and "tables_ok (fst (MaybeAutoCompactLinkSlots cfg now m))"
    using second(3,4) m1 by (simp_all add: eq)
qed

section \<open>Properties of the timer\<close>

text \<open>
  One tick of the timer treats each side on its own: it compacts a side exactly when the side
  is enabled, shows a disconnected slot and has a deadline that has passed; the deadline is then
  cleared, it is set to now plus the delay when a disconnected slot is seen without one, and it is
  cleared when none is seen; a side that does not fire keeps its slots.
\<close>

theorem MaybeAutoCompact_tick:
  assumes "0 < now" and "delay_enabled cfg" and "deadlines_ok m" and "tables_ok m"
    and "MaybeAutoCompactLinkSlots cfg now m = (m', outcomes)"
  shows "deadline side m' = next_deadline cfg now side m \<and>
    (delay_triggered (outcome_of side outcomes) \<longleftrightarrow> fires cfg now side m) \<and>
    compaction_view side m' =
      (if fires cfg now side m
       then live_view side m @
         replicate (kMaxTrackedMembers - length (live_view side m)) default_CompactionSlotState
       else compaction_view side m)"
  using tick_spec(1,2,3) [OF assms(1-4), where side = side] unfolding assms(5) by simp

definition auto_ticks :: "Config \<Rightarrow> int list \<Rightarrow> 'm LinkMetrics_scheme \<Rightarrow> 'm LinkMetrics_scheme" where
  "auto_ticks cfg ts m = foldl (\<lambda>m t. fst (MaybeAutoCompactLinkSlots cfg t m)) m ts"

lemma quiet_ticks:
  assumes "delay_enabled cfg" and "side_enabled cfg side" and "d \<noteq> 0"
    and "\<forall>t \<in> set ts. 0 < t \<and> t < d"
    and "deadlines_ok m" and "tables_ok m" and "deadline side m = d" and "has_disconnected_slots side m"
  shows "same_side side m (auto_ticks cfg ts m) \<and> deadline side (auto_ticks cfg ts m) = d \<and>
    deadlines_ok (auto_ticks cfg ts m) \<and> tables_ok (auto_ticks cfg ts m)"
  using assms(4-8)
proof (induction ts arbitrary: m)
  case Nil
  then show ?case by (simp add: auto_ticks_def)
next
  case (Cons t ts)
  let ?m = "fst (MaybeAutoCompactLinkSlots cfg t m)"
  from Cons.prems have t: "0 < t" "t < d" by simp_all
  note tick = tick_spec(1-4) [OF t(1) assms(1) Cons.prems(2,3), where side = side]
    tick_spec(5,6) [OF t(1) assms(1) Cons.prems(2,3)]
  have quiet: "\<not> fires cfg t side m" using Cons.prems t by (simp add: fires_def)
  have "deadline side ?m = d"
    using tick(1) Cons.prems(4,5) t assms(2,3) by (simp add: next_deadline_def)
  moreover have "has_disconnected_slots side ?m"
    using same_side_facts(4) [OF tick(4) [OF quiet]] Cons.prems(5) by simp
  ultimately have "same_side side ?m (auto_ticks cfg ts ?m) \<and>
      deadline side (auto_ticks cfg ts ?m) = d \<and>
      deadlines_ok (auto_ticks cfg ts ?m) \<and> tables_ok (auto_ticks cfg ts ?m)"
    using Cons.IH [of ?m] Cons.prems(1) tick(5,6) by simp
  moreover have "auto_ticks cfg (t # ts) m = auto_ticks cfg ts ?m" by (simp add: auto_ticks_def)
  ultimately show ?case using same_side_trans [OF tick(4) [OF quiet]] by simp
qed

text \<open>
  C15. A positive delay is kept: when an enabled side whose deadline is not set shows a disconnected
  slot from the tick at \<open>t0\<close> on, the deadline becomes \<open>t0\<close> plus the delay, no tick before it
  changes anything of the side's slots, and the first tick from then on compacts them: what
  compaction copies of a slot is then that of the live slots, in order. (With a delay of 0 the
  operations guide expects the tick that sees the slot to compact at once, which the code does not
  do: \<open>first_sighting_never_compacts\<close> below.)
\<close>

theorem auto_compact_delay:
  assumes "0 < links_compact_disconnect_delay_ms cfg" and "side_enabled cfg side"
    and "deadlines_ok m" and "tables_ok m"
    and "deadline side m = 0" and "has_disconnected_slots side m" and "0 < t0"
    and "\<forall>t \<in> set ts. 0 < t \<and> t < t0 + links_compact_disconnect_delay_ms cfg"
    and "t0 + links_compact_disconnect_delay_ms cfg \<le> t"
  shows "same_side side m (auto_ticks cfg (t0 # ts) m) \<and>
    deadline side (auto_ticks cfg (t0 # ts) m) = t0 + links_compact_disconnect_delay_ms cfg \<and>
    compaction_view side (auto_ticks cfg (t0 # ts @ [t]) m) = live_view side m @
      replicate (kMaxTrackedMembers - length (live_view side m)) default_CompactionSlotState"
proof -
  let ?d = "t0 + links_compact_disconnect_delay_ms cfg"
  let ?m = "fst (MaybeAutoCompactLinkSlots cfg t0 m)"
  have on: "delay_enabled cfg" using assms(1) by (simp add: delay_enabled_def)
  have d: "?d \<noteq> 0" "0 < t" using assms(1,7,9) by simp_all
  note first = tick_spec(1-4) [OF assms(7) on assms(3,4), where side = side]
    tick_spec(5,6) [OF assms(7) on assms(3,4)]
  have quiet: "\<not> fires cfg t0 side m" using assms(5) by (simp add: fires_def)
  have one: "same_side side m ?m" by (rule first(4) [OF quiet])
  have "deadline side ?m = ?d" using first(1) assms(2,5,6) by (simp add: next_deadline_def)
  moreover have "has_disconnected_slots side ?m" using same_side_facts(4) [OF one] assms(6) by simp
  ultimately have run: "same_side side ?m (auto_ticks cfg ts ?m)"
    "deadline side (auto_ticks cfg ts ?m) = ?d"
    "deadlines_ok (auto_ticks cfg ts ?m)" "tables_ok (auto_ticks cfg ts ?m)"
    using quiet_ticks [OF on assms(2) d(1) assms(8) first(5,6)] by simp_all
  note same = same_side_trans [OF one run(1)]
  have "fires cfg t side (auto_ticks cfg ts ?m)"
    using assms(2,6,9) run(2) d same_side_facts(4) [OF same] by (simp add: fires_def)
  then have "compaction_view side (fst (MaybeAutoCompactLinkSlots cfg t (auto_ticks cfg ts ?m))) =
      live_view side m @ replicate (kMaxTrackedMembers - length (live_view side m))
        default_CompactionSlotState"
    using tick_spec(3) [OF d(2) on run(3,4), where side = side] same_side_facts(2) [OF same]
    by simp
  then show ?thesis
    using same run(2) by (simp add: auto_ticks_def)
qed

text \<open>
  Whatever the delay, also with a delay of 0, the tick that first sees a disconnected slot of a
  side does not compact the side: it only sets the deadline, so compaction happens on a later tick
  at the earliest.
\<close>

theorem first_sighting_never_compacts:
  assumes "deadlines_ok m" and "tables_ok m" and "deadline side m = 0"
  shows "compaction_view side (fst (MaybeAutoCompactLinkSlots cfg now m)) = compaction_view side m"
proof (cases "0 < now \<and> delay_enabled cfg")
  case True
  then show ?thesis
    using tick_spec(3) [of now cfg m side] assms by (simp add: fires_def)
qed (auto simp: MaybeAutoCompactLinkSlots_def)

section \<open>The request\<close>

text \<open>
  The compaction request compacts exactly the sides its direction names and reports them: an
  unknown direction answers 400 and changes nothing; otherwise a reported side has become its live
  slots and a side not reported is as before.
\<close>

theorem handle_compact_spec:
  assumes "tables_ok m" and "handle_compact param m = (m', response)"
  shows "(response = None \<longrightarrow> m' = m \<and> param \<notin> {None, Some ''input'', Some ''output'', Some ''both''}) \<and>
    (\<forall>r. response = Some r \<longrightarrow>
       (include_input r \<longleftrightarrow> param \<in> {None, Some ''input'', Some ''both''}) \<and>
       (include_output r \<longleftrightarrow> param \<in> {None, Some ''output'', Some ''both''}) \<and>
       compaction_view LinkSide.kInput m' =
         (if include_input r then live_view LinkSide.kInput m @
            replicate (kMaxTrackedMembers - length (live_view LinkSide.kInput m)) default_CompactionSlotState
          else compaction_view LinkSide.kInput m) \<and>
       compaction_view LinkSide.kOutput m' =
         (if include_output r then live_view LinkSide.kOutput m @
            replicate (kMaxTrackedMembers - length (live_view LinkSide.kOutput m)) default_CompactionSlotState
          else compaction_view LinkSide.kOutput m))"
proof -
  let ?i = "fst (CompactSlotsLocked LinkSide.kInput m)"
  let ?o = "fst (CompactSlotsLocked LinkSide.kOutput m)"
  let ?b = "fst (CompactSlotsLocked LinkSide.kOutput ?i)"
  have i: "tables_ok ?i" "compaction_view LinkSide.kOutput ?i = compaction_view LinkSide.kOutput m"
    using CompactSlotsLocked_fst [OF assms(1), of LinkSide.kInput] by simp_all
  then have live: "live_view LinkSide.kOutput ?i = live_view LinkSide.kOutput m"
    by (simp add: live_view_def)
  have views: "compaction_view LinkSide.kInput ?o = compaction_view LinkSide.kInput m"
    "compaction_view LinkSide.kInput ?b = compaction_view LinkSide.kInput ?i"
    using CompactSlotsLocked_fst(2) [OF assms(1), of LinkSide.kOutput]
      CompactSlotsLocked_fst(2) [OF i(1), of LinkSide.kOutput] by simp_all
  note facts = CompactSlotsLocked_fst(1) [OF assms(1), of LinkSide.kInput]
    CompactSlotsLocked_fst(1) [OF assms(1), of LinkSide.kOutput]
    CompactSlotsLocked_fst(1) [OF i(1), of LinkSide.kOutput] i(2) live views
  show ?thesis
  proof (cases "ParseCompactDirection param")
    case None
    then show ?thesis
      using assms(2) by (auto simp: handle_compact_def ParseCompactDirection_def split: option.splits if_splits)
  next
    case (Some d)
    then have param: "d = CompactDirection.kInput \<and> param = Some ''input'' \<or>
        d = CompactDirection.kOutput \<and> param = Some ''output'' \<or>
        d = CompactDirection.kBoth \<and> (param = None \<or> param = Some ''both'')"
      by (auto simp: ParseCompactDirection_def split: option.splits if_splits)
    then show ?thesis
      using assms(2) facts Some
      by (elim disjE conjE) (auto simp: handle_compact_def split_beta default_CompactResponse_def)
  qed
qed

section \<open>Witnesses\<close>

definition compact_now :: Config where
  "compact_now = default_Config\<lparr>links_compact_disconnect_delay_ms := 0\<rparr>"

lemma example_timer:
  "delay_enabled compact_now" "side_enabled compact_now side" "deadlines_ok example_metrics"
  "deadline side example_metrics = 0"
  by (simp_all add: delay_enabled_def side_enabled_def compact_now_def default_Config_def
      deadlines_ok_def deadline_def state_index_def example_metrics_def)

lemma example_disconnected: "has_disconnected_slots LinkSide.kOutput example_metrics"
  by code_simp

theorem MaybeAutoCompact_tick_witness:
  "deadline LinkSide.kOutput (fst (MaybeAutoCompactLinkSlots compact_now 5 example_metrics)) = 5"
proof -
  obtain m' outcomes where eq: "MaybeAutoCompactLinkSlots compact_now 5 example_metrics = (m', outcomes)"
    by (cases "MaybeAutoCompactLinkSlots compact_now 5 example_metrics")
  have "next_deadline compact_now 5 LinkSide.kOutput example_metrics = 5"
    using example_timer example_disconnected
    by (simp add: next_deadline_def) (simp add: compact_now_def)
  with MaybeAutoCompact_tick [OF _ example_timer(1,3) example_tables_ok eq, of LinkSide.kOutput] eq
  show ?thesis by simp
qed

definition compact_soon :: Config where
  "compact_soon = default_Config\<lparr>links_compact_disconnect_delay_ms := 100\<rparr>"

theorem auto_compact_delay_witness:
  "same_side LinkSide.kOutput example_metrics (auto_ticks compact_soon [5, 104] example_metrics) \<and>
   compaction_view LinkSide.kOutput (auto_ticks compact_soon ([5, 104, 105]) example_metrics)
     = live_view LinkSide.kOutput example_metrics @
       replicate (kMaxTrackedMembers - length (live_view LinkSide.kOutput example_metrics))
         default_CompactionSlotState"
  using auto_compact_delay [of compact_soon LinkSide.kOutput example_metrics 5 "[104]" 105]
    example_timer(3,4) example_tables_ok example_disconnected
  by (simp add: compact_soon_def side_enabled_def default_Config_def)

theorem first_sighting_never_compacts_witness:
  "compaction_view LinkSide.kOutput (fst (MaybeAutoCompactLinkSlots compact_now 5 example_metrics))
     = compaction_view LinkSide.kOutput example_metrics \<and>
   has_disconnected_slots LinkSide.kOutput example_metrics"
  using first_sighting_never_compacts [OF example_timer(3) example_tables_ok example_timer(4)]
    example_disconnected by simp

theorem handle_compact_spec_witness:
  "snd (handle_compact (Some ''sideways'') example_metrics) = None \<and>
   fst (handle_compact (Some ''sideways'') example_metrics) = example_metrics"
proof -
  have none: "snd (handle_compact (Some ''sideways'') example_metrics) = None"
    by (simp add: handle_compact_def ParseCompactDirection_def)
  then show ?thesis
    using handle_compact_spec [OF example_tables_ok, of "Some ''sideways''"]
    by (cases "handle_compact (Some ''sideways'') example_metrics") simp
qed

end
