(* ===== verification/Incident.thy ===== *)
theory Incident
  imports Causality
begin

text \<open>
  \<open>CausalityTracker\<close> of \<open>src/src/relay_runtime.cpp\<close>: numbering of reconnect attempts per side and
  the incident that groups failures, with the metrics it keeps in \<open>MetricsState\<close>. Every operation
  that reads the clock takes the time as an argument; the two log lines that open and close an
  incident are the events an operation returns. \<open>causality_run\<close> is the step relation of a tracker
  in use.
\<close>

section \<open>State\<close>

record SideCausalityState =
  next_attempt_id :: u64
  side_active_attempt_id :: u64
  attempt_active :: bool
  consecutive_receive_timeouts :: u64

definition default_SideCausalityState :: SideCausalityState where
  "default_SideCausalityState =
     \<lparr>next_attempt_id = 1, side_active_attempt_id = 0, attempt_active = False,
      consecutive_receive_timeouts = 0\<rparr>"

record IncidentState =
  next_incident_seq :: u64
  active :: bool
  incident_id :: string
  opened_unix_ms :: int
  first_side :: FailureSide
  first_reason_class :: ReasonClass
  first_reason_code :: ReasonCode
  input_failures :: u64
  output_failures :: u64
  input_timeouts :: u64
  output_timeouts :: u64

definition default_IncidentState :: IncidentState where
  "default_IncidentState =
     \<lparr>next_incident_seq = 1, active = False, incident_id = [], opened_unix_ms = 0,
      first_side = FailureSide.kInput, first_reason_class = ReasonClass.kInternal,
      first_reason_code = ReasonCode.kInternalError, input_failures = 0, output_failures = 0,
      input_timeouts = 0, output_timeouts = 0\<rparr>"

record LastFailureSnapshot =
  timestamp_unix_seconds :: int
  lf_reason_code :: string
  lf_reason_class :: string
  reason_detail :: string
  lf_incident_id :: string
  lf_attempt_id :: u64
  lf_source :: string

definition default_LastFailureSnapshot :: LastFailureSnapshot where
  "default_LastFailureSnapshot =
     \<lparr>timestamp_unix_seconds = 0, lf_reason_code = [], lf_reason_class = [], reason_detail = [],
      lf_incident_id = [], lf_attempt_id = 0, lf_source = []\<rparr>"

text \<open>The part of \<open>MetricsState\<close> the tracker reads and writes.\<close>

record CausalityMetrics =
  timeouts_total :: "u64 list list"
  disconnects_total :: "u64 list list"
  reconnect_attempts_total :: "u64 list"
  last_input_failure_unix_seconds :: int
  last_output_failure_unix_seconds :: int
  incident_active :: int
  incident_open_unix_ms :: int
  active_attempt_id :: "u64 list"
  active_incident_id :: string
  input_last_failure :: LastFailureSnapshot
  output_last_failure :: LastFailureSnapshot
  last_rx_unix_ms :: int
  last_tx_unix_ms :: int

record CausalityTracker =
  metrics :: CausalityMetrics
  input_side :: SideCausalityState
  output_side :: SideCausalityState
  incident :: IncidentState

definition kReceiveTimeoutIncidentThreshold :: u64 where
  "kReceiveTimeoutIncidentThreshold = 3"

datatype incident_event =
    incident_open string FailureSide ReasonCode
  | incident_close string

definition SideState :: "FailureSide \<Rightarrow> CausalityTracker \<Rightarrow> SideCausalityState" where
  "SideState side t = (if side = FailureSide.kInput then input_side t else output_side t)"

definition set_SideState ::
  "FailureSide \<Rightarrow> SideCausalityState \<Rightarrow> CausalityTracker \<Rightarrow> CausalityTracker" where
  "set_SideState side s t =
     (if side = FailureSide.kInput then t\<lparr>input_side := s\<rparr> else t\<lparr>output_side := s\<rparr>)"

section \<open>Attempts\<close>

definition EnsureAttemptStarted ::
  "FailureSide \<Rightarrow> CausalityTracker \<Rightarrow> CausalityTracker \<times> u64" where
  "EnsureAttemptStarted side t =
     (let state = SideState side t; i = SideIndex side in
      if attempt_active state then (t, side_active_attempt_id state)
      else
        let state' = state\<lparr>attempt_active := True, side_active_attempt_id := next_attempt_id state,
                           next_attempt_id := next_attempt_id state + 1\<rparr>;
            m = metrics t;
            m' = m\<lparr>active_attempt_id := (active_attempt_id m)[i := next_attempt_id state],
                   reconnect_attempts_total :=
                     (reconnect_attempts_total m)[i := reconnect_attempts_total m ! i + 1]\<rparr>
        in (set_SideState side state' (t\<lparr>metrics := m'\<rparr>), next_attempt_id state))"

definition ActiveAttemptId :: "FailureSide \<Rightarrow> CausalityTracker \<Rightarrow> u64" where
  "ActiveAttemptId side t =
     (if side = FailureSide.kInput then side_active_attempt_id (input_side t)
      else side_active_attempt_id (output_side t))"

definition NoteDataSuccess :: "FailureSide \<Rightarrow> CausalityTracker \<Rightarrow> CausalityTracker" where
  "NoteDataSuccess side t =
     set_SideState side ((SideState side t)\<lparr>consecutive_receive_timeouts := 0\<rparr>) t"

definition CompleteAttempt :: "FailureSide \<Rightarrow> CausalityTracker \<Rightarrow> CausalityTracker" where
  "CompleteAttempt side t =
     (let m = metrics t in
      set_SideState side
        ((SideState side t)\<lparr>attempt_active := False, side_active_attempt_id := 0\<rparr>)
        (t\<lparr>metrics := m\<lparr>active_attempt_id := (active_attempt_id m)[SideIndex side := 0]\<rparr>\<rparr>))"

definition ActiveIncidentId :: "CausalityTracker \<Rightarrow> string" where
  "ActiveIncidentId t = (if active (incident t) then incident_id (incident t) else [])"

section \<open>Failures\<close>

text \<open>The counting of receive timeouts: the new count and whether opening is suppressed.\<close>

definition count_receive_timeout ::
  "FailureOperation \<Rightarrow> ReasonDescriptor \<Rightarrow> bool \<Rightarrow> SideCausalityState \<Rightarrow> SideCausalityState \<times> bool" where
  "count_receive_timeout operation reason is_active s =
     (if operation = FailureOperation.kReceive \<and> reason_class reason = ReasonClass.kTimeout then
        let n = consecutive_receive_timeouts s + 1 in
        (s\<lparr>consecutive_receive_timeouts := n\<rparr>,
         \<not> is_active \<and> n < kReceiveTimeoutIncidentThreshold)
      else (s\<lparr>consecutive_receive_timeouts := 0\<rparr>, False))"

definition open_incident ::
  "FailureSide \<Rightarrow> ReasonDescriptor \<Rightarrow> int \<Rightarrow> CausalityTracker \<Rightarrow> CausalityTracker" where
  "open_incident side reason now_ms t =
     (let inc = incident t;
          new_id = ''inc-'' @ show_nat (unat (next_incident_seq inc))
      in t\<lparr>incident := inc
             \<lparr>active := True, incident_id := new_id, next_incident_seq := next_incident_seq inc + 1,
              opened_unix_ms := now_ms, first_side := side,
              first_reason_class := reason_class reason, first_reason_code := code reason,
              input_failures := 0, output_failures := 0, input_timeouts := 0, output_timeouts := 0\<rparr>,
           metrics := (metrics t)
             \<lparr>incident_active := 1, incident_open_unix_ms := now_ms, active_incident_id := new_id\<rparr>\<rparr>)"

definition count_failure ::
  "FailureSide \<Rightarrow> ReasonDescriptor \<Rightarrow> IncidentState \<Rightarrow> IncidentState" where
  "count_failure side reason inc =
     (let inc1 = (if side = FailureSide.kInput
                  then inc\<lparr>input_failures := input_failures inc + 1\<rparr>
                  else inc\<lparr>output_failures := output_failures inc + 1\<rparr>)
      in if reason_class reason \<noteq> ReasonClass.kTimeout then inc1
         else if side = FailureSide.kInput then inc1\<lparr>input_timeouts := input_timeouts inc1 + 1\<rparr>
         else inc1\<lparr>output_timeouts := output_timeouts inc1 + 1\<rparr>)"

definition bump :: "nat \<Rightarrow> nat \<Rightarrow> u64 list list \<Rightarrow> u64 list list" where
  "bump i j table = table[i := (table ! i)[j := table ! i ! j + 1]]"

definition failure_metrics ::
  "FailureSide \<Rightarrow> ReasonDescriptor \<Rightarrow> int \<Rightarrow> LastFailureSnapshot \<Rightarrow> CausalityMetrics \<Rightarrow> CausalityMetrics" where
  "failure_metrics side reason now_seconds snapshot m =
     (let m1 = (if side = FailureSide.kInput
                then m\<lparr>last_input_failure_unix_seconds := now_seconds\<rparr>
                else m\<lparr>last_output_failure_unix_seconds := now_seconds\<rparr>);
          m2 = m1\<lparr>disconnects_total :=
                    bump (SideIndex side) (ReasonCodeIndex (code reason)) (disconnects_total m1)\<rparr>;
          m3 = (if has_timeout_type reason
                then m2\<lparr>timeouts_total :=
                          bump (SideIndex side) (TimeoutTypeIndex (timeout_type reason)) (timeouts_total m2)\<rparr>
                else m2)
      in if side = FailureSide.kInput then m3\<lparr>input_last_failure := snapshot\<rparr>
         else m3\<lparr>output_last_failure := snapshot\<rparr>)"

record failure_args =
  fa_operation :: FailureOperation
  fa_is_timeout :: bool
  fa_is_disconnected :: bool
  fa_listener_mode :: bool
  fa_detail :: string
  fa_source :: string
  fa_attempt_id :: u64

definition reason_of :: "failure_args \<Rightarrow> ReasonDescriptor" where
  "reason_of a =
     ClassifyReason (fa_operation a) (fa_is_timeout a) (fa_is_disconnected a) (fa_listener_mode a)
       (fa_detail a)"

definition RecordFailure ::
  "FailureSide \<Rightarrow> failure_args \<Rightarrow> int \<Rightarrow> CausalityTracker
     \<Rightarrow> CausalityTracker \<times> ReasonDescriptor \<times> incident_event list" where
  "RecordFailure side a now_ms t =
     (let reason = reason_of a;
          now_seconds = now_ms div 1000;
          (s, suppress) =
            count_receive_timeout (fa_operation a) reason (active (incident t)) (SideState side t);
          t1 = set_SideState side s t;
          opening = (\<not> active (incident t1) \<and> \<not> suppress);
          t2 = (if opening then open_incident side reason now_ms t1 else t1);
          t3 = t2\<lparr>incident := count_failure side reason (incident t2)\<rparr>;
          snapshot =
            \<lparr>timestamp_unix_seconds = now_seconds, lf_reason_code = ReasonCodeName (code reason),
             lf_reason_class = ReasonClassName (reason_class reason), reason_detail = fa_detail a,
             lf_incident_id = incident_id (incident t3), lf_attempt_id = fa_attempt_id a,
             lf_source = fa_source a\<rparr>;
          t4 = t3\<lparr>metrics := failure_metrics side reason now_seconds snapshot (metrics t3)\<rparr>
      in (t4, reason,
          if opening then [incident_open (incident_id (incident t2)) side (code reason)] else []))"

section \<open>Closing\<close>

definition data_since_open :: "CausalityTracker \<Rightarrow> bool" where
  "data_since_open t \<longleftrightarrow>
     (let inc = incident t in
      if first_side inc = FailureSide.kInput then opened_unix_ms inc < last_rx_unix_ms (metrics t)
      else opened_unix_ms inc < last_tx_unix_ms (metrics t))"

definition MaybeCloseIncident ::
  "bool \<Rightarrow> bool \<Rightarrow> CausalityTracker \<Rightarrow> CausalityTracker \<times> incident_event list" where
  "MaybeCloseIncident input_connected output_connected t =
     (let inc = incident t in
      if \<not> active inc \<or> \<not> input_connected \<or> \<not> output_connected then (t, [])
      else if first_reason_class inc = ReasonClass.kTimeout \<and> \<not> data_since_open t then (t, [])
      else (t\<lparr>incident := inc\<lparr>active := False, incident_id := [], opened_unix_ms := 0\<rparr>,
              metrics := (metrics t)
                \<lparr>incident_active := 0, incident_open_unix_ms := 0, active_incident_id := []\<rparr>\<rparr>,
            [incident_close (incident_id inc)]))"

section \<open>A tracker in use\<close>

text \<open>
  What the relay loop does besides: received and sent data note the success and the time.
\<close>

definition note_rx :: "int \<Rightarrow> CausalityTracker \<Rightarrow> CausalityTracker" where
  "note_rx now_ms t =
     (let t1 = NoteDataSuccess FailureSide.kInput t
      in t1\<lparr>metrics := (metrics t1)\<lparr>last_rx_unix_ms := now_ms\<rparr>\<rparr>)"

definition note_tx :: "int \<Rightarrow> CausalityTracker \<Rightarrow> CausalityTracker" where
  "note_tx now_ms t =
     (let t1 = NoteDataSuccess FailureSide.kOutput t
      in t1\<lparr>metrics := (metrics t1)\<lparr>last_tx_unix_ms := now_ms\<rparr>\<rparr>)"

definition initial_metrics :: "int \<Rightarrow> CausalityMetrics" where
  "initial_metrics startup_ms =
     \<lparr>timeouts_total = replicate kFailureSides (replicate kTimeoutTypes 0),
      disconnects_total = replicate kFailureSides (replicate kReasonCodes 0),
      reconnect_attempts_total = replicate kFailureSides 0,
      last_input_failure_unix_seconds = 0, last_output_failure_unix_seconds = 0,
      incident_active = 0, incident_open_unix_ms = 0,
      active_attempt_id = replicate kFailureSides 0, active_incident_id = [],
      input_last_failure = default_LastFailureSnapshot,
      output_last_failure = default_LastFailureSnapshot,
      last_rx_unix_ms = startup_ms, last_tx_unix_ms = startup_ms\<rparr>"

definition initial_tracker :: "int \<Rightarrow> CausalityTracker" where
  "initial_tracker startup_ms =
     \<lparr>metrics = initial_metrics startup_ms, input_side = default_SideCausalityState,
      output_side = default_SideCausalityState, incident = default_IncidentState\<rparr>"

inductive tracker_step :: "CausalityTracker \<Rightarrow> incident_event list \<Rightarrow> CausalityTracker \<Rightarrow> bool" where
  step_ensure: "EnsureAttemptStarted side t = (t', k) \<Longrightarrow> tracker_step t [] t'"
| step_complete: "tracker_step t [] (CompleteAttempt side t)"
| step_rx: "tracker_step t [] (note_rx now_ms t)"
| step_tx: "tracker_step t [] (note_tx now_ms t)"
| step_failure: "RecordFailure side a now_ms t = (t', reason, es) \<Longrightarrow> tracker_step t es t'"
| step_close: "MaybeCloseIncident ic oc t = (t', es) \<Longrightarrow> tracker_step t es t'"

inductive_cases tracker_stepE: "tracker_step t es t'"

inductive tracker_run :: "CausalityTracker \<Rightarrow> incident_event list \<Rightarrow> CausalityTracker \<Rightarrow> bool" where
  run_refl: "tracker_run t [] t"
| run_step: "tracker_run t es t' \<Longrightarrow> tracker_step t' es' t'' \<Longrightarrow> tracker_run t (es @ es') t''"

section \<open>The invariant\<close>

definition inc_name :: "u64 \<Rightarrow> string" where
  "inc_name k = ''inc-'' @ show_nat (unat k)"

definition side_inv :: "FailureSide \<Rightarrow> CausalityTracker \<Rightarrow> bool" where
  "side_inv side t \<longleftrightarrow>
     active_attempt_id (metrics t) ! SideIndex side = side_active_attempt_id (SideState side t) \<and>
     reconnect_attempts_total (metrics t) ! SideIndex side = next_attempt_id (SideState side t) - 1 \<and>
     side_active_attempt_id (SideState side t) =
       (if attempt_active (SideState side t) then next_attempt_id (SideState side t) - 1 else 0)"

definition shape_inv :: "CausalityMetrics \<Rightarrow> bool" where
  "shape_inv m \<longleftrightarrow>
     length (active_attempt_id m) = kFailureSides \<and>
     length (reconnect_attempts_total m) = kFailureSides \<and>
     map length (timeouts_total m) = replicate kFailureSides kTimeoutTypes \<and>
     map length (disconnects_total m) = replicate kFailureSides kReasonCodes"

definition incident_inv :: "CausalityTracker \<Rightarrow> bool" where
  "incident_inv t \<longleftrightarrow>
     (let inc = incident t; m = metrics t in
      if active inc
      then incident_id inc = inc_name (next_incident_seq inc - 1) \<and>
           active_incident_id m = incident_id inc \<and> incident_active m = 1 \<and>
           incident_open_unix_ms m = opened_unix_ms inc
      else incident_id inc = [] \<and> active_incident_id m = [] \<and> incident_active m = 0 \<and>
           incident_open_unix_ms m = 0 \<and> opened_unix_ms inc = 0)"

definition tracker_inv :: "CausalityTracker \<Rightarrow> bool" where
  "tracker_inv t \<longleftrightarrow>
     side_inv FailureSide.kInput t \<and> side_inv FailureSide.kOutput t \<and> shape_inv (metrics t) \<and>
     incident_inv t"

lemmas tracker_inv_defs = tracker_inv_def side_inv_def shape_inv_def incident_inv_def

lemma FailureSide_cases: "side = FailureSide.kInput \<or> side = FailureSide.kOutput"
  by (cases side) simp_all

lemma SideIndex_simps [simp]:
  "SideIndex FailureSide.kInput = 0" "SideIndex FailureSide.kOutput = 1"
  by (simp_all add: SideIndex_def)

lemma SideState_set [simp]:
  "SideState side (set_SideState side s t) = s"
  "side \<noteq> side' \<Longrightarrow> SideState side (set_SideState side' s t) = SideState side t"
  by (cases side; cases side'; simp add: SideState_def set_SideState_def)+

lemma SideState_frame [simp]:
  "SideState side (t\<lparr>metrics := m\<rparr>) = SideState side t"
  "SideState side (t\<lparr>incident := i\<rparr>) = SideState side t"
  by (simp_all add: SideState_def)

lemma set_SideState_frame [simp, frame_simps]:
  "metrics (set_SideState side s t) = metrics t"
  "incident (set_SideState side s t) = incident t"
  by (simp_all add: set_SideState_def)

lemma inv_initial: "tracker_inv (initial_tracker now_ms)"
  by (simp add: tracker_inv_defs initial_tracker_def initial_metrics_def SideState_def
      default_SideCausalityState_def default_IncidentState_def Let_def kFailureSides_def)

lemma side_inv_other:
  assumes "side_inv side t" and "SideState side t' = SideState side t"
    and "active_attempt_id (metrics t') ! SideIndex side = active_attempt_id (metrics t) ! SideIndex side"
    and "reconnect_attempts_total (metrics t') ! SideIndex side
      = reconnect_attempts_total (metrics t) ! SideIndex side"
  shows "side_inv side t'"
  using assms by (simp add: side_inv_def)

lemma inv_ensure:
  assumes "tracker_inv t"
  shows "tracker_inv (fst (EnsureAttemptStarted side t))"
proof (cases "attempt_active (SideState side t)")
  case False
  then show ?thesis
    using assms
    by (cases side)
      (simp_all add: tracker_inv_defs EnsureAttemptStarted_def Let_def kFailureSides_def)
qed (use assms in \<open>simp add: EnsureAttemptStarted_def Let_def\<close>)

lemma inv_complete: "tracker_inv t \<Longrightarrow> tracker_inv (CompleteAttempt side t)"
  by (cases side) (simp_all add: tracker_inv_defs CompleteAttempt_def Let_def kFailureSides_def)

lemma inv_data:
  "tracker_inv t \<Longrightarrow> tracker_inv (note_rx now_ms t)"
  "tracker_inv t \<Longrightarrow> tracker_inv (note_tx now_ms t)"
  by (simp_all add: tracker_inv_defs note_rx_def note_tx_def NoteDataSuccess_def Let_def)

lemma inv_close: "tracker_inv t \<Longrightarrow> tracker_inv (fst (MaybeCloseIncident ic oc t))"
  by (simp add: tracker_inv_defs MaybeCloseIncident_def Let_def)

section \<open>Recording a failure keeps the invariant\<close>

lemma count_receive_timeout_frame [simp, frame_simps]:
  "next_attempt_id (fst (count_receive_timeout op r b s)) = next_attempt_id s"
  "side_active_attempt_id (fst (count_receive_timeout op r b s)) = side_active_attempt_id s"
  "attempt_active (fst (count_receive_timeout op r b s)) = attempt_active s"
  by (simp_all add: count_receive_timeout_def Let_def)

lemma count_failure_frame [simp, frame_simps]:
  "active (count_failure side r inc) = active inc"
  "incident_id (count_failure side r inc) = incident_id inc"
  "next_incident_seq (count_failure side r inc) = next_incident_seq inc"
  "opened_unix_ms (count_failure side r inc) = opened_unix_ms inc"
  "first_side (count_failure side r inc) = first_side inc"
  "first_reason_class (count_failure side r inc) = first_reason_class inc"
  by (simp_all add: count_failure_def Let_def)

lemma map_length_bump [simp]: "map length (bump i j table) = map length table"
proof (cases "i < length table")
  case True
  then have "(map length table)[i := length (table ! i)] = map length table"
    by (simp add: list_update_same_conv)
  then show ?thesis by (simp add: bump_def map_update)
qed (simp add: bump_def not_less list_update_beyond)

lemma failure_metrics_frame [simp, frame_simps]:
  "active_attempt_id (failure_metrics side r n sn m) = active_attempt_id m"
  "reconnect_attempts_total (failure_metrics side r n sn m) = reconnect_attempts_total m"
  "incident_active (failure_metrics side r n sn m) = incident_active m"
  "incident_open_unix_ms (failure_metrics side r n sn m) = incident_open_unix_ms m"
  "active_incident_id (failure_metrics side r n sn m) = active_incident_id m"
  "last_rx_unix_ms (failure_metrics side r n sn m) = last_rx_unix_ms m"
  "last_tx_unix_ms (failure_metrics side r n sn m) = last_tx_unix_ms m"
  by (simp_all add: failure_metrics_def Let_def)

lemma failure_metrics_tables:
  "disconnects_total (failure_metrics side r n sn m) =
     bump (SideIndex side) (ReasonCodeIndex (code r)) (disconnects_total m)"
  "timeouts_total (failure_metrics side r n sn m) =
     (if has_timeout_type r
      then bump (SideIndex side) (TimeoutTypeIndex (timeout_type r)) (timeouts_total m)
      else timeouts_total m)"
  "input_last_failure (failure_metrics FailureSide.kInput r n sn m) = sn"
  "output_last_failure (failure_metrics FailureSide.kOutput r n sn m) = sn"
  by (simp_all add: failure_metrics_def Let_def)

lemma shape_failure [simp]: "shape_inv (failure_metrics side r n sn m) = shape_inv m"
  by (simp add: shape_inv_def failure_metrics_tables)

text \<open>The tracker after counting, and whether the failure opens an incident.\<close>

definition counted :: "FailureSide \<Rightarrow> failure_args \<Rightarrow> CausalityTracker \<Rightarrow> CausalityTracker" where
  "counted side a t =
     set_SideState side
       (fst (count_receive_timeout (fa_operation a) (reason_of a) (active (incident t)) (SideState side t))) t"

definition opens :: "FailureSide \<Rightarrow> failure_args \<Rightarrow> CausalityTracker \<Rightarrow> bool" where
  "opens side a t \<longleftrightarrow>
     \<not> active (incident t) \<and>
     \<not> snd (count_receive_timeout (fa_operation a) (reason_of a) (active (incident t)) (SideState side t))"

definition opened :: "FailureSide \<Rightarrow> failure_args \<Rightarrow> int \<Rightarrow> CausalityTracker \<Rightarrow> CausalityTracker" where
  "opened side a now_ms t =
     (if opens side a t then open_incident side (reason_of a) now_ms (counted side a t)
      else counted side a t)"

definition snapshot_of :: "failure_args \<Rightarrow> int \<Rightarrow> string \<Rightarrow> LastFailureSnapshot" where
  "snapshot_of a now_ms inc_id =
     \<lparr>timestamp_unix_seconds = now_ms div 1000, lf_reason_code = ReasonCodeName (code (reason_of a)),
      lf_reason_class = ReasonClassName (reason_class (reason_of a)), reason_detail = fa_detail a,
      lf_incident_id = inc_id, lf_attempt_id = fa_attempt_id a, lf_source = fa_source a\<rparr>"

lemma RecordFailure_eq:
  "RecordFailure side a now_ms t =
     ((opened side a now_ms t)
        \<lparr>incident := count_failure side (reason_of a) (incident (opened side a now_ms t)),
         metrics := failure_metrics side (reason_of a) (now_ms div 1000)
           (snapshot_of a now_ms (incident_id (incident (opened side a now_ms t))))
           (metrics (opened side a now_ms t))\<rparr>,
      reason_of a,
      if opens side a t
      then [incident_open (incident_id (incident (opened side a now_ms t))) side (code (reason_of a))]
      else [])"
  by (cases "active (incident t)")
    (simp_all add: RecordFailure_def opened_def opens_def counted_def snapshot_of_def Let_def split_beta)

lemma open_incident_frame [simp, frame_simps]:
  "SideState side' (open_incident side r now_ms t) = SideState side' t"
  "active_attempt_id (metrics (open_incident side r now_ms t)) = active_attempt_id (metrics t)"
  "reconnect_attempts_total (metrics (open_incident side r now_ms t))
     = reconnect_attempts_total (metrics t)"
  "timeouts_total (metrics (open_incident side r now_ms t)) = timeouts_total (metrics t)"
  "disconnects_total (metrics (open_incident side r now_ms t)) = disconnects_total (metrics t)"
  by (simp_all add: open_incident_def Let_def SideState_def)

lemma counted_frame [simp, frame_simps]:
  "metrics (counted side a t) = metrics t"
  "incident (counted side a t) = incident t"
  by (simp_all add: counted_def)

lemma side_inv_counted: "side_inv side' t \<Longrightarrow> side_inv side' (counted side a t)"
  by (cases "side' = side") (simp_all add: side_inv_def counted_def)

lemma inv_opened:
  assumes "tracker_inv t"
  shows "tracker_inv (opened side a now_ms t)"
proof -
  have c: "tracker_inv (counted side a t)"
    using assms side_inv_counted by (simp add: tracker_inv_def incident_inv_def)
  show ?thesis
  proof (cases "opens side a t")
    case True
    have "incident_inv (open_incident side (reason_of a) now_ms (counted side a t))"
      by (simp add: incident_inv_def open_incident_def Let_def inc_name_def)
    with c True show ?thesis
      by (simp add: opened_def tracker_inv_def side_inv_def shape_inv_def)
  qed (simp add: opened_def c)
qed

lemma inv_failure:
  assumes "tracker_inv t"
  shows "tracker_inv (fst (RecordFailure side a now_ms t))"
  using inv_opened [OF assms, of side a now_ms]
  by (simp add: RecordFailure_eq tracker_inv_def side_inv_def incident_inv_def Let_def)

lemma inv_step: "tracker_step t es t' \<Longrightarrow> tracker_inv t \<Longrightarrow> tracker_inv t'"
  by (erule tracker_stepE)
    (metis fst_conv inv_ensure inv_complete inv_data inv_failure inv_close)+

lemma inv_run: "tracker_run t es t' \<Longrightarrow> tracker_inv t \<Longrightarrow> tracker_inv t'"
  by (induction rule: tracker_run.induct) (auto dest: inv_step)

section \<open>The events of a run\<close>

text \<open>
  The automaton of well-formed event traces: incidents are numbered consecutively, and each is
  closed before the next one opens. Its state is the next number and whether an incident is open.
\<close>

fun trace_step :: "(u64 \<times> bool) option \<Rightarrow> incident_event \<Rightarrow> (u64 \<times> bool) option" where
  "trace_step (Some (k, False)) (incident_open name side c) =
     (if name = inc_name k then Some (k + 1, True) else None)"
| "trace_step (Some (k, True)) (incident_close name) =
     (if name = inc_name (k - 1) then Some (k, False) else None)"
| "trace_step _ _ = None"

definition trace_state :: "incident_event list \<Rightarrow> (u64 \<times> bool) option" where
  "trace_state es = foldl trace_step (Some (1, False)) es"

definition tracker_trace_state :: "CausalityTracker \<Rightarrow> (u64 \<times> bool) option" where
  "tracker_trace_state t = Some (next_incident_seq (incident t), active (incident t))"

lemma opened_incident:
  "opens side a t \<Longrightarrow> incident (opened side a now_ms t) = (incident t)
     \<lparr>active := True, incident_id := inc_name (next_incident_seq (incident t)),
      next_incident_seq := next_incident_seq (incident t) + 1,
      opened_unix_ms := now_ms, first_side := side, first_reason_class := reason_class (reason_of a),
      first_reason_code := code (reason_of a),
      input_failures := 0, output_failures := 0, input_timeouts := 0, output_timeouts := 0\<rparr>"
  "\<not> opens side a t \<Longrightarrow> incident (opened side a now_ms t) = incident t"
  by (simp_all add: opened_def open_incident_def Let_def inc_name_def)

lemma trace_failure:
  "foldl trace_step (tracker_trace_state t) (snd (snd (RecordFailure side a now_ms t)))
     = tracker_trace_state (fst (RecordFailure side a now_ms t))"
  by (cases "opens side a t")
    (auto simp: RecordFailure_eq tracker_trace_state_def opened_incident opens_def)

lemma trace_close:
  "tracker_inv t \<Longrightarrow>
   foldl trace_step (tracker_trace_state t) (snd (MaybeCloseIncident ic oc t))
     = tracker_trace_state (fst (MaybeCloseIncident ic oc t))"
  by (auto simp: MaybeCloseIncident_def tracker_trace_state_def tracker_inv_def incident_inv_def Let_def)

lemma trace_step_run:
  assumes "tracker_step t es t'" and "tracker_inv t"
  shows "foldl trace_step (tracker_trace_state t) es = tracker_trace_state t'"
  using assms(1)
proof cases
  case (step_ensure side k)
  then show ?thesis
    by (auto simp: EnsureAttemptStarted_def tracker_trace_state_def Let_def split: if_splits)
next
  case (step_failure side a now_ms reason)
  with trace_failure [of t side a now_ms] show ?thesis by simp
next
  case (step_close ic oc)
  with trace_close [OF assms(2), of ic oc] show ?thesis by simp
qed (simp_all add: tracker_trace_state_def CompleteAttempt_def note_rx_def note_tx_def
    NoteDataSuccess_def Let_def)

lemma trace_run:
  "tracker_run t es t' \<Longrightarrow> tracker_inv t \<Longrightarrow>
   foldl trace_step (tracker_trace_state t) es = tracker_trace_state t'"
proof (induction rule: tracker_run.induct)
  case (run_step t es t' es' t'')
  then show ?case using trace_step_run [OF run_step.hyps(2)] inv_run by simp
qed simp

section \<open>Properties\<close>

text \<open>
  However the tracker is used, its metrics tell its state: the incident metrics and the active
  incident id agree with the incident, which is named by its number; per side the active attempt in
  the metrics is the tracker's, it is 0 unless an attempt is active, and the attempts counted are
  the ids handed out.
\<close>

theorem tracker_run_inv:
  assumes "tracker_run (initial_tracker startup_ms) es t"
  shows "tracker_inv t"
  using inv_run [OF assms] inv_initial by simp

text \<open>
  C21. The log of every run is a sequence of incidents with consecutive numbers, each closed under its
  own name before the next one opens; it ends with an open incident exactly when the tracker has one.
\<close>

theorem incident_trace:
  assumes "tracker_run (initial_tracker startup_ms) es t"
  shows "trace_state es = Some (next_incident_seq (incident t), active (incident t))"
  using trace_run [OF assms inv_initial]
  by (simp add: trace_state_def tracker_trace_state_def initial_tracker_def default_IncidentState_def)

definition opened_names :: "incident_event list \<Rightarrow> string list" where
  "opened_names es =
     concat (map (\<lambda>e. case e of incident_open name _ _ \<Rightarrow> [name] | incident_close _ \<Rightarrow> []) es)"

lemma trace_state_snoc: "trace_state (es @ [e]) = trace_step (trace_state es) e"
  by (simp add: trace_state_def)

lemma trace_step_Some:
  assumes "trace_step st e = Some (k, b)"
  shows "(\<exists>name side c. e = incident_open name side c \<and> st = Some (k - 1, False) \<and>
            name = inc_name (k - 1) \<and> b) \<or>
         (\<exists>name. e = incident_close name \<and> st = Some (k, True) \<and> \<not> b)"
  using assms by (cases "(st, e)" rule: trace_step.cases) (auto split: if_splits)

lemma trace_opened_names:
  "trace_state es = Some (k, b) \<Longrightarrow>
   opened_names es = map (\<lambda>i. inc_name (of_nat i)) [1..<Suc (length (opened_names es))] \<and>
   k = of_nat (Suc (length (opened_names es)))"
proof (induction es arbitrary: k b rule: rev_induct)
  case Nil
  then show ?case by (simp add: trace_state_def opened_names_def)
next
  case (snoc e es)
  from trace_step_Some [OF snoc.prems [unfolded trace_state_snoc]] show ?case
  proof (elim disjE exE conjE)
    fix name side c
    assume e: "e = incident_open name side c" and st: "trace_state es = Some (k - 1, False)"
      and name: "name = inc_name (k - 1)"
    from snoc.IH [OF st] have names: "opened_names es
        = map (\<lambda>i. inc_name (of_nat i)) [1..<Suc (length (opened_names es))]"
      and k: "k - 1 = of_nat (Suc (length (opened_names es)))" by simp_all
    have "opened_names (es @ [e]) = opened_names es @ [inc_name (k - 1)]"
      by (simp add: opened_names_def e name)
    moreover from k have "k = of_nat (Suc (Suc (length (opened_names es))))"
      by (simp add: algebra_simps)
    ultimately show ?case using names k by simp
  next
    fix name
    assume "e = incident_close name" and "trace_state es = Some (k, True)"
    then show ?case using snoc.IH by (simp add: opened_names_def)
  qed
qed

text \<open>
  The incidents of a run are called inc-1, inc-2, ... in the order they open, so as long as
  fewer than \<open>2 ^ 64\<close> have been opened no two have the same id.
\<close>

theorem incident_names:
  assumes "tracker_run (initial_tracker startup_ms) es t" and "length (opened_names es) < 2 ^ 64"
  shows "opened_names es = map (\<lambda>i. ''inc-'' @ show_nat i) [1..<Suc (length (opened_names es))] \<and>
    distinct (opened_names es)"
proof -
  have "trace_state es = Some (next_incident_seq (incident t), active (incident t))"
    using trace_run [OF assms(1) inv_initial]
    by (simp add: trace_state_def tracker_trace_state_def initial_tracker_def default_IncidentState_def)
  from trace_opened_names [OF this]
  have "opened_names es = map (\<lambda>i. inc_name (of_nat i)) [1..<Suc (length (opened_names es))]" by simp
  also have "\<dots> = map (\<lambda>i. ''inc-'' @ show_nat i) [1..<Suc (length (opened_names es))]"
    using assms(2) by (intro map_cong) (auto simp: inc_name_def unat_of_nat)
  finally have names: "opened_names es
      = map (\<lambda>i. ''inc-'' @ show_nat i) [1..<Suc (length (opened_names es))]" .
  moreover have "distinct (map (\<lambda>i. ''inc-'' @ show_nat i) [1..<Suc (length (opened_names es))])"
    by (simp add: distinct_map inj_on_def)
  ultimately show ?thesis by simp
qed

definition receive_timeout :: "failure_args \<Rightarrow> bool" where
  "receive_timeout a \<longleftrightarrow> fa_operation a = FailureOperation.kReceive \<and> fa_is_timeout a"

definition record_all ::
  "FailureSide \<Rightarrow> (failure_args \<times> int) list \<Rightarrow> CausalityTracker \<Rightarrow> CausalityTracker" where
  "record_all side fs t = foldl (\<lambda>t (a, now_ms). fst (RecordFailure side a now_ms t)) t fs"

lemma receive_timeout_class:
  "receive_timeout a \<longleftrightarrow>
     fa_operation a = FailureOperation.kReceive \<and> reason_class (reason_of a) = ReasonClass.kTimeout"
  by (auto simp: receive_timeout_def reason_of_def classify_defs)

lemma record_timeout:
  assumes "receive_timeout a"
  shows "active (incident (fst (RecordFailure side a now_ms t))) \<longleftrightarrow>
      active (incident t) \<or> 3 \<le> consecutive_receive_timeouts (SideState side t) + 1"
    and "consecutive_receive_timeouts (SideState side (fst (RecordFailure side a now_ms t)))
      = consecutive_receive_timeouts (SideState side t) + 1"
  using assms
  by (auto simp: RecordFailure_eq opened_def opens_def counted_def count_receive_timeout_def Let_def
      receive_timeout_class open_incident_def kReceiveTimeoutIncidentThreshold_def not_less SideState_def
      set_SideState_def)

lemma record_stays_active:
  "active (incident t) \<Longrightarrow> active (incident (fst (RecordFailure side a now_ms t)))"
  by (simp add: RecordFailure_eq opened_def opens_def)

lemma record_all_active: "active (incident t) \<Longrightarrow> active (incident (record_all side fs t))"
  unfolding record_all_def by (induction fs arbitrary: t) (auto simp: record_stays_active)

text \<open>
  Receive timeouts open an incident at the third in a row: on a side that has none counted and
  with no incident open, a run of receive timeouts leaves an incident open exactly when there are
  at least three of them.
\<close>

theorem third_receive_timeout_opens:
  assumes "\<not> active (incident t)" and "consecutive_receive_timeouts (SideState side t) = 0"
    and "\<forall>(a, now_ms) \<in> set fs. receive_timeout a"
  shows "active (incident (record_all side fs t)) \<longleftrightarrow> 3 \<le> length fs"
proof -
  consider "fs = []" | a where "fs = [a]" | a b where "fs = [a, b]"
    | a b c rest where "fs = a # b # c # rest"
    by (metis neq_Nil_conv)
  then show ?thesis
  proof cases
    case 1
    then show ?thesis using assms by (simp add: record_all_def)
  next
    case 2
    then show ?thesis using assms by (auto simp: record_all_def record_timeout word_le_nat_alt)
  next
    case 3
    then show ?thesis using assms by (auto simp: record_all_def record_timeout word_le_nat_alt)
  next
    case (4 a b c rest)
    have "active (incident (record_all side [a, b, c] t))"
      using assms 4 by (auto simp: record_all_def record_timeout word_le_nat_alt)
    from record_all_active [OF this, of side rest] 4 show ?thesis by (simp add: record_all_def)
  qed
qed

text \<open>
  Every failure is counted once: it adds one to the disconnect counter of its side and reason
  code, one to the timeout counter of its side and type when it is a timeout and to no other cell,
  leaves the attempts alone, is kept as the side's last failure under the incident it belongs to,
  and unless it is a receive timeout there is an incident open afterwards.
\<close>

theorem RecordFailure_effects:
  assumes "RecordFailure side a now_ms t = (t', reason, es)"
  shows "disconnects_total (metrics t') =
      bump (SideIndex side) (ReasonCodeIndex (code reason)) (disconnects_total (metrics t)) \<and>
    timeouts_total (metrics t') =
      (if has_timeout_type reason
       then bump (SideIndex side) (TimeoutTypeIndex (timeout_type reason)) (timeouts_total (metrics t))
       else timeouts_total (metrics t)) \<and>
    active_attempt_id (metrics t') = active_attempt_id (metrics t) \<and>
    reconnect_attempts_total (metrics t') = reconnect_attempts_total (metrics t) \<and>
    (if side = FailureSide.kInput then input_last_failure (metrics t')
     else output_last_failure (metrics t')) = snapshot_of a now_ms (incident_id (incident t')) \<and>
    (receive_timeout a \<or> active (incident t'))"
proof -
  have "opened side a now_ms t = counted side a t \<or>
      opened side a now_ms t = open_incident side (reason_of a) now_ms (counted side a t)"
    by (simp add: opened_def)
  then have frame: "disconnects_total (metrics (opened side a now_ms t)) = disconnects_total (metrics t)"
    "timeouts_total (metrics (opened side a now_ms t)) = timeouts_total (metrics t)"
    "active_attempt_id (metrics (opened side a now_ms t)) = active_attempt_id (metrics t)"
    "reconnect_attempts_total (metrics (opened side a now_ms t)) = reconnect_attempts_total (metrics t)"
    by (elim disjE; simp)+
  have act: "receive_timeout a \<or> active (incident (opened side a now_ms t))"
    by (auto simp: opened_def opens_def count_receive_timeout_def receive_timeout_class
        open_incident_def Let_def)
  from assms have "t' = (opened side a now_ms t)
        \<lparr>incident := count_failure side (reason_of a) (incident (opened side a now_ms t)),
         metrics := failure_metrics side (reason_of a) (now_ms div 1000)
           (snapshot_of a now_ms (incident_id (incident (opened side a now_ms t))))
           (metrics (opened side a now_ms t))\<rparr>" and "reason = reason_of a"
    unfolding RecordFailure_eq prod.inject by blast+
  then show ?thesis using frame act by (cases side) (simp_all add: failure_metrics_tables)
qed

text \<open>
  An incident closes exactly when it is open, both ends are connected and, if it began with a
  timeout, data has passed on that side since it opened; closing clears its id and its metrics and
  reports it under its name, and otherwise nothing changes.
\<close>

theorem MaybeCloseIncident_spec:
  assumes "MaybeCloseIncident ic oc t = (t', es)"
  shows "(if active (incident t) \<and> ic \<and> oc \<and>
           (first_reason_class (incident t) = ReasonClass.kTimeout \<longrightarrow> data_since_open t)
    then \<not> active (incident t') \<and> es = [incident_close (incident_id (incident t))] \<and>
         incident_active (metrics t') = 0 \<and> active_incident_id (metrics t') = [] \<and>
         next_incident_seq (incident t') = next_incident_seq (incident t)
    else t' = t \<and> es = [])"
  using assms by (auto simp: MaybeCloseIncident_def Let_def split: if_splits)

text \<open>
  An attempt keeps its id until it completes: starting one again returns the same id and changes
  nothing, and the first attempt after completion gets the next id.
\<close>

theorem attempt_ids:
  assumes "EnsureAttemptStarted side t = (t1, k)" and "tracker_inv t"
  shows "EnsureAttemptStarted side t1 = (t1, k) \<and> ActiveAttemptId side t1 = k \<and>
    snd (EnsureAttemptStarted side (CompleteAttempt side t1)) = k + 1 \<and>
    ActiveAttemptId side (CompleteAttempt side t1) = 0"
proof -
  have "attempt_active (SideState side t1) \<and> side_active_attempt_id (SideState side t1) = k \<and>
      next_attempt_id (SideState side t1) = k + 1"
    using assms FailureSide_cases [of side]
    by (auto simp: EnsureAttemptStarted_def tracker_inv_def side_inv_def Let_def split: if_splits)
  then show ?thesis
    using FailureSide_cases [of side]
    by (auto simp: EnsureAttemptStarted_def CompleteAttempt_def ActiveAttemptId_def Let_def SideState_def
        set_SideState_def)
qed

section \<open>Witnesses\<close>

definition example_failure :: failure_args where
  "example_failure =
     \<lparr>fa_operation = FailureOperation.kSend, fa_is_timeout = False, fa_is_disconnected = True,
      fa_listener_mode = False, fa_detail = ''gone'', fa_source = ''output.send'', fa_attempt_id = 1\<rparr>"

definition example_timeout :: failure_args where
  "example_timeout = example_failure\<lparr>fa_operation := FailureOperation.kReceive, fa_is_timeout := True\<rparr>"

definition failed_tracker :: CausalityTracker where
  "failed_tracker = fst (RecordFailure FailureSide.kOutput example_failure 9000 (initial_tracker 5))"

lemma example_run:
  "tracker_run (initial_tracker 5) [incident_open ''inc-1'' FailureSide.kOutput ReasonCode.kDisconnected]
     failed_tracker"
proof -
  have "snd (snd (RecordFailure FailureSide.kOutput example_failure 9000 (initial_tracker 5)))
      = [incident_open ''inc-1'' FailureSide.kOutput ReasonCode.kDisconnected]"
    by code_simp
  then have "RecordFailure FailureSide.kOutput example_failure 9000 (initial_tracker 5) =
      (failed_tracker, fst (snd (RecordFailure FailureSide.kOutput example_failure 9000 (initial_tracker 5))),
       [incident_open ''inc-1'' FailureSide.kOutput ReasonCode.kDisconnected])"
    by (simp add: failed_tracker_def prod_eq_iff)
  from run_step [OF run_refl step_failure [OF this]] show ?thesis by simp
qed

theorem tracker_run_inv_witness: "tracker_inv failed_tracker"
  by (rule tracker_run_inv [OF example_run])

theorem incident_trace_witness:
  "trace_state [incident_open ''inc-1'' FailureSide.kOutput ReasonCode.kDisconnected]
     = Some (next_incident_seq (incident failed_tracker), active (incident failed_tracker))"
  by (rule incident_trace [OF example_run])

theorem incident_names_witness:
  "distinct (opened_names [incident_open ''inc-1'' FailureSide.kOutput ReasonCode.kDisconnected])"
  using incident_names [OF example_run] by (simp add: opened_names_def)

theorem third_receive_timeout_opens_witness:
  "active (incident (record_all FailureSide.kInput
     [(example_timeout, 1), (example_timeout, 2), (example_timeout, 3)] (initial_tracker 5)))"
  using third_receive_timeout_opens [of "initial_tracker 5" FailureSide.kInput
      "[(example_timeout, 1), (example_timeout, 2), (example_timeout, 3)]"]
  by (simp add: initial_tracker_def default_IncidentState_def default_SideCausalityState_def
      SideState_def receive_timeout_def example_timeout_def)

theorem RecordFailure_effects_witness:
  "disconnects_total (metrics failed_tracker) ! 1 ! 8 = 1 \<and> active (incident failed_tracker)"
proof -
  obtain t' reason es where r: "RecordFailure FailureSide.kOutput example_failure 9000 (initial_tracker 5)
      = (t', reason, es)" by (meson prod_cases3)
  have reason: "code reason = ReasonCode.kDisconnected"
    using r by (auto simp: RecordFailure_eq reason_of_def example_failure_def classify_defs)
  from RecordFailure_effects [OF r] r reason show ?thesis
    by (simp add: failed_tracker_def bump_def initial_tracker_def initial_metrics_def kFailureSides_def
        kReasonCodes_def receive_timeout_def example_failure_def)
qed

theorem MaybeCloseIncident_spec_witness:
  "\<exists>t'. MaybeCloseIncident True True failed_tracker = (t', [incident_close ''inc-1'']) \<and>
     \<not> active (incident t')"
proof -
  obtain t' es where c: "MaybeCloseIncident True True failed_tracker = (t', es)" by fastforce
  have "active (incident failed_tracker)" "incident_id (incident failed_tracker) = ''inc-1''"
    "first_reason_class (incident failed_tracker) = ReasonClass.kDisconnect"
    by code_simp+
  with MaybeCloseIncident_spec [OF c] c show ?thesis by simp
qed

theorem attempt_ids_witness:
  "ActiveAttemptId FailureSide.kInput (fst (EnsureAttemptStarted FailureSide.kInput (initial_tracker 5))) = 1"
proof -
  obtain t1 k where e: "EnsureAttemptStarted FailureSide.kInput (initial_tracker 5) = (t1, k)" by fastforce
  then have "k = 1"
    by (auto simp: EnsureAttemptStarted_def initial_tracker_def default_SideCausalityState_def
        SideState_def Let_def)
  with attempt_ids [OF e inv_initial] e show ?thesis by simp
qed

end
