(* ===== verification/LinkHealth.thy ===== *)
theory LinkHealth
  imports Snapshot
begin

text \<open>
  Link health and member events (\<open>src/src/metrics.cpp\<close>): what a group member's state means for the
  counts of total, healthy and running links, how the members of a session are found (its group, the
  session itself, or the session as a single link), how the answers reach the slot table, and the
  log of members that connect and disconnect. libsrt is a parameter; the log lines an operation
  writes are returned as values, in order.
\<close>

section \<open>What libsrt is asked\<close>

text \<open>
  \<open>srt_getpeername\<close> fails with \<open>None\<close>. \<open>srt_group_data\<close> gets the capacity of the array it may
  fill; \<open>None\<close> is its error, otherwise the members it wrote.
\<close>

record health_env = link_env +
  srt_getpeername :: "int \<Rightarrow> sockaddr_storage option"
  srt_groupof :: "int \<Rightarrow> int"
  srt_group_data :: "int \<Rightarrow> nat \<Rightarrow> SRT_SOCKGROUPDATA list option"

text \<open>Documented: \<open>srt_group_data\<close> never writes more members than the array holds.\<close>

definition group_data_fits :: "'e health_env_scheme \<Rightarrow> bool" where
  "group_data_fits env \<longleftrightarrow>
     (\<forall>sock capacity members.
        srt_group_data env sock capacity = Some members \<longrightarrow> length members \<le> capacity)"

text \<open>The part of \<open>MetricsState\<close> that goes with the link counts.\<close>

record HealthMetrics = LinkMetrics +
  input_transport_members_total :: int
  output_transport_members_total :: int

section \<open>States of members and slots\<close>

definition IsHealthyGroupMember :: "SRT_SOCKGROUPDATA \<Rightarrow> bool" where
  "IsHealthyGroupMember member =
     (if memberstate member = SRT_GST_BROKEN then False
      else sockstate member \<noteq> SRTS_BROKEN \<and> sockstate member \<noteq> SRTS_CLOSING \<and>
           sockstate member \<noteq> SRTS_CLOSED \<and> sockstate member \<noteq> SRTS_NONEXIST)"

datatype MemberLinkState = kDown | kUp | kRunning | kBroken

text \<open>\<open>static_cast\<close> to and from \<open>int\<close>; only the numbers of the four enumerators are cast back.\<close>

fun link_state_int :: "MemberLinkState \<Rightarrow> int" where
  "link_state_int kDown = 0"
| "link_state_int kUp = 1"
| "link_state_int kRunning = 2"
| "link_state_int kBroken = 3"

definition link_state_of :: "int \<Rightarrow> MemberLinkState" where
  "link_state_of i =
     (if i = 1 then kUp else if i = 2 then kRunning else if i = 3 then kBroken else kDown)"

definition DeriveMemberLinkState ::
  "SRT_SOCKSTATUS \<Rightarrow> SRT_MEMBERSTATUS \<Rightarrow> int \<Rightarrow> MemberLinkState" where
  "DeriveMemberLinkState sock_state member_state connected =
     (if member_state = SRT_GST_BROKEN \<or> sock_state = SRTS_BROKEN \<or> sock_state = SRTS_CLOSING \<or>
         sock_state = SRTS_CLOSED \<or> sock_state = SRTS_NONEXIST then kBroken
      else if member_state = SRT_GST_RUNNING then kRunning
      else if connected = 1 \<or> sock_state = SRTS_CONNECTED then kUp
      else kDown)"

fun MemberLinkStateName :: "MemberLinkState \<Rightarrow> string" where
  "MemberLinkStateName kDown = ''down''"
| "MemberLinkStateName kUp = ''up''"
| "MemberLinkStateName kRunning = ''running''"
| "MemberLinkStateName kBroken = ''broken''"

fun HasUsablePeerAddress :: "sockaddr_storage \<Rightarrow> bool" where
  "HasUsablePeerAddress (AF_INET a p) = True"
| "HasUsablePeerAddress (AF_INET6 a p) = True"
| "HasUsablePeerAddress AF_OTHER = False"

definition IsUsableGroupMemberSnapshot :: "SRT_SOCKGROUPDATA \<Rightarrow> bool" where
  "IsUsableGroupMemberSnapshot member =
     (if socket_id member \<noteq> SRT_INVALID_SOCK \<and> socket_id member \<noteq> 0 then True
      else if HasUsablePeerAddress (peeraddr member) then True
      else if token member \<noteq> 0 then True
      else False)"

definition EndpointStringFromHostPort :: "string \<Rightarrow> int \<Rightarrow> string" where
  "EndpointStringFromHostPort host_name port_number =
     (if host_name = [] \<or> port_number \<le> 0 then ''unknown''
      else host_name @ '':'' @ show_int port_number)"

definition TryGetSocketEndpoint :: "'e health_env_scheme \<Rightarrow> int \<Rightarrow> bool \<Rightarrow> string option" where
  "TryGetSocketEndpoint env sock local =
     (if sock = SRT_INVALID_SOCK \<or> sock = 0 then None
      else (case (if local then srt_getsockname env sock else srt_getpeername env sock) of
              None \<Rightarrow> None
            | Some addr \<Rightarrow>
                (case TryExtractEndpoint env addr of
                   None \<Rightarrow> None
                 | Some (h, p) \<Rightarrow> Some (EndpointStringFromHostPort h p))))"

section \<open>Member transition events\<close>

record TransitionEvent =
  ev_side :: string
  ev_member_index :: nat
  ev_socket_id :: int
  ev_peer_host :: string
  ev_peer_port :: int
  prior_state :: MemberLinkState
  new_state :: MemberLinkState
  prior_connected :: int
  new_connected :: int

definition slot_link_state :: "'z TrackedSlot_scheme \<Rightarrow> MemberLinkState" where
  "slot_link_state s =
     DeriveMemberLinkState (member_sock_state s) (member_group_state s) (member_connected s)"

text \<open>The body of the loop in \<open>inspect_side\<close>: the slot afterwards and the event pushed, if any.\<close>

definition slot_transitioned :: "'z TrackedSlot_scheme \<Rightarrow> bool" where
  "slot_transitioned s \<longleftrightarrow>
     0 \<le> member_status_last_logged s \<and>
     (member_status_last_logged s \<noteq> link_state_int (slot_link_state s) \<or>
      member_connected_last_logged s \<noteq> member_connected s)"

definition first_seen_connected :: "'z TrackedSlot_scheme \<Rightarrow> bool" where
  "first_seen_connected s \<longleftrightarrow> member_status_last_logged s < 0 \<and> member_connected s = 1"

definition slot_event :: "string \<Rightarrow> nat \<Rightarrow> 'z TrackedSlot_scheme \<Rightarrow> TransitionEvent" where
  "slot_event side_name i s =
     \<lparr>ev_side = side_name, ev_member_index = i + 1, ev_socket_id = member_id s,
      ev_peer_host = member_peer_host s, ev_peer_port = member_peer_port s,
      prior_state = (if 0 \<le> member_status_last_logged s
                     then link_state_of (member_status_last_logged s) else kDown),
      new_state = slot_link_state s,
      prior_connected = (if 0 \<le> member_connected_last_logged s
                         then member_connected_last_logged s else 0),
      new_connected = member_connected s\<rparr>"

definition inspect_slot ::
  "string \<Rightarrow> nat \<Rightarrow> 'z TrackedSlot_scheme \<Rightarrow> 'z TrackedSlot_scheme \<times> TransitionEvent list" where
  "inspect_slot side_name i s =
     (if member_identity_key s = 0 then
        (s\<lparr>member_status_last_logged := -1, member_connected_last_logged := -1\<rparr>, [])
      else
        (s\<lparr>member_status_last_logged := link_state_int (slot_link_state s),
           member_connected_last_logged := member_connected s\<rparr>,
         if slot_transitioned s \<or> first_seen_connected s then [slot_event side_name i s] else []))"

definition inspect_side ::
  "string \<Rightarrow> 'z TrackedSlot_scheme list \<Rightarrow> 'z TrackedSlot_scheme list \<times> TransitionEvent list" where
  "inspect_side side_name slots =
     (let rs = map (\<lambda>i. inspect_slot side_name i (slots ! i)) [0..<kMaxTrackedMembers]
      in (map fst rs, concat (map snd rs)))"

text \<open>The lines written for an event; the endpoints come with them.\<close>

datatype MemberLog =
    member_transition TransitionEvent string string string
  | member_change string nat int string string string

definition log_event :: "'e health_env_scheme \<Rightarrow> string \<Rightarrow> TransitionEvent \<Rightarrow> MemberLog list" where
  "log_event env active_incident_id event =
     (let remote0 = EndpointStringFromHostPort (ev_peer_host event) (ev_peer_port event);
          remote = (if remote0 = ''unknown''
                    then (case TryGetSocketEndpoint env (ev_socket_id event) False of
                            None \<Rightarrow> remote0 | Some e \<Rightarrow> e)
                    else remote0);
          local = (case TryGetSocketEndpoint env (ev_socket_id event) True of
                     None \<Rightarrow> ''unknown'' | Some e \<Rightarrow> e);
          incident = (if active_incident_id = [] then ''none'' else active_incident_id);
          became_connected = (prior_connected event \<noteq> 1 \<and> new_connected event = 1);
          became_disconnected = (prior_connected event = 1 \<and> new_connected event \<noteq> 1)
      in member_transition event local remote incident #
         (if became_connected then
            [member_change (ev_side event @ ''-member-connected'') (ev_member_index event)
               (ev_socket_id event) local remote incident]
          else if became_disconnected then
            [member_change (ev_side event @ ''-member-disconnected'') (ev_member_index event)
               (ev_socket_id event) local remote incident]
          else []))"

definition EmitMemberTransitionEvents ::
  "'e health_env_scheme \<Rightarrow> string \<Rightarrow> 'm LinkMetrics_scheme \<Rightarrow> 'm LinkMetrics_scheme \<times> MemberLog list" where
  "EmitMemberTransitionEvents env active_incident_id m =
     (let (input_slots, input_events) = inspect_side ''input'' (input_tracked m);
          (output_slots, output_events) = inspect_side ''output'' (output_tracked m)
      in (m\<lparr>input_tracked := input_slots, output_tracked := output_slots\<rparr>,
          concat (map (log_event env active_incident_id) (input_events @ output_events))))"

section \<open>The members of a session\<close>

definition TryGetPeerAddrForSocket :: "'e health_env_scheme \<Rightarrow> int \<Rightarrow> sockaddr_storage option" where
  "TryGetPeerAddrForSocket env sock =
     (if sock = SRT_INVALID_SOCK then None else srt_getpeername env sock)"

definition BuildSingleSocketFallbackSnapshot ::
  "'e health_env_scheme \<Rightarrow> int \<Rightarrow> SRT_SOCKGROUPDATA list" where
  "BuildSingleSocketFallbackSnapshot env sock =
     (if sock = SRT_INVALID_SOCK then []
      else [\<lparr>socket_id = sock,
             peeraddr = (case TryGetPeerAddrForSocket env sock of Some a \<Rightarrow> a | None \<Rightarrow> AF_OTHER),
             sockstate = SRTS_CONNECTED, memberstate = SRT_GST_RUNNING, token = 0\<rparr>])"

text \<open>The result \<open>false\<close> is \<open>None\<close>.\<close>

definition TryReadGroupMembers :: "'e health_env_scheme \<Rightarrow> int \<Rightarrow> SRT_SOCKGROUPDATA list option" where
  "TryReadGroupMembers env sock =
     (if sock = SRT_INVALID_SOCK then None
      else (case srt_group_data env sock kMaxTrackedMembers of
              None \<Rightarrow> None
            | Some members \<Rightarrow>
                (let out_members = filter IsUsableGroupMemberSnapshot members
                 in if members = [] \<or> out_members = [] then None else Some out_members)))"

section \<open>Link counts\<close>

definition healthy_count :: "SRT_SOCKGROUPDATA list \<Rightarrow> int" where
  "healthy_count members = int (length (filter IsHealthyGroupMember members))"

definition running_count :: "SRT_SOCKGROUPDATA list \<Rightarrow> int" where
  "running_count members =
     int (length (filter (\<lambda>member. memberstate member = SRT_GST_RUNNING \<or>
                                   sockstate member = SRTS_CONNECTED) members))"

definition UpdateInputLinkHealthFromGroupMembers ::
  "SRT_SOCKGROUPDATA list \<Rightarrow> 'm LinkMetrics_scheme \<Rightarrow> 'm LinkMetrics_scheme" where
  "UpdateInputLinkHealthFromGroupMembers members m =
     m\<lparr>input_links_total := int (length members), input_links_healthy := healthy_count members,
       input_links_running := running_count members\<rparr>"

definition UpdateOutputLinkHealthFromGroupMembers ::
  "SRT_SOCKGROUPDATA list \<Rightarrow> 'm LinkMetrics_scheme \<Rightarrow> 'm LinkMetrics_scheme" where
  "UpdateOutputLinkHealthFromGroupMembers members m =
     m\<lparr>output_links_total := int (length members), output_links_healthy := healthy_count members,
       output_links_running := running_count members\<rparr>"

definition SaveInputMemberSnapshot ::
  "'e link_env_scheme \<Rightarrow> SRT_SOCKGROUPDATA list \<Rightarrow> 'm LinkMetrics_scheme \<Rightarrow> 'm LinkMetrics_scheme" where
  "SaveInputMemberSnapshot env members m = SaveMemberSnapshot env LinkSide.kInput members m"

definition SaveOutputMemberSnapshot ::
  "'e link_env_scheme \<Rightarrow> SRT_SOCKGROUPDATA list \<Rightarrow> 'm LinkMetrics_scheme \<Rightarrow> 'm LinkMetrics_scheme" where
  "SaveOutputMemberSnapshot env members m = SaveMemberSnapshot env LinkSide.kOutput members m"

definition UpdateInputLinkHealthFallbackSingleSocket ::
  "'e health_env_scheme \<Rightarrow> int \<Rightarrow> 'm LinkMetrics_scheme \<Rightarrow> 'm LinkMetrics_scheme" where
  "UpdateInputLinkHealthFallbackSingleSocket env sock m =
     (if sock = SRT_INVALID_SOCK then
        ClearTrackedMembersForDisconnectedSocket LinkSide.kInput
          (m\<lparr>input_links_total := 0, input_links_healthy := 0, input_links_running := 0\<rparr>)
      else
        (let members = BuildSingleSocketFallbackSnapshot env sock
         in SaveInputMemberSnapshot env members (UpdateInputLinkHealthFromGroupMembers members m)))"

definition UpdateOutputLinkHealthFallbackSingleSocket ::
  "'e health_env_scheme \<Rightarrow> int \<Rightarrow> 'm LinkMetrics_scheme \<Rightarrow> 'm LinkMetrics_scheme" where
  "UpdateOutputLinkHealthFallbackSingleSocket env sock m =
     (if sock = SRT_INVALID_SOCK then
        ClearTrackedMembersForDisconnectedSocket LinkSide.kOutput
          (m\<lparr>output_links_total := 0, output_links_healthy := 0, output_links_running := 0\<rparr>)
      else
        (let members = BuildSingleSocketFallbackSnapshot env sock
         in SaveOutputMemberSnapshot env members (UpdateOutputLinkHealthFromGroupMembers members m)))"

definition ResetInputTrackingMetrics :: "'m HealthMetrics_scheme \<Rightarrow> 'm HealthMetrics_scheme" where
  "ResetInputTrackingMetrics m =
     (MarkAllTrackedLinksDisconnected LinkSide.kInput
        (m\<lparr>input_links_total := 0, input_links_healthy := 0, input_links_running := 0\<rparr>))
        \<lparr>input_transport_members_total := 0\<rparr>"

definition ResetOutputTrackingMetrics :: "'m HealthMetrics_scheme \<Rightarrow> 'm HealthMetrics_scheme" where
  "ResetOutputTrackingMetrics m =
     (MarkAllTrackedLinksDisconnected LinkSide.kOutput
        (m\<lparr>output_links_total := 0, output_links_healthy := 0, output_links_running := 0\<rparr>))
        \<lparr>output_transport_members_total := 0\<rparr>"

text \<open>
  One update of a side. An invalid session resets it; otherwise the members are those of the
  session's group, else those the session itself reports, else the session as one link.
\<close>

definition UpdateInputLinkHealthMetrics ::
  "'e health_env_scheme \<Rightarrow> int \<Rightarrow> 'm HealthMetrics_scheme \<Rightarrow> 'm HealthMetrics_scheme" where
  "UpdateInputLinkHealthMetrics env input_session_sock m =
     (if input_session_sock = SRT_INVALID_SOCK then
        (MarkAllTrackedLinksDisconnected LinkSide.kInput
           (m\<lparr>input_links_total := 0, input_links_healthy := 0, input_links_running := 0\<rparr>))
           \<lparr>input_transport_members_total := 0\<rparr>
      else
        (let g = srt_groupof env input_session_sock;
             group_sock = (if g = SRT_INVALID_SOCK then input_session_sock else g)
         in case (case TryReadGroupMembers env group_sock of
                    Some members \<Rightarrow> Some members
                  | None \<Rightarrow> TryReadGroupMembers env input_session_sock) of
              None \<Rightarrow> UpdateInputLinkHealthFallbackSingleSocket env input_session_sock m
            | Some members \<Rightarrow>
                if members = [] then UpdateInputLinkHealthFallbackSingleSocket env input_session_sock m
                else SaveInputMemberSnapshot env members
                       (UpdateInputLinkHealthFromGroupMembers members m)))"

definition UpdateOutputLinkHealthMetrics ::
  "'e health_env_scheme \<Rightarrow> int \<Rightarrow> 'm HealthMetrics_scheme \<Rightarrow> 'm HealthMetrics_scheme" where
  "UpdateOutputLinkHealthMetrics env output_sock m =
     (if output_sock = SRT_INVALID_SOCK then
        (MarkAllTrackedLinksDisconnected LinkSide.kOutput
           (m\<lparr>output_links_total := 0, output_links_healthy := 0, output_links_running := 0\<rparr>))
           \<lparr>output_transport_members_total := 0\<rparr>
      else
        (let g = srt_groupof env output_sock;
             group_sock = (if g = SRT_INVALID_SOCK then output_sock else g)
         in case (case TryReadGroupMembers env group_sock of
                    Some members \<Rightarrow> Some members
                  | None \<Rightarrow> TryReadGroupMembers env output_sock) of
              None \<Rightarrow> UpdateOutputLinkHealthFallbackSingleSocket env output_sock m
            | Some members \<Rightarrow>
                if members = [] then UpdateOutputLinkHealthFallbackSingleSocket env output_sock m
                else SaveOutputMemberSnapshot env members
                       (UpdateOutputLinkHealthFromGroupMembers members m)))"

text \<open>
  The group data that comes with a received or sent message. The array has at least
  \<open>grpdata_size\<close> entries; \<open>None\<close> is the null pointer.
\<close>

record SRT_MSGCTRL =
  grpdata :: "SRT_SOCKGROUPDATA list option"
  grpdata_size :: int

definition UpdateInputLinkHealthFromMsgCtrl ::
  "'e link_env_scheme \<Rightarrow> SRT_MSGCTRL \<Rightarrow> 'm LinkMetrics_scheme \<Rightarrow> 'm LinkMetrics_scheme" where
  "UpdateInputLinkHealthFromMsgCtrl env rx_ctrl m =
     (case grpdata rx_ctrl of
        None \<Rightarrow> m
      | Some entries \<Rightarrow>
          if grpdata_size rx_ctrl \<le> 0 then m
          else
            (let capped = min (nat (grpdata_size rx_ctrl)) kMaxTrackedMembers;
                 members = filter IsUsableGroupMemberSnapshot (map ((!) entries) [0..<capped])
             in if members = [] then m
                else SaveInputMemberSnapshot env members
                       (UpdateInputLinkHealthFromGroupMembers members m)))"

definition UpdateOutputLinkHealthFromMsgCtrl ::
  "'e link_env_scheme \<Rightarrow> SRT_MSGCTRL \<Rightarrow> 'm LinkMetrics_scheme \<Rightarrow> 'm LinkMetrics_scheme" where
  "UpdateOutputLinkHealthFromMsgCtrl env tx_ctrl m =
     (case grpdata tx_ctrl of
        None \<Rightarrow> m
      | Some entries \<Rightarrow>
          if grpdata_size tx_ctrl \<le> 0 then m
          else
            (let capped = min (nat (grpdata_size tx_ctrl)) kMaxTrackedMembers;
                 members = filter IsUsableGroupMemberSnapshot (map ((!) entries) [0..<capped])
             in if members = [] then m
                else SaveOutputMemberSnapshot env members
                       (UpdateOutputLinkHealthFromGroupMembers members m)))"

section \<open>The periodic member events\<close>

definition kMemberEventIntervalMs :: int where "kMemberEventIntervalMs = 1000"

datatype OutputMetricsMode = kSrtSocket | kStdout

definition ResolveOutputStatsSocket :: "int \<Rightarrow> OutputMetricsMode \<Rightarrow> int" where
  "ResolveOutputStatsSocket output_sock output_metrics_mode =
     (if output_metrics_mode = kSrtSocket then output_sock else SRT_INVALID_SOCK)"

text \<open>
  \<open>now\<close> and \<open>last_member_events_at\<close> are nanoseconds of the steady clock, which never goes back; the
  outcome is the metrics, the time of the last events and the lines written.
\<close>

definition MaybeEmitMemberConnectionEvents ::
  "'e health_env_scheme \<Rightarrow> int \<Rightarrow> int \<Rightarrow> int \<Rightarrow> OutputMetricsMode \<Rightarrow> string \<Rightarrow> int
     \<Rightarrow> 'm HealthMetrics_scheme \<Rightarrow> 'm HealthMetrics_scheme \<times> int \<times> MemberLog list" where
  "MaybeEmitMemberConnectionEvents env now input_session_sock output_sock output_metrics_mode
       active_incident_id last_member_events_at m =
     (let elapsed_ms = (now - last_member_events_at) div 1000000
      in if elapsed_ms < kMemberEventIntervalMs then (m, last_member_events_at, [])
         else
           (let output_stats_sock = ResolveOutputStatsSocket output_sock output_metrics_mode;
                (m', lines) = EmitMemberTransitionEvents env active_incident_id
                  (UpdateOutputLinkHealthMetrics env output_stats_sock
                    (UpdateInputLinkHealthMetrics env input_session_sock m))
            in (m', now, lines)))"

section \<open>Both sides do the same\<close>

text \<open>
  The input and the output side have their own copies of every operation. \<open>observe_members\<close> is what
  both do with the members they find, and \<open>session_members\<close> what both take for the members.
\<close>

definition put_links :: "LinkSide \<Rightarrow> int \<Rightarrow> int \<Rightarrow> int \<Rightarrow> 'm LinkMetrics_scheme \<Rightarrow> 'm LinkMetrics_scheme" where
  "put_links side n healthy running m =
     (case side of
        LinkSide.kInput \<Rightarrow> m\<lparr>input_links_total := n, input_links_healthy := healthy,
                             input_links_running := running\<rparr>
      | LinkSide.kOutput \<Rightarrow> m\<lparr>output_links_total := n, output_links_healthy := healthy,
                              output_links_running := running\<rparr>)"

definition links :: "LinkSide \<Rightarrow> 'm LinkMetrics_scheme \<Rightarrow> int \<times> int \<times> int" where
  "links side m =
     (case side of
        LinkSide.kInput \<Rightarrow> (input_links_total m, input_links_healthy m, input_links_running m)
      | LinkSide.kOutput \<Rightarrow> (output_links_total m, output_links_healthy m, output_links_running m))"

definition transport_members :: "LinkSide \<Rightarrow> 'm HealthMetrics_scheme \<Rightarrow> int" where
  "transport_members side m =
     (case side of LinkSide.kInput \<Rightarrow> input_transport_members_total m
                 | LinkSide.kOutput \<Rightarrow> output_transport_members_total m)"

definition observe_members ::
  "'e link_env_scheme \<Rightarrow> LinkSide \<Rightarrow> SRT_SOCKGROUPDATA list
     \<Rightarrow> 'm LinkMetrics_scheme \<Rightarrow> 'm LinkMetrics_scheme" where
  "observe_members env side members m =
     SaveMemberSnapshot env side members
       (put_links side (int (length members)) (healthy_count members) (running_count members) m)"

definition session_members :: "'e health_env_scheme \<Rightarrow> int \<Rightarrow> SRT_SOCKGROUPDATA list" where
  "session_members env sock =
     (let g = srt_groupof env sock
      in case TryReadGroupMembers env (if g = SRT_INVALID_SOCK then sock else g) of
           Some members \<Rightarrow> members
         | None \<Rightarrow>
             (case TryReadGroupMembers env sock of
                Some members \<Rightarrow> members
              | None \<Rightarrow> BuildSingleSocketFallbackSnapshot env sock))"

definition update_links ::
  "'e health_env_scheme \<Rightarrow> LinkSide \<Rightarrow> int \<Rightarrow> 'm HealthMetrics_scheme \<Rightarrow> 'm HealthMetrics_scheme" where
  "update_links env side sock m =
     (case side of LinkSide.kInput \<Rightarrow> UpdateInputLinkHealthMetrics env sock m
                 | LinkSide.kOutput \<Rightarrow> UpdateOutputLinkHealthMetrics env sock m)"

definition reset_tracking :: "LinkSide \<Rightarrow> 'm HealthMetrics_scheme \<Rightarrow> 'm HealthMetrics_scheme" where
  "reset_tracking side m =
     (case side of LinkSide.kInput \<Rightarrow> ResetInputTrackingMetrics m
                 | LinkSide.kOutput \<Rightarrow> ResetOutputTrackingMetrics m)"

lemma TryReadGroupMembers_Some:
  assumes "TryReadGroupMembers env sock = Some members" and "group_data_fits env"
  shows "members \<noteq> [] \<and> length members \<le> kMaxTrackedMembers \<and>
    (\<forall>member \<in> set members. IsUsableGroupMemberSnapshot member)"
proof -
  obtain all_members where all: "srt_group_data env sock kMaxTrackedMembers = Some all_members"
      "members = filter IsUsableGroupMemberSnapshot all_members" "members \<noteq> []"
    using assms(1) by (auto simp: TryReadGroupMembers_def Let_def split: if_splits option.splits)
  with assms(2) have "length all_members \<le> kMaxTrackedMembers" by (auto simp: group_data_fits_def)
  with all show ?thesis by (simp add: le_trans [OF length_filter_le])
qed

lemma TryReadGroupMembers_not_empty: "TryReadGroupMembers env sock \<noteq> Some []"
  by (auto simp: TryReadGroupMembers_def Let_def split: option.splits)

lemma session_members_ok:
  assumes "sock \<noteq> SRT_INVALID_SOCK" and "group_data_fits env"
  shows "session_members env sock \<noteq> [] \<and> length (session_members env sock) \<le> kMaxTrackedMembers"
  using assms TryReadGroupMembers_Some
  by (auto simp: session_members_def Let_def BuildSingleSocketFallbackSnapshot_def
      kMaxTrackedMembers_def split: option.splits)

lemma update_links_valid:
  assumes "sock \<noteq> SRT_INVALID_SOCK"
  shows "update_links env side sock m = observe_members env side (session_members env sock) m"
proof -
  have "TryReadGroupMembers env s \<noteq> Some []" for s by (rule TryReadGroupMembers_not_empty)
  then show ?thesis
    using assms
    by (cases side)
      (auto simp: update_links_def UpdateInputLinkHealthMetrics_def UpdateOutputLinkHealthMetrics_def
        UpdateInputLinkHealthFallbackSingleSocket_def UpdateOutputLinkHealthFallbackSingleSocket_def
        SaveInputMemberSnapshot_def SaveOutputMemberSnapshot_def observe_members_def put_links_def
        UpdateInputLinkHealthFromGroupMembers_def UpdateOutputLinkHealthFromGroupMembers_def
        session_members_def Let_def split: option.splits if_splits)
qed

lemma update_links_invalid: "update_links env side SRT_INVALID_SOCK m = reset_tracking side m"
  by (cases side) (simp_all add: update_links_def reset_tracking_def UpdateInputLinkHealthMetrics_def
      UpdateOutputLinkHealthMetrics_def ResetInputTrackingMetrics_def ResetOutputTrackingMetrics_def)

section \<open>Link counts agree with the table\<close>

lemma put_links_frame [simp, frame_simps]:
  "input_tracked (put_links side n h r m) = input_tracked m"
  "output_tracked (put_links side n h r m) = output_tracked m"
  "input_links_snapshot_count (put_links side n h r m) = input_links_snapshot_count m"
  "output_links_snapshot_count (put_links side n h r m) = output_links_snapshot_count m"
  by (cases side; simp add: put_links_def)+

lemma put_links_views [simp]:
  "compaction_view s (put_links side n h r m) = compaction_view s m"
  "snapshot_view s (put_links side n h r m) = snapshot_view s m"
  "snapshot_count s (put_links side n h r m) = snapshot_count s m"
  "tables_ok (put_links side n h r m) \<longleftrightarrow> tables_ok m"
  by (cases s; simp add: compaction_view_def snapshot_view_def snapshot_count_def tables_ok_def)+

lemma links_save [simp]: "links s (SaveMemberSnapshot env side members m) = links s m"
  by (cases side; cases s) (simp_all add: links_def SaveMemberSnapshot_def split_beta)

lemma links_put [simp]:
  "links side (put_links side n h r m) = (n, h, r)"
  "links (other_side side) (put_links side n h r m) = links (other_side side) m"
  by (cases side; simp add: links_def put_links_def)+

definition connected_slots :: "SnapshotSlotState list \<Rightarrow> nat set" where
  "connected_slots slots = {s. s < kMaxTrackedMembers \<and> ss_connected (slots ! s) = 1}"

lemma connected_after_save:
  assumes "tables_ok m" and "length members \<le> kMaxTrackedMembers"
  shows "connected_slots (snapshot_view side (SaveMemberSnapshot env side members m))
    = assigned env side members (snapshot_view side m)
        ` {i. i < length members \<and> IsConnectedGroupMember (members ! i)}"
    (is "?L = ?slot ` ?C")
proof (rule set_eqI)
  fix s
  show "s \<in> ?L \<longleftrightarrow> s \<in> ?slot ` ?C"
  proof (cases "s \<in> ?slot ` {..<length members}")
    case True
    then obtain i where i: "i < length members" "s = ?slot i" by auto
    have "s < kMaxTrackedMembers" using assigned_bound [OF assms(2) i(1)] i(2) by simp
    moreover have "ss_connected (snapshot_view side (SaveMemberSnapshot env side members m) ! s) = 1
        \<longleftrightarrow> IsConnectedGroupMember (members ! i)"
      using save_recorded [OF assms i(1), of side env] i(2) by (simp add: member_entry_def split_beta)
    moreover have "s \<in> ?slot ` ?C \<longleftrightarrow> IsConnectedGroupMember (members ! i)"
      using assigned_inj [OF assms(2), of env side "snapshot_view side m"] i
      by (auto simp: inj_on_def)
    ultimately show ?thesis by (simp add: connected_slots_def)
  next
    case False
    then have "s \<notin> ?slot ` ?C" by auto
    moreover have "s \<notin> ?L"
      using save_unmatched(1) [OF assms _ False]
      by (auto simp: connected_slots_def clear_unmatched_def split: if_splits)
    ultimately show ?thesis by simp
  qed
qed

lemma card_connected_after_save:
  assumes "tables_ok m" and "length members \<le> kMaxTrackedMembers"
  shows "int (card (connected_slots (snapshot_view side (SaveMemberSnapshot env side members m))))
    = running_count members"
proof -
  have "inj_on (assigned env side members (snapshot_view side m))
      {i. i < length members \<and> IsConnectedGroupMember (members ! i)}"
    using assigned_inj [OF assms(2)] by (rule inj_on_subset) auto
  then show ?thesis
    using connected_after_save [OF assms, of side env]
    by (simp add: card_image running_count_def length_filter_conv_card IsConnectedGroupMember_def)
qed

lemma observe_counts:
  assumes "tables_ok m" and "members \<noteq> []" and "length members \<le> kMaxTrackedMembers"
    and m': "m' = observe_members env side members m"
  shows "links side m' = (int (length members), healthy_count members, running_count members)"
    and "running_count members = int (card (connected_slots (snapshot_view side m')))"
    and "tables_ok m'" and "links (other_side side) m' = links (other_side side) m"
    and "snapshot_view (other_side side) m' = snapshot_view (other_side side) m"
  using assms(1-3)
  by (simp_all add: m' observe_members_def save_tables_ok card_connected_after_save save_other_side)

text \<open>
  C23. The link counts tell the truth about the table: an update with a valid session reports between
  one and sixteen links, at most as many healthy and at most as many running, and the running ones
  are exactly as many as the slots the table shows connected; the other side is untouched.
\<close>

theorem update_links_counts:
  assumes "tables_ok m" and "sock \<noteq> SRT_INVALID_SOCK" and "group_data_fits env"
    and m': "m' = update_links env side sock m"
  shows "\<exists>n h r. links side m' = (n, h, r) \<and> 1 \<le> n \<and> n \<le> int kMaxTrackedMembers \<and>
    0 \<le> h \<and> h \<le> n \<and> r = int (card (connected_slots (snapshot_view side m'))) \<and> r \<le> n \<and>
    links (other_side side) m' = links (other_side side) m \<and>
    snapshot_view (other_side side) m' = snapshot_view (other_side side) m"
proof -
  let ?ms = "session_members env sock"
  note ok = session_members_ok [OF assms(2,3)]
  note obs = observe_counts [OF assms(1) ok [THEN conjunct1] ok [THEN conjunct2]
      m' [unfolded update_links_valid [OF assms(2)]]]
  have "1 \<le> length ?ms" using ok by (simp add: Suc_leI)
  moreover have "healthy_count ?ms \<le> int (length ?ms)" "running_count ?ms \<le> int (length ?ms)"
    by (simp_all add: healthy_count_def running_count_def)
  ultimately show ?thesis
    using obs ok by (auto simp: healthy_count_def)
qed

section \<open>Sessions that end\<close>

text \<open>The visible span of a side holds every slot with an identity.\<close>

definition span_ok :: "LinkSide \<Rightarrow> 'm LinkMetrics_scheme \<Rightarrow> bool" where
  "span_ok side m \<longleftrightarrow>
     (\<forall>s < kMaxTrackedMembers. cs_tracks (compaction_view side m ! s) \<longrightarrow> s < SnapshotCountCapped side m)"

lemma views_identity:
  assumes "tables_ok m" and "s < kMaxTrackedMembers"
  shows "cs_member_identity (compaction_view side m ! s) = ss_identity_key (snapshot_view side m ! s)"
    and "cs_member_connected (compaction_view side m ! s) = ss_connected (snapshot_view side m ! s)"
    and "cs_member_id (compaction_view side m ! s) = ss_id (snapshot_view side m ! s)"
  using assms by (cases side; simp add: compaction_view_def snapshot_view_def tables_ok_def
      input_slot.rd_fields output_slot.rd_fields)+

lemma span_ok_is_span:
  assumes "tables_ok m" and "is_span (snapshot_view side m) (SnapshotCountCapped side m)"
  shows "span_ok side m"
  unfolding span_ok_def
proof (intro allI impI)
  fix s
  assume s: "s < kMaxTrackedMembers" "cs_tracks (compaction_view side m ! s)"
  then have "ss_identity_key (snapshot_view side m ! s) \<noteq> 0"
    using views_identity(1) [OF assms(1) s(1), of side] by (simp add: cs_tracks_def)
  with assms(2) s(1) show "s < SnapshotCountCapped side m"
    unfolding is_span_def by (metis not_le)
qed

definition unmark :: "CompactionSlotState \<Rightarrow> CompactionSlotState" where
  "unmark st = (if cs_tracks st then st\<lparr>cs_member_connected := 0\<rparr> else st)"

lemma unmark_not_live [simp]: "\<not> cs_live (unmark st)"
  by (simp add: unmark_def cs_live_def cs_tracks_def)

lemma read_mark_disconnected:
  "read_input_compaction (mark_disconnected s) = unmark (read_input_compaction s)"
  "read_output_compaction (mark_disconnected t) = unmark (read_output_compaction t)"
  by (simp_all add: mark_disconnected_def unmark_def slot_defs cs_tracks_def)

lemma unmark_untracked: "\<not> cs_tracks st \<Longrightarrow> unmark st = st"
  by (simp add: unmark_def)

lemma mark_all_view:
  assumes "tables_ok m" and "span_ok side m"
  shows "compaction_view side (MarkAllTrackedLinksDisconnected side m)
    = map unmark (compaction_view side m)"
proof (rule nth_equalityI)
  show "length (compaction_view side (MarkAllTrackedLinksDisconnected side m))
      = length (map unmark (compaction_view side m))"
    using assms(1) by (cases side)
      (simp_all add: compaction_view_def MarkAllTrackedLinksDisconnected_def mark_prefix_def)
next
  fix s
  assume "s < length (compaction_view side (MarkAllTrackedLinksDisconnected side m))"
  then have s: "s < kMaxTrackedMembers"
    using assms(1) by (cases side)
      (simp_all add: compaction_view_def MarkAllTrackedLinksDisconnected_def mark_prefix_def
        tables_ok_def)
  have "\<not> cs_tracks (compaction_view side m ! s)" if "SnapshotCountCapped side m \<le> s"
    using assms(2) s that by (auto simp: span_ok_def)
  then show "compaction_view side (MarkAllTrackedLinksDisconnected side m) ! s
      = map unmark (compaction_view side m) ! s"
    using assms(1) s
    by (cases side)
      (auto simp: compaction_view_def MarkAllTrackedLinksDisconnected_def mark_prefix_def tables_ok_def
        nth_append read_mark_disconnected unmark_untracked)
qed

lemma links_mark [simp]:
  "links s (MarkAllTrackedLinksDisconnected side m) = links s m"
  "transport_members s (MarkAllTrackedLinksDisconnected side h) = transport_members s h"
  by (cases side; cases s; simp add: links_def transport_members_def MarkAllTrackedLinksDisconnected_def)+

lemma mark_other_side:
  "compaction_view (other_side side) (MarkAllTrackedLinksDisconnected side m)
     = compaction_view (other_side side) m"
  by (cases side) (simp_all add: MarkAllTrackedLinksDisconnected_def compaction_view_def)

definition no_transport_members :: "LinkSide \<Rightarrow> 'm HealthMetrics_scheme \<Rightarrow> 'm HealthMetrics_scheme" where
  "no_transport_members side m =
     (case side of LinkSide.kInput \<Rightarrow> m\<lparr>input_transport_members_total := 0\<rparr>
                 | LinkSide.kOutput \<Rightarrow> m\<lparr>output_transport_members_total := 0\<rparr>)"

lemma no_transport_members_frame [simp]:
  "compaction_view s (no_transport_members side m) = compaction_view s m"
  "links s (no_transport_members side m) = links s m"
  "transport_members side (no_transport_members side m) = 0"
  by (cases side; cases s; simp add: compaction_view_def links_def no_transport_members_def
      transport_members_def)+

lemma reset_tracking_eq:
  "reset_tracking side m =
     no_transport_members side (MarkAllTrackedLinksDisconnected side (put_links side 0 0 0 m))"
  by (cases side) (simp_all add: reset_tracking_def ResetInputTrackingMetrics_def
      ResetOutputTrackingMetrics_def no_transport_members_def put_links_def)

lemma SnapshotCountCapped_put [simp]:
  "SnapshotCountCapped s (put_links side n h r m) = SnapshotCountCapped s m"
  by (simp add: SnapshotCountCapped_def)

text \<open>
  C24. When a session ends its side shows nothing and forgets nothing: the link counts and the member
  count become 0 and no slot is live, but every slot keeps its identity, its socket and its traffic
  counters; only the connected flags of tracked slots change, and the other side is untouched.
\<close>

theorem session_end_keeps_identities:
  assumes "tables_ok m" and "span_ok side m"
    and m': "m' = update_links env side SRT_INVALID_SOCK m"
  shows "links side m' = (0, 0, 0) \<and> transport_members side m' = 0 \<and> live_view side m' = [] \<and>
    compaction_view side m' =
      map (\<lambda>st. if cs_tracks st then st\<lparr>cs_member_connected := 0\<rparr> else st) (compaction_view side m) \<and>
    compaction_view (other_side side) m' = compaction_view (other_side side) m \<and>
    links (other_side side) m' = links (other_side side) m"
proof -
  have "span_ok side (put_links side 0 0 0 m)" using assms(2) by (simp add: span_ok_def)
  from mark_all_view [OF _ this] assms(1)
  have view: "compaction_view side m' = map unmark (compaction_view side m)"
    by (simp add: m' update_links_invalid reset_tracking_eq)
  then have "live_view side m' = []" by (simp add: live_view_def filter_empty_conv)
  then show ?thesis
    using view by (simp add: m' update_links_invalid reset_tracking_eq mark_other_side unmark_def [abs_def])
qed

section \<open>What the event log says\<close>

definition logged_slot :: "'z TrackedSlot_scheme \<Rightarrow> 'z TrackedSlot_scheme" where
  "logged_slot s =
     (if member_identity_key s = 0 then
        s\<lparr>member_status_last_logged := -1, member_connected_last_logged := -1\<rparr>
      else
        s\<lparr>member_status_last_logged := link_state_int (slot_link_state s),
          member_connected_last_logged := member_connected s\<rparr>)"

definition slot_events :: "string \<Rightarrow> nat \<Rightarrow> 'z TrackedSlot_scheme \<Rightarrow> TransitionEvent list" where
  "slot_events side_name i s =
     (if member_identity_key s \<noteq> 0 \<and> (slot_transitioned s \<or> first_seen_connected s)
      then [slot_event side_name i s] else [])"

lemma inspect_slot_eq: "inspect_slot side_name i s = (logged_slot s, slot_events side_name i s)"
  by (simp add: inspect_slot_def logged_slot_def slot_events_def)

lemma inspect_side_eq:
  assumes "length slots = kMaxTrackedMembers"
  shows "fst (inspect_side side_name slots) = map logged_slot slots"
    and "snd (inspect_side side_name slots)
      = concat (map (\<lambda>i. slot_events side_name i (slots ! i)) [0..<kMaxTrackedMembers])"
proof -
  show "fst (inspect_side side_name slots) = map logged_slot slots"
    by (rule nth_equalityI) (simp_all add: inspect_side_def inspect_slot_eq Let_def comp_def assms)
qed (simp add: inspect_side_def inspect_slot_eq Let_def comp_def)

lemma link_state_int_nonneg [simp]: "0 \<le> link_state_int st" "\<not> link_state_int st < 0"
  by (cases st; simp)+

lemma logged_slot_fields [simp]:
  "member_identity_key (logged_slot s) = member_identity_key s"
  "member_connected (logged_slot s) = member_connected s"
  "slot_link_state (logged_slot s) = slot_link_state s"
  "logged_slot (logged_slot s) = logged_slot s"
  by (simp_all add: logged_slot_def slot_link_state_def)

lemma slot_events_logged [simp]: "slot_events side_name i (logged_slot s) = []"
  by (simp add: slot_events_def slot_transitioned_def first_seen_connected_def slot_link_state_def
      logged_slot_def)

lemma Emit_eq:
  assumes "tables_ok m"
  shows "fst (EmitMemberTransitionEvents env incident m) =
      m\<lparr>input_tracked := map logged_slot (input_tracked m),
        output_tracked := map logged_slot (output_tracked m)\<rparr>"
    and "snd (EmitMemberTransitionEvents env incident m) =
      concat (map (log_event env incident)
        (concat (map (\<lambda>i. slot_events ''input'' i (input_tracked m ! i)) [0..<kMaxTrackedMembers]) @
         concat (map (\<lambda>i. slot_events ''output'' i (output_tracked m ! i)) [0..<kMaxTrackedMembers])))"
  using assms
  by (simp_all add: EmitMemberTransitionEvents_def Let_def split_beta inspect_side_eq tables_ok_def)

lemma Emit_tables_ok:
  "tables_ok m \<Longrightarrow> tables_ok (fst (EmitMemberTransitionEvents env incident m))"
  by (simp add: Emit_eq) (simp add: tables_ok_def)

lemma concat_map_Nil: "(\<And>x. x \<in> set xs \<Longrightarrow> f x = []) \<Longrightarrow> concat (map f xs) = []"
  by simp

text \<open>
  The member log is written once per change: emitting the events again with no update in between
  writes no line and changes nothing.
\<close>

theorem EmitMemberTransitionEvents_once:
  assumes "tables_ok m" and "EmitMemberTransitionEvents env incident m = (m1, lines)"
  shows "EmitMemberTransitionEvents env2 incident2 m1 = (m1, [])"
proof -
  have m1: "m1 = m\<lparr>input_tracked := map logged_slot (input_tracked m),
      output_tracked := map logged_slot (output_tracked m)\<rparr>"
    using Emit_eq(1) [OF assms(1), of env incident] assms(2) by simp
  have ok: "tables_ok m1" using Emit_tables_ok [OF assms(1), of env incident] assms(2) by simp
  have len: "length (input_tracked m) = kMaxTrackedMembers" "length (output_tracked m) = kMaxTrackedMembers"
    using assms(1) by (simp_all add: tables_ok_def)
  have "fst (EmitMemberTransitionEvents env2 incident2 m1) = m1"
    unfolding Emit_eq(1) [OF ok] by (simp add: m1 comp_def)
  moreover have "slot_events name i (input_tracked m1 ! i) = []"
    "slot_events name i (output_tracked m1 ! i) = []" if "i < kMaxTrackedMembers" for name i
    using that len by (simp_all add: m1)
  then have "snd (EmitMemberTransitionEvents env2 incident2 m1) = []"
    unfolding Emit_eq(2) [OF ok] by (auto simp: concat_eq_Nil_conv)
  ultimately show ?thesis by (simp add: prod_eq_iff)
qed

text \<open>The lines about members that connected or disconnected: their name, slot and socket.\<close>

fun member_changes :: "MemberLog list \<Rightarrow> (string \<times> nat \<times> int) list" where
  "member_changes [] = []"
| "member_changes (member_transition ev l r inc # lines) = member_changes lines"
| "member_changes (member_change name i sock l r inc # lines) = (name, i, sock) # member_changes lines"

definition flip :: "string \<Rightarrow> nat \<Rightarrow> SnapshotSlotState \<Rightarrow> SnapshotSlotState \<Rightarrow> (string \<times> nat \<times> int) list" where
  "flip side_name i old new =
     (let was = (ss_identity_key old \<noteq> 0 \<and> ss_connected old = 1); is_now = (ss_connected new = 1)
      in if ss_identity_key new = 0 then []
         else if \<not> was \<and> is_now then [(side_name @ ''-member-connected'', i + 1, ss_id new)]
         else if was \<and> \<not> is_now then [(side_name @ ''-member-disconnected'', i + 1, ss_id new)]
         else [])"

text \<open>The slots, by number and socket, whose connected flag differs between two states of the tables.\<close>

definition expected_changes ::
  "'m LinkMetrics_scheme \<Rightarrow> 'n LinkMetrics_scheme \<Rightarrow> (string \<times> nat \<times> int) list" where
  "expected_changes old new =
     concat (map (\<lambda>i. flip ''input'' i (snapshot_view LinkSide.kInput old ! i)
                        (snapshot_view LinkSide.kInput new ! i)) [0..<kMaxTrackedMembers]) @
     concat (map (\<lambda>i. flip ''output'' i (snapshot_view LinkSide.kOutput old ! i)
                        (snapshot_view LinkSide.kOutput new ! i)) [0..<kMaxTrackedMembers])"

text \<open>The last-logged columns of both tables.\<close>

definition logged :: "'z TrackedSlot_scheme \<Rightarrow> int \<times> int" where
  "logged s = (member_status_last_logged s, member_connected_last_logged s)"

definition logged_columns :: "'m LinkMetrics_scheme \<Rightarrow> (int \<times> int) list \<times> (int \<times> int) list" where
  "logged_columns m = (map logged (input_tracked m), map logged (output_tracked m))"

lemma member_changes_append [simp]: "member_changes (xs @ ys) = member_changes xs @ member_changes ys"
  by (induction xs rule: member_changes.induct) simp_all

lemma member_changes_concat: "member_changes (concat xss) = concat (map member_changes xss)"
  by (induction xss) simp_all

lemma log_event_changes:
  "member_changes (log_event env incident ev) =
     (if prior_connected ev \<noteq> 1 \<and> new_connected ev = 1
      then [(ev_side ev @ ''-member-connected'', ev_member_index ev, ev_socket_id ev)]
      else if prior_connected ev = 1 \<and> new_connected ev \<noteq> 1
      then [(ev_side ev @ ''-member-disconnected'', ev_member_index ev, ev_socket_id ev)]
      else [])"
  by (simp add: log_event_def Let_def)

lemma slot_events_changes:
  assumes "logged new = logged (logged_slot old)"
  shows "concat (map (\<lambda>ev. member_changes (log_event env incident ev)) (slot_events side_name i new))
    = flip side_name i (read_snapshot_slot old) (read_snapshot_slot new)"
proof -
  have l: "member_status_last_logged new = member_status_last_logged (logged_slot old)"
    "member_connected_last_logged new = member_connected_last_logged (logged_slot old)"
    using assms by (simp_all add: logged_def)
  have "concat (map f (if c then [x] else [])) = (if c then f x else [])"
    for c and f :: "TransitionEvent \<Rightarrow> (string \<times> nat \<times> int) list" and x
    by simp
  then show ?thesis
    unfolding slot_events_def
    by (simp add: flip_def slot_transitioned_def first_seen_connected_def log_event_changes
        slot_event_def l logged_slot_def Let_def read_snapshot_slot_def del: list.map concat.simps)
qed

lemma concat_concat_map:
  "concat (map f (concat (map g xs))) = concat (map (\<lambda>x. concat (map f (g x))) xs)"
  by (induction xs) simp_all

lemma snapshot_view_nth:
  assumes "tables_ok m" and "i < kMaxTrackedMembers"
  shows "snapshot_view LinkSide.kInput m ! i = read_snapshot_slot (input_tracked m ! i)"
    and "snapshot_view LinkSide.kOutput m ! i = read_snapshot_slot (output_tracked m ! i)"
  using assms by (simp_all add: snapshot_view_def tables_ok_def)

lemma Emit_changes:
  assumes old: "tables_ok old" and new: "tables_ok new"
    and "logged_columns new = logged_columns (fst (EmitMemberTransitionEvents env incident old))"
  shows "member_changes (snd (EmitMemberTransitionEvents env2 incident2 new)) = expected_changes old new"
proof -
  have cols: "map logged (input_tracked new) = map (logged \<circ> logged_slot) (input_tracked old)"
    "map logged (output_tracked new) = map (logged \<circ> logged_slot) (output_tracked old)"
    using assms(3) by (simp_all add: logged_columns_def Emit_eq(1) [OF old])
  have nth: "logged (input_tracked new ! i) = logged (logged_slot (input_tracked old ! i))"
    "logged (output_tracked new ! i) = logged (logged_slot (output_tracked old ! i))"
    if "i < kMaxTrackedMembers" for i
    using that arg_cong [OF cols(1), of "\<lambda>xs. xs ! i"] arg_cong [OF cols(2), of "\<lambda>xs. xs ! i"] old new
    by (simp_all add: tables_ok_def)
  have "concat (map (\<lambda>ev. member_changes (log_event env2 incident2 ev))
        (slot_events ''input'' i (input_tracked new ! i)))
      = flip ''input'' i (snapshot_view LinkSide.kInput old ! i) (snapshot_view LinkSide.kInput new ! i)"
    "concat (map (\<lambda>ev. member_changes (log_event env2 incident2 ev))
        (slot_events ''output'' i (output_tracked new ! i)))
      = flip ''output'' i (snapshot_view LinkSide.kOutput old ! i) (snapshot_view LinkSide.kOutput new ! i)"
    if "i < kMaxTrackedMembers" for i
    using slot_events_changes [OF nth(1) [OF that]] slot_events_changes [OF nth(2) [OF that]]
    by (simp_all add: snapshot_view_nth that old new)
  then show ?thesis
    unfolding Emit_eq(2) [OF new] expected_changes_def member_changes_append member_changes_concat map_append concat_append
      map_map comp_def concat_concat_map
    by (intro arg_cong2 [where f = "(@)"] arg_cong [where f = concat] map_cong refl) simp_all
qed

section \<open>Which operations leave the logged columns alone\<close>

lemma logged_write_snapshot [simp]: "logged (write_snapshot_slot st s) = logged s"
  by (simp add: logged_def write_snapshot_slot_def)

lemma logged_reset [simp]: "logged (reset_input_slot s) = logged s" "logged (reset_output_slot t) = logged t"
  by (simp_all add: logged_def slot_defs)

lemma evict_logged:
  assumes "\<And>s. logged (reset s) = logged s"
  shows "map logged (snd (snd (foldl (evict_step reset) (a, slots, tracked) is))) = map logged tracked"
proof (induction "is" arbitrary: a slots tracked)
  case (Cons i "is")
  obtain a' slots' tracked' where step: "evict_step reset (a, slots, tracked) i = (a', slots', tracked')"
    by (cases "evict_step reset (a, slots, tracked) i")
  have "map logged (tracked[k := reset (tracked ! k)]) = map logged tracked" for k
    using assms by (metis list_update_id map_update)
  then have "map logged tracked' = map logged tracked"
    using step by (auto simp: evict_step_def split: if_splits option.splits)
  then show ?case using Cons.IH [of a' slots' tracked'] step by simp
qed simp

lemma map2_logged:
  "length slots = length tracked \<Longrightarrow> map logged (map2 write_snapshot_slot slots tracked) = map logged tracked"
  by (rule nth_equalityI) simp_all

lemma evict_lengths:
  "length (fst (snd (foldl (evict_step reset) (a, slots, tracked) is))) = length slots \<and>
   length (snd (snd (foldl (evict_step reset) (a, slots, tracked) is))) = length tracked"
proof (induction "is" arbitrary: a slots tracked)
  case (Cons i "is")
  obtain a' slots' tracked' where step: "evict_step reset (a, slots, tracked) i = (a', slots', tracked')"
    by (cases "evict_step reset (a, slots, tracked) i")
  then have "length slots' = length slots \<and> length tracked' = length tracked"
    by (auto simp: evict_step_def split: if_splits option.splits)
  then show ?case using Cons.IH [of a' slots' tracked'] step by simp
qed simp

lemma fill_lengths:
  "length (fst (foldl (fill_step env keys members ms) (slots, used) is)) = length slots \<and>
   length (snd (foldl (fill_step env keys members ms) (slots, used) is)) = length used"
proof (induction "is" arbitrary: slots used)
  case (Cons i "is")
  obtain slots' used' where step: "fill_step env keys members ms (slots, used) i = (slots', used')"
    by (cases "fill_step env keys members ms (slots, used) i")
  then have "length slots' = length slots \<and> length used' = length used"
    by (auto simp: fill_step_def split: option.splits)
  then show ?case using Cons.IH [of slots' used'] step by simp
qed simp

lemma snapshot_slots_logged:
  assumes "\<And>s. logged (reset s) = logged s" and "length tracked = kMaxTrackedMembers"
  shows "map logged (fst (snapshot_slots reset env side members tracked)) = map logged tracked"
proof -
  let ?keys = "map (MemberIdentityKey env side) members" and ?n = "length members"
  let ?slots = "ReadSnapshotSlots tracked"
  let ?ev = "foldl (evict_step reset) (match_empty ?slots ?n (match_identity ?slots ?keys (no_assignment ?n)),
      ?slots, tracked) [0..<?n]"
  let ?fill = "foldl (fill_step env ?keys members (member_slot (fst ?ev)))
      (fst (snd ?ev), replicate kMaxTrackedMembers False) [0..<?n]"
  have res: "fst (snapshot_slots reset env side members tracked)
      = map2 write_snapshot_slot (map2 clear_unmatched (snd ?fill) (fst ?fill)) (snd (snd ?ev))"
    by (simp add: snapshot_slots_def WriteSnapshotSlots_def Let_def split_beta)
  have len: "length (map2 clear_unmatched (snd ?fill) (fst ?fill)) = length (snd (snd ?ev))"
    using assms(2) by (simp add: fill_lengths evict_lengths ReadSnapshotSlots_def)
  show ?thesis
    unfolding res map2_logged [OF len] by (rule evict_logged [OF assms(1)])
qed

lemma logged_columns_put [simp]: "logged_columns (put_links side n h r m) = logged_columns m"
  by (simp add: logged_columns_def)

lemma logged_columns_save [simp]:
  assumes "tables_ok m"
  shows "logged_columns (SaveMemberSnapshot env side members m) = logged_columns m"
  using assms by (cases side) (simp_all add: logged_columns_def tables_ok_def snapshot_slots_logged)

lemma logged_mark_disconnected [simp]: "logged (mark_disconnected s) = logged s"
  by (simp add: logged_def mark_disconnected_def)

lemma logged_mark [simp]: "map logged (mark_prefix k ts) = map logged ts"
  unfolding mark_prefix_def map_append map_map comp_def logged_mark_disconnected
  by (metis append_take_drop_id map_append)

lemma logged_columns_mark [simp]:
  "logged_columns (MarkAllTrackedLinksDisconnected side m) = logged_columns m"
  by (cases side) (simp_all add: logged_columns_def MarkAllTrackedLinksDisconnected_def)

lemma logged_columns_reset [simp]: "logged_columns (reset_tracking side m) = logged_columns m"
proof -
  have "logged_columns (no_transport_members side m) = logged_columns m" for m :: "'a HealthMetrics_scheme"
    by (cases side) (simp_all add: no_transport_members_def logged_columns_def)
  then show ?thesis by (simp add: reset_tracking_eq)
qed

lemma map_logged_eq:
  "map logged xs = map logged ys \<longleftrightarrow>
     map member_status_last_logged xs = map member_status_last_logged ys \<and>
     map member_connected_last_logged xs = map member_connected_last_logged ys"
  by (induction xs arbitrary: ys; case_tac ys) (auto simp: logged_def)

lemma logged_columns_compact [simp]:
  assumes "tables_ok m"
  shows "logged_columns (fst (CompactSlotsLocked side m)) = logged_columns m"
  using assms
  by (cases side) (simp_all add: logged_columns_def CompactSlotsLocked_def split_beta tables_ok_def
      map_logged_eq input_slot.compact_logged output_slot.compact_logged)

lemma mark_tables_ok [simp]:
  "tables_ok (MarkAllTrackedLinksDisconnected side m) \<longleftrightarrow> tables_ok m"
  by (cases side) (auto simp: tables_ok_def MarkAllTrackedLinksDisconnected_def mark_prefix_def)

lemma reset_tables_ok [simp]: "tables_ok (reset_tracking side m) \<longleftrightarrow> tables_ok m"
proof -
  have "tables_ok (no_transport_members side m) = tables_ok m" for m :: "'a HealthMetrics_scheme"
    by (cases side) (simp_all add: no_transport_members_def tables_ok_def)
  then show ?thesis by (simp add: reset_tracking_eq)
qed

lemma update_links_tables_ok [simp]: "tables_ok m \<Longrightarrow> tables_ok (update_links env side sock m)"
  by (cases "sock = SRT_INVALID_SOCK")
    (simp_all add: update_links_invalid update_links_valid observe_members_def save_tables_ok)

lemma update_links_logged [simp]:
  assumes "tables_ok m"
  shows "logged_columns (update_links env side sock m) = logged_columns m"
  using assms by (cases "sock = SRT_INVALID_SOCK")
    (simp_all add: update_links_invalid update_links_valid observe_members_def)

text \<open>
  C22. The member log tells of the slots whose connected flag differs from the one of the last
  emission: whatever link updates, resets and compactions happened since then, a line is written
  for a slot that remembers an identity exactly when the slot shows a connected member now and did not
  then (\<open>-member-connected\<close>) or the other way round (\<open>-member-disconnected\<close>), with the slot's number
  and socket, input slots first. The log compares slots, not members: a connected member replaced by
  another in its slot gives no line, and one moved by a compaction may give a line though it never
  went down (\<open>compaction_logs_phantom_connection\<close> below).
\<close>

theorem Emit_reports_changes:
  assumes "tables_ok old" and "tables_ok new"
    and "logged_columns new = logged_columns (fst (EmitMemberTransitionEvents env incident old))"
  shows "member_changes (snd (EmitMemberTransitionEvents env2 incident2 new)) = expected_changes old new"
  using assms by (rule Emit_changes)

definition side_name :: "LinkSide \<Rightarrow> string" where
  "side_name side = (case side of LinkSide.kInput \<Rightarrow> ''input'' | LinkSide.kOutput \<Rightarrow> ''output'')"

lemma flip_expected:
  assumes "i < kMaxTrackedMembers"
    and "x \<in> set (flip (side_name side) i (snapshot_view side old ! i) (snapshot_view side new ! i))"
  shows "x \<in> set (expected_changes old new)"
  using assms by (cases side) (auto simp: expected_changes_def side_name_def)

lemma Emit_views:
  assumes "tables_ok m"
  shows "snapshot_view side (fst (EmitMemberTransitionEvents env incident m)) = snapshot_view side m"
    and "compaction_view side (fst (EmitMemberTransitionEvents env incident m)) = compaction_view side m"
proof -
  have "read_snapshot_slot (logged_slot s) = read_snapshot_slot s"
    "read_snapshot_slot (logged_slot t) = read_snapshot_slot t"
    "read_input_compaction (logged_slot s) = read_input_compaction s"
    "read_output_compaction (logged_slot t) = read_output_compaction t" for s t
    by (simp_all add: logged_slot_def slot_defs)
  then show "snapshot_view side (fst (EmitMemberTransitionEvents env incident m)) = snapshot_view side m"
    "compaction_view side (fst (EmitMemberTransitionEvents env incident m)) = compaction_view side m"
    by (cases side; simp add: Emit_eq(1) [OF assms] snapshot_view_def compaction_view_def comp_def)+
qed

text \<open>
  C25. Compaction makes the log report connections that never happened: when the first slot of a side
  holds no connected member and some link of the side is live, then after a compaction the next events say that the first live link has just connected, although the live
  links are what they were.
\<close>

theorem compaction_logs_phantom_connection:
  assumes "tables_ok m"
    and "\<not> (cs_tracks (compaction_view side m ! 0) \<and> cs_member_connected (compaction_view side m ! 0) = 1)"
    and "live_view side m \<noteq> []"
    and m1: "m1 = fst (EmitMemberTransitionEvents env incident m)"
    and m2: "m2 = fst (CompactSlotsLocked side m1)"
  shows "(side_name side @ ''-member-connected'', 1, cs_member_id (hd (live_view side m)))
      \<in> set (member_changes (snd (EmitMemberTransitionEvents env2 incident2 m2))) \<and>
    live_view side m2 = live_view side m"
proof -
  have ok1: "tables_ok m1" using Emit_tables_ok [OF assms(1)] by (simp add: m1)
  have live1: "live_view side m1 = live_view side m"
    by (simp add: m1 live_view_def Emit_views(2) [OF assms(1)])
  note c = CompactSlotsLocked_fst [OF ok1, of side, folded m2]
  have ok2: "tables_ok m2" by (rule c(3))
  have "filter cs_live (live_view side m) = live_view side m" by (simp add: live_view_def)
  then have live2: "live_view side m2 = live_view side m"
    by (simp add: live_view_def [of side m2] c(1) live1)
  have changes: "member_changes (snd (EmitMemberTransitionEvents env2 incident2 m2)) = expected_changes m m2"
    using ok1 by (intro Emit_changes [OF assms(1) ok2]) (simp add: m2 m1)
  have k: "0 < kMaxTrackedMembers" by (simp add: kMaxTrackedMembers_def)
  have first: "compaction_view side m2 ! 0 = hd (live_view side m)"
    using assms(3) by (simp add: c(1) live1 nth_append hd_conv_nth)
  have "hd (live_view side m) \<in> set (live_view side m)" using assms(3) by simp
  then have "cs_live (hd (live_view side m))" by (simp add: live_view_def)
  then have "ss_identity_key (snapshot_view side m2 ! 0) \<noteq> 0" "ss_connected (snapshot_view side m2 ! 0) = 1"
    using views_identity [OF ok2 k, of side] first by (simp_all add: cs_live_def cs_tracks_def)
  moreover have "\<not> (ss_identity_key (snapshot_view side m ! 0) \<noteq> 0 \<and> ss_connected (snapshot_view side m ! 0) = 1)"
    using views_identity [OF assms(1) k, of side] assms(2) by (simp add: cs_tracks_def)
  ultimately have "(side_name side @ ''-member-connected'', 1, cs_member_id (hd (live_view side m)))
      \<in> set (flip (side_name side) 0 (snapshot_view side m ! 0) (snapshot_view side m2 ! 0))"
    using views_identity(3) [OF ok2 k, of side] first by (simp add: flip_def)
  from flip_expected [OF k this] changes live2 show ?thesis by simp
qed

section \<open>How often the log is written\<close>

text \<open>A sequence of calls: when each happened, with which sockets, and the lines it wrote.\<close>

type_synonym member_call = "int \<times> int \<times> int \<times> OutputMetricsMode \<times> string"

fun member_event_run ::
  "'e health_env_scheme \<Rightarrow> member_call list \<Rightarrow> int \<Rightarrow> 'm HealthMetrics_scheme
     \<Rightarrow> (int \<times> MemberLog list) list" where
  "member_event_run env [] prev m = []"
| "member_event_run env ((now, input_sock, output_sock, mode, incident) # calls) prev m =
     (case MaybeEmitMemberConnectionEvents env now input_sock output_sock mode incident prev m of
        (m', prev', lines) \<Rightarrow> (now, lines) # member_event_run env calls prev' m')"

definition write_times :: "(int \<times> MemberLog list) list \<Rightarrow> int list" where
  "write_times run = map fst (filter (\<lambda>(now, lines). lines \<noteq> []) run)"

lemma MaybeEmit_cases:
  assumes "MaybeEmitMemberConnectionEvents env now i out mode incident prev m = (m', prev', lines)"
  shows "prev' = prev \<and> lines = [] \<or> prev' = now \<and> prev + 1000000000 \<le> now"
  using assms
  by (auto simp: MaybeEmitMemberConnectionEvents_def Let_def split_beta kMemberEventIntervalMs_def
      split: if_splits)

lemma member_event_run_spaced:
  "sorted_wrt (\<lambda>a b. a + 1000000000 \<le> b) (prev # write_times (member_event_run env calls prev m))"
proof (induction calls arbitrary: prev m)
  case Nil
  then show ?case by (simp add: write_times_def)
next
  case (Cons call calls)
  obtain now i out mode incident where call: "call = (now, i, out, mode, incident)" by (cases call)
  obtain m' prev' lines where
    step: "MaybeEmitMemberConnectionEvents env now i out mode incident prev m = (m', prev', lines)"
    by (cases "MaybeEmitMemberConnectionEvents env now i out mode incident prev m") auto
  have IH: "sorted_wrt (\<lambda>a b. a + 1000000000 \<le> b)
      (prev' # write_times (member_event_run env calls prev' m'))" by (rule Cons.IH)
  from MaybeEmit_cases [OF step] show ?case
  proof
    assume "prev' = prev \<and> lines = []"
    then show ?thesis using IH by (simp add: call step write_times_def)
  next
    assume "prev' = now \<and> prev + 1000000000 \<le> now"
    then show ?thesis using IH
      by (cases "lines = []") (force simp: call step write_times_def)+
  qed
qed

text \<open>
  The member log is throttled: over any sequence of calls, the calls that write a line are at
  least one second apart, the first of them at least one second after the given last time.
\<close>

theorem member_events_throttled:
  "sorted_wrt (\<lambda>a b. a + 1000000000 \<le> b) (prev # write_times (member_event_run env calls prev m))"
  by (rule member_event_run_spaced)

section \<open>Witnesses\<close>

text \<open>A group of two members on socket 3, one running and one broken.\<close>

definition group_member :: "int \<Rightarrow> SRT_MEMBERSTATUS \<Rightarrow> SRT_SOCKGROUPDATA" where
  "group_member sock st =
     \<lparr>socket_id = sock, peeraddr = AF_INET [10, 0, 0, word_of_int sock] 5000,
      sockstate = (if st = SRT_GST_BROKEN then SRTS_BROKEN else SRTS_CONNECTED), memberstate = st,
      token = 0\<rparr>"

definition group_env :: health_env where
  "group_env =
     \<lparr>srt_getsockname = (\<lambda>_. None), inet_ntop = (\<lambda>_. Some ''10.0.0.1''),
      srt_getpeername = (\<lambda>_. None), srt_groupof = (\<lambda>_. SRT_INVALID_SOCK),
      srt_group_data = (\<lambda>sock capacity.
        if sock = 3 \<and> 2 \<le> capacity then Some [group_member 31 SRT_GST_RUNNING, group_member 32 SRT_GST_BROKEN]
        else None)\<rparr>"

definition health_of :: "LinkMetrics \<Rightarrow> HealthMetrics" where
  "health_of m = LinkMetrics.extend m (HealthMetrics.fields 0 0)"

lemma group_env_fits: "group_data_fits group_env"
  by (auto simp: group_data_fits_def group_env_def)

lemma health_of_tables: "tables_ok (health_of example_metrics)"
  by (simp add: health_of_def LinkMetrics.defs HealthMetrics.defs tables_ok_def example_metrics_def
      kMaxTrackedMembers_def)

theorem update_links_counts_witness:
  "\<exists>n h r. links LinkSide.kOutput (update_links group_env LinkSide.kOutput 3 (health_of example_metrics))
     = (n, h, r) \<and> 1 \<le> n \<and> h \<le> n \<and> r \<le> n"
proof -
  have "(3::int) \<noteq> SRT_INVALID_SOCK" by (simp add: SRT_INVALID_SOCK_def)
  from update_links_counts [OF health_of_tables this group_env_fits refl, of LinkSide.kOutput]
  show ?thesis by auto
qed

theorem session_end_keeps_identities_witness:
  "span_ok LinkSide.kOutput (health_of example_metrics) \<and>
   live_view LinkSide.kOutput (update_links group_env LinkSide.kOutput SRT_INVALID_SOCK
     (health_of example_metrics)) = []"
proof -
  have "span_ok LinkSide.kOutput (health_of example_metrics)"
    unfolding span_ok_def kMaxTrackedMembers_def by code_simp
  with session_end_keeps_identities [OF health_of_tables this refl, of group_env] show ?thesis
    by simp
qed

theorem EmitMemberTransitionEvents_once_witness:
  "\<exists>m1 lines. EmitMemberTransitionEvents group_env ''inc-1'' example_metrics = (m1, lines) \<and>
     length lines = 2 \<and> EmitMemberTransitionEvents group_env [] m1 = (m1, [])"
proof -
  obtain m1 lines where e: "EmitMemberTransitionEvents group_env ''inc-1'' example_metrics = (m1, lines)"
    by (cases "EmitMemberTransitionEvents group_env ''inc-1'' example_metrics")
  have "length (snd (EmitMemberTransitionEvents group_env ''inc-1'' example_metrics)) = 2"
    by code_simp
  with EmitMemberTransitionEvents_once [OF example_tables_ok e, of group_env "[]"] e show ?thesis
    by simp
qed

theorem Emit_reports_changes_witness:
  "member_changes (snd (EmitMemberTransitionEvents group_env []
     (update_links group_env LinkSide.kOutput SRT_INVALID_SOCK
       (fst (EmitMemberTransitionEvents group_env [] (health_of example_metrics))))))
     = [(''output-member-disconnected'', 2, 7)]"
proof -
  let ?old = "health_of example_metrics"
  let ?e = "fst (EmitMemberTransitionEvents group_env [] ?old)"
  let ?new = "update_links group_env LinkSide.kOutput SRT_INVALID_SOCK ?e"
  have ok: "tables_ok ?e" by (rule Emit_tables_ok [OF health_of_tables])
  have "member_changes (snd (EmitMemberTransitionEvents group_env [] ?new)) = expected_changes ?old ?new"
    by (rule Emit_reports_changes [OF health_of_tables, of _ group_env "[]"]) (simp_all add: ok)
  also have "\<dots> = [(''output-member-disconnected'', 2, 7)]" by code_simp
  finally show ?thesis .
qed

theorem compaction_logs_phantom_connection_witness:
  "(''output-member-connected'', 1, 7) \<in> set (member_changes (snd (EmitMemberTransitionEvents group_env []
     (fst (CompactSlotsLocked LinkSide.kOutput
       (fst (EmitMemberTransitionEvents group_env [] example_metrics)))))))"
proof -
  have "\<not> (cs_tracks (compaction_view LinkSide.kOutput example_metrics ! 0) \<and>
      cs_member_connected (compaction_view LinkSide.kOutput example_metrics ! 0) = 1)"
    by code_simp
  moreover have live: "live_view LinkSide.kOutput example_metrics \<noteq> [] \<and>
      cs_member_id (hd (live_view LinkSide.kOutput example_metrics)) = 7"
    by code_simp
  ultimately show ?thesis
    using compaction_logs_phantom_connection [OF example_tables_ok _ _ refl refl,
        of LinkSide.kOutput group_env "[]" group_env "[]"]
    by (simp add: side_name_def)
qed

end
