(* ===== verification/Transport.thy ===== *)
theory Transport
  imports LinkHealth AutoCompact "HOL-Library.Multiset"
begin

text \<open>
  Traffic metrics (\<open>src/src/metrics.cpp\<close>): libsrt counts bytes and packets per socket since the
  socket was opened; the relay adds them up over reconnects. Modelled are the counter arithmetic
  with its reset rule, the totals per link slot, per side and for the input group, round-trip times,
  latencies and bond modes, the collection of one statistics tick and the lines it logs.
  \<open>srt_bstats\<close> and \<open>srt_getsockflag\<close> are parameters, and so are the floating-point rates.
\<close>

section \<open>What libsrt counts\<close>

text \<open>The fields of \<open>SRT_TRACEBSTATS\<close> that are read; \<open>msRTT\<close> is the \<open>double\<close> truncated to milliseconds.\<close>

record SRT_TRACEBSTATS =
  byteRecvTotal :: u64
  byteSentTotal :: u64
  byteRecvUniqueTotal :: u64
  byteSentUniqueTotal :: u64
  byteRetransTotal :: u64
  byteRcvLossTotal :: u64
  byteSndDropTotal :: u64
  byteRcvDropTotal :: u64
  pktRcvBelated :: int
  pktRcvDropTotal :: int
  msRTT :: int

text \<open>\<open>srt_bstats\<close> without clearing and \<open>srt_getsockflag\<close> of an \<open>int\<close> option; errors are \<open>None\<close>.\<close>

record transport_env = health_env +
  srt_bstats :: "int \<Rightarrow> SRT_TRACEBSTATS option"
  srt_getsockflag :: "int \<Rightarrow> SRT_SOCKOPT \<Rightarrow> int option"

record TransportCounterSnapshot =
  byte_recv_total :: u64
  byte_recv_unique_total :: u64
  byte_retrans_total :: u64
  byte_loss_total :: u64
  packet_belated_total :: u64
  byte_sent_total :: u64
  byte_sent_unique_total :: u64
  byte_drop_total :: u64

definition default_TransportCounterSnapshot :: TransportCounterSnapshot where
  "default_TransportCounterSnapshot =
     \<lparr>byte_recv_total = 0, byte_recv_unique_total = 0, byte_retrans_total = 0, byte_loss_total = 0,
      packet_belated_total = 0, byte_sent_total = 0, byte_sent_unique_total = 0, byte_drop_total = 0\<rparr>"

record GroupDropCounterSnapshot =
  gd_packet_drop_total :: u64
  gd_byte_drop_total :: u64

definition default_GroupDropCounterSnapshot :: GroupDropCounterSnapshot where
  "default_GroupDropCounterSnapshot = \<lparr>gd_packet_drop_total = 0, gd_byte_drop_total = 0\<rparr>"

record TrafficMetrics = HealthMetrics +
  input_transport_byte_recv_total :: u64
  input_transport_byte_recv_unique_total :: u64
  input_transport_byte_retrans_total :: u64
  input_transport_byte_loss_total :: u64
  input_transport_packet_belated_total :: u64
  input_transport_byte_recv_current :: u64
  input_transport_byte_recv_unique_current :: u64
  input_transport_byte_retrans_current :: u64
  input_transport_byte_loss_current :: u64
  input_transport_packet_belated_current :: u64
  input_group_packet_drop_total :: u64
  input_group_byte_drop_total :: u64
  input_group_drop_sockets_tracked :: int
  input_group_packet_drop_current :: u64
  input_group_byte_drop_current :: u64
  output_transport_byte_sent_total :: u64
  output_transport_byte_sent_unique_total :: u64
  output_transport_byte_retrans_total :: u64
  output_transport_byte_drop_total :: u64
  output_transport_byte_sent_current :: u64
  output_transport_byte_sent_unique_current :: u64
  output_transport_byte_retrans_current :: u64
  output_transport_byte_drop_current :: u64
  input_rtt_ms :: int
  output_rtt_ms :: int
  input_effective_latency_ms :: int
  output_effective_latency_ms :: int
  input_bond_mode :: int
  output_bond_mode :: int
  input_transport_last_by_socket :: "int \<Rightarrow> TransportCounterSnapshot option"
  output_transport_last_by_socket :: "int \<Rightarrow> TransportCounterSnapshot option"
  input_group_drop_last_by_socket :: "int \<Rightarrow> GroupDropCounterSnapshot option"

section \<open>Counters that restart\<close>

definition CounterDeltaWithReset :: "u64 \<Rightarrow> u64 \<Rightarrow> u64" where
  "CounterDeltaWithReset prev current = (if prev \<le> current then current - prev else current)"

text \<open>The new total and the new last value.\<close>

definition UpdateCounterTotalAndLast :: "u64 \<Rightarrow> u64 \<Rightarrow> u64 \<Rightarrow> u64 \<times> u64" where
  "UpdateCounterTotalAndLast current total_count last_count =
     (total_count + CounterDeltaWithReset last_count current, current)"

section \<open>Statistics of the member sockets\<close>

definition member_sockets :: "nat \<Rightarrow> 'z TrackedSlot_scheme list \<Rightarrow> int list" where
  "member_sockets capped slots =
     map member_id (filter (\<lambda>s. member_connected s = 1 \<and> member_id s \<noteq> SRT_INVALID_SOCK \<and>
                                 member_id s \<noteq> 0) (take capped slots))"

definition GetInputMemberSocketsSnapshot :: "'m LinkMetrics_scheme \<Rightarrow> int list" where
  "GetInputMemberSocketsSnapshot m =
     (let count = (if input_links_snapshot_count m < 0 then 0 else input_links_snapshot_count m)
      in member_sockets (min (nat count) kMaxTrackedMembers) (input_tracked m))"

definition GetOutputMemberSocketsSnapshot :: "'m LinkMetrics_scheme \<Rightarrow> int list" where
  "GetOutputMemberSocketsSnapshot m =
     (let count = (if output_links_snapshot_count m < 0 then 0 else output_links_snapshot_count m)
      in member_sockets (min (nat count) kMaxTrackedMembers) (output_tracked m))"

text \<open>An unordered map is the list of its entries; \<open>emplace\<close> keeps the first entry of a key.\<close>

type_synonym SocketStatsSnapshot = "(int \<times> SRT_TRACEBSTATS) list"

definition emplace :: "int \<Rightarrow> 'v \<Rightarrow> (int \<times> 'v) list \<Rightarrow> (int \<times> 'v) list" where
  "emplace k v entries = (if k \<in> set (map fst entries) then entries else entries @ [(k, v)])"

definition collect_step ::
  "'e transport_env_scheme \<Rightarrow> SocketStatsSnapshot \<Rightarrow> int \<Rightarrow> SocketStatsSnapshot" where
  "collect_step env stats sock =
     (if sock = SRT_INVALID_SOCK \<or> sock = 0 then stats
      else (case srt_bstats env sock of None \<Rightarrow> stats | Some st \<Rightarrow> emplace sock st stats))"

definition CollectSocketStatsSnapshot :: "'e transport_env_scheme \<Rightarrow> int list \<Rightarrow> SocketStatsSnapshot" where
  "CollectSocketStatsSnapshot env sockets = foldl (collect_step env) [] sockets"

section \<open>Traffic per slot\<close>

definition ResetInputLinkSlotCurrentCounters :: "InputTrackedSlot \<Rightarrow> InputTrackedSlot" where
  "ResetInputLinkSlotCurrentCounters s =
     s\<lparr>link_rx_bytes_current := 0, link_tx_bytes_current := 0, link_packet_belated_current := 0,
       link_rtt_ms := -1\<rparr>"

definition ResetOutputLinkSlotCurrentCounters :: "OutputTrackedSlot \<Rightarrow> OutputTrackedSlot" where
  "ResetOutputLinkSlotCurrentCounters s =
     s\<lparr>link_rx_bytes_current := 0, link_tx_bytes_current := 0, link_rtt_ms := -1\<rparr>"

definition input_slot_traffic :: "SocketStatsSnapshot \<Rightarrow> InputTrackedSlot \<Rightarrow> InputTrackedSlot" where
  "input_slot_traffic stats_by_socket s =
     (if member_identity_key s = 0 then ResetInputLinkSlotCurrentCounters s
      else if member_connected s \<noteq> 1 \<or> member_id s = SRT_INVALID_SOCK \<or> member_id s = 0 then
        ResetInputLinkSlotCurrentCounters s
      else
        (case map_of stats_by_socket (member_id s) of
           None \<Rightarrow> s
         | Some stats \<Rightarrow>
             (let rx_current = byteRecvTotal stats;
                  tx_current = byteSentTotal stats;
                  belated_current = word_of_int (pktRcvBelated stats);
                  (rx_total, rx_last) =
                    UpdateCounterTotalAndLast rx_current (link_rx_bytes_total s) (link_rx_bytes_last s);
                  (tx_total, tx_last) =
                    UpdateCounterTotalAndLast tx_current (link_tx_bytes_total s) (link_tx_bytes_last s);
                  (belated_total, belated_last) =
                    UpdateCounterTotalAndLast belated_current (link_packet_belated_total s)
                      (link_packet_belated_last s)
              in s\<lparr>link_rx_bytes_total := rx_total, link_tx_bytes_total := tx_total,
                   link_packet_belated_total := belated_total, link_rx_bytes_current := rx_current,
                   link_tx_bytes_current := tx_current, link_packet_belated_current := belated_current,
                   link_rx_bytes_last := rx_last, link_tx_bytes_last := tx_last,
                   link_packet_belated_last := belated_last, link_rtt_ms := msRTT stats\<rparr>)))"

definition output_slot_traffic :: "SocketStatsSnapshot \<Rightarrow> OutputTrackedSlot \<Rightarrow> OutputTrackedSlot" where
  "output_slot_traffic stats_by_socket s =
     (if member_identity_key s = 0 then ResetOutputLinkSlotCurrentCounters s
      else if member_connected s \<noteq> 1 \<or> member_id s = SRT_INVALID_SOCK \<or> member_id s = 0 then
        ResetOutputLinkSlotCurrentCounters s
      else
        (case map_of stats_by_socket (member_id s) of
           None \<Rightarrow> s
         | Some stats \<Rightarrow>
             (let rx_current = byteRecvTotal stats;
                  tx_current = byteSentTotal stats;
                  (rx_total, rx_last) =
                    UpdateCounterTotalAndLast rx_current (link_rx_bytes_total s) (link_rx_bytes_last s);
                  (tx_total, tx_last) =
                    UpdateCounterTotalAndLast tx_current (link_tx_bytes_total s) (link_tx_bytes_last s)
              in s\<lparr>link_rx_bytes_total := rx_total, link_tx_bytes_total := tx_total,
                   link_rx_bytes_current := rx_current, link_tx_bytes_current := tx_current,
                   link_rx_bytes_last := rx_last, link_tx_bytes_last := tx_last,
                   link_rtt_ms := msRTT stats\<rparr>)))"

definition UpdateInputLinkTrafficPerSlot ::
  "SocketStatsSnapshot \<Rightarrow> 'm LinkMetrics_scheme \<Rightarrow> 'm LinkMetrics_scheme" where
  "UpdateInputLinkTrafficPerSlot stats m =
     (let capped = SnapshotCountCapped LinkSide.kInput m
      in m\<lparr>input_tracked := map (input_slot_traffic stats) (take capped (input_tracked m)) @
             drop capped (input_tracked m)\<rparr>)"

definition UpdateOutputLinkTrafficPerSlot ::
  "SocketStatsSnapshot \<Rightarrow> 'm LinkMetrics_scheme \<Rightarrow> 'm LinkMetrics_scheme" where
  "UpdateOutputLinkTrafficPerSlot stats m =
     (let capped = SnapshotCountCapped LinkSide.kOutput m
      in m\<lparr>output_tracked := map (output_slot_traffic stats) (take capped (output_tracked m)) @
             drop capped (output_tracked m)\<rparr>)"

section \<open>Traffic of the input group\<close>

text \<open>Where the drop counters of the input come from: the group of the session, else the session.\<close>

definition input_group_stats ::
  "'e transport_env_scheme \<Rightarrow> int \<Rightarrow> (int \<times> SRT_TRACEBSTATS) option" where
  "input_group_stats env input_session_sock =
     (if input_session_sock = SRT_INVALID_SOCK \<or> input_session_sock = 0 then None
      else
        (let g = srt_groupof env input_session_sock;
             input_group_sock = (if g = SRT_INVALID_SOCK \<or> g = 0 then input_session_sock else g)
         in case srt_bstats env input_group_sock of
              Some st \<Rightarrow> Some (input_group_sock, st)
            | None \<Rightarrow>
                if input_group_sock \<noteq> input_session_sock then
                  (case srt_bstats env input_session_sock of
                     Some st \<Rightarrow> Some (input_session_sock, st)
                   | None \<Rightarrow> None)
                else None))"

definition update_input_group_drops ::
  "'e transport_env_scheme \<Rightarrow> int \<Rightarrow> 'm TrafficMetrics_scheme \<Rightarrow> 'm TrafficMetrics_scheme" where
  "update_input_group_drops env input_session_sock m =
     (case input_group_stats env input_session_sock of
        None \<Rightarrow>
          m\<lparr>input_group_drop_last_by_socket := (\<lambda>_. None), input_group_drop_sockets_tracked := 0,
            input_group_packet_drop_current := 0, input_group_byte_drop_current := 0\<rparr>
      | Some (sock, stats) \<Rightarrow>
          (let packet_current = word_of_int (pktRcvDropTotal stats);
               byte_current = byteRcvDropTotal stats;
               prev = (case input_group_drop_last_by_socket m sock of
                         Some p \<Rightarrow> p | None \<Rightarrow> default_GroupDropCounterSnapshot);
               (packet_total, packet_last) =
                 UpdateCounterTotalAndLast packet_current (input_group_packet_drop_total m)
                   (gd_packet_drop_total prev);
               (byte_total, byte_last) =
                 UpdateCounterTotalAndLast byte_current (input_group_byte_drop_total m)
                   (gd_byte_drop_total prev)
           in m\<lparr>input_group_drop_last_by_socket :=
                  [sock \<mapsto> prev\<lparr>gd_packet_drop_total := packet_last, gd_byte_drop_total := byte_last\<rparr>],
                input_group_packet_drop_total := packet_total,
                input_group_byte_drop_total := byte_total,
                input_group_drop_sockets_tracked := 1,
                input_group_packet_drop_current := packet_current,
                input_group_byte_drop_current := byte_current\<rparr>))"

section \<open>Traffic of a side\<close>

text \<open>\<open>prev = last_by_socket[sock]\<close>, which inserts zeros for a new socket.\<close>

definition last_of ::
  "(int \<Rightarrow> TransportCounterSnapshot option) \<Rightarrow> int \<Rightarrow> TransportCounterSnapshot" where
  "last_of last_by_socket sock =
     (case last_by_socket sock of Some p \<Rightarrow> p | None \<Rightarrow> default_TransportCounterSnapshot)"

text \<open>The local variables of the loop over the input sockets' statistics.\<close>

record input_sums =
  in_recv_total :: u64
  in_recv_unique_total :: u64
  in_retrans_total :: u64
  in_loss_total :: u64
  in_belated_total :: u64
  in_recv_current :: u64
  in_recv_unique_current :: u64
  in_retrans_current :: u64
  in_loss_current :: u64
  in_belated_current :: u64
  in_last :: "int \<Rightarrow> TransportCounterSnapshot option"
  in_seen :: "int list"

definition input_stats_step :: "input_sums \<Rightarrow> int \<times> SRT_TRACEBSTATS \<Rightarrow> input_sums" where
  "input_stats_step a entry =
     (let (sock, stats) = entry;
          belated = word_of_int (pktRcvBelated stats);
          prev = last_of (in_last a) sock;
          (recv_total, recv_last) =
            UpdateCounterTotalAndLast (byteRecvTotal stats) (in_recv_total a) (byte_recv_total prev);
          (unique_total, unique_last) =
            UpdateCounterTotalAndLast (byteRecvUniqueTotal stats) (in_recv_unique_total a)
              (byte_recv_unique_total prev);
          (retrans_total, retrans_last) =
            UpdateCounterTotalAndLast (byteRetransTotal stats) (in_retrans_total a)
              (byte_retrans_total prev);
          (loss_total, loss_last) =
            UpdateCounterTotalAndLast (byteRcvLossTotal stats) (in_loss_total a) (byte_loss_total prev);
          (belated_total, belated_last) =
            UpdateCounterTotalAndLast belated (in_belated_total a) (packet_belated_total prev)
      in \<lparr>in_recv_total = recv_total, in_recv_unique_total = unique_total,
          in_retrans_total = retrans_total, in_loss_total = loss_total,
          in_belated_total = belated_total,
          in_recv_current = in_recv_current a + byteRecvTotal stats,
          in_recv_unique_current = in_recv_unique_current a + byteRecvUniqueTotal stats,
          in_retrans_current = in_retrans_current a + byteRetransTotal stats,
          in_loss_current = in_loss_current a + byteRcvLossTotal stats,
          in_belated_current = in_belated_current a + belated,
          in_last = (in_last a)(sock \<mapsto>
            prev\<lparr>byte_recv_total := recv_last, byte_recv_unique_total := unique_last,
                 byte_retrans_total := retrans_last, byte_loss_total := loss_last,
                 packet_belated_total := belated_last\<rparr>),
          in_seen = List.insert sock (in_seen a)\<rparr>)"

text \<open>The map kept for the next tick: the sockets seen in this one.\<close>

definition keep_seen ::
  "int list \<Rightarrow> (int \<Rightarrow> TransportCounterSnapshot option) \<Rightarrow> int \<Rightarrow> TransportCounterSnapshot option" where
  "keep_seen seen last_by_socket sock =
     (if sock \<in> set seen then Some (last_of last_by_socket sock) else None)"

definition initial_input_sums :: "'m TrafficMetrics_scheme \<Rightarrow> input_sums" where
  "initial_input_sums m =
     \<lparr>in_recv_total = input_transport_byte_recv_total m,
      in_recv_unique_total = input_transport_byte_recv_unique_total m,
      in_retrans_total = input_transport_byte_retrans_total m,
      in_loss_total = input_transport_byte_loss_total m,
      in_belated_total = input_transport_packet_belated_total m,
      in_recv_current = 0, in_recv_unique_current = 0, in_retrans_current = 0, in_loss_current = 0,
      in_belated_current = 0, in_last = input_transport_last_by_socket m, in_seen = []\<rparr>"

definition store_input_sums :: "input_sums \<Rightarrow> 'm TrafficMetrics_scheme \<Rightarrow> 'm TrafficMetrics_scheme" where
  "store_input_sums a m =
     m\<lparr>input_transport_last_by_socket := keep_seen (in_seen a) (in_last a),
       input_transport_members_total := int (length (in_seen a)),
       input_transport_byte_recv_total := in_recv_total a,
       input_transport_byte_recv_unique_total := in_recv_unique_total a,
       input_transport_byte_retrans_total := in_retrans_total a,
       input_transport_byte_loss_total := in_loss_total a,
       input_transport_packet_belated_total := in_belated_total a,
       input_transport_byte_recv_current := in_recv_current a,
       input_transport_byte_recv_unique_current := in_recv_unique_current a,
       input_transport_byte_retrans_current := in_retrans_current a,
       input_transport_byte_loss_current := in_loss_current a,
       input_transport_packet_belated_current := in_belated_current a\<rparr>"

definition update_input_transport ::
  "'e transport_env_scheme \<Rightarrow> 'm TrafficMetrics_scheme \<Rightarrow> 'm TrafficMetrics_scheme" where
  "update_input_transport env m =
     (let stats = CollectSocketStatsSnapshot env (GetInputMemberSocketsSnapshot m);
          m1 = UpdateInputLinkTrafficPerSlot stats m
      in store_input_sums (foldl input_stats_step (initial_input_sums m1) stats) m1)"

record output_sums =
  out_sent_total :: u64
  out_sent_unique_total :: u64
  out_retrans_total :: u64
  out_drop_total :: u64
  out_sent_current :: u64
  out_sent_unique_current :: u64
  out_retrans_current :: u64
  out_drop_current :: u64
  out_last :: "int \<Rightarrow> TransportCounterSnapshot option"
  out_seen :: "int list"

definition output_stats_step :: "output_sums \<Rightarrow> int \<times> SRT_TRACEBSTATS \<Rightarrow> output_sums" where
  "output_stats_step a entry =
     (let (sock, stats) = entry;
          prev = last_of (out_last a) sock;
          (sent_total, sent_last) =
            UpdateCounterTotalAndLast (byteSentTotal stats) (out_sent_total a) (byte_sent_total prev);
          (unique_total, unique_last) =
            UpdateCounterTotalAndLast (byteSentUniqueTotal stats) (out_sent_unique_total a)
              (byte_sent_unique_total prev);
          (retrans_total, retrans_last) =
            UpdateCounterTotalAndLast (byteRetransTotal stats) (out_retrans_total a)
              (byte_retrans_total prev);
          (drop_total, drop_last) =
            UpdateCounterTotalAndLast (byteSndDropTotal stats) (out_drop_total a) (byte_drop_total prev)
      in \<lparr>out_sent_total = sent_total, out_sent_unique_total = unique_total,
          out_retrans_total = retrans_total, out_drop_total = drop_total,
          out_sent_current = out_sent_current a + byteSentTotal stats,
          out_sent_unique_current = out_sent_unique_current a + byteSentUniqueTotal stats,
          out_retrans_current = out_retrans_current a + byteRetransTotal stats,
          out_drop_current = out_drop_current a + byteSndDropTotal stats,
          out_last = (out_last a)(sock \<mapsto>
            prev\<lparr>byte_sent_total := sent_last, byte_sent_unique_total := unique_last,
                 byte_retrans_total := retrans_last, byte_drop_total := drop_last\<rparr>),
          out_seen = List.insert sock (out_seen a)\<rparr>)"

definition initial_output_sums :: "'m TrafficMetrics_scheme \<Rightarrow> output_sums" where
  "initial_output_sums m =
     \<lparr>out_sent_total = output_transport_byte_sent_total m,
      out_sent_unique_total = output_transport_byte_sent_unique_total m,
      out_retrans_total = output_transport_byte_retrans_total m,
      out_drop_total = output_transport_byte_drop_total m,
      out_sent_current = 0, out_sent_unique_current = 0, out_retrans_current = 0,
      out_drop_current = 0, out_last = output_transport_last_by_socket m, out_seen = []\<rparr>"

definition store_output_sums :: "output_sums \<Rightarrow> 'm TrafficMetrics_scheme \<Rightarrow> 'm TrafficMetrics_scheme" where
  "store_output_sums a m =
     m\<lparr>output_transport_last_by_socket := keep_seen (out_seen a) (out_last a),
       output_transport_members_total := int (length (out_seen a)),
       output_transport_byte_sent_total := out_sent_total a,
       output_transport_byte_sent_unique_total := out_sent_unique_total a,
       output_transport_byte_retrans_total := out_retrans_total a,
       output_transport_byte_drop_total := out_drop_total a,
       output_transport_byte_sent_current := out_sent_current a,
       output_transport_byte_sent_unique_current := out_sent_unique_current a,
       output_transport_byte_retrans_current := out_retrans_current a,
       output_transport_byte_drop_current := out_drop_current a\<rparr>"

definition output_sockets :: "int \<Rightarrow> 'm LinkMetrics_scheme \<Rightarrow> int list" where
  "output_sockets output_sock m =
     (let sockets = GetOutputMemberSocketsSnapshot m
      in if sockets = [] \<and> output_sock \<noteq> SRT_INVALID_SOCK then [output_sock] else sockets)"

definition update_output_transport ::
  "'e transport_env_scheme \<Rightarrow> int \<Rightarrow> 'm TrafficMetrics_scheme \<Rightarrow> 'm TrafficMetrics_scheme" where
  "update_output_transport env output_sock m =
     (let stats = CollectSocketStatsSnapshot env (output_sockets output_sock m);
          m1 = UpdateOutputLinkTrafficPerSlot stats m
      in store_output_sums (foldl output_stats_step (initial_output_sums m1) stats) m1)"

definition UpdateTransportTrafficMetrics ::
  "'e transport_env_scheme \<Rightarrow> int \<Rightarrow> int \<Rightarrow> 'm TrafficMetrics_scheme \<Rightarrow> 'm TrafficMetrics_scheme" where
  "UpdateTransportTrafficMetrics env input_session_sock output_sock m =
     update_output_transport env output_sock
       (update_input_transport env (update_input_group_drops env input_session_sock m))"

section \<open>Round-trip times, latencies and bond modes\<close>

definition TryReadSockOptInt :: "'e transport_env_scheme \<Rightarrow> int \<Rightarrow> SRT_SOCKOPT \<Rightarrow> int option" where
  "TryReadSockOptInt env sock opt =
     (if sock = SRT_INVALID_SOCK then None else srt_getsockflag env sock opt)"

text \<open>A missing \<open>has_\<close> flag is \<open>None\<close>.\<close>

record RuntimeLatencySnapshot =
  latency_ms :: "int option"
  rcvlatency_ms :: "int option"
  peerlatency_ms :: "int option"
  negotiated_latency_ms :: "int option"

definition ReadRuntimeLatencySnapshot :: "'e transport_env_scheme \<Rightarrow> int \<Rightarrow> RuntimeLatencySnapshot" where
  "ReadRuntimeLatencySnapshot env sock =
     (if sock = SRT_INVALID_SOCK then
        \<lparr>latency_ms = None, rcvlatency_ms = None, peerlatency_ms = None, negotiated_latency_ms = None\<rparr>
      else
        (let lat = TryReadSockOptInt env sock SRTO_LATENCY;
             rcv = TryReadSockOptInt env sock SRTO_RCVLATENCY;
             peer = TryReadSockOptInt env sock SRTO_PEERLATENCY
         in \<lparr>latency_ms = lat, rcvlatency_ms = rcv, peerlatency_ms = peer,
             negotiated_latency_ms =
               (case (rcv, peer) of
                  (Some a, Some b) \<Rightarrow> Some (max a b)
                | (Some a, None) \<Rightarrow> Some a
                | (None, Some b) \<Rightarrow> Some b
                | (None, None) \<Rightarrow> None)\<rparr>))"

definition EffectiveLatencyMsOrMinusOne :: "RuntimeLatencySnapshot \<Rightarrow> int" where
  "EffectiveLatencyMsOrMinusOne snapshot =
     (case negotiated_latency_ms snapshot of
        Some n \<Rightarrow> n
      | None \<Rightarrow> (case latency_ms snapshot of Some n \<Rightarrow> n | None \<Rightarrow> -1))"

text \<open>The stored value afterwards.\<close>

definition MaybeUpdateRttMetric :: "'e transport_env_scheme \<Rightarrow> int \<Rightarrow> int \<Rightarrow> int" where
  "MaybeUpdateRttMetric env sock stored =
     (if sock = SRT_INVALID_SOCK then -1
      else (case srt_bstats env sock of None \<Rightarrow> stored | Some stats \<Rightarrow> msRTT stats))"

fun group_type_int :: "SRT_GROUP_TYPE \<Rightarrow> int" where
  "group_type_int SRT_GTYPE_UNDEFINED = 0"
| "group_type_int SRT_GTYPE_BROADCAST = 1"
| "group_type_int SRT_GTYPE_BACKUP = 2"

definition ReadBondModeForSocket :: "'e transport_env_scheme \<Rightarrow> int \<Rightarrow> int" where
  "ReadBondModeForSocket env sock =
     (if sock = SRT_INVALID_SOCK then 0
      else (case srt_getsockflag env sock SRTO_GROUPTYPE of
              None \<Rightarrow> 0
            | Some group_value \<Rightarrow>
                if group_value = group_type_int SRT_GTYPE_BROADCAST then 1
                else if group_value = group_type_int SRT_GTYPE_BACKUP then 2
                else 0))"

definition UpdateInputBondModeMetric ::
  "'e transport_env_scheme \<Rightarrow> int \<Rightarrow> 'm TrafficMetrics_scheme \<Rightarrow> 'm TrafficMetrics_scheme" where
  "UpdateInputBondModeMetric env input_session_sock m =
     (if input_session_sock = SRT_INVALID_SOCK then m\<lparr>input_bond_mode := 0\<rparr>
      else
        (let mode = ReadBondModeForSocket env input_session_sock
         in m\<lparr>input_bond_mode :=
                (if mode = 0 then ReadBondModeForSocket env (srt_groupof env input_session_sock)
                 else mode)\<rparr>))"

definition UpdateOutputBondModeMetric ::
  "'e transport_env_scheme \<Rightarrow> int \<Rightarrow> 'm TrafficMetrics_scheme \<Rightarrow> 'm TrafficMetrics_scheme" where
  "UpdateOutputBondModeMetric env output_sock m =
     (if output_sock = SRT_INVALID_SOCK then m\<lparr>output_bond_mode := 0\<rparr>
      else
        (let mode = ReadBondModeForSocket env output_sock
         in m\<lparr>output_bond_mode :=
                (if mode = 0 then ReadBondModeForSocket env (srt_groupof env output_sock)
                 else mode)\<rparr>))"

text \<open>The largest round-trip time of the connected links in the span; \<open>None\<close> is \<open>false\<close>.\<close>

definition rtt_step :: "int \<Rightarrow> 'z TrackedSlot_scheme \<Rightarrow> int" where
  "rtt_step max_rtt s =
     (if member_connected s \<noteq> 1 then max_rtt
      else if link_rtt_ms s < 0 then max_rtt
      else max max_rtt (link_rtt_ms s))"

definition TryComputeMaxConnectedLinkRttGeneric :: "int \<Rightarrow> 'z TrackedSlot_scheme list \<Rightarrow> int option" where
  "TryComputeMaxConnectedLinkRttGeneric links_count slots =
     (let count = (if links_count < 0 then 0 else links_count);
          capped = min (nat count) kMaxTrackedMembers;
          max_rtt = foldl rtt_step (-1) (take capped slots)
      in if max_rtt < 0 then None else Some max_rtt)"

definition TryComputeMaxConnectedInputLinkRtt :: "'m LinkMetrics_scheme \<Rightarrow> int option" where
  "TryComputeMaxConnectedInputLinkRtt m =
     TryComputeMaxConnectedLinkRttGeneric (input_links_snapshot_count m) (input_tracked m)"

definition TryComputeMaxConnectedOutputLinkRtt :: "'m LinkMetrics_scheme \<Rightarrow> int option" where
  "TryComputeMaxConnectedOutputLinkRtt m =
     TryComputeMaxConnectedLinkRttGeneric (output_links_snapshot_count m) (output_tracked m)"

section \<open>One statistics tick\<close>

definition CollectTickMetrics ::
  "'e transport_env_scheme \<Rightarrow> int \<Rightarrow> int \<Rightarrow> 'm TrafficMetrics_scheme \<Rightarrow> 'm TrafficMetrics_scheme" where
  "CollectTickMetrics env input_session_sock output_stats_sock m =
     (let m1 = m\<lparr>input_rtt_ms := MaybeUpdateRttMetric env input_session_sock (input_rtt_ms m)\<rparr>;
          m2 = (if output_stats_sock \<noteq> SRT_INVALID_SOCK
                then m1\<lparr>output_rtt_ms := MaybeUpdateRttMetric env output_stats_sock (output_rtt_ms m1)\<rparr>
                else m1\<lparr>output_rtt_ms := 0\<rparr>);
          m3 = UpdateInputBondModeMetric env input_session_sock m2;
          m4 = UpdateOutputBondModeMetric env output_stats_sock m3;
          m5 = UpdateInputLinkHealthMetrics env input_session_sock m4;
          m6 = UpdateOutputLinkHealthMetrics env output_stats_sock m5;
          m7 = UpdateTransportTrafficMetrics env input_session_sock output_stats_sock m6;
          m8 = (case TryComputeMaxConnectedInputLinkRtt m7 of
                  Some r \<Rightarrow> m7\<lparr>input_rtt_ms := r\<rparr> | None \<Rightarrow> m7)
      in case TryComputeMaxConnectedOutputLinkRtt m8 of
           Some r \<Rightarrow> m8\<lparr>output_rtt_ms := r\<rparr> | None \<Rightarrow> m8)"

definition RefreshEffectiveLatencyMetrics ::
  "'e transport_env_scheme \<Rightarrow> int \<Rightarrow> int \<Rightarrow> 'm TrafficMetrics_scheme \<Rightarrow> 'm TrafficMetrics_scheme" where
  "RefreshEffectiveLatencyMetrics env input_session_sock output_stats_sock m =
     m\<lparr>input_effective_latency_ms :=
         EffectiveLatencyMsOrMinusOne (ReadRuntimeLatencySnapshot env input_session_sock),
       output_effective_latency_ms :=
         EffectiveLatencyMsOrMinusOne (ReadRuntimeLatencySnapshot env output_stats_sock)\<rparr>"

section \<open>Numbers with thousands separators\<close>

text \<open>The loop that inserts commas, from the right; the index counts down by three while positive.\<close>

function insert_commas :: "int \<Rightarrow> string \<Rightarrow> string" where
  "insert_commas i digits =
     (if 0 < i then insert_commas (i - 3) (take (nat i) digits @ CHR '','' # drop (nat i) digits)
      else digits)"
  by pat_completeness auto
termination by (relation "measure (\<lambda>(i, digits). nat i)") auto

declare insert_commas.simps [simp del]

definition FormatWithThousands :: "u64 \<Rightarrow> string" where
  "FormatWithThousands value =
     (let digits = show_nat (unat value) in insert_commas (int (length digits) - 3) digits)"

definition FormatSignedWithThousands :: "int \<Rightarrow> string" where
  "FormatSignedWithThousands value =
     (if value < 0 then CHR ''-'' # FormatWithThousands (word_of_int (- value))
      else FormatWithThousands (word_of_int value))"

section \<open>Counting through restarts\<close>

text \<open>A counter fed with the readings of one link.\<close>

definition feed :: "u64 \<Rightarrow> u64 \<Rightarrow> u64 list \<Rightarrow> u64 \<times> u64" where
  "feed total_count last_count readings =
     foldl (\<lambda>(t, l) c. UpdateCounterTotalAndLast c t l) (total_count, last_count) readings"

lemma feed_simps [simp]:
  "feed t l [] = (t, l)"
  "feed t l (c # cs) = feed (t + CounterDeltaWithReset l c) c cs"
  by (simp_all add: feed_def UpdateCounterTotalAndLast_def)

lemma feed_append: "feed t l (xs @ ys) = feed (fst (feed t l xs)) (snd (feed t l xs)) ys"
  by (simp add: feed_def)

lemma feed_monotone:
  assumes "sorted (l # cs)"
  shows "feed t l cs = (t + (List.last (l # cs) - l), List.last (l # cs))"
  using assms
proof (induction cs arbitrary: t l)
  case (Cons c cs)
  then have "feed (t + (c - l)) c cs = (t + (c - l) + (List.last (c # cs) - c), List.last (c # cs))"
    by (intro Cons.IH) simp
  then show ?case using Cons.prems by (simp add: CounterDeltaWithReset_def)
qed simp

text \<open>The readings of a link whose counter restarts: each run grows, and the next one starts lower.\<close>

fun restarting :: "u64 \<Rightarrow> u64 list list \<Rightarrow> bool" where
  "restarting l [] \<longleftrightarrow> True"
| "restarting l (cs # runs) \<longleftrightarrow> cs \<noteq> [] \<and> sorted cs \<and> hd cs < l \<and> restarting (List.last cs) runs"

lemma feed_run:
  assumes "cs \<noteq> []" and "sorted cs" and "hd cs < l"
  shows "feed t l cs = (t + List.last cs, List.last cs)"
proof -
  obtain c cs' where cs: "cs = c # cs'" using assms(1) by (cases cs) auto
  have "feed (t + c) c cs' = (t + c + (List.last (c # cs') - c), List.last (c # cs'))"
    using assms(2) unfolding cs by (intro feed_monotone)
  moreover have "\<not> l \<le> c" using assms(3) by (simp add: cs not_le)
  ultimately show ?thesis by (simp add: cs CounterDeltaWithReset_def)
qed

lemma feed_restarting:
  assumes "restarting l runs"
  shows "fst (feed t l (concat runs)) = t + sum_list (map List.last runs)"
  using assms
proof (induction runs arbitrary: t l)
  case (Cons cs runs)
  then show ?case by (simp add: feed_append feed_run)
qed simp

text \<open>
  C27. A counter is counted through restarts: when the readings of a link grow from the last one,
  and every later run of growing readings starts below where the one before it ended (a new
  socket counts from zero), then what is added to the total is the growth of the first run plus
  the final reading of each later one. The arithmetic is that of 64-bit words.
\<close>

theorem counter_counts_through_restarts:
  assumes "sorted (l # cs)" and "restarting (List.last (l # cs)) runs"
  shows "fst (feed t l (cs @ concat runs))
    = t + (List.last (l # cs) - l) + sum_list (map List.last runs)"
  using feed_restarting [OF assms(2), of "t + (List.last (l # cs) - l)"] feed_monotone [OF assms(1), of t]
  by (simp add: feed_append)

section \<open>A column of counters\<close>

text \<open>
  What the loops over the sockets' statistics do with one counter: add the difference to the
  socket's last reading to the total, add the reading to the current sum, and remember it.
\<close>

locale counter_column =
  fixes step :: "'a \<Rightarrow> int \<times> SRT_TRACEBSTATS \<Rightarrow> 'a"
    and tot :: "'a \<Rightarrow> u64" and cur :: "'a \<Rightarrow> u64"
    and last_map :: "'a \<Rightarrow> int \<Rightarrow> TransportCounterSnapshot option"
    and cell :: "TransportCounterSnapshot \<Rightarrow> u64" and reading :: "SRT_TRACEBSTATS \<Rightarrow> u64"
  assumes tot_step: "tot (step a (sock, st))
      = tot a + CounterDeltaWithReset (cell (last_of (last_map a) sock)) (reading st)"
    and cur_step: "cur (step a (sock, st)) = cur a + reading st"
    and last_step: "cell (last_of (last_map (step a (sock, st))) s)
      = (if s = sock then reading st else cell (last_of (last_map a) s))"

definition added ::
  "(TransportCounterSnapshot \<Rightarrow> u64) \<Rightarrow> (SRT_TRACEBSTATS \<Rightarrow> u64)
     \<Rightarrow> (int \<Rightarrow> TransportCounterSnapshot option) \<Rightarrow> SocketStatsSnapshot \<Rightarrow> u64" where
  "added cell reading last_by_socket stats =
     sum_list (map (\<lambda>(sock, st).
       CounterDeltaWithReset (cell (last_of last_by_socket sock)) (reading st)) stats)"

definition read_sum :: "(SRT_TRACEBSTATS \<Rightarrow> u64) \<Rightarrow> SocketStatsSnapshot \<Rightarrow> u64" where
  "read_sum reading stats = sum_list (map (\<lambda>(sock, st). reading st) stats)"

context counter_column
begin

lemma cur_foldl: "cur (foldl step a stats) = cur a + read_sum reading stats"
proof (induction stats arbitrary: a)
  case (Cons e stats)
  then show ?case by (cases e) (simp add: cur_step read_sum_def add.assoc)
qed (simp add: read_sum_def)

lemma last_foldl:
  assumes "distinct (map fst stats)"
  shows "cell (last_of (last_map (foldl step a stats)) s)
    = (case map_of stats s of Some st \<Rightarrow> reading st | None \<Rightarrow> cell (last_of (last_map a) s))"
  using assms
proof (induction stats arbitrary: a)
  case (Cons e stats)
  obtain sock st where e: "e = (sock, st)" by (cases e)
  have "map_of stats sock = None" using Cons.prems by (simp add: e map_of_eq_None_iff)
  then show ?case using Cons by (simp add: e last_step split: option.split)
qed simp

lemma tot_foldl:
  assumes "distinct (map fst stats)"
  shows "tot (foldl step a stats) = tot a + added cell reading (last_map a) stats"
  using assms
proof (induction stats arbitrary: a)
  case (Cons e stats)
  obtain sock st where e: "e = (sock, st)" by (cases e)
  have "s \<noteq> sock" if "(s, st') \<in> set stats" for s st'
    using Cons.prems that by (force simp: e)
  then have "added cell reading (last_map (step a e)) stats = added cell reading (last_map a) stats"
    unfolding added_def
    by (intro arg_cong [where f = sum_list] map_cong refl) (auto simp: e last_step)
  then show ?case using Cons by (simp add: e tot_step added_def add.assoc)
qed (simp add: added_def)

end

lemmas step_defs = input_stats_step_def output_stats_step_def UpdateCounterTotalAndLast_def last_of_def Let_def

interpretation in_recv: counter_column input_stats_step in_recv_total in_recv_current in_last
  byte_recv_total byteRecvTotal
  by unfold_locales (simp_all add: step_defs)

interpretation in_unique: counter_column input_stats_step in_recv_unique_total in_recv_unique_current
  in_last byte_recv_unique_total byteRecvUniqueTotal
  by unfold_locales (simp_all add: step_defs)

interpretation in_retrans: counter_column input_stats_step in_retrans_total in_retrans_current in_last
  byte_retrans_total byteRetransTotal
  by unfold_locales (simp_all add: step_defs)

interpretation in_loss: counter_column input_stats_step in_loss_total in_loss_current in_last
  byte_loss_total byteRcvLossTotal
  by unfold_locales (simp_all add: step_defs)

interpretation in_belated: counter_column input_stats_step in_belated_total in_belated_current in_last
  packet_belated_total "\<lambda>st. word_of_int (pktRcvBelated st)"
  by unfold_locales (simp_all add: step_defs)

interpretation out_sent: counter_column output_stats_step out_sent_total out_sent_current out_last
  byte_sent_total byteSentTotal
  by unfold_locales (simp_all add: step_defs)

interpretation out_unique: counter_column output_stats_step out_sent_unique_total out_sent_unique_current
  out_last byte_sent_unique_total byteSentUniqueTotal
  by unfold_locales (simp_all add: step_defs)

interpretation out_retrans: counter_column output_stats_step out_retrans_total out_retrans_current
  out_last byte_retrans_total byteRetransTotal
  by unfold_locales (simp_all add: step_defs)

interpretation out_drop: counter_column output_stats_step out_drop_total out_drop_current out_last
  byte_drop_total byteSndDropTotal
  by unfold_locales (simp_all add: step_defs)

section \<open>The statistics collected\<close>

lemma emplace_map_of:
  "map_of (emplace k v entries) s
     = (case map_of entries s of Some w \<Rightarrow> Some w | None \<Rightarrow> if s = k then Some v else None)"
proof (cases "k \<in> set (map fst entries)")
  case True
  then have "map_of entries k \<noteq> None" by (simp add: map_of_eq_None_iff)
  with True show ?thesis by (auto simp: emplace_def split: option.split)
next
  case False
  then show ?thesis by (simp add: emplace_def map_add_def split: option.split)
qed

lemma emplace_distinct: "distinct (map fst entries) \<Longrightarrow> distinct (map fst (emplace k v entries))"
  by (simp add: emplace_def)

lemma collect_foldl_map_of:
  "map_of (foldl (collect_step env) acc sockets) s =
     (case map_of acc s of
        Some w \<Rightarrow> Some w
      | None \<Rightarrow> if s \<in> set sockets \<and> s \<noteq> SRT_INVALID_SOCK \<and> s \<noteq> 0 then srt_bstats env s else None)"
proof (induction sockets arbitrary: acc)
  case (Cons k sockets)
  show ?case
    by (simp add: Cons.IH) (auto simp: collect_step_def emplace_map_of split: option.split)
qed (simp split: option.split)

lemma collect_foldl_distinct:
  "distinct (map fst acc) \<Longrightarrow> distinct (map fst (foldl (collect_step env) acc sockets))"
proof (induction sockets arbitrary: acc)
  case (Cons k sockets)
  then have "distinct (map fst (collect_step env acc k))"
    by (simp add: collect_step_def emplace_distinct split: option.split)
  then show ?case by (simp add: Cons.IH)
qed simp

lemma Collect_map_of:
  "map_of (CollectSocketStatsSnapshot env sockets) s =
     (if s \<in> set sockets \<and> s \<noteq> SRT_INVALID_SOCK \<and> s \<noteq> 0 then srt_bstats env s else None)"
  by (simp add: CollectSocketStatsSnapshot_def collect_foldl_map_of)

lemma Collect_distinct [simp]: "distinct (map fst (CollectSocketStatsSnapshot env sockets))"
  by (simp add: CollectSocketStatsSnapshot_def collect_foldl_distinct)

section \<open>Sockets seen and the map of last readings\<close>

lemma in_seen_foldl:
  "set (in_seen (foldl input_stats_step a stats)) = set (in_seen a) \<union> fst ` set stats \<and>
   (distinct (in_seen a) \<longrightarrow> distinct (in_seen (foldl input_stats_step a stats)))"
proof (induction stats arbitrary: a)
  case (Cons e stats)
  have "in_seen (input_stats_step a e) = List.insert (fst e) (in_seen a)"
    by (simp add: input_stats_step_def Let_def split_beta)
  then show ?case using Cons.IH [of "input_stats_step a e"] by simp
qed simp

lemma out_seen_foldl:
  "set (out_seen (foldl output_stats_step a stats)) = set (out_seen a) \<union> fst ` set stats \<and>
   (distinct (out_seen a) \<longrightarrow> distinct (out_seen (foldl output_stats_step a stats)))"
proof (induction stats arbitrary: a)
  case (Cons e stats)
  have "out_seen (output_stats_step a e) = List.insert (fst e) (out_seen a)"
    by (simp add: output_stats_step_def Let_def split_beta)
  then show ?case using Cons.IH [of "output_stats_step a e"] by simp
qed simp

lemma seen_length:
  assumes "distinct seen" and "set seen = fst ` set stats" and "distinct (map fst stats)"
  shows "length seen = length stats"
  using distinct_card [OF assms(1)] distinct_card [OF assms(3)] assms(2) by simp

text \<open>A socket's entry after its statistics are counted.\<close>

definition input_snap :: "SRT_TRACEBSTATS \<Rightarrow> TransportCounterSnapshot \<Rightarrow> TransportCounterSnapshot" where
  "input_snap st prev = prev\<lparr>byte_recv_total := byteRecvTotal st,
     byte_recv_unique_total := byteRecvUniqueTotal st, byte_retrans_total := byteRetransTotal st,
     byte_loss_total := byteRcvLossTotal st, packet_belated_total := word_of_int (pktRcvBelated st)\<rparr>"

definition output_snap :: "SRT_TRACEBSTATS \<Rightarrow> TransportCounterSnapshot \<Rightarrow> TransportCounterSnapshot" where
  "output_snap st prev = prev\<lparr>byte_sent_total := byteSentTotal st,
     byte_sent_unique_total := byteSentUniqueTotal st, byte_retrans_total := byteRetransTotal st,
     byte_drop_total := byteSndDropTotal st\<rparr>"

lemma initial_sums_fields [simp]:
  "in_last (initial_input_sums m) = input_transport_last_by_socket m"
  "in_seen (initial_input_sums m) = []"
  "out_last (initial_output_sums m) = output_transport_last_by_socket m"
  "out_seen (initial_output_sums m) = []"
  by (simp_all add: initial_input_sums_def initial_output_sums_def)

lemma in_last_foldl:
  assumes "distinct (map fst stats)"
  shows "in_last (foldl input_stats_step a stats) s =
    (case map_of stats s of None \<Rightarrow> in_last a s | Some st \<Rightarrow> Some (input_snap st (last_of (in_last a) s)))"
  using assms
proof (induction stats arbitrary: a)
  case (Cons e stats)
  obtain sock st where e: "e = (sock, st)" by (cases e)
  have step: "in_last (input_stats_step a e) = (in_last a)(sock \<mapsto> input_snap st (last_of (in_last a) sock))"
    by (simp add: e input_stats_step_def Let_def UpdateCounterTotalAndLast_def input_snap_def)
  have "map_of stats sock = None" using Cons.prems by (simp add: e map_of_eq_None_iff)
  then show ?case using Cons by (auto simp: e step [unfolded e] last_of_def split: option.split)
qed simp

lemma out_last_foldl:
  assumes "distinct (map fst stats)"
  shows "out_last (foldl output_stats_step a stats) s =
    (case map_of stats s of None \<Rightarrow> out_last a s | Some st \<Rightarrow> Some (output_snap st (last_of (out_last a) s)))"
  using assms
proof (induction stats arbitrary: a)
  case (Cons e stats)
  obtain sock st where e: "e = (sock, st)" by (cases e)
  have step: "out_last (output_stats_step a e) = (out_last a)(sock \<mapsto> output_snap st (last_of (out_last a) sock))"
    by (simp add: e output_stats_step_def Let_def UpdateCounterTotalAndLast_def output_snap_def)
  have "map_of stats sock = None" using Cons.prems by (simp add: e map_of_eq_None_iff)
  then show ?case using Cons by (auto simp: e step [unfolded e] last_of_def split: option.split)
qed simp

lemma keep_seen_foldl:
  assumes "distinct (map fst stats)" and "set seen = fst ` set stats"
    and "\<And>s. last_map s = (case map_of stats s of None \<Rightarrow> l s | Some st \<Rightarrow> Some (snap st (last_of l s)))"
  shows "keep_seen seen last_map s = map_option (\<lambda>st. snap st (last_of l s)) (map_of stats s)"
proof (cases "map_of stats s")
  case None
  then show ?thesis using assms(2) by (simp add: keep_seen_def map_of_eq_None_iff)
next
  case (Some st)
  then have "s \<in> fst ` set stats" by (metis map_of_eq_None_iff option.distinct(1))
  then show ?thesis using assms(2,3) Some by (simp add: keep_seen_def last_of_def)
qed

lemma input_loop_map:
  assumes "distinct (map fst stats)"
  shows "keep_seen (in_seen (foldl input_stats_step (initial_input_sums m) stats))
      (in_last (foldl input_stats_step (initial_input_sums m) stats))
    = (\<lambda>s. map_option (\<lambda>st. input_snap st (last_of (input_transport_last_by_socket m) s)) (map_of stats s))"
    and "length (in_seen (foldl input_stats_step (initial_input_sums m) stats)) = length stats"
proof -
  have seen: "set (in_seen (foldl input_stats_step (initial_input_sums m) stats)) = fst ` set stats"
    "distinct (in_seen (foldl input_stats_step (initial_input_sums m) stats))"
    using in_seen_foldl [of "initial_input_sums m" stats] by (simp_all add: initial_input_sums_def)
  from seen_length [OF seen(2,1) assms]
  show "length (in_seen (foldl input_stats_step (initial_input_sums m) stats)) = length stats" .
  show "keep_seen (in_seen (foldl input_stats_step (initial_input_sums m) stats))
      (in_last (foldl input_stats_step (initial_input_sums m) stats))
    = (\<lambda>s. map_option (\<lambda>st. input_snap st (last_of (input_transport_last_by_socket m) s)) (map_of stats s))"
    by (rule ext, rule keep_seen_foldl [OF assms seen(1)])
      (simp add: in_last_foldl [OF assms] split: option.split)
qed

lemma output_loop_map:
  assumes "distinct (map fst stats)"
  shows "keep_seen (out_seen (foldl output_stats_step (initial_output_sums m) stats))
      (out_last (foldl output_stats_step (initial_output_sums m) stats))
    = (\<lambda>s. map_option (\<lambda>st. output_snap st (last_of (output_transport_last_by_socket m) s)) (map_of stats s))"
    and "length (out_seen (foldl output_stats_step (initial_output_sums m) stats)) = length stats"
proof -
  have seen: "set (out_seen (foldl output_stats_step (initial_output_sums m) stats)) = fst ` set stats"
    "distinct (out_seen (foldl output_stats_step (initial_output_sums m) stats))"
    using out_seen_foldl [of "initial_output_sums m" stats] by (simp_all add: initial_output_sums_def)
  from seen_length [OF seen(2,1) assms]
  show "length (out_seen (foldl output_stats_step (initial_output_sums m) stats)) = length stats" .
  show "keep_seen (out_seen (foldl output_stats_step (initial_output_sums m) stats))
      (out_last (foldl output_stats_step (initial_output_sums m) stats))
    = (\<lambda>s. map_option (\<lambda>st. output_snap st (last_of (output_transport_last_by_socket m) s)) (map_of stats s))"
    by (rule ext, rule keep_seen_foldl [OF assms seen(1)])
      (simp add: out_last_foldl [OF assms] split: option.split)
qed

section \<open>The totals of a tick\<close>

lemma traffic_slots_frame [simp, frame_simps]:
  "initial_input_sums (UpdateInputLinkTrafficPerSlot stats m) = initial_input_sums m"
  "initial_output_sums (UpdateOutputLinkTrafficPerSlot stats m) = initial_output_sums m"
  by (simp_all add: UpdateInputLinkTrafficPerSlot_def UpdateOutputLinkTrafficPerSlot_def
      initial_input_sums_def initial_output_sums_def Let_def)

lemma initial_sums_counters [simp]:
  "in_recv_total (initial_input_sums m) = input_transport_byte_recv_total m"
  "in_recv_unique_total (initial_input_sums m) = input_transport_byte_recv_unique_total m"
  "in_retrans_total (initial_input_sums m) = input_transport_byte_retrans_total m"
  "in_loss_total (initial_input_sums m) = input_transport_byte_loss_total m"
  "in_belated_total (initial_input_sums m) = input_transport_packet_belated_total m"
  "in_recv_current (initial_input_sums m) = 0"
  "in_recv_unique_current (initial_input_sums m) = 0"
  "in_retrans_current (initial_input_sums m) = 0"
  "in_loss_current (initial_input_sums m) = 0"
  "in_belated_current (initial_input_sums m) = 0"
  "out_sent_total (initial_output_sums m) = output_transport_byte_sent_total m"
  "out_sent_unique_total (initial_output_sums m) = output_transport_byte_sent_unique_total m"
  "out_retrans_total (initial_output_sums m) = output_transport_byte_retrans_total m"
  "out_drop_total (initial_output_sums m) = output_transport_byte_drop_total m"
  "out_sent_current (initial_output_sums m) = 0"
  "out_sent_unique_current (initial_output_sums m) = 0"
  "out_retrans_current (initial_output_sums m) = 0"
  "out_drop_current (initial_output_sums m) = 0"
  by (simp_all add: initial_input_sums_def initial_output_sums_def)

lemma store_input_fields [simp]:
  "input_transport_last_by_socket (store_input_sums a m) = keep_seen (in_seen a) (in_last a)"
  "input_transport_members_total (store_input_sums a m) = int (length (in_seen a))"
  "input_transport_byte_recv_total (store_input_sums a m) = in_recv_total a"
  "input_transport_byte_recv_unique_total (store_input_sums a m) = in_recv_unique_total a"
  "input_transport_byte_retrans_total (store_input_sums a m) = in_retrans_total a"
  "input_transport_byte_loss_total (store_input_sums a m) = in_loss_total a"
  "input_transport_packet_belated_total (store_input_sums a m) = in_belated_total a"
  "input_transport_byte_recv_current (store_input_sums a m) = in_recv_current a"
  "input_transport_packet_belated_current (store_input_sums a m) = in_belated_current a"
  by (simp_all add: store_input_sums_def)

lemma store_output_fields [simp]:
  "output_transport_last_by_socket (store_output_sums b m) = keep_seen (out_seen b) (out_last b)"
  "output_transport_members_total (store_output_sums b m) = int (length (out_seen b))"
  "output_transport_byte_sent_total (store_output_sums b m) = out_sent_total b"
  "output_transport_byte_sent_unique_total (store_output_sums b m) = out_sent_unique_total b"
  "output_transport_byte_retrans_total (store_output_sums b m) = out_retrans_total b"
  "output_transport_byte_drop_total (store_output_sums b m) = out_drop_total b"
  "output_transport_byte_sent_current (store_output_sums b m) = out_sent_current b"
  by (simp_all add: store_output_sums_def)

text \<open>
  C26. One tick of the input counts every answering member socket once: each total grows by the sum,
  over those sockets, of the difference to the socket's last reading (the whole reading after a
  restart or for a new socket), the current values are the sums of the readings, the member count
  is the number of sockets that answered, and exactly those are remembered, with their readings.
\<close>

theorem input_transport_totals:
  assumes stats: "stats = CollectSocketStatsSnapshot env (GetInputMemberSocketsSnapshot m)"
    and m': "m' = update_input_transport env m"
    and l: "l = input_transport_last_by_socket m"
  shows "input_transport_byte_recv_total m' = input_transport_byte_recv_total m
      + added byte_recv_total byteRecvTotal l stats \<and>
    input_transport_byte_recv_unique_total m' = input_transport_byte_recv_unique_total m
      + added byte_recv_unique_total byteRecvUniqueTotal l stats \<and>
    input_transport_byte_retrans_total m' = input_transport_byte_retrans_total m
      + added byte_retrans_total byteRetransTotal l stats \<and>
    input_transport_byte_loss_total m' = input_transport_byte_loss_total m
      + added byte_loss_total byteRcvLossTotal l stats \<and>
    input_transport_packet_belated_total m' = input_transport_packet_belated_total m
      + added packet_belated_total (\<lambda>st. word_of_int (pktRcvBelated st)) l stats \<and>
    input_transport_byte_recv_current m' = read_sum byteRecvTotal stats \<and>
    input_transport_packet_belated_current m'
      = read_sum (\<lambda>st. word_of_int (pktRcvBelated st)) stats \<and>
    input_transport_members_total m' = int (length stats) \<and>
    input_transport_last_by_socket m'
      = (\<lambda>s. map_option (\<lambda>st. input_snap st (last_of l s)) (map_of stats s))"
proof -
  have d: "distinct (map fst stats)" by (simp add: stats)
  have m'': "m' = store_input_sums (foldl input_stats_step (initial_input_sums m) stats)
      (UpdateInputLinkTrafficPerSlot stats m)"
    by (simp add: m' stats update_input_transport_def Let_def)
  show ?thesis
    unfolding m'' store_input_fields input_loop_map [OF d] in_recv.tot_foldl [OF d]
      in_unique.tot_foldl [OF d] in_retrans.tot_foldl [OF d] in_loss.tot_foldl [OF d]
      in_belated.tot_foldl [OF d] in_recv.cur_foldl in_belated.cur_foldl
    by (simp add: l)
qed

text \<open>
  The same for the output, whose sockets are the connected members or, without any, the output
  socket itself.
\<close>

theorem output_transport_totals:
  assumes stats: "stats = CollectSocketStatsSnapshot env (output_sockets sock m)"
    and m': "m' = update_output_transport env sock m"
    and l: "l = output_transport_last_by_socket m"
  shows "output_transport_byte_sent_total m' = output_transport_byte_sent_total m
      + added byte_sent_total byteSentTotal l stats \<and>
    output_transport_byte_sent_unique_total m' = output_transport_byte_sent_unique_total m
      + added byte_sent_unique_total byteSentUniqueTotal l stats \<and>
    output_transport_byte_retrans_total m' = output_transport_byte_retrans_total m
      + added byte_retrans_total byteRetransTotal l stats \<and>
    output_transport_byte_drop_total m' = output_transport_byte_drop_total m
      + added byte_drop_total byteSndDropTotal l stats \<and>
    output_transport_byte_sent_current m' = read_sum byteSentTotal stats \<and>
    output_transport_members_total m' = int (length stats) \<and>
    output_transport_last_by_socket m'
      = (\<lambda>s. map_option (\<lambda>st. output_snap st (last_of l s)) (map_of stats s))"
proof -
  have d: "distinct (map fst stats)" by (simp add: stats)
  have m'': "m' = store_output_sums (foldl output_stats_step (initial_output_sums m) stats)
      (UpdateOutputLinkTrafficPerSlot stats m)"
    by (simp add: m' stats update_output_transport_def Let_def)
  show ?thesis
    unfolding m'' store_output_fields output_loop_map [OF d] out_sent.tot_foldl [OF d]
      out_unique.tot_foldl [OF d] out_retrans.tot_foldl [OF d] out_drop.tot_foldl [OF d]
      out_sent.cur_foldl
    by (simp add: l)
qed

section \<open>The order of the unordered maps\<close>

lemma sum_list_mset:
  fixes f :: "'a \<Rightarrow> 'b::comm_monoid_add"
  assumes "mset xs = mset ys"
  shows "sum_list (map f xs) = sum_list (map f ys)"
  unfolding sum_mset_sum_list [symmetric] mset_map assms ..

lemma added_mset: "mset xs = mset ys \<Longrightarrow> added cell reading l xs = added cell reading l ys"
  unfolding added_def by (rule sum_list_mset)

lemma read_sum_mset: "mset xs = mset ys \<Longrightarrow> read_sum reading xs = read_sum reading ys"
  unfolding read_sum_def by (rule sum_list_mset)

lemma map_of_mset:
  assumes "mset xs = mset ys" and "distinct (map fst ys)"
  shows "distinct (map fst xs)" and "map_of xs = map_of ys" and "length xs = length ys"
proof -
  have "mset (map fst xs) = mset (map fst ys)" using assms(1) by simp
  then show d: "distinct (map fst xs)" using assms(2) mset_eq_imp_distinct_iff by blast
  have "set xs = set ys" using assms(1) by (rule mset_eq_setD)
  then show "map_of xs = map_of ys" using map_of_inject_set [OF d assms(2)] by simp
  show "length xs = length ys" using assms(1) by (rule mset_eq_length)
qed

lemma input_loop_mset:
  assumes "mset xs = mset ys" and "distinct (map fst ys)"
  shows "store_input_sums (foldl input_stats_step (initial_input_sums m) xs) m'
    = store_input_sums (foldl input_stats_step (initial_input_sums m) ys) m'"
proof -
  note xs = map_of_mset [OF assms]
  show ?thesis
    unfolding store_input_sums_def input_loop_map [OF xs(1)] input_loop_map [OF assms(2)]
      in_recv.tot_foldl [OF xs(1)] in_unique.tot_foldl [OF xs(1)] in_retrans.tot_foldl [OF xs(1)]
      in_loss.tot_foldl [OF xs(1)] in_belated.tot_foldl [OF xs(1)]
      in_recv.tot_foldl [OF assms(2)] in_unique.tot_foldl [OF assms(2)]
      in_retrans.tot_foldl [OF assms(2)] in_loss.tot_foldl [OF assms(2)]
      in_belated.tot_foldl [OF assms(2)] in_recv.cur_foldl in_unique.cur_foldl in_retrans.cur_foldl
      in_loss.cur_foldl in_belated.cur_foldl added_mset [OF assms(1)] read_sum_mset [OF assms(1)] xs(2,3)
    ..
qed

lemma output_loop_mset:
  assumes "mset xs = mset ys" and "distinct (map fst ys)"
  shows "store_output_sums (foldl output_stats_step (initial_output_sums m) xs) m'
    = store_output_sums (foldl output_stats_step (initial_output_sums m) ys) m'"
proof -
  note xs = map_of_mset [OF assms]
  show ?thesis
    unfolding store_output_sums_def output_loop_map [OF xs(1)] output_loop_map [OF assms(2)]
      out_sent.tot_foldl [OF xs(1)] out_unique.tot_foldl [OF xs(1)] out_retrans.tot_foldl [OF xs(1)]
      out_drop.tot_foldl [OF xs(1)] out_sent.tot_foldl [OF assms(2)] out_unique.tot_foldl [OF assms(2)]
      out_retrans.tot_foldl [OF assms(2)] out_drop.tot_foldl [OF assms(2)] out_sent.cur_foldl
      out_unique.cur_foldl out_retrans.cur_foldl out_drop.cur_foldl
      added_mset [OF assms(1)] read_sum_mset [OF assms(1)] xs(2,3)
    ..
qed

text \<open>
  The statistics are kept in an unordered map, and the order in which it is walked does not
  matter: the metrics stored after the loop over the input's or the output's statistics are the
  same for every order of the entries.
\<close>

theorem traffic_order_irrelevant:
  assumes "mset stats' = mset stats" and "distinct (map fst stats)"
  shows "store_input_sums (foldl input_stats_step (initial_input_sums m) stats') m
      = store_input_sums (foldl input_stats_step (initial_input_sums m) stats) m \<and>
    store_output_sums (foldl output_stats_step (initial_output_sums m) stats') m
      = store_output_sums (foldl output_stats_step (initial_output_sums m) stats) m"
  by (simp add: input_loop_mset [OF assms] output_loop_mset [OF assms])

section \<open>A reading that is missed\<close>

lemma CounterDelta_new [simp]: "CounterDeltaWithReset 0 c = c"
  by (simp add: CounterDeltaWithReset_def)

lemma output_tick:
  assumes stats: "stats = CollectSocketStatsSnapshot env (output_sockets sock m)"
  shows "output_transport_byte_sent_total (update_output_transport env sock m)
      = output_transport_byte_sent_total m
        + added byte_sent_total byteSentTotal (output_transport_last_by_socket m) stats"
    and "output_transport_last_by_socket (update_output_transport env sock m) s
      = map_option (\<lambda>st. output_snap st (last_of (output_transport_last_by_socket m) s)) (map_of stats s)"
proof -
  have d: "distinct (map fst stats)" by (simp add: stats)
  have tick: "update_output_transport env sock m
      = store_output_sums (foldl output_stats_step (initial_output_sums m) stats)
          (UpdateOutputLinkTrafficPerSlot stats m)"
    by (simp add: stats update_output_transport_def Let_def)
  show "output_transport_byte_sent_total (update_output_transport env sock m)
      = output_transport_byte_sent_total m
        + added byte_sent_total byteSentTotal (output_transport_last_by_socket m) stats"
    unfolding tick store_output_fields out_sent.tot_foldl [OF d] by simp
  show "output_transport_last_by_socket (update_output_transport env sock m) s
      = map_option (\<lambda>st. output_snap st (last_of (output_transport_last_by_socket m) s)) (map_of stats s)"
    unfolding tick store_output_fields output_loop_map [OF d] by simp
qed

text \<open>
  A reading that fails once makes the output count everything twice: when the only output socket
  has a last reading, does not answer in one tick and answers in the next, that next tick adds the
  socket's whole count to the total instead of what was sent since the last reading.
\<close>

theorem missed_reading_counts_twice:
  assumes "output_sockets sock m = [s]" and "s \<noteq> SRT_INVALID_SOCK" and "s \<noteq> 0"
    and "srt_bstats env1 s = None" and m1: "m1 = update_output_transport env1 sock m"
    and "output_sockets sock m1 = [s]" and "srt_bstats env2 s = Some st"
    and m2: "m2 = update_output_transport env2 sock m1"
  shows "output_transport_byte_sent_total m2 = output_transport_byte_sent_total m + byteSentTotal st"
proof -
  have none: "CollectSocketStatsSnapshot env1 [s] = []"
    using assms(4) by (simp add: CollectSocketStatsSnapshot_def collect_step_def)
  have some: "CollectSocketStatsSnapshot env2 [s] = [(s, st)]"
    using assms(2,3,7) by (simp add: CollectSocketStatsSnapshot_def collect_step_def emplace_def)
  have "output_transport_byte_sent_total m1 = output_transport_byte_sent_total m"
    "output_transport_last_by_socket m1 s = None"
    using output_tick [OF refl, of env1 sock m] by (simp_all add: m1 assms(1) none added_def)
  then show ?thesis
    using output_tick(1) [OF refl, of env2 sock m1]
    by (simp add: m2 assms(6) some added_def last_of_def default_TransportCounterSnapshot_def)
qed

text \<open>
  The slot of the same link counts through: without statistics it is left alone, and the next
  reading adds only the difference to the last one.
\<close>

lemma output_slot_counts_through:
  assumes "map_of stats1 (member_id s) = None" and "map_of stats2 (member_id s) = Some st"
    and "member_identity_key s \<noteq> 0" and "member_connected s = 1"
    and "member_id s \<noteq> SRT_INVALID_SOCK" and "member_id s \<noteq> 0"
  shows "link_tx_bytes_total (output_slot_traffic stats2 (output_slot_traffic stats1 s))
    = link_tx_bytes_total s + CounterDeltaWithReset (link_tx_bytes_last s) (byteSentTotal st)"
  using assms by (simp add: output_slot_traffic_def UpdateCounterTotalAndLast_def Let_def)

section \<open>The largest round-trip time\<close>

definition link_rtts :: "nat \<Rightarrow> 'z TrackedSlot_scheme list \<Rightarrow> int set" where
  "link_rtts capped slots =
     {link_rtt_ms s | s. s \<in> set (take capped slots) \<and> member_connected s = 1 \<and> 0 \<le> link_rtt_ms s}"

lemma rtt_foldl:
  "foldl rtt_step acc slots \<in> insert acc {link_rtt_ms s | s. s \<in> set slots \<and> member_connected s = 1 \<and> 0 \<le> link_rtt_ms s} \<and>
   acc \<le> foldl rtt_step acc slots \<and>
   (\<forall>s \<in> set slots. member_connected s = 1 \<and> 0 \<le> link_rtt_ms s \<longrightarrow> link_rtt_ms s \<le> foldl rtt_step acc slots)"
proof (induction slots arbitrary: acc)
  case (Cons s slots)
  show ?case using Cons.IH [of "rtt_step acc s"] by (auto simp: rtt_step_def max_def split: if_splits)
qed simp

lemma max_rtt_cases:
  assumes "k \<le> kMaxTrackedMembers"
  shows "case TryComputeMaxConnectedLinkRttGeneric (int k) slots of
           None \<Rightarrow> link_rtts k slots = {}
         | Some r \<Rightarrow> r \<in> link_rtts k slots \<and> (\<forall>x \<in> link_rtts k slots. x \<le> r)"
proof -
  have "TryComputeMaxConnectedLinkRttGeneric (int k) slots
      = (if foldl rtt_step (-1) (take k slots) < 0 then None else Some (foldl rtt_step (-1) (take k slots)))"
    using assms by (simp add: TryComputeMaxConnectedLinkRttGeneric_def Let_def min_absorb1)
  with rtt_foldl [of "-1" "take k slots"] show ?thesis by (force simp: link_rtts_def)
qed

lemma links_count_span:
  "TryComputeMaxConnectedInputLinkRtt m = TryComputeMaxConnectedLinkRttGeneric
     (int (SnapshotCountCapped LinkSide.kInput m)) (input_tracked m)"
  "TryComputeMaxConnectedOutputLinkRtt m = TryComputeMaxConnectedLinkRttGeneric
     (int (SnapshotCountCapped LinkSide.kOutput m)) (output_tracked m)"
  by (simp_all add: TryComputeMaxConnectedInputLinkRtt_def TryComputeMaxConnectedOutputLinkRtt_def
      TryComputeMaxConnectedLinkRttGeneric_def SnapshotCountCapped_def Let_def)

lemma SnapshotCountCapped_le: "SnapshotCountCapped side m \<le> kMaxTrackedMembers"
  by (simp add: SnapshotCountCapped_def Let_def)

text \<open>
  The round-trip time reported for a side is that of its slowest link: the largest of the
  non-negative times of the connected slots in the visible span, and none exactly when there is none.
\<close>

theorem max_link_rtt:
  "(case TryComputeMaxConnectedOutputLinkRtt m of
      None \<Rightarrow> link_rtts (SnapshotCountCapped LinkSide.kOutput m) (output_tracked m) = {}
    | Some r \<Rightarrow> r \<in> link_rtts (SnapshotCountCapped LinkSide.kOutput m) (output_tracked m) \<and>
        (\<forall>x \<in> link_rtts (SnapshotCountCapped LinkSide.kOutput m) (output_tracked m). x \<le> r)) \<and>
   (case TryComputeMaxConnectedInputLinkRtt m of
      None \<Rightarrow> link_rtts (SnapshotCountCapped LinkSide.kInput m) (input_tracked m) = {}
    | Some r \<Rightarrow> r \<in> link_rtts (SnapshotCountCapped LinkSide.kInput m) (input_tracked m) \<and>
        (\<forall>x \<in> link_rtts (SnapshotCountCapped LinkSide.kInput m) (input_tracked m). x \<le> r))"
  unfolding links_count_span by (intro conjI max_rtt_cases SnapshotCountCapped_le)

section \<open>Numbers in the log\<close>

lemma insert_commas_append:
  "i \<le> int (length a) \<Longrightarrow> insert_commas i (a @ b) = insert_commas i a @ b"
proof (induction i a rule: insert_commas.induct)
  case (1 i a)
  show ?case
  proof (cases "0 < i")
    case True
    have "insert_commas (i - 3) ((take (nat i) a @ CHR '','' # drop (nat i) a) @ b)
        = insert_commas (i - 3) (take (nat i) a @ CHR '','' # drop (nat i) a) @ b"
      using 1 True by simp
    with True 1(2) show ?thesis by (simp add: insert_commas.simps [of i])
  qed (simp add: insert_commas.simps [of i])
qed

lemma insert_commas_step:
  assumes "3 < length ds"
  shows "insert_commas (int (length ds) - 3) ds
    = insert_commas (int (length ds - 3) - 3) (take (length ds - 3) ds) @ CHR '','' # drop (length ds - 3) ds"
proof -
  have n: "nat (int (length ds) - 3) = length ds - 3" by simp
  have "insert_commas (int (length ds - 3)) ds
      = insert_commas (int (length ds - 3) - 3) (take (length ds - 3) ds @ CHR '','' # drop (length ds - 3) ds)"
    using assms n by (subst insert_commas.simps) simp
  then show ?thesis
    using assms by (simp add: insert_commas_append of_nat_diff)
qed

lemma split_on_mid: "split_on d (a @ d # b) = split_on d a @ split_on d b"
proof (induction a)
  case (Cons c a)
  then show ?case by (cases "split_on d a") auto
qed simp

definition thousands_groups :: "string list \<Rightarrow> bool" where
  "thousands_groups gs \<longleftrightarrow>
     gs \<noteq> [] \<and> 1 \<le> length (hd gs) \<and> length (hd gs) \<le> 3 \<and> (\<forall>g \<in> set (tl gs). length g = 3)"

lemma thousands_groups_snoc:
  "thousands_groups gs \<Longrightarrow> length g = 3 \<Longrightarrow> thousands_groups (gs @ [g])"
  by (cases gs) (auto simp: thousands_groups_def)

lemma insert_commas_groups:
  assumes "ds \<noteq> []" and "CHR '','' \<notin> set ds"
  shows "concat (split_on CHR '','' (insert_commas (int (length ds) - 3) ds)) = ds \<and>
    thousands_groups (split_on CHR '','' (insert_commas (int (length ds) - 3) ds))"
  using assms
proof (induction "length ds" arbitrary: ds rule: less_induct)
  case less
  show ?case
  proof (cases "3 < length ds")
    case False
    then have "insert_commas (int (length ds) - 3) ds = ds" by (subst insert_commas.simps) simp
    with less.prems False show ?thesis by (simp add: split_on_notin thousands_groups_def Suc_leI)
  next
    case True
    let ?a = "take (length ds - 3) ds" and ?b = "drop (length ds - 3) ds"
    have b: "CHR '','' \<notin> set ?b" "length ?b = 3" "?a @ ?b = ds"
      using less.prems(2) True in_set_dropD by fastforce+
    have a: "length ?a = length ds - 3" "length ?a < length ds" "?a \<noteq> []" "CHR '','' \<notin> set ?a"
      using less.prems True in_set_takeD by fastforce+
    from less.hyps [OF a(2-4)] have IH:
      "concat (split_on CHR '','' (insert_commas (int (length ds - 3) - 3) ?a)) = ?a"
      "thousands_groups (split_on CHR '','' (insert_commas (int (length ds - 3) - 3) ?a))"
      unfolding a(1) by blast+
    have "split_on CHR '','' (insert_commas (int (length ds) - 3) ds)
        = split_on CHR '','' (insert_commas (int (length ds - 3) - 3) ?a) @ [?b]"
      by (simp only: insert_commas_step [OF True] split_on_mid split_on_notin [OF b(1)])
    with thousands_groups_snoc [OF IH(2) b(2)] IH(1) b(3) show ?thesis
      by (simp only: concat_append concat.simps append_Nil2 simp_thms)
  qed
qed

text \<open>
  Numbers are logged in groups of three digits: splitting the text at the commas gives the digits
  of the number back, with one to three digits in the first group and exactly three in every other.
\<close>

theorem FormatWithThousands_groups:
  "concat (split_on CHR '','' (FormatWithThousands n)) = show_nat (unat n) \<and>
   thousands_groups (split_on CHR '','' (FormatWithThousands n))"
proof -
  have "\<not> isdigit CHR '',''" by (simp add: isdigit_def digit_of_def)
  from insert_commas_groups [OF show_nat_ne show_nat_notin [OF this], of "unat n"]
  show ?thesis by (simp add: FormatWithThousands_def Let_def)
qed

section \<open>Witnesses\<close>

definition example_stats :: "u64 \<Rightarrow> SRT_TRACEBSTATS" where
  "example_stats n =
     \<lparr>byteRecvTotal = n, byteSentTotal = n, byteRecvUniqueTotal = n, byteSentUniqueTotal = n,
      byteRetransTotal = 0, byteRcvLossTotal = 0, byteSndDropTotal = 0, byteRcvDropTotal = 0,
      pktRcvBelated = 0, pktRcvDropTotal = 0, msRTT = 12\<rparr>"

text \<open>Every socket but 0 answers with the same count, or none does.\<close>

definition counting_env :: "SRT_TRACEBSTATS option \<Rightarrow> transport_env" where
  "counting_env answer =
     health_env.extend group_env (transport_env.fields (\<lambda>_. answer) (\<lambda>_ _. None))"

definition traffic_of :: "LinkMetrics \<Rightarrow> TrafficMetrics" where
  "traffic_of m =
     HealthMetrics.extend (health_of m)
       (TrafficMetrics.fields 0 0 0 0 0 0 0 0 0 0 0 0 0 0 0 100 0 0 0 0 0 0 0 (-1) (-1) (-1) (-1) 0 0
         (\<lambda>_. None) [7 \<mapsto> default_TransportCounterSnapshot\<lparr>byte_sent_total := 100\<rparr>] (\<lambda>_. None))"

theorem counter_counts_through_restarts_witness:
  "fst (feed 1000 10 ([15, 40] @ concat [[5, 8], [2]])) = 1000 + (40 - 10) + (8 + 2)"
  using counter_counts_through_restarts [of 10 "[15, 40]" "[[5, 8], [2]]" 1000]
  by (simp add: word_less_nat_alt word_le_nat_alt)

theorem output_transport_totals_witness:
  "output_transport_byte_sent_total
     (update_output_transport (counting_env (Some (example_stats 130))) 7 (traffic_of example_metrics)) = 130"
proof -
  let ?env = "counting_env (Some (example_stats 130))"
  let ?m = "traffic_of example_metrics"
  let ?stats = "CollectSocketStatsSnapshot ?env (output_sockets 7 ?m)"
  have "added byte_sent_total byteSentTotal (output_transport_last_by_socket ?m) ?stats = 30"
    by code_simp
  moreover have "output_transport_byte_sent_total ?m = 100" by code_simp
  ultimately show ?thesis
    using output_transport_totals [OF refl refl refl, of ?env 7 ?m] by simp
qed

theorem input_transport_totals_witness:
  "input_transport_members_total
     (update_input_transport (counting_env (Some (example_stats 130))) (traffic_of example_metrics)) = 0"
proof -
  let ?env = "counting_env (Some (example_stats 130))"
  let ?m = "traffic_of example_metrics"
  have "CollectSocketStatsSnapshot ?env (GetInputMemberSocketsSnapshot ?m) = []" by code_simp
  then show ?thesis
    using input_transport_totals [OF refl refl refl, of ?env ?m] by simp
qed

theorem traffic_order_irrelevant_witness:
  "store_output_sums (foldl output_stats_step (initial_output_sums (traffic_of example_metrics))
       [(8, example_stats 5), (7, example_stats 130)]) (traffic_of example_metrics)
   = store_output_sums (foldl output_stats_step (initial_output_sums (traffic_of example_metrics))
       [(7, example_stats 130), (8, example_stats 5)]) (traffic_of example_metrics)"
  using traffic_order_irrelevant [of "[(8, example_stats 5), (7, example_stats 130)]"
      "[(7, example_stats 130), (8, example_stats 5)]" "traffic_of example_metrics"]
  by (simp add: add_mset_commute)

theorem missed_reading_counts_twice_witness:
  "output_transport_byte_sent_total
     (update_output_transport (counting_env (Some (example_stats 130))) 7
       (update_output_transport (counting_env None) 7 (traffic_of example_metrics))) = 230"
proof -
  let ?m = "traffic_of example_metrics"
  let ?m1 = "update_output_transport (counting_env None) 7 ?m"
  have "output_sockets 7 ?m = [7]" "output_sockets 7 ?m1 = [7]"
    "output_transport_byte_sent_total ?m = 100" "byteSentTotal (example_stats 130) = 130"
    by code_simp+
  moreover have "srt_bstats (counting_env None) 7 = None"
    "srt_bstats (counting_env (Some (example_stats 130))) 7 = Some (example_stats 130)"
    by (simp_all add: counting_env_def transport_env.defs health_env.defs)
  moreover have "(7::int) \<noteq> SRT_INVALID_SOCK" by (simp add: SRT_INVALID_SOCK_def)
  ultimately show ?thesis
    using missed_reading_counts_twice [of 7 ?m 7 "counting_env None" ?m1
        "counting_env (Some (example_stats 130))" "example_stats 130" _] by simp
qed

definition slow_links :: LinkMetrics where
  "slow_links = example_metrics\<lparr>output_tracked :=
     map (\<lambda>s. s\<lparr>link_rtt_ms := 20\<rparr>) (output_tracked example_metrics)\<rparr>"

theorem max_link_rtt_witness:
  "20 \<in> link_rtts (SnapshotCountCapped LinkSide.kOutput slow_links) (output_tracked slow_links)"
proof -
  have "TryComputeMaxConnectedOutputLinkRtt slow_links = Some 20" by code_simp
  with max_link_rtt [of slow_links] show ?thesis by simp
qed

end
