(* ===== verification/SrtEndpoints.thy ===== *)
theory SrtEndpoints
  imports Transport
begin

text \<open>
  Sockets and how they are made (\<open>src/src/relay_srt_endpoints.cpp\<close>, \<open>ResolveSockaddr\<close> and
  \<open>SrtSocketHolder\<close> of \<open>src/src/srt_utils.cpp\<close>). The libraries are an oracle: it answers each call from
  the history of the calls made so far, and the state of a computation is that history. A
  computation returns an exception or a value together with the longer history, so what it left
  open can be read off it.
\<close>

section \<open>Calls into the libraries\<close>

datatype family = any_family | inet_family | inet6_family

datatype udp_option =
    SO_REUSEADDR int | SO_RCVBUF int | SO_SNDBUF int | IP_TTL int
  | SO_RCVTIMEO int int | SO_SNDTIMEO int int

datatype os_call =
    call_srt_create_socket
  | call_srt_create_group SRT_GROUP_TYPE
  | call_srt_setsockflag int SRT_SOCKOPT sockopt_value
  | call_getaddrinfo string string family bool
  | call_srt_bind int sockaddr_storage
  | call_srt_listen int int
  | call_srt_connect int sockaddr_storage
  | call_srt_connect_group int "(sockaddr_storage option \<times> sockaddr_storage) list"
  | call_srt_accept_bond "int list" int
  | call_srt_close int
  | call_srt_recvmsg2 int int
  | call_srt_sendmsg2 int "byte list"
  | call_socket family
  | call_setsockopt int udp_option
  | call_bind int sockaddr_storage
  | call_connect int sockaddr_storage
  | call_recv int int
  | call_send int "byte list"
  | call_close int
  | call_read int
  | call_write "byte list"

text \<open>
  The answer to a call: its return value, the bytes and the group data it wrote and, for
  \<open>getaddrinfo\<close>, the address found.
\<close>

record os_reply =
  rc :: int
  payload :: "byte list"
  found :: "sockaddr_storage option"
  message_ctrl :: SRT_MSGCTRL

type_synonym history = "(os_call \<times> os_reply) list"

text \<open>
  The last errors of libsrt and \<open>errno\<close> (its text and whether it is \<open>EAGAIN\<close> or \<open>EWOULDBLOCK\<close>) are
  functions of the history too. \<open>srt_no_client_yet\<close> is an error code that says that no client
  waits to be accepted. \<open>net\<close> is what the calls that only read a socket's state would answer now.
\<close>

record os =
  answer :: "history \<Rightarrow> os_call \<Rightarrow> os_reply"
  SrtLastErrorString :: "history \<Rightarrow> string"
  IsSrtTimeoutError :: "history \<Rightarrow> bool"
  srt_no_client_yet :: "history \<Rightarrow> bool"
  strerror :: "history \<Rightarrow> string"
  IsUdpTimeoutErrno :: "history \<Rightarrow> bool"
  net :: "history \<Rightarrow> transport_env"

section \<open>Computations\<close>

type_synonym 'a io = "history \<Rightarrow> 'a result \<times> history"

definition io_return :: "'a \<Rightarrow> 'a io" where
  "io_return x h = (Inr x, h)"

definition io_throw :: "exn \<Rightarrow> 'a io" where
  "io_throw e h = (Inl e, h)"

definition io_bind :: "'a io \<Rightarrow> ('a \<Rightarrow> 'b io) \<Rightarrow> 'b io" where
  "io_bind m f h = (case m h of (Inl e, h') \<Rightarrow> (Inl e, h') | (Inr x, h') \<Rightarrow> f x h')"

text \<open>\<open>try { m } catch (...) { cleanup; throw; }\<close>\<close>

definition io_cleanup :: "'a io \<Rightarrow> unit io \<Rightarrow> 'a io" where
  "io_cleanup m cleanup h =
     (case m h of (Inl e, h') \<Rightarrow> (Inl e, snd (cleanup h')) | (Inr x, h') \<Rightarrow> (Inr x, h'))"

definition ask :: "os \<Rightarrow> os_call \<Rightarrow> history \<Rightarrow> os_reply \<times> history" where
  "ask os c h = (let r = answer os h c in (r, (c, r) # h))"

definition io_call :: "os \<Rightarrow> os_call \<Rightarrow> os_reply io" where
  "io_call os c h = (let r = answer os h c in (Inr r, (c, r) # h))"

definition io_lift :: "'a result \<Rightarrow> 'a io" where
  "io_lift r h = (r, h)"

text \<open>\<open>if (bad) throw std::runtime_error(message + last error)\<close>\<close>

definition srt_check :: "os \<Rightarrow> bool \<Rightarrow> string \<Rightarrow> unit io" where
  "srt_check os bad message h =
     (if bad then (Inl (runtime_error (message @ SrtLastErrorString os h)), h) else (Inr (), h))"

text \<open>
  The option steps of the URI component, on a socket: \<open>srt_setsockflag\<close> answers as of the history at
  the start, and the options it accepted are recorded.
\<close>

definition flag_answer :: "os \<Rightarrow> history \<Rightarrow> int \<Rightarrow> set_flag" where
  "flag_answer os h sock opt v =
     (if rc (answer os h (call_srt_setsockflag sock opt v)) = -1
      then Some (SrtLastErrorString os h) else None)"

definition run_options :: "os \<Rightarrow> int \<Rightarrow> (set_flag \<Rightarrow> opt_step) \<Rightarrow> unit io" where
  "run_options os sock step h =
     (case step (flag_answer os h sock) of
        (accepted, r) \<Rightarrow>
          (r, rev (map (\<lambda>(opt, v). (call_srt_setsockflag sock opt v,
                 answer os h (call_srt_setsockflag sock opt v))) accepted) @ h))"

section \<open>What is open\<close>

datatype handle = srt_sock int | udp_fd int

text \<open>Sockets obtained and not closed, the newest first.\<close>

fun open_handles :: "history \<Rightarrow> handle list" where
  "open_handles [] = []"
| "open_handles ((c, r) # h) =
     (case c of
        call_srt_create_socket \<Rightarrow> if rc r = SRT_INVALID_SOCK then open_handles h else srt_sock (rc r) # open_handles h
      | call_srt_create_group gt \<Rightarrow> if rc r = SRT_INVALID_SOCK then open_handles h else srt_sock (rc r) # open_handles h
      | call_srt_accept_bond ls t \<Rightarrow> if rc r = SRT_INVALID_SOCK then open_handles h else srt_sock (rc r) # open_handles h
      | call_srt_close s \<Rightarrow> remove1 (srt_sock s) (open_handles h)
      | call_socket f \<Rightarrow> if rc r < 0 then open_handles h else udp_fd (rc r) # open_handles h
      | call_close fd \<Rightarrow> remove1 (udp_fd fd) (open_handles h)
      | _ \<Rightarrow> open_handles h)"

section \<open>Socket holders and lists\<close>

definition srt_close :: "os \<Rightarrow> int \<Rightarrow> history \<Rightarrow> history" where
  "srt_close os sock h = snd (io_call os (call_srt_close sock) h)"

text \<open>\<open>SrtSocketHolder::Reset\<close> and \<open>Set\<close>: the held socket afterwards and the history.\<close>

definition SrtSocketHolder_Reset :: "os \<Rightarrow> int \<Rightarrow> history \<Rightarrow> int \<times> history" where
  "SrtSocketHolder_Reset os sock h =
     (if sock \<noteq> SRT_INVALID_SOCK then (SRT_INVALID_SOCK, srt_close os sock h) else (sock, h))"

definition SrtSocketHolder_Set :: "os \<Rightarrow> int \<Rightarrow> int \<Rightarrow> history \<Rightarrow> int \<times> history" where
  "SrtSocketHolder_Set os sock s h = (s, snd (SrtSocketHolder_Reset os sock h))"

fun CloseSocketList :: "os \<Rightarrow> int list \<Rightarrow> history \<Rightarrow> history" where
  "CloseSocketList os [] h = h"
| "CloseSocketList os (sock # sockets) h =
     CloseSocketList os sockets (if sock \<noteq> SRT_INVALID_SOCK then srt_close os sock h else h)"

section \<open>Listening, accepting and connecting\<close>

definition ResolveSockaddr :: "os \<Rightarrow> string \<Rightarrow> int \<Rightarrow> sockaddr_storage io" where
  "ResolveSockaddr os host_name port_number =
     (let service = show_int port_number
      in io_bind (io_call os (call_getaddrinfo host_name service any_family False)) (\<lambda>r.
           case (rc r = 0, found r) of
             (True, Some addr) \<Rightarrow> io_return addr
           | _ \<Rightarrow> io_throw (runtime_error (''getaddrinfo failed for '' @ host_name @ '':'' @ service))))"

text \<open>The blocks in \<open>try\<close> that set up a socket come first.\<close>

definition set_up_listener :: "os \<Rightarrow> SrtUri \<Rightarrow> Config \<Rightarrow> string \<Rightarrow> int \<Rightarrow> unit io" where
  "set_up_listener os uri cfg endpoint_name listener =
     io_bind (run_options os listener (\<lambda>f. ApplyIntSockOpt f SRTO_REUSEADDR 1 ''SRTO_REUSEADDR'')) (\<lambda>_.
     io_bind (run_options os listener (\<lambda>f. ApplyIntSockOpt f SRTO_GROUPCONNECT 1 ''SRTO_GROUPCONNECT'')) (\<lambda>_.
     io_bind (run_options os listener
                (\<lambda>f. ApplyIntSockOpt f SRTO_RCVTIMEO (io_timeout_ms cfg) ''SRTO_RCVTIMEO'')) (\<lambda>_.
     io_bind (run_options os listener (\<lambda>f. ApplyCommonSrtOptions f uri)) (\<lambda>_.
     io_bind (ResolveSockaddr os (host uri) (port uri)) (\<lambda>addr.
     io_bind (io_call os (call_srt_bind listener addr)) (\<lambda>b.
     io_bind (srt_check os (rc b = -1) (endpoint_name @ '' bind failed: '')) (\<lambda>_.
     io_bind (io_call os (call_srt_listen listener 8)) (\<lambda>l.
     srt_check os (rc l = -1) (endpoint_name @ '' listen failed: '')))))))))"

definition CreateListeningSocket :: "os \<Rightarrow> SrtUri \<Rightarrow> Config \<Rightarrow> string \<Rightarrow> int io" where
  "CreateListeningSocket os uri cfg endpoint_name =
     io_bind (io_call os call_srt_create_socket) (\<lambda>r.
     io_bind (srt_check os (rc r = SRT_INVALID_SOCK)
                (''failed to create '' @ endpoint_name @ '' listener socket: '')) (\<lambda>_.
     io_bind (io_cleanup (set_up_listener os uri cfg endpoint_name (rc r))
                (io_bind (io_call os (call_srt_close (rc r))) (\<lambda>_. io_return ()))) (\<lambda>_.
     io_return (rc r))))"

definition AcceptBondSession :: "os \<Rightarrow> int list \<Rightarrow> Config \<Rightarrow> string \<Rightarrow> int io" where
  "AcceptBondSession os listeners cfg endpoint_name =
     (if listeners = [] then io_throw (runtime_error (endpoint_name @ '' listener set is empty''))
      else
        io_bind (io_call os (call_srt_accept_bond listeners (io_timeout_ms cfg))) (\<lambda>r.
        io_bind (srt_check os (rc r = SRT_INVALID_SOCK) (endpoint_name @ '' accept failed: '')) (\<lambda>_.
        io_return (rc r))))"

fun family_of :: "sockaddr_storage \<Rightarrow> family" where
  "family_of (AF_INET a p) = inet_family"
| "family_of (AF_INET6 a p) = inet6_family"
| "family_of AF_OTHER = any_family"

text \<open>The result \<open>false\<close> is \<open>None\<close>.\<close>

definition ResolveSourceSockaddrForPeerFamily ::
  "os \<Rightarrow> string \<Rightarrow> family \<Rightarrow> sockaddr_storage option io" where
  "ResolveSourceSockaddrForPeerFamily os source_host peer_family =
     (if source_host = [] then io_return None
      else io_bind (io_call os (call_getaddrinfo source_host ''0'' peer_family True)) (\<lambda>r.
             io_return (if rc r \<noteq> 0 then None else found r)))"

text \<open>The timeouts of a caller, and of a group of callers.\<close>

definition set_timeouts :: "os \<Rightarrow> Config \<Rightarrow> bool \<Rightarrow> int \<Rightarrow> unit io" where
  "set_timeouts os cfg for_output sock =
     io_bind (run_options os sock
                (\<lambda>f. ApplyIntSockOpt f SRTO_CONNTIMEO (io_timeout_ms cfg) ''SRTO_CONNTIMEO'')) (\<lambda>_.
     run_options os sock
       (\<lambda>f. if for_output then ApplyIntSockOpt f SRTO_SNDTIMEO (io_timeout_ms cfg) ''SRTO_SNDTIMEO''
            else ApplyIntSockOpt f SRTO_RCVTIMEO (io_timeout_ms cfg) ''SRTO_RCVTIMEO''))"

definition set_up_caller :: "os \<Rightarrow> SrtUri \<Rightarrow> Config \<Rightarrow> bool \<Rightarrow> int \<Rightarrow> unit io" where
  "set_up_caller os uri cfg for_output sock =
     io_bind (set_timeouts os cfg for_output sock) (\<lambda>_.
     io_bind (run_options os sock (\<lambda>f. ApplyCommonSrtOptions f uri)) (\<lambda>_.
     io_bind (ResolveSockaddr os (host uri) (port uri)) (\<lambda>addr.
     io_bind (io_call os (call_srt_connect sock addr)) (\<lambda>c.
     srt_check os (rc c = -1) ''SRT connect failed: ''))))"

definition ConnectSingleCallerSocket :: "os \<Rightarrow> SrtUri \<Rightarrow> Config \<Rightarrow> bool \<Rightarrow> int io" where
  "ConnectSingleCallerSocket os uri cfg for_output =
     io_bind (io_call os call_srt_create_socket) (\<lambda>r.
     io_bind (srt_check os (rc r = SRT_INVALID_SOCK) ''failed to create caller socket: '') (\<lambda>_.
     io_bind (io_cleanup (set_up_caller os uri cfg for_output (rc r))
                (io_bind (io_call os (call_srt_close (rc r))) (\<lambda>_. io_return ()))) (\<lambda>_.
     io_return (rc r))))"

text \<open>The group's members: the address of each URI with the source adapter it asks for.\<close>

definition source_adapter_keys :: "string list" where
  "source_adapter_keys = [''srcip'', ''sourceip'', ''localip'', ''adapterip'', ''adapter_ip'']"

fun first_nonempty_value :: "(string \<rightharpoonup> string) \<Rightarrow> string list \<Rightarrow> string option" where
  "first_nonempty_value q [] = None"
| "first_nonempty_value q (key # keys) =
     (case q key of
        Some v \<Rightarrow> if v \<noteq> [] then Some v else first_nonempty_value q keys
      | None \<Rightarrow> first_nonempty_value q keys)"

definition prepare_endpoint :: "os \<Rightarrow> SrtUri \<Rightarrow> (sockaddr_storage option \<times> sockaddr_storage) io" where
  "prepare_endpoint os uri =
     io_bind (ResolveSockaddr os (host uri) (port uri)) (\<lambda>addr.
       case first_nonempty_value (query uri) source_adapter_keys of
         None \<Rightarrow> io_return (None, addr)
       | Some source_host \<Rightarrow>
           io_bind (ResolveSourceSockaddrForPeerFamily os source_host (family_of addr)) (\<lambda>src.
             case src of
               None \<Rightarrow> io_throw (runtime_error
                          (''failed to resolve source adapter IP for bonded member: '' @ source_host))
             | Some a \<Rightarrow> io_return (Some a, addr)))"

fun prepare_endpoints :: "os \<Rightarrow> SrtUri list \<Rightarrow> (sockaddr_storage option \<times> sockaddr_storage) list io" where
  "prepare_endpoints os [] = io_return []"
| "prepare_endpoints os (u # us) =
     io_bind (prepare_endpoint os u) (\<lambda>e. io_bind (prepare_endpoints os us) (\<lambda>es. io_return (e # es)))"

text \<open>Some builds of libsrt refuse the transmission type on a group, so it is taken out.\<close>

definition set_up_group :: "os \<Rightarrow> SrtUri list \<Rightarrow> Config \<Rightarrow> bool \<Rightarrow> int \<Rightarrow> unit io" where
  "set_up_group os us cfg for_output sock =
     io_bind (set_timeouts os cfg for_output sock) (\<lambda>_.
     (let group_options_uri = (hd us)\<lparr>query := (query (hd us))(''transtype'' := None)\<rparr>
      in io_bind (run_options os sock (\<lambda>f. ApplyCommonSrtOptions f group_options_uri)) (\<lambda>_.
         io_bind (prepare_endpoints os us) (\<lambda>endpoints.
         io_bind (io_call os (call_srt_connect_group sock endpoints)) (\<lambda>c.
         srt_check os (rc c = -1) ''bonded group connect failed: '')))))"

definition ConnectBondedCallerGroup ::
  "os \<Rightarrow> SrtUri list \<Rightarrow> SRT_GROUP_TYPE \<Rightarrow> Config \<Rightarrow> bool \<Rightarrow> int io" where
  "ConnectBondedCallerGroup os us gt cfg for_output =
     (if us = [] then io_throw (runtime_error ''cannot create bonded caller group with empty URI set'')
      else if gt = SRT_GTYPE_UNDEFINED then
        io_throw (runtime_error ''bonded caller group requires explicit group type'')
      else
        io_bind (io_call os (call_srt_create_group gt)) (\<lambda>r.
        io_bind (srt_check os (rc r = SRT_INVALID_SOCK) ''failed to create SRT group: '') (\<lambda>_.
        io_bind (io_cleanup (set_up_group os us cfg for_output (rc r))
                   (io_bind (io_call os (call_srt_close (rc r))) (\<lambda>_. io_return ()))) (\<lambda>_.
        io_return (rc r)))))"

section \<open>Computations that leave the open sockets alone\<close>

definition keeps :: "'a io \<Rightarrow> bool" where
  "keeps m \<longleftrightarrow> (\<forall>h. open_handles (snd (m h)) = open_handles h)"

named_theorems keeps_intros "computations that open and close nothing"

lemma keepsD: "keeps m \<Longrightarrow> open_handles (snd (m h)) = open_handles h"
  by (simp add: keeps_def)

lemma keeps_basic [keeps_intros]:
  "keeps (io_return x)" "keeps (io_throw e)" "keeps (srt_check os bad message)" "keeps (io_lift r)"
  by (simp_all add: keeps_def io_return_def io_throw_def srt_check_def io_lift_def)

lemma keeps_bind [keeps_intros]:
  assumes "keeps m" and "\<And>x. keeps (f x)"
  shows "keeps (io_bind m f)"
  unfolding keeps_def
proof
  fix h
  show "open_handles (snd (io_bind m f h)) = open_handles h"
    using assms by (cases "m h"; cases "fst (m h)")
      (auto simp: io_bind_def keeps_def split: sum.split dest: spec [of _ h])
qed

lemma keeps_call [keeps_intros]:
  "keeps (io_call os (call_getaddrinfo a b c d))" "keeps (io_call os (call_srt_bind s addr))"
  "keeps (io_call os (call_srt_listen s n))" "keeps (io_call os (call_srt_connect s addr))"
  "keeps (io_call os (call_srt_connect_group s es))" "keeps (io_call os (call_srt_recvmsg2 s n))"
  "keeps (io_call os (call_srt_sendmsg2 s bs))" "keeps (io_call os (call_setsockopt fd opt))"
  "keeps (io_call os (call_bind fd addr))" "keeps (io_call os (call_connect fd addr))"
  "keeps (io_call os (call_recv fd n))" "keeps (io_call os (call_send fd bs))"
  "keeps (io_call os (call_read n))" "keeps (io_call os (call_write bs))"
  by (simp_all add: keeps_def io_call_def Let_def)

lemma open_handles_options:
  "open_handles (rev (map (\<lambda>(opt, v). (call_srt_setsockflag sock opt v, f opt v)) opts) @ h) = open_handles h"
  by (induction opts arbitrary: h) auto

lemma keeps_options [keeps_intros]: "keeps (run_options os sock step)"
  by (simp add: keeps_def run_options_def split_beta open_handles_options)

lemma keeps_case_option [keeps_intros]:
  "keeps a \<Longrightarrow> (\<And>x. keeps (b x)) \<Longrightarrow> keeps (case opt of None \<Rightarrow> a | Some x \<Rightarrow> b x)"
  by (cases opt) simp_all

lemma keeps_if [keeps_intros]: "keeps a \<Longrightarrow> keeps b \<Longrightarrow> keeps (if c then a else b)"
  by simp

lemma keeps_ResolveSockaddr [keeps_intros]: "keeps (ResolveSockaddr os hn p)"
  unfolding ResolveSockaddr_def Let_def
  by (intro keeps_intros) (simp split: option.split bool.split add: keeps_basic)

lemma keeps_ResolveSource [keeps_intros]: "keeps (ResolveSourceSockaddrForPeerFamily os sh f)"
  unfolding ResolveSourceSockaddrForPeerFamily_def by (intro keeps_intros)

lemma keeps_prepare_endpoint [keeps_intros]: "keeps (prepare_endpoint os u)"
  unfolding prepare_endpoint_def by (intro keeps_intros)

lemma keeps_prepare_endpoints [keeps_intros]: "keeps (prepare_endpoints os us)"
  by (induction us) (auto intro!: keeps_intros)

text \<open>
  What every function that makes a socket does: it asks for one, works on it with calls that open
  and close nothing, and closes it again when that work throws.
\<close>

definition make_socket :: "os \<Rightarrow> os_call \<Rightarrow> string \<Rightarrow> (int \<Rightarrow> unit io) \<Rightarrow> int io" where
  "make_socket os request message work =
     io_bind (io_call os request) (\<lambda>r.
     io_bind (srt_check os (rc r = SRT_INVALID_SOCK) message) (\<lambda>_.
     io_bind (io_cleanup (work (rc r)) (io_bind (io_call os (call_srt_close (rc r))) (\<lambda>_. io_return ())))
       (\<lambda>_. io_return (rc r))))"

definition opens :: "os_call \<Rightarrow> bool" where
  "opens c \<longleftrightarrow> (case c of call_srt_create_socket \<Rightarrow> True | call_srt_create_group gt \<Rightarrow> True
                 | call_srt_accept_bond ls t \<Rightarrow> True | _ \<Rightarrow> False)"

lemma open_handles_opens:
  "opens c \<Longrightarrow> open_handles ((c, r) # h) =
     (if rc r = SRT_INVALID_SOCK then open_handles h else srt_sock (rc r) # open_handles h)"
  by (cases c) (simp_all add: opens_def)

definition sound_maker :: "int io \<Rightarrow> bool" where
  "sound_maker m \<longleftrightarrow>
     (\<forall>h. case m h of
            (Inl e, h') \<Rightarrow> open_handles h' = open_handles h
          | (Inr s, h') \<Rightarrow> s \<noteq> SRT_INVALID_SOCK \<and> open_handles h' = srt_sock s # open_handles h)"

lemma make_socket_sound:
  assumes "opens request" and "\<And>s. keeps (work s)"
  shows "sound_maker (make_socket os request message work)"
  unfolding sound_maker_def
proof
  fix h
  let ?r = "answer os h request"
  let ?h1 = "(request, ?r) # h"
  show "case make_socket os request message work h of
      (Inl e, h') \<Rightarrow> open_handles h' = open_handles h
    | (Inr s, h') \<Rightarrow> s \<noteq> SRT_INVALID_SOCK \<and> open_handles h' = srt_sock s # open_handles h"
  proof (cases "rc ?r = SRT_INVALID_SOCK")
    case True
    then show ?thesis
      using open_handles_opens [OF assms(1), of ?r h]
      by (simp add: make_socket_def io_bind_def io_call_def srt_check_def Let_def)
  next
    case False
    obtain res h2 where work: "work (rc ?r) ?h1 = (res, h2)" by (cases "work (rc ?r) ?h1")
    then have "open_handles h2 = srt_sock (rc ?r) # open_handles h"
      using keepsD [OF assms(2), of "rc ?r" ?h1] open_handles_opens [OF assms(1), of ?r h] False by simp
    with work False show ?thesis
      by (cases res) (simp_all add: make_socket_def io_bind_def io_call_def srt_check_def io_cleanup_def
          io_return_def Let_def)
  qed
qed

lemma keeps_set_up [keeps_intros]:
  "keeps (set_up_listener os uri cfg endpoint_name sock)"
  "keeps (set_timeouts os cfg for_output sock)"
  "keeps (set_up_caller os uri cfg for_output sock)"
  "keeps (set_up_group os us cfg for_output sock)"
  unfolding set_up_listener_def set_timeouts_def set_up_caller_def set_up_group_def Let_def
  by (intro keeps_intros)+

lemma sound_maker_throw: "sound_maker (io_throw e)"
  by (simp add: sound_maker_def io_throw_def)

lemma CreateListeningSocket_sound: "sound_maker (CreateListeningSocket os uri cfg endpoint_name)"
  unfolding CreateListeningSocket_def make_socket_def [symmetric]
  by (rule make_socket_sound) (auto simp: opens_def intro: keeps_intros)

lemma ConnectSingleCallerSocket_sound: "sound_maker (ConnectSingleCallerSocket os uri cfg for_output)"
  unfolding ConnectSingleCallerSocket_def make_socket_def [symmetric]
  by (rule make_socket_sound) (auto simp: opens_def intro: keeps_intros)

lemma ConnectBondedCallerGroup_sound: "sound_maker (ConnectBondedCallerGroup os us gt cfg for_output)"
proof (cases "us = [] \<or> gt = SRT_GTYPE_UNDEFINED")
  case True
  then show ?thesis by (auto simp: ConnectBondedCallerGroup_def sound_maker_throw)
next
  case False
  have "sound_maker (make_socket os (call_srt_create_group gt) ''failed to create SRT group: ''
      (set_up_group os us cfg for_output))"
    by (rule make_socket_sound) (auto simp: opens_def intro: keeps_intros)
  with False show ?thesis
    unfolding ConnectBondedCallerGroup_def make_socket_def by simp
qed

lemma AcceptBondSession_sound: "sound_maker (AcceptBondSession os ls cfg endpoint_name)"
  unfolding sound_maker_def AcceptBondSession_def
  by (auto simp: io_bind_def io_call_def srt_check_def io_throw_def io_return_def Let_def)

text \<open>
  C32. No socket leaks while one is made: whether a listener, a caller or a bonded group is set up or
  a session accepted, when it throws, at whatever step, exactly the sockets open before are open
  after it, and when it returns a socket, that valid socket is the only one more.
\<close>

theorem sockets_made_or_closed:
  "sound_maker (CreateListeningSocket os uri cfg endpoint_name) \<and>
   sound_maker (ConnectSingleCallerSocket os uri cfg for_output) \<and>
   sound_maker (ConnectBondedCallerGroup os us gt cfg for_output) \<and>
   sound_maker (AcceptBondSession os listeners cfg endpoint_name)"
  by (intro conjI CreateListeningSocket_sound ConnectSingleCallerSocket_sound
      ConnectBondedCallerGroup_sound AcceptBondSession_sound)

lemma sound_makerD:
  assumes "sound_maker m" and "m h = (r, h')"
  shows "case r of Inl e \<Rightarrow> open_handles h' = open_handles h
    | Inr s \<Rightarrow> s \<noteq> SRT_INVALID_SOCK \<and> open_handles h' = srt_sock s # open_handles h"
  using assms by (auto simp: sound_maker_def dest: spec [of _ h] split: sum.splits)

lemma CloseSocketList_open:
  assumes "SRT_INVALID_SOCK \<notin> set sockets"
  shows "open_handles (CloseSocketList os sockets h)
    = foldl (\<lambda>hs s. remove1 (srt_sock s) hs) (open_handles h) sockets"
  using assms
  by (induction sockets arbitrary: h) (auto simp: srt_close_def io_call_def Let_def)

end
