(* ===== verification/EndpointIo.thy ===== *)
theory EndpointIo
  imports SrtEndpoints
begin

text \<open>
  What the input sources and the output sinks share: the interface types of
  \<open>src/include/srtrelay/relay_io.hpp\<close>, the metrics they write, and the helper functions that
  \<open>src/src/relay_input_sources.cpp\<close> and \<open>src/src/relay_output_sinks.cpp\<close> each declare. Log lines and
  the endpoint names read only for them are left out.
\<close>

section \<open>Interface types\<close>

datatype IoErrorKind = kNone | kTimeout | kDisconnected | kError

datatype InputReceiveStatus = kData | kError

record InputReceiveResult =
  receive_status :: InputReceiveStatus
  received_bytes :: int

datatype OutputSendStatus = kSent | kError

record OutputSendResult =
  send_status :: OutputSendStatus
  sent_bytes :: int

record EnsureAttemptContext =
  attempt_id :: u64
  attempt_incident_id :: string
  source_index :: "nat option"

text \<open>The gauges of \<open>MetricsState\<close> the endpoints write, and its copy of the reconnect counter.\<close>

record RelayMetrics = TrafficMetrics +
  input_listening :: int
  input_connected :: int
  output_connected :: int
  reconnect_count :: u64

section \<open>Statistics of the relay\<close>

record RelayStats =
  stats_total_rx_bytes :: u64
  stats_total_tx_bytes :: u64
  stats_total_rx_msgs :: u64
  stats_total_tx_msgs :: u64
  stats_total_send_failures :: u64
  stats_reconnect_count :: u64
  stats_interval_rx_bytes :: u64
  stats_interval_tx_bytes :: u64
  stats_interval_rx_msgs :: u64
  stats_interval_tx_msgs :: u64
  stats_interval_send_failures :: u64
  last_input_transport_byte_recv_total :: u64
  last_input_transport_byte_retrans_total :: u64
  last_input_transport_byte_loss_total :: u64
  last_input_group_byte_drop_total :: u64
  last_input_transport_packet_belated_total :: u64
  last_output_transport_byte_retrans_total :: u64
  last_output_transport_byte_drop_total :: u64

definition default_RelayStats :: RelayStats where
  "default_RelayStats =
     \<lparr>stats_total_rx_bytes = 0, stats_total_tx_bytes = 0, stats_total_rx_msgs = 0, stats_total_tx_msgs = 0,
      stats_total_send_failures = 0, stats_reconnect_count = 0,
      stats_interval_rx_bytes = 0, stats_interval_tx_bytes = 0, stats_interval_rx_msgs = 0,
      stats_interval_tx_msgs = 0, stats_interval_send_failures = 0,
      last_input_transport_byte_recv_total = 0, last_input_transport_byte_retrans_total = 0,
      last_input_transport_byte_loss_total = 0, last_input_group_byte_drop_total = 0,
      last_input_transport_packet_belated_total = 0, last_output_transport_byte_retrans_total = 0,
      last_output_transport_byte_drop_total = 0\<rparr>"

text \<open>\<open>stats->reconnect_count++\<close> and its copy in the metrics.\<close>

definition count_reconnect :: "RelayStats \<Rightarrow> RelayMetrics \<Rightarrow> RelayStats \<times> RelayMetrics" where
  "count_reconnect stats m =
     (let n = stats_reconnect_count stats + 1
      in (stats\<lparr>stats_reconnect_count := n\<rparr>, m\<lparr>reconnect_count := n\<rparr>))"

text \<open>
  The four error fields every source and sink has: of its last receive or send and of its last
  attempt to get ready.
\<close>

record io_errors =
  transfer_error_kind :: IoErrorKind
  transfer_error_message :: string
  ensure_error_kind :: IoErrorKind
  ensure_error_message :: string

definition clear_ensure_error :: "'s io_errors_scheme \<Rightarrow> 's io_errors_scheme" where
  "clear_ensure_error s = s\<lparr>ensure_error_kind := IoErrorKind.kNone, ensure_error_message := []\<rparr>"

definition set_transfer_error :: "IoErrorKind \<Rightarrow> string \<Rightarrow> 's io_errors_scheme \<Rightarrow> 's io_errors_scheme" where
  "set_transfer_error k msg s = s\<lparr>transfer_error_kind := k, transfer_error_message := msg\<rparr>"

definition clear_transfer_error :: "'s io_errors_scheme \<Rightarrow> 's io_errors_scheme" where
  "clear_transfer_error s = set_transfer_error IoErrorKind.kNone [] s"

definition no_io_errors :: io_errors where
  "no_io_errors =
     \<lparr>transfer_error_kind = IoErrorKind.kNone, transfer_error_message = [],
      ensure_error_kind = IoErrorKind.kNone, ensure_error_message = []\<rparr>"

text \<open>The object a method left, back in its class.\<close>

definition in_class :: "('s \<Rightarrow> 'o) \<Rightarrow> 'r \<times> 's \<times> 'w \<Rightarrow> 'r \<times> 'o \<times> 'w" where
  "in_class c x = (case x of (r, s, w) \<Rightarrow> (r, c s, w))"

lemma in_class_eq: "in_class c x = (r, src, w) \<longleftrightarrow> (\<exists>s. x = (r, s, w) \<and> src = c s)"
  by (cases x) (auto simp: in_class_def)

lemma map_class_eq: "map_prod c id x = (src, w) \<longleftrightarrow> (\<exists>s. x = (s, w) \<and> src = c s)"
  by (cases x) auto

section \<open>Errors\<close>

text \<open>\<open>std::exception::what\<close>; libstdc++ names the function that threw.\<close>

fun what :: "exn \<Rightarrow> string" where
  "what (runtime_error msg) = msg"
| "what invalid_argument = ''stoi''"
| "what out_of_range = ''stoi''"

definition HasMeaningfulSrtError :: "string \<Rightarrow> bool" where
  "HasMeaningfulSrtError val \<longleftrightarrow> val \<noteq> [] \<and> val \<noteq> ''Success''"

definition ComposeSrtEnsureErrorMessage :: "os \<Rightarrow> history \<Rightarrow> string \<Rightarrow> string" where
  "ComposeSrtEnsureErrorMessage os h cause =
     (let srt_error = SrtLastErrorString os h
      in if \<not> HasMeaningfulSrtError srt_error then (if cause = [] then ''unknown error'' else cause)
         else if cause = [] then srt_error
         else if contains_sub cause srt_error then cause
         else cause @ '' (srt: '' @ srt_error @ '')'')"

text \<open>What the \<open>catch\<close> blocks of the SRT endpoints note.\<close>

definition note_srt_ensure_error ::
  "os \<Rightarrow> exn \<Rightarrow> history \<Rightarrow> 's io_errors_scheme \<Rightarrow> 's io_errors_scheme" where
  "note_srt_ensure_error os e h s =
     s\<lparr>ensure_error_kind := (if IsSrtTimeoutError os h then IoErrorKind.kTimeout else IoErrorKind.kError),
       ensure_error_message := ComposeSrtEnsureErrorMessage os h (what e)\<rparr>"

text \<open>Those of the UDP endpoints, from \<open>errno\<close>.\<close>

definition errno_kind :: "os \<Rightarrow> history \<Rightarrow> IoErrorKind" where
  "errno_kind os h = (if IsUdpTimeoutErrno os h then IoErrorKind.kTimeout else IoErrorKind.kError)"

definition note_errno_ensure_error :: "os \<Rightarrow> history \<Rightarrow> 's io_errors_scheme \<Rightarrow> 's io_errors_scheme" where
  "note_errno_ensure_error os h s =
     s\<lparr>ensure_error_kind := errno_kind os h, ensure_error_message := strerror os h\<rparr>"

section \<open>Lists of listening sockets\<close>

text \<open>The loop that opens a listener per URI: the list it reached stays when one throws.\<close>

fun open_listeners ::
  "os \<Rightarrow> Config \<Rightarrow> string \<Rightarrow> SrtUri list \<Rightarrow> int list \<Rightarrow> history \<Rightarrow> unit result \<times> int list \<times> history" where
  "open_listeners os cfg endpoint_name [] listeners h = (Inr (), listeners, h)"
| "open_listeners os cfg endpoint_name (uri # us) listeners h =
     (case CreateListeningSocket os uri cfg endpoint_name h of
        (Inl e, h') \<Rightarrow> (Inl e, listeners, h')
      | (Inr sock, h') \<Rightarrow> open_listeners os cfg endpoint_name us (listeners @ [sock]) h')"

section \<open>UDP sockets\<close>

definition kDefaultUdpTtl :: int where "kDefaultUdpTtl = 64"

text \<open>\<open>if (bad) throw std::runtime_error(message + std::strerror(errno))\<close>\<close>

definition errno_check :: "os \<Rightarrow> bool \<Rightarrow> string \<Rightarrow> unit io" where
  "errno_check os bad message h =
     (if bad then (Inl (runtime_error (message @ strerror os h)), h) else (Inr (), h))"

definition ApplyUdpOptionInt :: "os \<Rightarrow> int \<Rightarrow> udp_option \<Rightarrow> string \<Rightarrow> unit io" where
  "ApplyUdpOptionInt os fd opt opt_name =
     io_bind (io_call os (call_setsockopt fd opt)) (\<lambda>r.
     errno_check os (rc r \<noteq> 0) (''failed to set UDP option '' @ opt_name @ '': ''))"

text \<open>An option that a key of the query sets when it has a value.\<close>

definition udp_query_option ::
  "os \<Rightarrow> int \<Rightarrow> UdpUri \<Rightarrow> string \<Rightarrow> (int \<Rightarrow> udp_option) \<Rightarrow> string \<Rightarrow> unit io \<Rightarrow> unit io" where
  "udp_query_option os fd uri key opt opt_name absent =
     (let v = QueryString (query uri) key
      in if v \<noteq> [] then
           io_bind (io_lift (ParseIntOptionValue v key)) (\<lambda>n. ApplyUdpOptionInt os fd (opt n) opt_name)
         else absent)"

definition udp_ttl_option :: "os \<Rightarrow> int \<Rightarrow> UdpUri \<Rightarrow> unit io" where
  "udp_ttl_option os fd uri =
     udp_query_option os fd uri ''ttl'' IP_TTL ''IP_TTL''
       (ApplyUdpOptionInt os fd (IP_TTL kDefaultUdpTtl) ''IP_TTL'')"

text \<open>The timeout in seconds and microseconds; \<open>io_timeout_ms\<close> is never negative.\<close>

definition SetUdpTimeout :: "os \<Rightarrow> int \<Rightarrow> (int \<Rightarrow> int \<Rightarrow> udp_option) \<Rightarrow> string \<Rightarrow> int \<Rightarrow> unit io" where
  "SetUdpTimeout os fd opt dir timeout_ms =
     io_bind (io_call os (call_setsockopt fd (opt (timeout_ms div 1000) (timeout_ms mod 1000 * 1000))))
       (\<lambda>r. errno_check os (rc r \<noteq> 0) (''failed to set UDP '' @ dir @ '' timeout: ''))"

definition MaybeBindUdpLocalAddress :: "os \<Rightarrow> int \<Rightarrow> UdpUri \<Rightarrow> unit io" where
  "MaybeBindUdpLocalAddress os fd uri =
     (let local_ip = QueryString (query uri) ''localip'';
          local_port_value = QueryString (query uri) ''localport''
      in if local_ip = [] \<and> local_port_value = [] then io_return ()
         else
           io_bind (if local_port_value = [] then io_return 0
                    else io_lift (ParseIntOptionValue local_port_value ''localport'')) (\<lambda>local_port.
           io_bind (ResolveSockaddr os (if local_ip = [] then ''0.0.0.0'' else local_ip) local_port) (\<lambda>local_addr.
           io_bind (io_call os (call_bind fd local_addr)) (\<lambda>b.
           errno_check os (rc b \<noteq> 0) ''UDP local bind failed: ''))))"

definition close_fd :: "os \<Rightarrow> int \<Rightarrow> history \<Rightarrow> history" where
  "close_fd os fd h = snd (io_call os (call_close fd) h)"

text \<open>\<open>CloseSocket\<close> of the UDP endpoints: the new descriptor and the history.\<close>

definition CloseSocket :: "os \<Rightarrow> int \<Rightarrow> history \<Rightarrow> int \<times> history" where
  "CloseSocket os fd h = (if 0 \<le> fd then (-1, close_fd os fd h) else (fd, h))"

section \<open>Who holds what is open\<close>

lemma keeps_errno_check [keeps_intros]: "keeps (errno_check os bad message)"
  by (simp add: keeps_def errno_check_def)

lemma keeps_udp [keeps_intros]:
  "keeps (ApplyUdpOptionInt os fd opt opt_name)"
  "keeps absent \<Longrightarrow> keeps (udp_query_option os fd uri key f opt_name absent)"
  "keeps (udp_ttl_option os fd uri)"
  "keeps (SetUdpTimeout os fd (\<lambda>s us. SO_RCVTIMEO s us) dir timeout_ms)"
  "keeps (SetUdpTimeout os fd (\<lambda>s us. SO_SNDTIMEO s us) dir timeout_ms)"
  "keeps (MaybeBindUdpLocalAddress os fd uri)"
  unfolding ApplyUdpOptionInt_def udp_query_option_def udp_ttl_option_def SetUdpTimeout_def
    MaybeBindUdpLocalAddress_def Let_def
  by (intro keeps_intros | assumption)+

text \<open>
  \<open>owned R held h\<close>: what is open is what the rest of the program holds and \<open>held\<close>, each as often
  as it is held.
\<close>

definition owned :: "handle multiset \<Rightarrow> handle multiset \<Rightarrow> history \<Rightarrow> bool" where
  "owned R held h \<longleftrightarrow> mset (open_handles h) = R + held"

definition held_socket :: "int \<Rightarrow> handle multiset" where
  "held_socket sock = (if sock \<noteq> SRT_INVALID_SOCK then {#srt_sock sock#} else {#})"

definition held_fd :: "int \<Rightarrow> handle multiset" where
  "held_fd fd = (if 0 \<le> fd then {#udp_fd fd#} else {#})"

definition held_sockets :: "int list \<Rightarrow> handle multiset" where
  "held_sockets socks = mset (map srt_sock socks)"

lemma owned_keeps: "keeps m \<Longrightarrow> owned R held (snd (m h)) = owned R held h"
  by (simp add: owned_def keepsD)

lemma owned_shift: "owned R (A + B) h = owned (R + A) B h"
  by (simp add: owned_def ac_simps)

lemma held_sockets_simps [simp]:
  "held_sockets [] = {#}" "held_sockets (s # ss) = add_mset (srt_sock s) (held_sockets ss)"
  "held_sockets (xs @ ys) = held_sockets xs + held_sockets ys"
  by (simp_all add: held_sockets_def)

lemma sound_maker_owned:
  assumes "sound_maker m" and "m h = (r, h')" and "owned R {#} h"
  shows "case r of Inl e \<Rightarrow> owned R {#} h'
    | Inr s \<Rightarrow> s \<noteq> SRT_INVALID_SOCK \<and> owned R {#srt_sock s#} h'"
  using sound_makerD [OF assms(1,2)] assms(3) by (cases r) (simp_all add: owned_def)

lemma srt_close_owned: "owned R {#srt_sock s#} h \<Longrightarrow> owned R {#} (srt_close os s h)"
  by (simp add: owned_def srt_close_def io_call_def Let_def)

lemma Reset_owned:
  assumes "owned R (held_socket s) h"
  shows "owned R {#} (snd (SrtSocketHolder_Reset os s h))" and "fst (SrtSocketHolder_Reset os s h) = SRT_INVALID_SOCK"
  using assms by (auto simp: SrtSocketHolder_Reset_def held_socket_def intro: srt_close_owned)

lemma CloseSocket_owned:
  assumes "owned R (held_fd fd) h"
  shows "owned R {#} (snd (CloseSocket os fd h))" and "fst (CloseSocket os fd h) < 0"
  using assms by (auto simp: CloseSocket_def held_fd_def owned_def close_fd_def io_call_def Let_def)

lemma CloseSocketList_owned:
  assumes "owned R (held_sockets socks) h" and "SRT_INVALID_SOCK \<notin> set socks"
  shows "owned R {#} (CloseSocketList os socks h)"
  using assms
proof (induction socks arbitrary: h)
  case Nil
  then show ?case by simp
next
  case (Cons s socks)
  then have "owned R (held_sockets socks + {#srt_sock s#}) h" by simp
  then have "owned (R + held_sockets socks) {#srt_sock s#} h" by (simp only: owned_shift)
  then have "owned (R + held_sockets socks) {#} (srt_close os s h)" by (rule srt_close_owned)
  then have "owned R (held_sockets socks) (srt_close os s h)" by (simp add: owned_def)
  with Cons show ?case by simp
qed

lemma open_listeners_owned:
  assumes "open_listeners os cfg endpoint_name us ls h = (r, ls', h')"
    and "owned R (held_sockets ls) h" and "SRT_INVALID_SOCK \<notin> set ls"
  shows "owned R (held_sockets ls') h' \<and> SRT_INVALID_SOCK \<notin> set ls' \<and>
    (r = Inr () \<longrightarrow> length ls' = length ls + length us)"
  using assms
proof (induction us arbitrary: ls h)
  case Nil
  then show ?case by auto
next
  case (Cons u us)
  obtain r1 h1 where made: "CreateListeningSocket os u cfg endpoint_name h = (r1, h1)"
    by (cases "CreateListeningSocket os u cfg endpoint_name h")
  have "owned (R + held_sockets ls) {#} h"
    using Cons.prems(2) by (simp add: owned_def)
  from sound_maker_owned [OF CreateListeningSocket_sound made this]
  have step: "case r1 of Inl e \<Rightarrow> owned R (held_sockets ls) h1
    | Inr s \<Rightarrow> s \<noteq> SRT_INVALID_SOCK \<and> owned R (held_sockets (ls @ [s])) h1"
    by (cases r1) (simp_all add: owned_def)
  show ?case
  proof (cases r1)
    case (Inl e)
    with Cons.prems made step show ?thesis by auto
  next
    case (Inr s)
    with Cons.prems made have "open_listeners os cfg endpoint_name us (ls @ [s]) h1 = (r, ls', h')" by simp
    from Cons.IH [OF this] Inr step Cons.prems(3) show ?thesis by auto
  qed
qed

text \<open>One of several holders changes: the others hold what they held.\<close>

lemma sum_list_slot:
  fixes f :: "'a \<Rightarrow> 'b multiset"
  assumes "i < length xs"
  obtains rest where "\<And>x. sum_list (map f (xs[i := x])) = rest + f x"
proof
  fix x
  show "sum_list (map f (xs[i := x])) =
      (sum_list (map f (take i xs)) + sum_list (map f (drop (Suc i) xs))) + f x"
    by (simp add: upd_conv_take_nth_drop [OF assms] union_ac)
qed

lemma owned_update:
  assumes "i < length xs" and "owned R (sum_list (map f xs)) h"
    and "\<And>R. owned R (f (xs ! i)) h \<Longrightarrow> owned R (f x) h'"
  shows "owned R (sum_list (map f (xs[i := x]))) h'"
proof -
  obtain rest where rest: "\<And>x. sum_list (map f (xs[i := x])) = rest + f x"
    using sum_list_slot [OF assms(1), of f] by metis
  from assms(2) rest [of "xs ! i"] have "owned (R + rest) (f (xs ! i)) h" by (simp add: owned_shift)
  from assms(3) [OF this] show ?thesis by (simp add: rest owned_shift)
qed

lemma held_update_same:
  fixes f :: "'a \<Rightarrow> 'b multiset"
  assumes "i < length xs" and "f x = f (xs ! i)"
  shows "sum_list (map f (xs[i := x])) = sum_list (map f xs)"
proof -
  obtain rest where rest: "\<And>x. sum_list (map f (xs[i := x])) = rest + f x"
    using sum_list_slot [OF assms(1), of f] by metis
  from rest [of "xs ! i"] rest [of x] assms(2) show ?thesis by simp
qed

section \<open>An example of the libraries\<close>

text \<open>Calls succeed but those in \<open>bad\<close>; reading yields three bytes, writing takes all it is given.\<close>

definition reply :: "int \<Rightarrow> byte list \<Rightarrow> os_reply" where
  "reply n bytes =
     \<lparr>rc = n, payload = bytes, found = Some (AF_INET [127, 0, 0, 1] 5000),
      message_ctrl = \<lparr>grpdata = None, grpdata_size = 0\<rparr>\<rparr>"

definition good_reply :: "history \<Rightarrow> os_call \<Rightarrow> os_reply" where
  "good_reply h c =
     (case c of
        call_srt_create_socket \<Rightarrow> reply (100 + int (length h)) []
      | call_srt_create_group gt \<Rightarrow> reply (200 + int (length h)) []
      | call_srt_accept_bond ls t \<Rightarrow> reply (300 + int (length h)) []
      | call_socket f \<Rightarrow> reply (3 + int (length h)) []
      | call_srt_recvmsg2 s n \<Rightarrow> reply 3 [1, 2, 3]
      | call_recv fd n \<Rightarrow> reply 3 [1, 2, 3]
      | call_read n \<Rightarrow> reply 3 [1, 2, 3]
      | call_srt_sendmsg2 s bs \<Rightarrow> reply (int (length bs)) []
      | call_send fd bs \<Rightarrow> reply (int (length bs)) []
      | call_write bs \<Rightarrow> reply (int (length bs)) []
      | _ \<Rightarrow> reply 0 [])"

definition example_os :: "(os_call \<Rightarrow> bool) \<Rightarrow> os" where
  "example_os bad =
     \<lparr>answer = (\<lambda>h c. if bad c then reply (-1) [] else good_reply h c),
      SrtLastErrorString = (\<lambda>_. ''Connection was broken''), IsSrtTimeoutError = (\<lambda>_. False),
      srt_no_client_yet = (\<lambda>_. False), strerror = (\<lambda>_. ''Connection refused''),
      IsUdpTimeoutErrno = (\<lambda>_. False), net = (\<lambda>_. counting_env None)\<rparr>"

definition example_relay_metrics :: RelayMetrics where
  "example_relay_metrics =
     TrafficMetrics.extend (traffic_of example_metrics) (RelayMetrics.fields 0 0 0 0)"

definition example_attempt :: EnsureAttemptContext where
  "example_attempt = \<lparr>attempt_id = 1, attempt_incident_id = [], source_index = None\<rparr>"

end
