(* ===== verification/InputSources.thy ===== *)
theory InputSources
  imports EndpointIo
begin

text \<open>
  The input side (\<open>src/src/relay_input_sources.cpp\<close>): the four kinds of input source behind the
  interface \<open>InputSource\<close>, and \<open>InputSwitcher\<close>, which runs several of them and decides which one is
  active. A method takes and returns the object, \<open>MetricsState\<close> and the history of library calls;
  one that throws returns the state it reached beside the exception. The interface is the record of
  its virtual methods, and the contract its users rely on is the locale \<open>input_source\<close>.
\<close>

section \<open>The interface\<close>

type_synonym 's input_world = "'s \<times> RelayMetrics \<times> history"
type_synonym 's receive_world = "'s \<times> byte list \<times> SRT_MSGCTRL \<times> history"

record 's InputSource_methods =
  EnsureReady :: "Config \<Rightarrow> EnsureAttemptContext \<Rightarrow> 's input_world \<Rightarrow> unit result \<times> 's input_world"
  Receive :: "Config \<Rightarrow> 's receive_world \<Rightarrow> InputReceiveResult \<times> 's receive_world"
  HandleReceiveError :: "'s input_world \<Rightarrow> 's input_world"
  SessionSocket :: "'s \<Rightarrow> int"
  IsListening :: "'s \<Rightarrow> bool"
  IsConnected :: "'s \<Rightarrow> bool"
  IsTerminalEof :: "'s \<Rightarrow> bool"
  NeedsEnsurePoll :: "'s \<Rightarrow> bool"
  LastReceiveErrorKind :: "'s \<Rightarrow> IoErrorKind"
  LastReceiveErrorMessage :: "'s \<Rightarrow> string"
  LastEnsureErrorKind :: "'s \<Rightarrow> IoErrorKind"
  LastEnsureErrorMessage :: "'s \<Rightarrow> string"
  ActiveInputIndex :: "'s \<Rightarrow> nat"
  InputSwitchCount :: "'s \<Rightarrow> u64"

definition received :: "int \<Rightarrow> InputReceiveResult" where
  "received n = \<lparr>receive_status = InputReceiveStatus.kData, received_bytes = n\<rparr>"

definition receive_failed :: InputReceiveResult where
  "receive_failed = \<lparr>receive_status = InputReceiveStatus.kError, received_bytes = 0\<rparr>"

text \<open>A call that fills the front of the caller's buffer.\<close>

definition fill_buffer :: "byte list \<Rightarrow> byte list \<Rightarrow> byte list" where
  "fill_buffer new_bytes buffer = new_bytes @ drop (length new_bytes) buffer"

text \<open>What every \<open>HandleReceiveError\<close> does to the metrics.\<close>

definition input_down :: "RelayMetrics \<Rightarrow> RelayMetrics" where
  "input_down m = ResetInputTrackingMetrics (m\<lparr>input_connected := 0, input_listening := 0\<rparr>)"

text \<open>\<open>Receive\<close> of both SRT sources, on their session.\<close>

definition srt_receive ::
  "os \<Rightarrow> int \<Rightarrow> Config \<Rightarrow> 'z io_errors_scheme receive_world \<Rightarrow>
   InputReceiveResult \<times> 'z io_errors_scheme receive_world" where
  "srt_receive os sock cfg w =
     (case w of (s, buffer, rx_ctrl, h) \<Rightarrow>
       (case ask os (call_srt_recvmsg2 sock (max_message_size cfg)) h of
          (r, h') \<Rightarrow>
            if rc r = -1 then
              (receive_failed,
               (if IsSrtTimeoutError os h' then set_transfer_error IoErrorKind.kTimeout ''SRT receive timeout'' s
                else set_transfer_error IoErrorKind.kDisconnected (SrtLastErrorString os h') s),
               buffer, message_ctrl r, h')
            else (received (rc r), clear_transfer_error s, fill_buffer (payload r) buffer, message_ctrl r, h')))"

section \<open>The SRT listener\<close>

record SrtInputListenerSource = io_errors +
  listener_uris :: "SrtUri list"
  listeners :: "int list"
  session :: int

definition listener_open ::
  "os \<Rightarrow> Config \<Rightarrow> SrtInputListenerSource input_world \<Rightarrow> unit result \<times> SrtInputListenerSource input_world" where
  "listener_open os cfg w =
     (case w of (s, m, h) \<Rightarrow>
        if listeners s = [] then
          (case open_listeners os cfg ''input'' (listener_uris s) [] h of
             (Inl e, ls, h') \<Rightarrow> (Inl e, s\<lparr>listeners := ls\<rparr>, m, h')
           | (Inr _, ls, h') \<Rightarrow> (Inr (), s\<lparr>listeners := ls\<rparr>, m\<lparr>input_listening := 1\<rparr>, h'))
        else (Inr (), s, m, h))"

definition listener_accept ::
  "os \<Rightarrow> Config \<Rightarrow> SrtInputListenerSource input_world \<Rightarrow> unit result \<times> SrtInputListenerSource input_world" where
  "listener_accept os cfg w =
     (case w of (s, m, h) \<Rightarrow>
        if session s \<noteq> SRT_INVALID_SOCK then (Inr (), s, m, h)
        else
          (case AcceptBondSession os (listeners s) cfg ''input'' h of
             (Inl e, h1) \<Rightarrow> (Inl e, s, m, h1)
           | (Inr accepted, h1) \<Rightarrow>
               (case run_options os accepted
                       (\<lambda>f. ApplyIntSockOpt f SRTO_RCVTIMEO (io_timeout_ms cfg) ''SRTO_RCVTIMEO'') h1 of
                  (Inl e, h2) \<Rightarrow> (Inl e, s, m, h2)
                | (Inr _, h2) \<Rightarrow>
                    (case SrtSocketHolder_Set os (session s) accepted h2 of (sock, h3) \<Rightarrow>
                       (Inr (), s\<lparr>session := sock\<rparr>, m\<lparr>input_connected := 1\<rparr>, h3)))))"

definition listener_EnsureReady ::
  "os \<Rightarrow> Config \<Rightarrow> EnsureAttemptContext \<Rightarrow> SrtInputListenerSource input_world \<Rightarrow>
   unit result \<times> SrtInputListenerSource input_world" where
  "listener_EnsureReady os cfg attempt_ctx w =
     (case w of (s, m, h) \<Rightarrow>
        (case (case listener_open os cfg (clear_ensure_error s, m, h) of
                 (Inl e, w1) \<Rightarrow> (Inl e, w1)
               | (Inr _, w1) \<Rightarrow> listener_accept os cfg w1) of
           (Inl e, s2, m2, h2) \<Rightarrow> (Inl e, note_srt_ensure_error os e h2 s2, m2, h2)
         | (Inr _, w2) \<Rightarrow> (Inr (), w2)))"

definition listener_HandleReceiveError ::
  "os \<Rightarrow> SrtInputListenerSource input_world \<Rightarrow> SrtInputListenerSource input_world" where
  "listener_HandleReceiveError os w =
     (case w of (s, m, h) \<Rightarrow>
        (case SrtSocketHolder_Reset os (session s) h of (sock, h1) \<Rightarrow>
           (s\<lparr>session := sock, listeners := []\<rparr>, input_down m, CloseSocketList os (listeners s) h1)))"

section \<open>The SRT caller\<close>

record SrtInputCallerSource = io_errors +
  caller_uris :: "SrtUri list"
  caller_bonded :: bool
  caller_group_type :: SRT_GROUP_TYPE
  caller_session :: int

definition caller_EnsureReady ::
  "os \<Rightarrow> Config \<Rightarrow> EnsureAttemptContext \<Rightarrow> SrtInputCallerSource input_world \<Rightarrow>
   unit result \<times> SrtInputCallerSource input_world" where
  "caller_EnsureReady os cfg attempt_ctx w =
     (case w of (s0, m, h) \<Rightarrow>
        (let s = clear_ensure_error s0
         in if caller_session s \<noteq> SRT_INVALID_SOCK then (Inr (), s, m, h)
            else
              (case (if caller_bonded s
                     then ConnectBondedCallerGroup os (caller_uris s) (caller_group_type s) cfg False h
                     else ConnectSingleCallerSocket os (hd (caller_uris s)) cfg False h) of
                 (Inl e, h1) \<Rightarrow> (Inl e, note_srt_ensure_error os e h1 s, m, h1)
               | (Inr sock, h1) \<Rightarrow>
                   (case SrtSocketHolder_Set os (caller_session s) sock h1 of (held, h2) \<Rightarrow>
                      (Inr (), s\<lparr>caller_session := held\<rparr>,
                       m\<lparr>input_listening := 0, input_connected := 1\<rparr>, h2)))))"

definition caller_HandleReceiveError ::
  "os \<Rightarrow> SrtInputCallerSource input_world \<Rightarrow> SrtInputCallerSource input_world" where
  "caller_HandleReceiveError os w =
     (case w of (s, m, h) \<Rightarrow>
        (case SrtSocketHolder_Reset os (caller_session s) h of (sock, h1) \<Rightarrow>
           (s\<lparr>caller_session := sock\<rparr>, input_down m, h1)))"

section \<open>The UDP source\<close>

record UdpInputSource = io_errors +
  source_uri :: UdpUri
  udp_listener :: bool
  socket_fd :: int

definition ApplyUdpInputOptions :: "os \<Rightarrow> int \<Rightarrow> UdpUri \<Rightarrow> unit io" where
  "ApplyUdpInputOptions os fd uri =
     io_bind (udp_query_option os fd uri ''reuseaddr'' SO_REUSEADDR ''SO_REUSEADDR'' (io_return ())) (\<lambda>_.
     io_bind (udp_query_option os fd uri ''rcvbuf'' SO_RCVBUF ''SO_RCVBUF'' (io_return ())) (\<lambda>_.
     io_bind (udp_query_option os fd uri ''sndbuf'' SO_SNDBUF ''SO_SNDBUF'' (io_return ())) (\<lambda>_.
     udp_ttl_option os fd uri)))"

definition set_up_udp_input :: "os \<Rightarrow> Config \<Rightarrow> UdpUri \<Rightarrow> bool \<Rightarrow> sockaddr_storage \<Rightarrow> int \<Rightarrow> unit io" where
  "set_up_udp_input os cfg uri is_listener peer_addr fd =
     io_bind (ApplyUdpInputOptions os fd uri) (\<lambda>_.
     io_bind (SetUdpTimeout os fd (\<lambda>s us. SO_RCVTIMEO s us) ''receive'' (io_timeout_ms cfg)) (\<lambda>_.
     io_bind (MaybeBindUdpLocalAddress os fd uri) (\<lambda>_.
       if is_listener then
         io_bind (io_call os (call_bind fd peer_addr)) (\<lambda>b. errno_check os (rc b \<noteq> 0) ''UDP bind failed: '')
       else
         io_bind (io_call os (call_connect fd peer_addr))
           (\<lambda>c. errno_check os (rc c \<noteq> 0) ''UDP connect failed: ''))))"

text \<open>\<open>errno\<close> is read after the descriptor is closed.\<close>

definition udp_EnsureReady ::
  "os \<Rightarrow> Config \<Rightarrow> EnsureAttemptContext \<Rightarrow> UdpInputSource input_world \<Rightarrow>
   unit result \<times> UdpInputSource input_world" where
  "udp_EnsureReady os cfg attempt_ctx w =
     (case w of (s0, m, h) \<Rightarrow>
        (let s = clear_ensure_error s0
         in if 0 \<le> socket_fd s then (Inr (), s, m, h)
            else
              (case ResolveSockaddr os (host (source_uri s)) (port (source_uri s)) h of
                 (Inl e, h1) \<Rightarrow> (Inl e, s, m, h1)
               | (Inr peer_addr, h1) \<Rightarrow>
                   (case ask os (call_socket (family_of peer_addr)) h1 of
                      (r, h2) \<Rightarrow>
                        if rc r < 0 then
                          (Inl (runtime_error (''failed to create UDP socket: '' @ strerror os h2)),
                           s\<lparr>ensure_error_kind := IoErrorKind.kError, ensure_error_message := strerror os h2\<rparr>, m, h2)
                        else
                          (case set_up_udp_input os cfg (source_uri s) (udp_listener s) peer_addr (rc r) h2 of
                             (Inl e, h3) \<Rightarrow>
                               (let h4 = close_fd os (rc r) h3
                                in (Inl e, note_errno_ensure_error os h4 s, m, h4))
                           | (Inr _, h3) \<Rightarrow>
                               (Inr (), s\<lparr>socket_fd := rc r\<rparr>,
                                m\<lparr>input_connected := 1, input_listening := (if udp_listener s then 1 else 0)\<rparr>, h3))))))"

definition udp_Receive ::
  "os \<Rightarrow> Config \<Rightarrow> UdpInputSource receive_world \<Rightarrow> InputReceiveResult \<times> UdpInputSource receive_world" where
  "udp_Receive os cfg w =
     (case w of (s, buffer, rx_ctrl, h) \<Rightarrow>
       (case ask os (call_recv (socket_fd s) (int (length buffer))) h of
          (r, h') \<Rightarrow>
            if rc r < 0 then
              (receive_failed, set_transfer_error (errno_kind os h') (strerror os h') s, buffer, rx_ctrl, h')
            else (received (rc r), clear_transfer_error s, fill_buffer (payload r) buffer, rx_ctrl, h')))"

definition udp_HandleReceiveError :: "os \<Rightarrow> UdpInputSource input_world \<Rightarrow> UdpInputSource input_world" where
  "udp_HandleReceiveError os w =
     (case w of (s, m, h) \<Rightarrow>
        (case CloseSocket os (socket_fd s) h of (fd, h1) \<Rightarrow> (s\<lparr>socket_fd := fd\<rparr>, input_down m, h1)))"

section \<open>Standard input\<close>

record StdinInputSource = io_errors +
  eof :: bool

definition stdin_EnsureReady ::
  "Config \<Rightarrow> EnsureAttemptContext \<Rightarrow> StdinInputSource input_world \<Rightarrow> unit result \<times> StdinInputSource input_world" where
  "stdin_EnsureReady cfg attempt_ctx w =
     (case w of (s0, m, h) \<Rightarrow>
        (let s = clear_ensure_error s0
         in if eof s then
              (Inl (runtime_error ''stdin reached EOF''),
               s\<lparr>ensure_error_kind := IoErrorKind.kDisconnected, ensure_error_message := ''stdin reached EOF''\<rparr>, m, h)
            else (Inr (), s, m\<lparr>input_listening := 0, input_connected := 1\<rparr>, h)))"

definition stdin_Receive ::
  "os \<Rightarrow> Config \<Rightarrow> StdinInputSource receive_world \<Rightarrow> InputReceiveResult \<times> StdinInputSource receive_world" where
  "stdin_Receive os cfg w =
     (case w of (s, buffer, rx_ctrl, h) \<Rightarrow>
       (case ask os (call_read (max_message_size cfg)) h of
          (r, h') \<Rightarrow>
            if 0 < rc r then
              (received (rc r), clear_transfer_error s, fill_buffer (payload r) buffer, rx_ctrl, h')
            else if rc r = 0 then
              (receive_failed, set_transfer_error IoErrorKind.kDisconnected ''stdin EOF'' (s\<lparr>eof := True\<rparr>),
               buffer, rx_ctrl, h')
            else
              (receive_failed, set_transfer_error (errno_kind os h') (strerror os h') s, buffer, rx_ctrl, h')))"

definition stdin_HandleReceiveError :: "StdinInputSource input_world \<Rightarrow> StdinInputSource input_world" where
  "stdin_HandleReceiveError w = (case w of (s, m, h) \<Rightarrow> (s, input_down m, h))"

section \<open>Objects of the interface\<close>

datatype InputSource =
    listener_source SrtInputListenerSource
  | caller_source SrtInputCallerSource
  | udp_source UdpInputSource
  | stdin_source StdinInputSource

definition BuildInputSource :: "InputEndpointSpec \<Rightarrow> InputSource" where
  "BuildInputSource spec =
     (case kind spec of
        InputEndpointKind.kStdin \<Rightarrow> stdin_source (io_errors.extend no_io_errors (StdinInputSource.fields False))
      | InputEndpointKind.kUdpListener \<Rightarrow>
          udp_source (io_errors.extend no_io_errors (UdpInputSource.fields (udp_uri spec) True (-1)))
      | InputEndpointKind.kUdpCaller \<Rightarrow>
          udp_source (io_errors.extend no_io_errors (UdpInputSource.fields (udp_uri spec) False (-1)))
      | InputEndpointKind.kSrtCaller \<Rightarrow>
          caller_source (io_errors.extend no_io_errors
            (SrtInputCallerSource.fields (uris spec) (bonded spec) (group_type spec) SRT_INVALID_SOCK))
      | InputEndpointKind.kSrtListener \<Rightarrow>
          listener_source (io_errors.extend no_io_errors
            (SrtInputListenerSource.fields (uris spec) [] SRT_INVALID_SOCK)))"

definition source_EnsureReady ::
  "os \<Rightarrow> Config \<Rightarrow> EnsureAttemptContext \<Rightarrow> InputSource input_world \<Rightarrow> unit result \<times> InputSource input_world" where
  "source_EnsureReady os cfg attempt_ctx w =
     (case w of (src, m, h) \<Rightarrow>
        (case src of
           listener_source s \<Rightarrow> in_class listener_source (listener_EnsureReady os cfg attempt_ctx (s, m, h))
         | caller_source s \<Rightarrow> in_class caller_source (caller_EnsureReady os cfg attempt_ctx (s, m, h))
         | udp_source s \<Rightarrow> in_class udp_source (udp_EnsureReady os cfg attempt_ctx (s, m, h))
         | stdin_source s \<Rightarrow> in_class stdin_source (stdin_EnsureReady cfg attempt_ctx (s, m, h))))"

definition source_Receive ::
  "os \<Rightarrow> Config \<Rightarrow> InputSource receive_world \<Rightarrow> InputReceiveResult \<times> InputSource receive_world" where
  "source_Receive os cfg w =
     (case w of (src, buffer, rx_ctrl, h) \<Rightarrow>
        (case src of
           listener_source s \<Rightarrow> in_class listener_source (srt_receive os (session s) cfg (s, buffer, rx_ctrl, h))
         | caller_source s \<Rightarrow> in_class caller_source (srt_receive os (caller_session s) cfg (s, buffer, rx_ctrl, h))
         | udp_source s \<Rightarrow> in_class udp_source (udp_Receive os cfg (s, buffer, rx_ctrl, h))
         | stdin_source s \<Rightarrow> in_class stdin_source (stdin_Receive os cfg (s, buffer, rx_ctrl, h))))"

definition source_HandleReceiveError :: "os \<Rightarrow> InputSource input_world \<Rightarrow> InputSource input_world" where
  "source_HandleReceiveError os w =
     (case w of (src, m, h) \<Rightarrow>
        (case src of
           listener_source s \<Rightarrow> map_prod listener_source id (listener_HandleReceiveError os (s, m, h))
         | caller_source s \<Rightarrow> map_prod caller_source id (caller_HandleReceiveError os (s, m, h))
         | udp_source s \<Rightarrow> map_prod udp_source id (udp_HandleReceiveError os (s, m, h))
         | stdin_source s \<Rightarrow> map_prod stdin_source id (stdin_HandleReceiveError (s, m, h))))"

fun source_SessionSocket :: "InputSource \<Rightarrow> int" where
  "source_SessionSocket (listener_source s) = session s"
| "source_SessionSocket (caller_source s) = caller_session s"
| "source_SessionSocket (udp_source s) = SRT_INVALID_SOCK"
| "source_SessionSocket (stdin_source s) = SRT_INVALID_SOCK"

fun source_IsListening :: "InputSource \<Rightarrow> bool" where
  "source_IsListening (listener_source s) = (listeners s \<noteq> [])"
| "source_IsListening (caller_source s) = False"
| "source_IsListening (udp_source s) = (udp_listener s \<and> 0 \<le> socket_fd s)"
| "source_IsListening (stdin_source s) = False"

fun source_IsConnected :: "InputSource \<Rightarrow> bool" where
  "source_IsConnected (listener_source s) = (session s \<noteq> SRT_INVALID_SOCK)"
| "source_IsConnected (caller_source s) = (caller_session s \<noteq> SRT_INVALID_SOCK)"
| "source_IsConnected (udp_source s) = (0 \<le> socket_fd s)"
| "source_IsConnected (stdin_source s) = (\<not> eof s)"

fun source_IsTerminalEof :: "InputSource \<Rightarrow> bool" where
  "source_IsTerminalEof (stdin_source s) = eof s"
| "source_IsTerminalEof s = False"

text \<open>The error fields of whichever class the object has.\<close>

fun source_errors :: "InputSource \<Rightarrow> io_errors" where
  "source_errors (listener_source s) = io_errors.truncate s"
| "source_errors (caller_source s) = io_errors.truncate s"
| "source_errors (udp_source s) = io_errors.truncate s"
| "source_errors (stdin_source s) = io_errors.truncate s"

text \<open>The virtual methods of an \<open>InputSource\<close>, the defaults of the interface included.\<close>

definition InputSource_class :: "os \<Rightarrow> InputSource InputSource_methods" where
  "InputSource_class os =
     \<lparr>EnsureReady = source_EnsureReady os, Receive = source_Receive os,
      HandleReceiveError = source_HandleReceiveError os,
      SessionSocket = source_SessionSocket, IsListening = source_IsListening,
      IsConnected = source_IsConnected, IsTerminalEof = source_IsTerminalEof,
      NeedsEnsurePoll = (\<lambda>s. \<not> source_IsConnected s),
      LastReceiveErrorKind = (\<lambda>s. transfer_error_kind (source_errors s)),
      LastReceiveErrorMessage = (\<lambda>s. transfer_error_message (source_errors s)),
      LastEnsureErrorKind = (\<lambda>s. ensure_error_kind (source_errors s)),
      LastEnsureErrorMessage = (\<lambda>s. ensure_error_message (source_errors s)),
      ActiveInputIndex = (\<lambda>_. 0), InputSwitchCount = (\<lambda>_. 0)\<rparr>"

section \<open>The contract\<close>

text \<open>
  What users of an \<open>InputSource\<close> rely on. \<open>well\<close> is its invariant, \<open>held\<close> what it holds open, and
  \<open>clean\<close> the condition under which getting ready loses no socket.
\<close>

locale input_source =
  fixes V :: "'s InputSource_methods"
    and well :: "'s \<Rightarrow> bool"
    and held :: "'s \<Rightarrow> handle multiset"
    and clean :: bool
  assumes ensure_wf: "EnsureReady V cfg ctx (s, m, h) = (r, s', m', h') \<Longrightarrow> well s \<Longrightarrow> well s'"
    and ensure_connects: "EnsureReady V cfg ctx (s, m, h) = (Inr u, s', m', h') \<Longrightarrow> well s \<Longrightarrow> IsConnected V s'"
    and ensure_fails: "EnsureReady V cfg ctx (s, m, h) = (Inl e, s', m', h') \<Longrightarrow> well s \<Longrightarrow> \<not> IsConnected V s'"
    and ensure_owned: "EnsureReady V cfg ctx (s, m, h) = (r, s', m', h') \<Longrightarrow> well s \<Longrightarrow> clean \<Longrightarrow>
      owned R (held s) h \<Longrightarrow> owned R (held s') h'"
    and receive_wf: "Receive V cfg (s, b, c, h) = (res, s', b', c', h') \<Longrightarrow> well s \<Longrightarrow> well s'"
    and receive_held: "Receive V cfg (s, b, c, h) = (res, s', b', c', h') \<Longrightarrow> well s \<Longrightarrow>
      held s' = held s \<and> open_handles h' = open_handles h"
    and handle_wf: "HandleReceiveError V (s, m, h) = (s', m', h') \<Longrightarrow> well s \<Longrightarrow> well s'"
    and handle_owned: "HandleReceiveError V (s, m, h) = (s', m', h') \<Longrightarrow> well s \<Longrightarrow> clean \<Longrightarrow>
      owned R (held s) h \<Longrightarrow> owned R (held s') h'"
    and no_poll: "\<not> NeedsEnsurePoll V s \<Longrightarrow> IsConnected V s"

section \<open>The listener keeps it\<close>

definition listener_wf :: "SrtInputListenerSource \<Rightarrow> bool" where
  "listener_wf s \<longleftrightarrow>
     SRT_INVALID_SOCK \<notin> set (listeners s) \<and> (session s \<noteq> SRT_INVALID_SOCK \<longrightarrow> listeners s \<noteq> [])"

definition listener_held :: "SrtInputListenerSource \<Rightarrow> handle multiset" where
  "listener_held s = held_sockets (listeners s) + held_socket (session s)"

text \<open>libsrt does not refuse the receive timeout of a session it has just handed out.\<close>

definition accepts_timeout :: "os \<Rightarrow> bool" where
  "accepts_timeout os \<longleftrightarrow>
     (\<forall>ls t h rep h1 v. ask os (call_srt_accept_bond ls t) h = (rep, h1) \<and> rc rep \<noteq> SRT_INVALID_SOCK \<longrightarrow>
        rc (answer os h1 (call_srt_setsockflag (rc rep) SRTO_RCVTIMEO v)) \<noteq> -1)"

lemma io_errors_frame [simp, frame_simps]:
  "listeners (note_srt_ensure_error os e h s) = listeners s"
  "session (note_srt_ensure_error os e h s) = session s"
  "listeners (clear_ensure_error s) = listeners s" "session (clear_ensure_error s) = session s"
  "listener_uris (clear_ensure_error s) = listener_uris s"
  "listeners (set_transfer_error k msg s) = listeners s" "session (set_transfer_error k msg s) = session s"
  "caller_session (note_srt_ensure_error os e h c) = caller_session c"
  "caller_session (clear_ensure_error c) = caller_session c"
  "caller_session (set_transfer_error k msg c) = caller_session c"
  "socket_fd (note_errno_ensure_error os h u) = socket_fd u" "socket_fd (clear_ensure_error u) = socket_fd u"
  "socket_fd (set_transfer_error k msg u) = socket_fd u"
  "eof (clear_ensure_error i) = eof i" "eof (set_transfer_error k msg i) = eof i"
  by (simp_all add: note_srt_ensure_error_def clear_ensure_error_def set_transfer_error_def
      note_errno_ensure_error_def)

lemma clear_transfer_frame [simp, frame_simps]:
  "listeners (clear_transfer_error s) = listeners s" "session (clear_transfer_error s) = session s"
  "caller_session (clear_transfer_error c) = caller_session c"
  "socket_fd (clear_transfer_error u) = socket_fd u" "eof (clear_transfer_error i) = eof i"
  by (simp_all add: clear_transfer_error_def)

lemma owned_bare: "owned R (A + B) h \<Longrightarrow> owned (R + A) B h" "owned (R + A) B h \<Longrightarrow> owned R (A + B) h"
  by (simp_all add: owned_shift)

lemma listener_open_law:
  assumes "listener_open os cfg (s, m, h) = (r, s', m', h')" and "listener_wf s"
  shows "listener_wf s' \<and> session s' = session s \<and>
    (session s \<noteq> SRT_INVALID_SOCK \<longrightarrow> r = Inr () \<and> h' = h \<and> s' = s) \<and>
    (owned R (listener_held s) h \<longrightarrow> owned R (listener_held s') h')"
proof (cases "listeners s = []")
  case False
  with assms show ?thesis by (auto simp: listener_open_def)
next
  case True
  with assms(2) have none: "session s = SRT_INVALID_SOCK" by (auto simp: listener_wf_def)
  obtain r1 ls h1 where opened: "open_listeners os cfg ''input'' (listener_uris s) [] h = (r1, ls, h1)"
    by (cases "open_listeners os cfg ''input'' (listener_uris s) [] h")
  from assms(1) True opened have res: "s' = s\<lparr>listeners := ls\<rparr>" "h' = h1"
    by (auto simp: listener_open_def split: sum.splits)
  have owns: "owned (mset (open_handles h)) (held_sockets []) h" by (simp add: owned_def)
  from open_listeners_owned [OF opened owns]
  have "SRT_INVALID_SOCK \<notin> set ls" and "owned (mset (open_handles h)) (held_sockets ls) h1" by simp_all
  with res none True show ?thesis
    by (auto simp: listener_wf_def listener_held_def held_socket_def owned_def)
qed

lemma listener_accept_law:
  assumes "listener_accept os cfg (s, m, h) = (r, s', m', h')" and "listener_wf s"
  shows "listener_wf s'" and "(session s' \<noteq> SRT_INVALID_SOCK) = (r = Inr ())"
    and "accepts_timeout os \<Longrightarrow> owned R (listener_held s) h \<Longrightarrow> owned R (listener_held s') h'"
proof -
  obtain r1 h1 where acc: "AcceptBondSession os (listeners s) cfg ''input'' h = (r1, h1)"
    by (cases "AcceptBondSession os (listeners s) cfg ''input'' h")
  have made: "case r1 of Inl e \<Rightarrow> owned R {#} h1 | Inr a \<Rightarrow> a \<noteq> SRT_INVALID_SOCK \<and> owned R {#srt_sock a#} h1"
    if "owned R {#} h" for R
    using sound_maker_owned [OF AcceptBondSession_sound acc that] .
  have valid: "a \<noteq> SRT_INVALID_SOCK" if "r1 = Inr a" for a
    using made [of "mset (open_handles h)"] that by (simp add: owned_def)
  have listening: "listeners s \<noteq> []" if "r1 = Inr a" for a
    using acc that by (auto simp: AcceptBondSession_def io_throw_def)
  consider (kept) "session s \<noteq> SRT_INVALID_SOCK" "r = Inr ()" "s' = s" "h' = h"
    | (refused) e where "session s = SRT_INVALID_SOCK" "r1 = Inl e" "r = Inl e" "s' = s" "h' = h1"
    | (unset) a e h2 where "session s = SRT_INVALID_SOCK" "r1 = Inr a" "r = Inl e" "s' = s" "h' = h2"
        "run_options os a (\<lambda>f. ApplyIntSockOpt f SRTO_RCVTIMEO (io_timeout_ms cfg) ''SRTO_RCVTIMEO'') h1 = (Inl e, h2)"
    | (taken) a h2 where "session s = SRT_INVALID_SOCK" "r1 = Inr a" "r = Inr ()" "s' = s\<lparr>session := a\<rparr>" "h' = h2"
        "run_options os a (\<lambda>f. ApplyIntSockOpt f SRTO_RCVTIMEO (io_timeout_ms cfg) ''SRTO_RCVTIMEO'') h1 = (Inr (), h2)"
    using assms(1) acc
    by (auto simp: listener_accept_def SrtSocketHolder_Set_def SrtSocketHolder_Reset_def
        split: sum.splits if_splits prod.splits)
  note cases = this
  show "listener_wf s'"
    using cases assms(2) listening by cases (auto simp: listener_wf_def)
  show "(session s' \<noteq> SRT_INVALID_SOCK) = (r = Inr ())"
    using cases valid by cases auto
  show "owned R (listener_held s') h'" if "accepts_timeout os" and own: "owned R (listener_held s) h"
    using cases
  proof cases
    case kept
    with own show ?thesis by simp
  next
    case refused
    with own made [of "R + held_sockets (listeners s)"] show ?thesis
      by (simp add: listener_held_def held_socket_def owned_def)
  next
    case (unset a e h2)
    then have "rc (answer os h1 (call_srt_setsockflag a SRTO_RCVTIMEO (int_value (io_timeout_ms cfg)))) = -1"
      by (auto simp: run_options_def ApplyIntSockOpt_def set_option_def flag_answer_def
          split: prod.splits option.splits if_splits)
    moreover let ?c = "call_srt_accept_bond (listeners s) (io_timeout_ms cfg)"
    have "ask os ?c h = (answer os h ?c, h1)" "a = rc (answer os h ?c)"
      using acc unset(2)
      by (auto simp: AcceptBondSession_def io_throw_def io_call_def io_bind_def srt_check_def io_return_def
          ask_def Let_def split: if_splits prod.splits)
    ultimately show ?thesis
      using that(1) valid [OF unset(2)] unfolding accepts_timeout_def by blast
  next
    case (taken a h2)
    have "open_handles h2 = open_handles h1"
      using keepsD [OF keeps_options, of os a "\<lambda>f. ApplyIntSockOpt f SRTO_RCVTIMEO (io_timeout_ms cfg) ''SRTO_RCVTIMEO''" h1]
        taken(6) by simp
    with taken own made [of "R + held_sockets (listeners s)"] valid [OF taken(2)] show ?thesis
      by (simp add: listener_held_def held_socket_def owned_def)
  qed
qed

text \<open>
  \<open>ready_law well conn held clean r s h s' h'\<close>: what the contract asks of one call of \<open>EnsureReady\<close>.
\<close>

definition ready_law ::
  "('s \<Rightarrow> bool) \<Rightarrow> ('s \<Rightarrow> bool) \<Rightarrow> ('s \<Rightarrow> handle multiset) \<Rightarrow> bool \<Rightarrow> unit result \<Rightarrow> 's \<Rightarrow> history \<Rightarrow> 's \<Rightarrow>
   history \<Rightarrow> bool" where
  "ready_law well conn held clean r s h s' h' \<longleftrightarrow>
     well s' \<and> conn s' = (r = Inr ()) \<and>
     (clean \<longrightarrow> (\<forall>R. owned R (held s) h \<longrightarrow> owned R (held s') h'))"

lemma listener_EnsureReady_law:
  assumes "listener_EnsureReady os cfg ctx (s, m, h) = (r, s', m', h')" and "listener_wf s"
  shows "ready_law listener_wf (\<lambda>s. session s \<noteq> SRT_INVALID_SOCK) listener_held (accepts_timeout os) r s h s' h'"
proof -
  obtain r1 s1 m1 h1 where op: "listener_open os cfg (clear_ensure_error s, m, h) = (r1, s1, m1, h1)"
    by (cases "listener_open os cfg (clear_ensure_error s, m, h)")
  have wf0: "listener_wf (clear_ensure_error s)" and held0: "listener_held (clear_ensure_error s) = listener_held s"
    using assms(2) by (simp_all add: listener_wf_def listener_held_def)
  note l1 = listener_open_law [OF op wf0, unfolded held0]
  have note_held: "listener_held (note_srt_ensure_error os e h s) = listener_held s"
    "listener_wf (note_srt_ensure_error os e h s) = listener_wf s" for e h s
    by (simp_all add: listener_held_def listener_wf_def)
  show ?thesis
  proof (cases r1)
    case (Inl e)
    with assms(1) op have "r = Inl e" "s' = note_srt_ensure_error os e h1 s1" "h' = h1"
      by (auto simp: listener_EnsureReady_def)
    with l1 Inl show ?thesis by (auto simp: ready_law_def note_held)
  next
    case (Inr u)
    obtain r2 s2 m2 h2 where ac: "listener_accept os cfg (s1, m1, h1) = (r2, s2, m2, h2)"
      by (cases "listener_accept os cfg (s1, m1, h1)")
    from l1 have "listener_wf s1" by simp
    note l2 = listener_accept_law [OF ac this]
    from assms(1) op Inr ac
    have "r = r2 \<and> h' = h2 \<and> listener_held s' = listener_held s2 \<and> listener_wf s' = listener_wf s2 \<and>
        session s' = session s2"
      by (cases r2) (auto simp: listener_EnsureReady_def note_held)
    with l1 l2 show ?thesis by (auto simp: ready_law_def)
  qed
qed

lemma listener_handle_law:
  assumes "listener_HandleReceiveError os (s, m, h) = (s', m', h')" and "listener_wf s"
  shows "listener_wf s'" and "owned R (listener_held s) h \<Longrightarrow> owned R (listener_held s') h'"
    and "session s' = SRT_INVALID_SOCK \<and> listeners s' = []"
proof -
  obtain sock h1 where reset: "SrtSocketHolder_Reset os (session s) h = (sock, h1)"
    by (cases "SrtSocketHolder_Reset os (session s) h")
  then have sock: "sock = SRT_INVALID_SOCK" by (auto simp: SrtSocketHolder_Reset_def split: if_splits)
  from assms(1) reset have res: "s' = s\<lparr>session := sock, listeners := []\<rparr>" "h' = CloseSocketList os (listeners s) h1"
    by (auto simp: listener_HandleReceiveError_def)
  show "listener_wf s'" and "session s' = SRT_INVALID_SOCK \<and> listeners s' = []"
    using res sock by (simp_all add: listener_wf_def)
  assume "owned R (listener_held s) h"
  then have "owned (R + held_sockets (listeners s)) (held_socket (session s)) h"
    by (simp add: listener_held_def owned_shift)
  from Reset_owned(1) [OF this, of os] reset have "owned R (held_sockets (listeners s)) h1"
    by (simp add: owned_def)
  from CloseSocketList_owned [OF this] assms(2) res sock show "owned R (listener_held s') h'"
    by (simp add: listener_wf_def listener_held_def held_socket_def)
qed

section \<open>So do the others\<close>

lemma caller_EnsureReady_law:
  assumes "caller_EnsureReady os cfg ctx (s, m, h) = (r, s', m', h')"
  shows "ready_law (\<lambda>_. True) (\<lambda>s. caller_session s \<noteq> SRT_INVALID_SOCK) (\<lambda>s. held_socket (caller_session s)) True
    r s h s' h'"
proof (cases "caller_session s = SRT_INVALID_SOCK")
  case False
  with assms show ?thesis by (auto simp: caller_EnsureReady_def ready_law_def)
next
  case True
  let ?c = "clear_ensure_error s"
  let ?make = "if caller_bonded ?c then ConnectBondedCallerGroup os (caller_uris ?c) (caller_group_type ?c) cfg False
     else ConnectSingleCallerSocket os (hd (caller_uris ?c)) cfg False"
  have sound: "sound_maker ?make"
    by (simp add: ConnectBondedCallerGroup_sound ConnectSingleCallerSocket_sound)
  obtain r1 h1 where made: "?make h = (r1, h1)" by (cases "?make h")
  from made have made': "(if caller_bonded ?c then ConnectBondedCallerGroup os (caller_uris ?c) (caller_group_type ?c) cfg False h
      else ConnectSingleCallerSocket os (hd (caller_uris ?c)) cfg False h) = (r1, h1)"
    by (simp split: if_splits)
  have frame: "case r1 of Inl e \<Rightarrow> open_handles h1 = open_handles h
      | Inr sk \<Rightarrow> sk \<noteq> SRT_INVALID_SOCK \<and> open_handles h1 = srt_sock sk # open_handles h"
    by (rule sound_makerD [OF sound made])
  have res: "(case (r1, h1) of
                 (Inl e, h1) \<Rightarrow> (Inl e, note_srt_ensure_error os e h1 ?c, m, h1)
               | (Inr sock, h1) \<Rightarrow>
                   (case SrtSocketHolder_Set os (caller_session ?c) sock h1 of (held, h2) \<Rightarrow>
                      (Inr (), ?c\<lparr>caller_session := held\<rparr>, m\<lparr>input_listening := 0, input_connected := 1\<rparr>, h2)))
      = (r, s', m', h')"
    using assms True made' unfolding caller_EnsureReady_def Let_def by (simp split del: if_split)
  from res frame True show ?thesis
    by (cases r1) (auto simp: ready_law_def SrtSocketHolder_Set_def SrtSocketHolder_Reset_def held_socket_def
        owned_def)
qed

lemma keeps_set_up_udp_input [keeps_intros]: "keeps (set_up_udp_input os cfg uri is_listener peer_addr fd)"
  unfolding set_up_udp_input_def ApplyUdpInputOptions_def by (intro keeps_intros)

text \<open>A fresh descriptor is closed again when its set-up throws.\<close>

lemma udp_EnsureReady_law:
  assumes "udp_EnsureReady os cfg ctx (s, m, h) = (r, s', m', h')"
  shows "ready_law (\<lambda>_. True) (\<lambda>s. 0 \<le> socket_fd s) (\<lambda>s. held_fd (socket_fd s)) True r s h s' h'"
proof (cases "0 \<le> socket_fd s")
  case True
  with assms show ?thesis by (auto simp: udp_EnsureReady_def ready_law_def)
next
  case False
  let ?c = "clear_ensure_error s"
  obtain r1 h1 where res: "ResolveSockaddr os (host (source_uri ?c)) (port (source_uri ?c)) h = (r1, h1)"
    by (cases "ResolveSockaddr os (host (source_uri ?c)) (port (source_uri ?c)) h")
  then have h1: "open_handles h1 = open_handles h"
    using keepsD [OF keeps_ResolveSockaddr, of os "host (source_uri ?c)" "port (source_uri ?c)" h] by simp
  show ?thesis
  proof (cases r1)
    case (Inl e)
    with assms False res h1 show ?thesis
      by (auto simp: udp_EnsureReady_def ready_law_def held_fd_def owned_def)
  next
    case (Inr peer)
    obtain rep h2 where sk: "ask os (call_socket (family_of peer)) h1 = (rep, h2)"
      by (cases "ask os (call_socket (family_of peer)) h1")
    then have h2: "open_handles h2 = (if rc rep < 0 then open_handles h else udp_fd (rc rep) # open_handles h)"
      using h1 by (auto simp: ask_def Let_def)
    obtain r3 h3 where su: "set_up_udp_input os cfg (source_uri ?c) (udp_listener ?c) peer (rc rep) h2 = (r3, h3)"
      by (cases "set_up_udp_input os cfg (source_uri ?c) (udp_listener ?c) peer (rc rep) h2")
    then have h3: "open_handles h3 = open_handles h2"
      using keepsD [OF keeps_set_up_udp_input, of os cfg "source_uri ?c" "udp_listener ?c" peer "rc rep" h2] by simp
    from assms False res Inr sk su h2 h3 show ?thesis
      by (cases r3; cases "rc rep < 0")
        (auto simp: udp_EnsureReady_def ready_law_def held_fd_def owned_def close_fd_def io_call_def Let_def)
  qed
qed

lemma stdin_EnsureReady_law:
  assumes "stdin_EnsureReady cfg ctx (s, m, h) = (r, s', m', h')"
  shows "ready_law (\<lambda>_. True) (\<lambda>s. \<not> eof s) (\<lambda>_. {#}) True r s h s' h'"
  using assms by (auto simp: stdin_EnsureReady_def ready_law_def Let_def split: if_splits)

lemma open_handles_ask:
  "open_handles (snd (ask os (call_srt_recvmsg2 s n) h)) = open_handles h"
  "open_handles (snd (ask os (call_recv s n) h)) = open_handles h"
  "open_handles (snd (ask os (call_read n) h)) = open_handles h"
  by (simp_all add: ask_def Let_def)

lemma receive_status_simps [simp]:
  "receive_status (received n) = InputReceiveStatus.kData" "received_bytes (received n) = n"
  "receive_status receive_failed = InputReceiveStatus.kError"
  by (simp_all add: received_def receive_failed_def)

definition source_wf :: "InputSource \<Rightarrow> bool" where
  "source_wf src = (case src of listener_source s \<Rightarrow> listener_wf s | _ \<Rightarrow> True)"

fun source_held :: "InputSource \<Rightarrow> handle multiset" where
  "source_held (listener_source s) = listener_held s"
| "source_held (caller_source s) = held_socket (caller_session s)"
| "source_held (udp_source s) = held_fd (socket_fd s)"
| "source_held (stdin_source s) = {#}"

lemma source_ready_law:
  assumes "source_EnsureReady os cfg ctx (src, m, h) = (r, src', m', h')" and "source_wf src"
  shows "ready_law source_wf source_IsConnected source_held (accepts_timeout os) r src h src' h'"
proof (cases src)
  case (listener_source s)
  with assms obtain s' where "listener_EnsureReady os cfg ctx (s, m, h) = (r, s', m', h')"
    and "src' = InputSource.listener_source s'"
    by (auto simp: source_EnsureReady_def in_class_eq)
  with listener_source assms(2) listener_EnsureReady_law [OF this(1)] show ?thesis
    by (auto simp: ready_law_def source_wf_def)
next
  case (caller_source s)
  with assms obtain s' where "caller_EnsureReady os cfg ctx (s, m, h) = (r, s', m', h')"
    and "src' = InputSource.caller_source s'"
    by (auto simp: source_EnsureReady_def in_class_eq)
  with caller_source caller_EnsureReady_law [OF this(1)] show ?thesis
    by (auto simp: ready_law_def source_wf_def)
next
  case (udp_source s)
  with assms obtain s' where "udp_EnsureReady os cfg ctx (s, m, h) = (r, s', m', h')"
    and "src' = InputSource.udp_source s'"
    by (auto simp: source_EnsureReady_def in_class_eq)
  with udp_source udp_EnsureReady_law [OF this(1)] show ?thesis
    by (auto simp: ready_law_def source_wf_def)
next
  case (stdin_source s)
  with assms obtain s' where "stdin_EnsureReady cfg ctx (s, m, h) = (r, s', m', h')"
    and "src' = InputSource.stdin_source s'"
    by (auto simp: source_EnsureReady_def in_class_eq)
  with stdin_source stdin_EnsureReady_law [OF this(1)] show ?thesis
    by (auto simp: ready_law_def source_wf_def)
qed

lemma source_receive_law:
  assumes "source_Receive os cfg (src, b, c, h) = (res, src', b', c', h')"
  shows "source_wf src' = source_wf src" and "source_held src' = source_held src"
    and "open_handles h' = open_handles h"
    and "receive_status res = InputReceiveStatus.kData \<Longrightarrow> source_IsConnected src' = source_IsConnected src"
  using assms
  by (cases src; auto simp: source_Receive_def in_class_eq srt_receive_def udp_Receive_def stdin_Receive_def
      ask_def Let_def source_wf_def listener_wf_def listener_held_def split: if_splits)+

lemma source_handle_law:
  assumes "source_HandleReceiveError os (src, m, h) = (src', m', h')" and "source_wf src"
  shows "source_wf src'" and "owned R (source_held src) h \<Longrightarrow> owned R (source_held src') h'"
proof -
  show "source_wf src'"
  proof (cases src)
    case (listener_source s)
    with assms show ?thesis
      by (auto simp: source_HandleReceiveError_def map_class_eq source_wf_def dest: listener_handle_law(1)
          )
  qed (use assms in \<open>auto simp: source_HandleReceiveError_def map_class_eq source_wf_def\<close>)
  show "owned R (source_held src') h'" if own: "owned R (source_held src) h"
  proof (cases src)
    case (listener_source s)
    with assms own show ?thesis
      by (auto simp: source_HandleReceiveError_def map_class_eq source_wf_def dest: listener_handle_law(2))
  next
    case (caller_source s)
    with assms(1) own Reset_owned [of R "caller_session s" h os] show ?thesis
      by (auto simp: source_HandleReceiveError_def map_class_eq caller_HandleReceiveError_def held_socket_def split: prod.splits)
  next
    case (udp_source s)
    with assms(1) own CloseSocket_owned [of R "socket_fd s" h os] show ?thesis
      by (auto simp: source_HandleReceiveError_def map_class_eq udp_HandleReceiveError_def held_fd_def split: prod.splits)
  next
    case (stdin_source s)
    with assms(1) own show ?thesis
      by (auto simp: source_HandleReceiveError_def map_class_eq stdin_HandleReceiveError_def)
  qed
qed

interpretation source: input_source "InputSource_class os" source_wf source_held "accepts_timeout os" for os
  by unfold_locales
    (auto simp: InputSource_class_def ready_law_def dest: source_ready_law source_receive_law source_handle_law)

section \<open>The one way a socket is lost\<close>

text \<open>
  C40. A session whose receive timeout is refused is lost: when a listener without a session accepts
  one and libsrt refuses \<open>SRTO_RCVTIMEO\<close> on it, \<open>EnsureReady\<close> throws with the accepted socket open,
  while the source holds exactly what it held before, so nothing will ever close that socket.
\<close>

theorem refused_timeout_leaks_session:
  assumes "session s = SRT_INVALID_SOCK" and "listeners s \<noteq> []"
    and "ask os (call_srt_accept_bond (listeners s) (io_timeout_ms cfg)) h = (rep, h1)"
    and "rc rep \<noteq> SRT_INVALID_SOCK"
    and "rc (answer os h1 (call_srt_setsockflag (rc rep) SRTO_RCVTIMEO (int_value (io_timeout_ms cfg)))) = -1"
  shows "\<exists>e s'. listener_EnsureReady os cfg ctx (s, m, h) = (Inl e, s', m, h1) \<and>
    open_handles h1 = srt_sock (rc rep) # open_handles h \<and> listener_held s' = listener_held s"
proof -
  let ?s = "clear_ensure_error s"
  let ?flag = "\<lambda>f. ApplyIntSockOpt f SRTO_RCVTIMEO (io_timeout_ms cfg) ''SRTO_RCVTIMEO''"
  have acc: "AcceptBondSession os (listeners ?s) cfg ''input'' h = (Inr (rc rep), h1)"
    using assms(2-4)
    by (auto simp: AcceptBondSession_def ask_def io_call_def io_bind_def srt_check_def io_return_def Let_def)
  obtain e where opt: "run_options os (rc rep) ?flag h1 = (Inl e, h1)"
    using assms(5) by (auto simp: run_options_def ApplyIntSockOpt_def set_option_def flag_answer_def)
  have "listener_EnsureReady os cfg ctx (s, m, h) = (Inl e, note_srt_ensure_error os e h1 ?s, m, h1)"
    using assms(1,2) acc opt
    by (simp add: listener_EnsureReady_def listener_open_def listener_accept_def)
  moreover have "open_handles h1 = srt_sock (rc rep) # open_handles h"
    using assms(3,4) by (auto simp: ask_def Let_def)
  ultimately show ?thesis by (auto simp: listener_held_def)
qed

definition listening_source :: SrtInputListenerSource where
  "listening_source =
     io_errors.extend no_io_errors (SrtInputListenerSource.fields [default_uri] [7] SRT_INVALID_SOCK)"

theorem refused_timeout_leaks_session_witness:
  "\<exists>e s' h1. listener_EnsureReady
      (example_os (\<lambda>c. case c of call_srt_setsockflag sock opt v \<Rightarrow> True | _ \<Rightarrow> False))
      default_Config example_attempt (listening_source, example_relay_metrics, []) = (Inl e, s', example_relay_metrics, h1) \<and>
    open_handles h1 = [srt_sock 300] \<and> listener_held s' = {#srt_sock 7#}"
proof -
  let ?os = "example_os (\<lambda>c. case c of call_srt_setsockflag sock opt v \<Rightarrow> True | _ \<Rightarrow> False)"
  let ?c = "call_srt_accept_bond (listeners listening_source) (io_timeout_ms default_Config)"
  have s: "session listening_source = SRT_INVALID_SOCK" "listeners listening_source = [7]"
    by (simp_all add: listening_source_def io_errors.defs SrtInputListenerSource.defs no_io_errors_def)
  obtain rep h1 where a: "ask ?os ?c [] = (rep, h1)" by (cases "ask ?os ?c []")
  have rep: "rc rep = 300" using a
    by (auto simp: ask_def example_os_def good_reply_def reply_def Let_def)
  have ref: "rc (answer ?os h1 (call_srt_setsockflag (rc rep) SRTO_RCVTIMEO (int_value (io_timeout_ms default_Config)))) = -1"
    by (simp add: example_os_def reply_def)
  have ok: "listeners listening_source \<noteq> []" "rc rep \<noteq> SRT_INVALID_SOCK"
    using s rep by (simp_all add: SRT_INVALID_SOCK_def)
  have held: "listener_held listening_source = {#srt_sock 7#}"
    using s by (simp add: listener_held_def held_socket_def)
  from refused_timeout_leaks_session [OF s(1) ok(1) a ok(2) ref, of example_attempt example_relay_metrics]
  show ?thesis unfolding held rep open_handles.simps by blast
qed

end
