(* ===== verification/InputSwitch.thy ===== *)
theory InputSwitch
  imports InputSources
begin

text \<open>
  \<open>InputSwitcher\<close> of \<open>src/src/relay_input_sources.cpp\<close>: it keeps one input source active, falls back
  to the others in turn when that one cannot be readied or fails, and prefers a primary source when
  one is configured. It is defined over the methods \<open>V\<close> of its sources, and what its sources promise
  is the locale \<open>input_source\<close>; the switcher keeps that contract in turn.
\<close>

section \<open>State\<close>

datatype InputSwitchPolicy = kRoundRobin | kPreferredPrimary

fun InputSwitchPolicyName :: "InputSwitchPolicy \<Rightarrow> string" where
  "InputSwitchPolicyName kRoundRobin = ''round_robin''"
| "InputSwitchPolicyName kPreferredPrimary = ''preferred_primary''"

record 's InputSwitcher = io_errors +
  specs :: "InputEndpointSpec list"
  sources :: "'s list"
  policy :: InputSwitchPolicy
  switch_primary :: "nat option"
  the_switch_mode :: SwitchMode
  active_index :: nat
  delayed_candidate_index :: "nat option"
  pending_stop_index :: "nat option"
  switch_count :: u64

definition make_InputSwitcher ::
  "(InputEndpointSpec \<Rightarrow> 's) \<Rightarrow> Config \<Rightarrow> InputEndpointSpec list \<Rightarrow> 's InputSwitcher" where
  "make_InputSwitcher build cfg ss =
     io_errors.extend no_io_errors (InputSwitcher.fields ss (map build ss)
       (if primary_input_index cfg \<noteq> None then kPreferredPrimary else kRoundRobin)
       (primary_input_index cfg) (switch_mode cfg) 0 None None 0)"

section \<open>Methods of one of the sources\<close>

text \<open>\<open>sources_.at(i)\<close> is the \<open>i\<close>-th source; the invariant \<open>switcher_wf\<close> keeps the index in range.\<close>

definition nth_ensure ::
  "'s InputSource_methods \<Rightarrow> Config \<Rightarrow> EnsureAttemptContext \<Rightarrow> nat \<Rightarrow> 's InputSwitcher input_world \<Rightarrow>
   unit result \<times> 's InputSwitcher input_world" where
  "nth_ensure V cfg attempt_ctx i w =
     (case w of (sw, m, h) \<Rightarrow>
        (case EnsureReady V cfg (attempt_ctx\<lparr>source_index := Some (i + 1)\<rparr>) (sources sw ! i, m, h) of
           (r, s, m', h') \<Rightarrow> (r, sw\<lparr>sources := (sources sw)[i := s]\<rparr>, m', h')))"

definition nth_receive ::
  "'s InputSource_methods \<Rightarrow> Config \<Rightarrow> nat \<Rightarrow> 's InputSwitcher receive_world \<Rightarrow>
   InputReceiveResult \<times> 's InputSwitcher receive_world" where
  "nth_receive V cfg i w =
     (case w of (sw, buffer, rx_ctrl, h) \<Rightarrow>
        (case Receive V cfg (sources sw ! i, buffer, rx_ctrl, h) of
           (r, s, w') \<Rightarrow> (r, sw\<lparr>sources := (sources sw)[i := s]\<rparr>, w')))"

definition nth_handle ::
  "'s InputSource_methods \<Rightarrow> nat \<Rightarrow> 's InputSwitcher input_world \<Rightarrow> 's InputSwitcher input_world" where
  "nth_handle V i w =
     (case w of (sw, m, h) \<Rightarrow>
        (case HandleReceiveError V (sources sw ! i, m, h) of
           (s, m', h') \<Rightarrow> (sw\<lparr>sources := (sources sw)[i := s]\<rparr>, m', h')))"

section \<open>Getting ready\<close>

definition NextIndex :: "'s InputSwitcher \<Rightarrow> nat \<Rightarrow> nat" where
  "NextIndex sw i = (if sources sw = [] then 0 else (i + 1) mod length (sources sw))"

definition ApplyPendingStop ::
  "'s InputSource_methods \<Rightarrow> 's InputSwitcher input_world \<Rightarrow> 's InputSwitcher input_world" where
  "ApplyPendingStop V w =
     (case w of (sw, m, h) \<Rightarrow>
        (case pending_stop_index sw of
           None \<Rightarrow> w
         | Some i \<Rightarrow>
             (let sw' = sw\<lparr>pending_stop_index := None\<rparr>
              in if length (sources sw) \<le> i then (sw', m, h) else nth_handle V i (sw', m, h))))"

text \<open>Another source becomes active and the one before is reset.\<close>

definition take_over ::
  "'s InputSource_methods \<Rightarrow> nat \<Rightarrow> nat \<Rightarrow> 's InputSwitcher input_world \<Rightarrow> 's InputSwitcher input_world" where
  "take_over V previous i w =
     (case nth_handle V previous w of (sw, m, h) \<Rightarrow>
        (sw\<lparr>active_index := i, delayed_candidate_index := None, switch_count := switch_count sw + 1\<rparr>, m, h))"

text \<open>The loop over the alternate inputs; \<open>True\<close> when one of them took over.\<close>

fun try_candidates ::
  "'s InputSource_methods \<Rightarrow> Config \<Rightarrow> EnsureAttemptContext \<Rightarrow> nat \<Rightarrow> nat list \<Rightarrow>
   's InputSwitcher input_world \<Rightarrow> bool \<times> 's InputSwitcher input_world" where
  "try_candidates V cfg attempt_ctx previous [] w = (False, w)"
| "try_candidates V cfg attempt_ctx previous (offset # offsets) w =
     (let candidate_index = (previous + offset) mod length (sources (fst w))
      in case nth_ensure V cfg attempt_ctx candidate_index w of
           (Inl e, w1) \<Rightarrow> try_candidates V cfg attempt_ctx previous offsets w1
         | (Inr _, w1) \<Rightarrow> (True, take_over V previous candidate_index w1))"

text \<open>With the active source ready, the primary one is tried.\<close>

definition probe_primary ::
  "'s InputSource_methods \<Rightarrow> Config \<Rightarrow> EnsureAttemptContext \<Rightarrow> 's InputSwitcher input_world \<Rightarrow>
   's InputSwitcher input_world" where
  "probe_primary V cfg attempt_ctx w =
     (case w of (sw, m, h) \<Rightarrow>
        (case switch_primary sw of
           None \<Rightarrow> w
         | Some primary \<Rightarrow>
             if policy sw \<noteq> kPreferredPrimary then w
             else if length (sources sw) \<le> primary \<or> primary = active_index sw then
               (sw\<lparr>delayed_candidate_index := None\<rparr>, m, h)
             else
               (let probe_cfg = (if attempt_id attempt_ctx = 0 then cfg\<lparr>io_timeout_ms := 1\<rparr> else cfg)
                in case nth_ensure V probe_cfg attempt_ctx primary w of
                     (Inl e, w1) \<Rightarrow> w1
                   | (Inr _, sw1, m1, h1) \<Rightarrow>
                       if the_switch_mode sw1 = SwitchMode.kSerial
                       then take_over V (active_index sw1) primary (sw1, m1, h1)
                       else (sw1\<lparr>delayed_candidate_index := Some primary\<rparr>, m1, h1))))"

definition switcher_EnsureReady ::
  "'s InputSource_methods \<Rightarrow> Config \<Rightarrow> EnsureAttemptContext \<Rightarrow> 's InputSwitcher input_world \<Rightarrow>
   unit result \<times> 's InputSwitcher input_world" where
  "switcher_EnsureReady V cfg attempt_ctx w =
     (case w of (sw, m, h) \<Rightarrow>
        (let w0 = ApplyPendingStop V (clear_ensure_error sw, m, h);
             active = active_index (fst w0)
         in case nth_ensure V cfg attempt_ctx active w0 of
              (Inr _, w1) \<Rightarrow> (Inr (), probe_primary V cfg attempt_ctx w1)
            | (Inl e, sw1, m1, h1) \<Rightarrow>
                (let src = sources sw1 ! active;
                     sw2 = sw1\<lparr>ensure_error_kind := LastEnsureErrorKind V src,
                               ensure_error_message := LastEnsureErrorMessage V src\<rparr>
                 in if 1 < length (sources sw2) then
                      (case try_candidates V cfg attempt_ctx active [1..<length (sources sw2)] (sw2, m1, h1) of
                         (True, sw3, w3) \<Rightarrow> (Inr (), clear_ensure_error sw3, w3)
                       | (False, w3) \<Rightarrow> (Inl e, w3))
                    else (Inl e, sw2, m1, h1))))"

section \<open>Receiving and failing over\<close>

text \<open>
  In delayed mode the candidate is asked for data first, and takes over with the first data it has.
\<close>

definition probe_delayed ::
  "'s InputSource_methods \<Rightarrow> Config \<Rightarrow> 's InputSwitcher receive_world \<Rightarrow>
   InputReceiveResult option \<times> 's InputSwitcher receive_world" where
  "probe_delayed V cfg w =
     (case w of (sw, buffer, rx_ctrl, h) \<Rightarrow>
        (case (the_switch_mode sw, delayed_candidate_index sw) of
           (SwitchMode.kDelayed, Some delayed_index) \<Rightarrow>
             if delayed_index < length (sources sw) \<and> delayed_index \<noteq> active_index sw \<and>
                kind (specs sw ! delayed_index) \<noteq> InputEndpointKind.kStdin
             then
               (case nth_receive V (cfg\<lparr>io_timeout_ms := 1\<rparr>) delayed_index w of
                  (r, sw1, w1) \<Rightarrow>
                    if receive_status r = InputReceiveStatus.kData then
                      (Some r,
                       clear_transfer_error
                         (sw1\<lparr>pending_stop_index := Some (active_index sw1), active_index := delayed_index,
                              delayed_candidate_index := None, switch_count := switch_count sw1 + 1\<rparr>), w1)
                    else if LastReceiveErrorKind V (sources sw1 ! delayed_index) \<noteq> IoErrorKind.kTimeout
                    then (None, sw1\<lparr>delayed_candidate_index := None\<rparr>, w1)
                    else (None, sw1, w1))
             else (None, sw\<lparr>delayed_candidate_index := None\<rparr>, buffer, rx_ctrl, h)
         | _ \<Rightarrow> (None, w)))"

definition switcher_Receive ::
  "'s InputSource_methods \<Rightarrow> Config \<Rightarrow> 's InputSwitcher receive_world \<Rightarrow>
   InputReceiveResult \<times> 's InputSwitcher receive_world" where
  "switcher_Receive V cfg w =
     (case w of (sw, w0) \<Rightarrow>
        (case probe_delayed V cfg (clear_transfer_error sw, w0) of
           (Some r, w1) \<Rightarrow> (r, w1)
         | (None, w1) \<Rightarrow>
             (case nth_receive V cfg (active_index (fst w1)) w1 of
                (r, sw2, w2) \<Rightarrow>
                  (let src = sources sw2 ! active_index sw2
                   in (r, (if receive_status r = InputReceiveStatus.kError
                           then set_transfer_error (LastReceiveErrorKind V src) (LastReceiveErrorMessage V src) sw2
                           else clear_transfer_error sw2), w2)))))"

definition switcher_HandleReceiveError ::
  "'s InputSource_methods \<Rightarrow> 's InputSwitcher input_world \<Rightarrow> 's InputSwitcher input_world" where
  "switcher_HandleReceiveError V w =
     (case nth_handle V (active_index (fst w)) w of (sw, m, h) \<Rightarrow>
        (let sw1 = sw\<lparr>delayed_candidate_index := None\<rparr>
         in if length (sources sw1) \<le> 1 then (sw1, m, h)
            else (sw1\<lparr>active_index := NextIndex sw1 (active_index sw1),
                      switch_count := switch_count sw1 + 1\<rparr>, m, h)))"

definition active_source :: "'s InputSwitcher \<Rightarrow> 's" where
  "active_source sw = sources sw ! active_index sw"

definition switcher_NeedsEnsurePoll :: "'s InputSource_methods \<Rightarrow> 's InputSwitcher \<Rightarrow> bool" where
  "switcher_NeedsEnsurePoll V sw =
     (if pending_stop_index sw \<noteq> None then True
      else if \<not> IsConnected V (active_source sw) then True
      else case switch_primary sw of
             None \<Rightarrow> False
           | Some primary \<Rightarrow> policy sw = kPreferredPrimary \<and> primary < length (sources sw) \<and>
                             primary \<noteq> active_index sw)"

definition InputSwitcher_class :: "'s InputSource_methods \<Rightarrow> 's InputSwitcher InputSource_methods" where
  "InputSwitcher_class V =
     \<lparr>EnsureReady = switcher_EnsureReady V, Receive = switcher_Receive V,
      HandleReceiveError = switcher_HandleReceiveError V,
      SessionSocket = (\<lambda>sw. SessionSocket V (active_source sw)),
      IsListening = (\<lambda>sw. IsListening V (active_source sw)),
      IsConnected = (\<lambda>sw. IsConnected V (active_source sw)),
      IsTerminalEof = (\<lambda>sw. length (sources sw) \<le> 1 \<and> IsTerminalEof V (active_source sw)),
      NeedsEnsurePoll = switcher_NeedsEnsurePoll V,
      LastReceiveErrorKind = transfer_error_kind, LastReceiveErrorMessage = transfer_error_message,
      LastEnsureErrorKind = ensure_error_kind, LastEnsureErrorMessage = ensure_error_message,
      ActiveInputIndex = active_index, InputSwitchCount = switch_count\<rparr>"

section \<open>The invariant\<close>

definition switcher_wf :: "('s \<Rightarrow> bool) \<Rightarrow> 's InputSwitcher \<Rightarrow> bool" where
  "switcher_wf well sw \<longleftrightarrow>
     active_index sw < length (sources sw) \<and> length (specs sw) = length (sources sw) \<and>
     (\<forall>s \<in> set (sources sw). well s)"

definition switcher_held :: "('s \<Rightarrow> handle multiset) \<Rightarrow> 's InputSwitcher \<Rightarrow> handle multiset" where
  "switcher_held held sw = sum_list (map held (sources sw))"

text \<open>What an operation of the switcher may change: nothing but what its name says.\<close>

definition same_shape :: "'s InputSwitcher \<Rightarrow> 's InputSwitcher \<Rightarrow> bool" where
  "same_shape sw sw' \<longleftrightarrow>
     specs sw' = specs sw \<and> length (sources sw') = length (sources sw) \<and> policy sw' = policy sw \<and>
     switch_primary sw' = switch_primary sw \<and> the_switch_mode sw' = the_switch_mode sw"

lemma same_shape_refl [simp]: "same_shape sw sw"
  by (simp add: same_shape_def)

lemma same_shape_trans: "same_shape a b \<Longrightarrow> same_shape b c \<Longrightarrow> same_shape a c"
  by (simp add: same_shape_def)

lemma error_frame [simp, frame_simps]:
  "sources (clear_ensure_error sw) = sources sw" "active_index (clear_ensure_error sw) = active_index sw"
  "specs (clear_ensure_error sw) = specs sw" "same_shape (clear_ensure_error sw) sw' = same_shape sw sw'"
  "same_shape sw (clear_ensure_error sw') = same_shape sw sw'"
  "switcher_wf well (clear_ensure_error sw) = switcher_wf well sw"
  "switcher_held held (clear_ensure_error sw) = switcher_held held sw"
  "sources (set_transfer_error k msg sw) = sources sw"
  "active_index (set_transfer_error k msg sw) = active_index sw"
  "same_shape sw (set_transfer_error k msg sw') = same_shape sw sw'"
  "switcher_wf well (set_transfer_error k msg sw) = switcher_wf well sw"
  "switcher_held held (set_transfer_error k msg sw) = switcher_held held sw"
  "pending_stop_index (clear_ensure_error sw) = pending_stop_index sw"
  by (simp_all add: clear_ensure_error_def set_transfer_error_def same_shape_def switcher_wf_def
      switcher_held_def)

lemma clear_transfer_sw [simp, frame_simps]:
  "sources (clear_transfer_error sw) = sources sw" "active_index (clear_transfer_error sw) = active_index sw"
  "switcher_wf well (clear_transfer_error sw) = switcher_wf well sw"
  "switcher_held held (clear_transfer_error sw) = switcher_held held sw"
  "same_shape sw (clear_transfer_error sw') = same_shape sw sw'"
  "same_shape (clear_transfer_error sw) sw' = same_shape sw sw'"
  "the_switch_mode (clear_transfer_error sw) = the_switch_mode sw"
  "delayed_candidate_index (clear_transfer_error sw) = delayed_candidate_index sw"
  "specs (clear_transfer_error sw) = specs sw"
  by (simp_all add: clear_transfer_error_def set_transfer_error_def same_shape_def switcher_wf_def
      switcher_held_def)

lemma active_index_wf:
  "switcher_wf well sw \<Longrightarrow> i < length (sources sw) \<Longrightarrow> switcher_wf well (sw\<lparr>active_index := i\<rparr>)"
  by (simp add: switcher_wf_def)

context input_source begin

lemma source_well: "switcher_wf well sw \<Longrightarrow> i < length (sources sw) \<Longrightarrow> well (sources sw ! i)"
  by (simp add: switcher_wf_def)

lemma nth_ensure_law:
  assumes "nth_ensure V cfg ctx i (sw, m, h) = (r, sw', m', h')"
    and "switcher_wf well sw" and "i < length (sources sw)"
  shows "switcher_wf well sw'" and "same_shape sw sw'"
    and "active_index sw' = active_index sw"
    and "\<And>j. j \<noteq> i \<Longrightarrow> sources sw' ! j = sources sw ! j"
    and "IsConnected V (sources sw' ! i) \<longleftrightarrow> r = Inr ()"
    and "clean \<Longrightarrow> owned R (switcher_held held sw) h \<Longrightarrow> owned R (switcher_held held sw') h'"
proof -
  obtain s where ens: "EnsureReady V cfg (ctx\<lparr>source_index := Some (i + 1)\<rparr>) (sources sw ! i, m, h) = (r, s, m', h')"
    and sw': "sw' = sw\<lparr>sources := (sources sw)[i := s]\<rparr>"
    using assms(1) by (auto simp: nth_ensure_def split: prod.splits)
  note well = source_well [OF assms(2,3)]
  show "switcher_wf well sw'"
    using assms(2) ensure_wf [OF ens well] sw' by (auto simp: switcher_wf_def dest: set_update_subsetI subsetD [OF set_update_subset_insert])
  show "same_shape sw sw'" and "active_index sw' = active_index sw"
    and "\<And>j. j \<noteq> i \<Longrightarrow> sources sw' ! j = sources sw ! j"
    using sw' by (auto simp: same_shape_def)
  show "IsConnected V (sources sw' ! i) \<longleftrightarrow> r = Inr ()"
    using ens sw' assms(3) well ensure_connects ensure_fails by (cases r) auto
  show "owned R (switcher_held held sw') h'" if "clean" and "owned R (switcher_held held sw) h"
    using that owned_update [OF assms(3), of R held h s h'] ensure_owned [OF ens well] sw'
    by (simp add: switcher_held_def)
qed

lemma nth_handle_law:
  assumes "nth_handle V i (sw, m, h) = (sw', m', h')"
    and "switcher_wf well sw" and "i < length (sources sw)"
  shows "switcher_wf well sw'" and "same_shape sw sw'" and "active_index sw' = active_index sw"
    and "\<And>j. j \<noteq> i \<Longrightarrow> sources sw' ! j = sources sw ! j"
    and "clean \<Longrightarrow> owned R (switcher_held held sw) h \<Longrightarrow> owned R (switcher_held held sw') h'"
    and "switch_count sw' = switch_count sw"
proof -
  obtain s where han: "HandleReceiveError V (sources sw ! i, m, h) = (s, m', h')"
    and sw': "sw' = sw\<lparr>sources := (sources sw)[i := s]\<rparr>"
    using assms(1) by (auto simp: nth_handle_def split: prod.splits)
  note well = source_well [OF assms(2,3)]
  show "switcher_wf well sw'"
    using assms(2) handle_wf [OF han well] sw' by (auto simp: switcher_wf_def dest: subsetD [OF set_update_subset_insert])
  show "same_shape sw sw'" and "active_index sw' = active_index sw" and "switch_count sw' = switch_count sw"
    and "\<And>j. j \<noteq> i \<Longrightarrow> sources sw' ! j = sources sw ! j"
    using sw' by (auto simp: same_shape_def)
  show "owned R (switcher_held held sw') h'" if "clean" and "owned R (switcher_held held sw) h"
    using that owned_update [OF assms(3), of R held h s h'] handle_owned [OF han well] sw'
    by (simp add: switcher_held_def)
qed

lemma nth_receive_law:
  assumes "nth_receive V cfg i (sw, b, c, h) = (res, sw', b', c', h')"
    and "switcher_wf well sw" and "i < length (sources sw)"
  shows "switcher_wf well sw'" and "same_shape sw sw'" and "active_index sw' = active_index sw"
    and "switcher_held held sw' = switcher_held held sw" and "open_handles h' = open_handles h"
    and "\<And>j. j \<noteq> i \<Longrightarrow> sources sw' ! j = sources sw ! j"
proof -
  obtain s where rec: "Receive V cfg (sources sw ! i, b, c, h) = (res, s, b', c', h')"
    and sw': "sw' = sw\<lparr>sources := (sources sw)[i := s]\<rparr>"
    using assms(1) by (auto simp: nth_receive_def split: prod.splits)
  note well = source_well [OF assms(2,3)]
  show "switcher_wf well sw'"
    using assms(2) receive_wf [OF rec well] sw' by (auto simp: switcher_wf_def dest: subsetD [OF set_update_subset_insert])
  show "same_shape sw sw'" and "active_index sw' = active_index sw"
    and "\<And>j. j \<noteq> i \<Longrightarrow> sources sw' ! j = sources sw ! j"
    using sw' by (auto simp: same_shape_def)
  show "open_handles h' = open_handles h" using receive_held [OF rec well] by simp
  show "switcher_held held sw' = switcher_held held sw"
    using held_update_same [OF assms(3), of held s] receive_held [OF rec well] sw'
    by (simp add: switcher_held_def)
qed

end

lemma rotate_mod:
  "(p :: nat) < n \<Longrightarrow> a < n \<Longrightarrow> (p + a) mod n = (if p + a < n then p + a else p + a - n)"
  by (simp add: mod_if)

lemma rotate_ne: "(p :: nat) < n \<Longrightarrow> 0 < a \<Longrightarrow> a < n \<Longrightarrow> (p + a) mod n \<noteq> p"
  by (subst rotate_mod) auto

lemma rotate_inj:
  assumes "(p :: nat) < n" and "a < n" and "b < n" and "(p + a) mod n = (p + b) mod n"
  shows "a = b"
proof -
  have "(if p + a < n then p + a else p + a - n) = (if p + b < n then p + b else p + b - n)"
    using assms(4) by (simp only: rotate_mod [OF assms(1,2)] rotate_mod [OF assms(1,3)])
  with assms(1-3) show ?thesis by (auto split: if_splits)
qed

text \<open>
  \<open>keeps_switcher\<close>: an operation keeps the invariant, the shape, and accounts for what is open.
\<close>

definition keeps_switcher ::
  "('s \<Rightarrow> bool) \<Rightarrow> ('s \<Rightarrow> handle multiset) \<Rightarrow> bool \<Rightarrow> 's InputSwitcher \<Rightarrow> history \<Rightarrow> 's InputSwitcher \<Rightarrow> history \<Rightarrow> bool" where
  "keeps_switcher well held clean sw h sw' h' \<longleftrightarrow>
     switcher_wf well sw' \<and> same_shape sw sw' \<and>
     (clean \<longrightarrow> (\<forall>R. owned R (switcher_held held sw) h \<longrightarrow> owned R (switcher_held held sw') h'))"

lemma keeps_switcher_trans:
  "keeps_switcher well held clean a h b h1 \<Longrightarrow> keeps_switcher well held clean b h1 c h2 \<Longrightarrow>
   keeps_switcher well held clean a h c h2"
  by (auto simp: keeps_switcher_def intro: same_shape_trans)

lemma keeps_switcher_refl: "switcher_wf well a \<Longrightarrow> keeps_switcher well held clean a h a h"
  by (simp add: keeps_switcher_def)

lemma keeps_switcher_wf: "keeps_switcher well held clean a h b h1 \<Longrightarrow> switcher_wf well b"
  by (simp add: keeps_switcher_def)

lemma keeps_switcher_length:
  "keeps_switcher well held clean a h b h1 \<Longrightarrow> length (sources b) = length (sources a)"
  by (simp add: keeps_switcher_def same_shape_def)

lemma keeps_switcher_index:
  assumes "keeps_switcher well held clean a h b h1" and "i < length (sources a)"
  shows "keeps_switcher well held clean a h (b\<lparr>active_index := i, delayed_candidate_index := d, switch_count := n\<rparr>) h1"
proof -
  have "length (specs b) = length (sources b)" using keeps_switcher_wf [OF assms(1)] by (simp add: switcher_wf_def)
  moreover have "specs b = specs a" and "length (sources b) = length (sources a)"
    using assms(1) by (simp_all add: keeps_switcher_def same_shape_def)
  ultimately have "length (specs a) = length (sources a)" by simp
  with assms show ?thesis
    by (simp add: keeps_switcher_def same_shape_def switcher_wf_def switcher_held_def)
qed

lemma keeps_switcher_notes [simp]:
  "keeps_switcher well held clean a h (clear_ensure_error b) h1 = keeps_switcher well held clean a h b h1"
  "keeps_switcher well held clean (clear_ensure_error a) h b h1 = keeps_switcher well held clean a h b h1"
  "keeps_switcher well held clean a h (b\<lparr>ensure_error_kind := k, ensure_error_message := msg\<rparr>) h1 =
   keeps_switcher well held clean a h b h1"
  "keeps_switcher well held clean (a\<lparr>ensure_error_kind := k, ensure_error_message := msg\<rparr>) h b h1 =
   keeps_switcher well held clean a h b h1"
  "keeps_switcher well held clean a h (b\<lparr>delayed_candidate_index := d\<rparr>) h1 = keeps_switcher well held clean a h b h1"
  "keeps_switcher well held clean (a\<lparr>pending_stop_index := d\<rparr>) h b h1 = keeps_switcher well held clean a h b h1"
  "keeps_switcher well held clean a h (b\<lparr>pending_stop_index := d\<rparr>) h1 = keeps_switcher well held clean a h b h1"
  by (simp_all add: keeps_switcher_def same_shape_def switcher_wf_def switcher_held_def clear_ensure_error_def)

context input_source begin

abbreviation "keeps_sw \<equiv> keeps_switcher well held clean"

lemma nth_ensure_keeps:
  assumes "nth_ensure V cfg ctx i (sw, m, h) = (r, sw', m', h')"
    and "switcher_wf well sw" and "i < length (sources sw)"
  shows "keeps_sw sw h sw' h'"
  using nth_ensure_law [OF assms] by (simp add: keeps_switcher_def)

lemma nth_handle_keeps:
  assumes "nth_handle V i (sw, m, h) = (sw', m', h')"
    and "switcher_wf well sw" and "i < length (sources sw)"
  shows "keeps_sw sw h sw' h'"
  using nth_handle_law [OF assms] by (simp add: keeps_switcher_def)

lemma ApplyPendingStop_law:
  assumes "ApplyPendingStop V (sw, m, h) = (sw', m', h')" and "switcher_wf well sw"
  shows "keeps_sw sw h sw' h'" and "active_index sw' = active_index sw" and "pending_stop_index sw' = None"
proof -
  have "keeps_sw sw h sw' h' \<and> active_index sw' = active_index sw \<and> pending_stop_index sw' = None"
  proof (cases "pending_stop_index sw")
    case None
    with assms show ?thesis by (auto simp: ApplyPendingStop_def keeps_switcher_refl)
  next
    case (Some i)
    let ?s = "sw\<lparr>pending_stop_index := None\<rparr>"
    have wf: "switcher_wf well ?s" using assms(2) by (simp add: switcher_wf_def)
    show ?thesis
    proof (cases "i < length (sources sw)")
      case False
      with assms Some show ?thesis
        by (auto simp: ApplyPendingStop_def Let_def keeps_switcher_refl)
    next
      case True
      with assms Some have han: "nth_handle V i (?s, m, h) = (sw', m', h')"
        by (auto simp: ApplyPendingStop_def Let_def)
      from han have "pending_stop_index sw' = None"
        by (auto simp: nth_handle_def split: prod.splits)
      with nth_handle_keeps [OF han wf] nth_handle_law(3) [OF han wf] True show ?thesis by simp
    qed
  qed
  then show "keeps_sw sw h sw' h'" and "active_index sw' = active_index sw" and "pending_stop_index sw' = None"
    by simp_all
qed

lemma take_over_law:
  assumes "take_over V previous i (sw, m, h) = (sw', m', h')" and "switcher_wf well sw"
    and "previous < length (sources sw)" and "i < length (sources sw)"
  shows "keeps_sw sw h sw' h'" and "active_index sw' = i" and "delayed_candidate_index sw' = None"
    and "\<And>j. j \<noteq> previous \<Longrightarrow> sources sw' ! j = sources sw ! j"
proof -
  obtain sw1 where han: "nth_handle V previous (sw, m, h) = (sw1, m', h')"
    and sw': "sw' = sw1\<lparr>active_index := i, delayed_candidate_index := None, switch_count := switch_count sw1 + 1\<rparr>"
    using assms(1) by (auto simp: take_over_def split: prod.splits)
  show "keeps_sw sw h sw' h'"
    using keeps_switcher_index [OF nth_handle_keeps [OF han assms(2,3)] assms(4)] sw' by simp
  show "active_index sw' = i" and "delayed_candidate_index sw' = None"
    using sw' by simp_all
  show "\<And>j. j \<noteq> previous \<Longrightarrow> sources sw' ! j = sources sw ! j"
    using nth_handle_law(4) [OF han assms(2,3)] sw' by simp
qed

text \<open>The loop over the candidates, for offsets that never come back to the active source.\<close>

lemma try_candidates_law:
  assumes "try_candidates V cfg ctx previous offsets (sw, m, h) = (done, sw', m', h')"
    and "switcher_wf well sw" and "previous < length (sources sw)"
    and "set offsets \<subseteq> {0<..<length (sources sw)}" and "distinct offsets"
  shows "keeps_sw sw h sw' h' \<and>
    (if done then active_index sw' < length (sources sw) \<and> active_index sw' \<noteq> previous \<and>
                  IsConnected V (active_source sw')
     else active_index sw' = active_index sw \<and>
       (\<forall>o' \<in> set offsets. \<not> IsConnected V (sources sw' ! ((previous + o') mod length (sources sw)))) \<and>
       (\<forall>j. j \<notin> (\<lambda>o'. (previous + o') mod length (sources sw)) ` set offsets \<longrightarrow>
            sources sw' ! j = sources sw ! j))"
  using assms
proof (induction offsets arbitrary: sw m h)
  case Nil
  then show ?case by (auto simp: keeps_switcher_refl)
next
  case (Cons off offsets)
  let ?n = "length (sources sw)"
  let ?c = "(previous + off) mod ?n"
  obtain r sw1 m1 h1 where ens: "nth_ensure V cfg ctx ?c (sw, m, h) = (r, sw1, m1, h1)"
    by (cases "nth_ensure V cfg ctx ?c (sw, m, h)")
  have n: "0 < ?n" and off: "0 < off" "off < ?n" using Cons.prems by auto
  then have c: "?c < ?n" by simp
  have ne: "?c \<noteq> previous" using rotate_ne [OF Cons.prems(3) off] .
  note law = nth_ensure_law [OF ens Cons.prems(2) c]
  note keeps = nth_ensure_keeps [OF ens Cons.prems(2) c]
  from law(2) have n1: "length (sources sw1) = ?n" by (simp add: same_shape_def)
  show ?case
  proof (cases r)
    case (Inr u)
    with Cons.prems(1) ens have "done" and to: "take_over V previous ?c (sw1, m1, h1) = (sw', m', h')"
      by (auto simp: Let_def)
    note tlaw = take_over_law [OF to law(1)]
    from tlaw [unfolded n1, OF Cons.prems(3) c] keeps law(5) Inr ne \<open>done\<close> c
    show ?thesis
      by (auto simp: active_source_def intro: keeps_switcher_trans)
  next
    case (Inl e)
    with Cons.prems(1) ens have rest: "try_candidates V cfg ctx previous offsets (sw1, m1, h1) = (done, sw', m', h')"
      by (auto simp: Let_def)
    have inj: "?c \<notin> (\<lambda>o'. (previous + o') mod ?n) ` set offsets"
    proof
      assume "?c \<in> (\<lambda>o'. (previous + o') mod ?n) ` set offsets"
      then obtain o' where "o' \<in> set offsets" and eq: "(previous + off) mod ?n = (previous + o') mod ?n" by auto
      with Cons.prems(4,5) have "o' < ?n" and "o' \<noteq> off" by auto
      with rotate_inj [OF Cons.prems(3) off(2) _ eq] show False by simp
    qed
    have "set offsets \<subseteq> {0<..<?n}" and "distinct offsets" using Cons.prems(4,5) by auto
    note ih_rule = Cons.IH [OF rest law(1), unfolded n1, OF Cons.prems(3) this]
    have ih: "keeps_sw sw1 h1 sw' h' \<and>
      (if done then active_index sw' < ?n \<and> active_index sw' \<noteq> previous \<and> IsConnected V (active_source sw')
       else active_index sw' = active_index sw1 \<and>
         (\<forall>o' \<in> set offsets. \<not> IsConnected V (sources sw' ! ((previous + o') mod ?n))) \<and>
         (\<forall>j. j \<notin> (\<lambda>o'. (previous + o') mod ?n) ` set offsets \<longrightarrow> sources sw' ! j = sources sw1 ! j))"
      by (rule ih_rule)
    have "keeps_sw sw h sw' h'" using keeps ih keeps_switcher_trans by blast
    moreover have "\<not> IsConnected V (sources sw1 ! ?c)" using law(5) Inl by simp
    moreover have "sources sw' ! ?c = sources sw1 ! ?c" if "\<not> done" using ih inj that by simp
    ultimately show ?thesis using ih law(3,4) by (cases "done") simp_all
  qed
qed

end

section \<open>The switcher keeps the contract of its sources\<close>

lemma ensure_notes_frame [simp, frame_simps]:
  "sources (sw\<lparr>ensure_error_kind := k, ensure_error_message := msg\<rparr>) = sources sw"
  "active_index (sw\<lparr>ensure_error_kind := k, ensure_error_message := msg\<rparr>) = active_index sw"
  "switcher_wf well (sw\<lparr>ensure_error_kind := k, ensure_error_message := msg\<rparr>) = switcher_wf well sw"
  by (simp_all add: switcher_wf_def)

lemma active_source_clear [simp]: "active_source (clear_ensure_error sw) = active_source sw"
  "active_source (clear_transfer_error sw) = active_source sw"
  "active_source (set_transfer_error k msg sw) = active_source sw"
  by (simp_all add: active_source_def)

context input_source begin

lemma probe_primary_law:
  assumes "probe_primary V cfg ctx (sw, m, h) = (sw', m', h')" and "switcher_wf well sw"
    and "IsConnected V (active_source sw)"
  shows "keeps_sw sw h sw' h'" and "IsConnected V (active_source sw')"
    and "active_index sw' = active_index sw \<or>
      the_switch_mode sw = SwitchMode.kSerial \<and> switch_primary sw = Some (active_index sw')"
    and "pending_stop_index sw' = pending_stop_index sw"
proof -
  have "keeps_sw sw h sw' h' \<and> IsConnected V (active_source sw') \<and>
    (active_index sw' = active_index sw \<or>
      the_switch_mode sw = SwitchMode.kSerial \<and> switch_primary sw = Some (active_index sw')) \<and>
    pending_stop_index sw' = pending_stop_index sw"
  proof (cases "\<exists>p. switch_primary sw = Some p \<and> policy sw = kPreferredPrimary \<and> p < length (sources sw) \<and> p \<noteq> active_index sw")
    case False
    with assms show ?thesis
      by (auto simp: probe_primary_def keeps_switcher_refl active_source_def split: option.splits if_splits)
  next
    case True
    then obtain p where p: "switch_primary sw = Some p" "policy sw = kPreferredPrimary"
      "p < length (sources sw)" "p \<noteq> active_index sw" by auto
    let ?cfg = "if attempt_id ctx = 0 then cfg\<lparr>io_timeout_ms := 1\<rparr> else cfg"
    obtain r sw1 m1 h1 where ens: "nth_ensure V ?cfg ctx p (sw, m, h) = (r, sw1, m1, h1)"
      by (cases "nth_ensure V ?cfg ctx p (sw, m, h)")
    note law = nth_ensure_law [OF ens assms(2) p(3)]
    note keeps = nth_ensure_keeps [OF ens assms(2) p(3)]
    from law(2) have n1: "length (sources sw1) = length (sources sw)" and md: "the_switch_mode sw1 = the_switch_mode sw"
      by (simp_all add: same_shape_def)
    have act: "IsConnected V (active_source sw1)"
      using law(3,4) p(4) assms(3) by (simp add: active_source_def)
    have pend: "pending_stop_index sw1 = pending_stop_index sw"
      using ens by (auto simp: nth_ensure_def split: prod.splits)
    have step: "probe_primary V cfg ctx (sw, m, h) =
        (case (r, sw1, m1, h1) of
           (Inl e, w1) \<Rightarrow> w1
         | (Inr _, sw1, m1, h1) \<Rightarrow>
             if the_switch_mode sw1 = SwitchMode.kSerial then take_over V (active_index sw1) p (sw1, m1, h1)
             else (sw1\<lparr>delayed_candidate_index := Some p\<rparr>, m1, h1))"
      using p ens by (simp add: probe_primary_def Let_def)
    consider (failed) e where "r = Inl e" | (delayed) u where "r = Inr u" "the_switch_mode sw1 \<noteq> SwitchMode.kSerial"
      | (serial) u where "r = Inr u" "the_switch_mode sw1 = SwitchMode.kSerial"
      by (cases r) auto
    then show ?thesis
    proof cases
      case failed
      with assms(1) step have "sw' = sw1" "h' = h1" by simp_all
      with keeps act law(3) pend show ?thesis by simp
    next
      case delayed
      with assms(1) step have "sw' = sw1\<lparr>delayed_candidate_index := Some p\<rparr>" "h' = h1" by auto
      with keeps act law(3) pend show ?thesis by (simp add: active_source_def)
    next
      case serial
      with assms(1) step have to: "take_over V (active_index sw1) p (sw1, m1, h1) = (sw', m', h')" by simp
      have a: "active_index sw1 < length (sources sw1)" using law(1) by (simp add: switcher_wf_def)
      have "p < length (sources sw1)" using p(3) n1 by simp
      note tl = take_over_law [OF to law(1) a this]
      have "pending_stop_index sw' = pending_stop_index sw1"
        using to by (auto simp: take_over_def nth_handle_def split: prod.splits)
      with tl keeps law(3,5) serial p md pend show ?thesis
        by (auto simp: active_source_def intro: keeps_switcher_trans)
    qed
  qed
  then show "keeps_sw sw h sw' h'" and "IsConnected V (active_source sw')"
    and "active_index sw' = active_index sw \<or>
      the_switch_mode sw = SwitchMode.kSerial \<and> switch_primary sw = Some (active_index sw')"
    and "pending_stop_index sw' = pending_stop_index sw"
    by simp_all
qed

lemma all_rotations:
  assumes "(p :: nat) < n" and "i < n" and "i \<noteq> p"
  obtains a where "0 < a" and "a < n" and "(p + a) mod n = i"
proof
  show "0 < (if p < i then i - p else i + n - p)" and "(if p < i then i - p else i + n - p) < n"
    and "(p + (if p < i then i - p else i + n - p)) mod n = i"
    using assms by (auto simp: mod_if)
qed

lemma switcher_EnsureReady_law:
  assumes "switcher_EnsureReady V cfg ctx (sw, m, h) = (r, sw', m', h')" and "switcher_wf well sw"
  shows "keeps_sw sw h sw' h'" and "r = Inr () \<Longrightarrow> IsConnected V (active_source sw')"
    and "r \<noteq> Inr () \<Longrightarrow> i < length (sources sw') \<Longrightarrow> \<not> IsConnected V (sources sw' ! i)"
proof -
  obtain sw0 m0 h0 where pend: "ApplyPendingStop V (clear_ensure_error sw, m, h) = (sw0, m0, h0)"
    by (cases "ApplyPendingStop V (clear_ensure_error sw, m, h)")
  have wf0: "switcher_wf well (clear_ensure_error sw)" using assms(2) by simp
  note k0 = ApplyPendingStop_law(1) [OF pend wf0]
  note wf0' = keeps_switcher_wf [OF k0]
  let ?a = "active_index sw0"
  have a: "?a < length (sources sw0)" using wf0' by (simp add: switcher_wf_def)
  obtain r1 sw1 m1 h1 where ens: "nth_ensure V cfg ctx ?a (sw0, m0, h0) = (r1, sw1, m1, h1)"
    by (cases "nth_ensure V cfg ctx ?a (sw0, m0, h0)")
  note law = nth_ensure_law [OF ens wf0' a]
  have k1: "keeps_sw sw h sw1 h1"
    using keeps_switcher_trans [OF k0 nth_ensure_keeps [OF ens wf0' a]] by simp
  let ?n = "length (sources sw1)"
  have n: "length (sources sw1) = length (sources sw0)" using law(2) by (simp add: same_shape_def)
  have "keeps_sw sw h sw' h' \<and> (r = Inr () \<longrightarrow> IsConnected V (active_source sw')) \<and>
    (r \<noteq> Inr () \<longrightarrow> (\<forall>i < length (sources sw'). \<not> IsConnected V (sources sw' ! i)))"
  proof (cases r1)
    case (Inr u)
    with assms(1) pend ens have r: "r = Inr ()" and pp: "probe_primary V cfg ctx (sw1, m1, h1) = (sw', m', h')"
      by (auto simp: switcher_EnsureReady_def Let_def)
    have "IsConnected V (active_source sw1)" using law(3,5) Inr by (simp add: active_source_def)
    note pl = probe_primary_law [OF pp law(1) this]
    from keeps_switcher_trans [OF k1 pl(1)] pl(2) r show ?thesis by simp
  next
    case (Inl e)
    let ?sw2 = "sw1\<lparr>ensure_error_kind := LastEnsureErrorKind V (sources sw1 ! ?a),
                    ensure_error_message := LastEnsureErrorMessage V (sources sw1 ! ?a)\<rparr>"
    have down: "\<not> IsConnected V (sources sw1 ! ?a)" using law(5) Inl by simp
    show ?thesis
    proof (cases "1 < ?n")
      case False
      with assms(1) pend ens Inl have "r = Inl e" "sw' = ?sw2" "h' = h1"
        by (auto simp: switcher_EnsureReady_def Let_def)
      moreover have "i = ?a" if "i < ?n" for i using that False a n by linarith
      ultimately show ?thesis using k1 down by auto
    next
      case True
      obtain over sw3 m3 h3 where tr: "try_candidates V cfg ctx ?a [1..<?n] (?sw2, m1, h1) = (over, sw3, m3, h3)"
        by (cases "try_candidates V cfg ctx ?a [1..<?n] (?sw2, m1, h1)")
      have wf2: "switcher_wf well ?sw2" using law(1) by simp
      have pre: "?a < length (sources ?sw2)" "set [1..<?n] \<subseteq> {0<..<length (sources ?sw2)}" "distinct [1..<?n]"
        using a n by auto
      note tl = try_candidates_law [OF tr wf2 pre]
      have k3: "keeps_sw sw h sw3 h3" using keeps_switcher_trans [OF k1, of sw3 h3] tl by simp
      show ?thesis
      proof (cases "over")
        case True
        with assms(1) pend ens Inl \<open>1 < ?n\<close> tr have "r = Inr ()" "sw' = clear_ensure_error sw3" "h' = h3"
          by (auto simp: switcher_EnsureReady_def Let_def)
        with tl True k3 show ?thesis by simp
      next
        case False
        with assms(1) pend ens Inl \<open>1 < ?n\<close> tr have res: "r = Inl e" "sw' = sw3" "h' = h3"
          by (auto simp: switcher_EnsureReady_def Let_def)
        have n3: "length (sources sw3) = ?n" using k3 k1 by (simp add: keeps_switcher_def same_shape_def)
        have "\<not> IsConnected V (sources sw3 ! i)" if lt: "i < ?n" for i
        proof (cases "i = ?a")
          case True
          have "?a \<notin> (\<lambda>o'. (?a + o') mod ?n) ` set [1..<?n]"
          proof
            assume "?a \<in> (\<lambda>o'. (?a + o') mod ?n) ` set [1..<?n]"
            then obtain o' where eq: "?a = (?a + o') mod ?n" and mem: "o' \<in> set [1..<?n]" by (rule imageE)
            from mem have "0 < o'" "o' < ?n" by simp_all
            with rotate_ne [of ?a ?n o'] a n eq [symmetric] show False by simp
          qed
          with tl \<open>\<not> over\<close> have "sources sw3 ! ?a = sources sw1 ! ?a" by simp
          with down True show ?thesis by simp
        next
          case False
          obtain o' where "0 < o'" "o' < ?n" "(?a + o') mod ?n = i"
            by (rule all_rotations [of ?a ?n i]) (use a n lt False in auto)
          moreover from this have "o' \<in> set [1..<?n]" by simp
          moreover have "\<forall>o' \<in> set [1..<?n]. \<not> IsConnected V (sources sw3 ! ((?a + o') mod ?n))"
            using tl \<open>\<not> over\<close> by simp
          ultimately show ?thesis by metis
        qed
        with res k3 n3 show ?thesis by simp
      qed
    qed
  qed
  then show "keeps_sw sw h sw' h'" and "r = Inr () \<Longrightarrow> IsConnected V (active_source sw')"
    and "r \<noteq> Inr () \<Longrightarrow> i < length (sources sw') \<Longrightarrow> \<not> IsConnected V (sources sw' ! i)"
    by simp_all
qed

end

context input_source begin

lemma probe_delayed_law:
  assumes "probe_delayed V cfg (sw, b, c, h) = (res, sw', b', c', h')" and "switcher_wf well sw"
  shows "switcher_wf well sw' \<and> same_shape sw sw' \<and> switcher_held held sw' = switcher_held held sw \<and>
    open_handles h' = open_handles h \<and>
    (case res of
       None \<Rightarrow> active_index sw' = active_index sw \<and> active_source sw' = active_source sw \<and>
         pending_stop_index sw' = pending_stop_index sw
     | Some r \<Rightarrow> receive_status r = InputReceiveStatus.kData \<and>
         the_switch_mode sw = SwitchMode.kDelayed \<and> delayed_candidate_index sw = Some (active_index sw') \<and>
         active_index sw' \<noteq> active_index sw \<and> pending_stop_index sw' = Some (active_index sw) \<and>
         kind (specs sw ! active_index sw') \<noteq> InputEndpointKind.kStdin)"
proof (cases "the_switch_mode sw = SwitchMode.kDelayed \<and>
    (\<exists>d. delayed_candidate_index sw = Some d \<and> d < length (sources sw) \<and> d \<noteq> active_index sw \<and>
      kind (specs sw ! d) \<noteq> InputEndpointKind.kStdin)")
  case False
  with assms have "res = None" and "sw' = sw \<or> sw' = sw\<lparr>delayed_candidate_index := None\<rparr>" and "h' = h"
    by (auto simp: probe_delayed_def split: SwitchMode.splits option.splits if_splits)
  with assms(2) show ?thesis
    by (auto simp: switcher_wf_def same_shape_def switcher_held_def active_source_def)
next
  case True
  then obtain d where d: "delayed_candidate_index sw = Some d" "d < length (sources sw)" "d \<noteq> active_index sw"
    "kind (specs sw ! d) \<noteq> InputEndpointKind.kStdin" and md: "the_switch_mode sw = SwitchMode.kDelayed" by auto
  obtain r sw1 b1 c1 h1 where rec: "nth_receive V (cfg\<lparr>io_timeout_ms := 1\<rparr>) d (sw, b, c, h) = (r, sw1, b1, c1, h1)"
    by (cases "nth_receive V (cfg\<lparr>io_timeout_ms := 1\<rparr>) d (sw, b, c, h)")
  note law = nth_receive_law [OF rec assms(2) d(2)]
  from law(2) have n1: "length (sources sw1) = length (sources sw)" by (simp add: same_shape_def)
  have act: "active_source sw1 = active_source sw" using law(3,6) d(3) by (simp add: active_source_def)
  have pend: "pending_stop_index sw1 = pending_stop_index sw"
    using rec by (auto simp: nth_receive_def split: prod.splits)
  have step: "probe_delayed V cfg (sw, b, c, h) =
      (if receive_status r = InputReceiveStatus.kData then
         (Some r, clear_transfer_error
           (sw1\<lparr>pending_stop_index := Some (active_index sw1), active_index := d,
                delayed_candidate_index := None, switch_count := switch_count sw1 + 1\<rparr>), b1, c1, h1)
       else if LastReceiveErrorKind V (sources sw1 ! d) \<noteq> IoErrorKind.kTimeout
            then (None, sw1\<lparr>delayed_candidate_index := None\<rparr>, b1, c1, h1)
            else (None, sw1, b1, c1, h1))"
    using md d rec by (simp add: probe_delayed_def)
  show ?thesis
  proof (cases "receive_status r = InputReceiveStatus.kData")
    case True
    with assms(1) step have "res = Some r" "h' = h1" and sw': "sw' = clear_transfer_error
           (sw1\<lparr>pending_stop_index := Some (active_index sw1), active_index := d,
                delayed_candidate_index := None, switch_count := switch_count sw1 + 1\<rparr>)"
      by auto
    moreover have "pending_stop_index sw' = Some (active_index sw1)"
      using sw' by (simp_all add: clear_transfer_error_def set_transfer_error_def active_source_def)
    ultimately show ?thesis using True law d n1 md
      by (simp add: switcher_wf_def same_shape_def switcher_held_def clear_transfer_error_def set_transfer_error_def)
  next
    case False
    with assms(1) step have "res = None" "h' = h1" "sw' = sw1 \<or> sw' = sw1\<lparr>delayed_candidate_index := None\<rparr>"
      by (auto split: if_splits)
    with law act pend show ?thesis
      by (auto simp: switcher_wf_def same_shape_def switcher_held_def active_source_def)
  qed
qed

lemma switcher_Receive_law:
  assumes "switcher_Receive V cfg (sw, b, c, h) = (res, sw', b', c', h')" and "switcher_wf well sw"
  shows "switcher_wf well sw'" and "switcher_held held sw' = switcher_held held sw"
    and "open_handles h' = open_handles h"
proof -
  obtain o1 sw1 b1 c1 h1 where pr: "probe_delayed V cfg (clear_transfer_error sw, b, c, h) = (o1, sw1, b1, c1, h1)"
    by (cases "probe_delayed V cfg (clear_transfer_error sw, b, c, h)")
  have "switcher_wf well (clear_transfer_error sw)" using assms(2) by simp
  note pl = probe_delayed_law [OF pr this]
  have "switcher_wf well sw' \<and> switcher_held held sw' = switcher_held held sw \<and> open_handles h' = open_handles h"
  proof (cases o1)
    case (Some r)
    with assms(1) pr have "sw' = sw1" "h' = h1" by (auto simp: switcher_Receive_def)
    with pl Some show ?thesis by simp
  next
    case None
    obtain r2 sw2 b2 c2 h2 where rec: "nth_receive V cfg (active_index sw1) (sw1, b1, c1, h1) = (r2, sw2, b2, c2, h2)"
      by (cases "nth_receive V cfg (active_index sw1) (sw1, b1, c1, h1)")
    from pl have wf1: "switcher_wf well sw1" by simp
    then have "active_index sw1 < length (sources sw1)" by (simp add: switcher_wf_def)
    note law = nth_receive_law [OF rec wf1 this]
    from assms(1) pr None rec have res: "res = r2" "h' = h2" and
      new: "sw' = (if receive_status r2 = InputReceiveStatus.kError
         then set_transfer_error (LastReceiveErrorKind V (sources sw2 ! active_index sw2))
                (LastReceiveErrorMessage V (sources sw2 ! active_index sw2)) sw2
         else clear_transfer_error sw2)"
      by (auto simp: switcher_Receive_def Let_def)
    have "switcher_wf well sw' = switcher_wf well sw2" "switcher_held held sw' = switcher_held held sw2" by (simp_all add: new)
    then show ?thesis using law pl None res by simp
  qed
  then show "switcher_wf well sw'" and "switcher_held held sw' = switcher_held held sw"
    and "open_handles h' = open_handles h"
    by simp_all
qed

lemma switcher_HandleReceiveError_law:
  assumes "switcher_HandleReceiveError V (sw, m, h) = (sw', m', h')" and "switcher_wf well sw"
  shows "keeps_sw sw h sw' h'" and "active_index sw' = NextIndex sw (active_index sw)"
proof -
  obtain sw1 m1 h1 where han: "nth_handle V (active_index sw) (sw, m, h) = (sw1, m1, h1)"
    by (cases "nth_handle V (active_index sw) (sw, m, h)")
  have a: "active_index sw < length (sources sw)" using assms(2) by (simp add: switcher_wf_def)
  note law = nth_handle_law [OF han assms(2) a]
  note keeps = nth_handle_keeps [OF han assms(2) a]
  have n1: "length (sources sw1) = length (sources sw)" using law(2) by (simp add: same_shape_def)
  have ne: "sources sw \<noteq> []" using a by auto
  have "keeps_sw sw h sw' h' \<and> active_index sw' = NextIndex sw (active_index sw)"
  proof (cases "length (sources sw) \<le> 1")
    case True
    then have one: "length (sources sw) = 1" using a by linarith
    with assms(1) han n1 have "sw' = sw1\<lparr>delayed_candidate_index := None\<rparr>" "h' = h1"
      by (auto simp: switcher_HandleReceiveError_def Let_def)
    with keeps law(3) a one ne show ?thesis by (simp add: NextIndex_def)
  next
    case False
    let ?next = "NextIndex sw1 (active_index sw1)"
    have nx: "?next = NextIndex sw (active_index sw)" "?next < length (sources sw)"
      using law(3) n1 ne by (auto simp: NextIndex_def)
    have "sw' = sw1\<lparr>active_index := ?next, delayed_candidate_index := None, switch_count := switch_count sw1 + 1\<rparr>" "h' = h1"
      using False assms(1) han n1 by (auto simp: switcher_HandleReceiveError_def Let_def NextIndex_def)
    with keeps_switcher_index [where d = None and n = "switch_count sw1 + 1", OF keeps nx(2)] nx(1) show ?thesis by simp
  qed
  then show "keeps_sw sw h sw' h'" and "active_index sw' = NextIndex sw (active_index sw)" by simp_all
qed

end

lemma switcher_no_poll:
  "\<not> switcher_NeedsEnsurePoll V sw \<Longrightarrow> IsConnected V (active_source sw)"
  by (auto simp: switcher_NeedsEnsurePoll_def split: if_splits)

lemma InputSwitcher_class_simps [simp]:
  "EnsureReady (InputSwitcher_class V) = switcher_EnsureReady V"
  "Receive (InputSwitcher_class V) = switcher_Receive V"
  "HandleReceiveError (InputSwitcher_class V) = switcher_HandleReceiveError V"
  "IsConnected (InputSwitcher_class V) = (\<lambda>sw. IsConnected V (active_source sw))"
  "NeedsEnsurePoll (InputSwitcher_class V) = switcher_NeedsEnsurePoll V"
  by (simp_all add: InputSwitcher_class_def)

context input_source begin

lemma switcher_is_source:
  "input_source (InputSwitcher_class V) (switcher_wf well) (switcher_held held) clean"
proof (unfold_locales, goal_cases)
  case (1 cfg ctx s m h r s' m' h')
  then show ?case using keeps_switcher_wf [OF switcher_EnsureReady_law(1)] by simp
next
  case (2 cfg ctx s m h u s' m' h')
  then show ?case using switcher_EnsureReady_law(2) by simp
next
  case (3 cfg ctx s m h e s' m' h')
  then have ens: "switcher_EnsureReady V cfg ctx (s, m, h) = (Inl e, s', m', h')" and wf: "switcher_wf well s"
    by simp_all
  have "active_index s' < length (sources s')"
    using keeps_switcher_wf [OF switcher_EnsureReady_law(1) [OF ens wf]] by (simp add: switcher_wf_def)
  from switcher_EnsureReady_law(3) [OF ens wf _ this] show ?case by (simp add: active_source_def)
next
  case (4 cfg ctx s m h r s' m' h' R)
  then show ?case using switcher_EnsureReady_law(1) [of cfg ctx s m h r s' m' h'] by (simp add: keeps_switcher_def)
next
  case (5 cfg s b c h res s' b' c' h')
  then show ?case using switcher_Receive_law(1) by simp
next
  case (6 cfg s b c h res s' b' c' h')
  then show ?case using switcher_Receive_law(2,3) by simp
next
  case (7 s m h s' m' h')
  then show ?case using keeps_switcher_wf [OF switcher_HandleReceiveError_law(1)] by simp
next
  case (8 s m h s' m' h' R)
  then show ?case using switcher_HandleReceiveError_law(1) [of s m h s' m' h'] by (simp add: keeps_switcher_def)
next
  case (9 s)
  then show ?case using switcher_no_poll by simp
qed


end

section \<open>The input of the relay\<close>

text \<open>Either of two classes behind the interface.\<close>

definition either_class ::
  "'a InputSource_methods \<Rightarrow> 'b InputSource_methods \<Rightarrow> ('a + 'b) InputSource_methods" where
  "either_class A B =
     \<lparr>EnsureReady = (\<lambda>cfg ctx (s, w).
        case s of Inl a \<Rightarrow> in_class Inl (EnsureReady A cfg ctx (a, w))
                | Inr b \<Rightarrow> in_class Inr (EnsureReady B cfg ctx (b, w))),
      Receive = (\<lambda>cfg (s, w).
        case s of Inl a \<Rightarrow> in_class Inl (Receive A cfg (a, w))
                | Inr b \<Rightarrow> in_class Inr (Receive B cfg (b, w))),
      HandleReceiveError = (\<lambda>(s, w).
        case s of Inl a \<Rightarrow> map_prod Inl id (HandleReceiveError A (a, w))
                | Inr b \<Rightarrow> map_prod Inr id (HandleReceiveError B (b, w))),
      SessionSocket = case_sum (SessionSocket A) (SessionSocket B),
      IsListening = case_sum (IsListening A) (IsListening B),
      IsConnected = case_sum (IsConnected A) (IsConnected B),
      IsTerminalEof = case_sum (IsTerminalEof A) (IsTerminalEof B),
      NeedsEnsurePoll = case_sum (NeedsEnsurePoll A) (NeedsEnsurePoll B),
      LastReceiveErrorKind = case_sum (LastReceiveErrorKind A) (LastReceiveErrorKind B),
      LastReceiveErrorMessage = case_sum (LastReceiveErrorMessage A) (LastReceiveErrorMessage B),
      LastEnsureErrorKind = case_sum (LastEnsureErrorKind A) (LastEnsureErrorKind B),
      LastEnsureErrorMessage = case_sum (LastEnsureErrorMessage A) (LastEnsureErrorMessage B),
      ActiveInputIndex = case_sum (ActiveInputIndex A) (ActiveInputIndex B),
      InputSwitchCount = case_sum (InputSwitchCount A) (InputSwitchCount B)\<rparr>"

type_synonym RelayInput = "InputSource + InputSource InputSwitcher"

definition RelayInput_class :: "os \<Rightarrow> RelayInput InputSource_methods" where
  "RelayInput_class os = either_class (InputSource_class os) (InputSwitcher_class (InputSource_class os))"

definition BuildRelayInput :: "Config \<Rightarrow> InputEndpointSpec list \<Rightarrow> RelayInput result" where
  "BuildRelayInput cfg ss =
     (if ss = [] then Inl (runtime_error ''no input specs configured'')
      else if length ss = 1 then Inr (Inl (BuildInputSource (hd ss)))
      else Inr (Inr (make_InputSwitcher BuildInputSource cfg ss)))"

lemma either_is_source:
  assumes "input_source A wa ha c" and "input_source B wb hb c"
  shows "input_source (either_class A B) (case_sum wa wb) (case_sum ha hb) c"
proof (unfold_locales, goal_cases)
  case (1 cfg ctx s m h r s' m' h')
  then show ?case
    by (cases s) (auto simp: either_class_def in_class_eq dest: input_source.ensure_wf [OF assms(1)]
        input_source.ensure_wf [OF assms(2)])
next
  case (2 cfg ctx s m h u s' m' h')
  then show ?case
    by (cases s) (auto simp: either_class_def in_class_eq dest: input_source.ensure_connects [OF assms(1)]
        input_source.ensure_connects [OF assms(2)])
next
  case (3 cfg ctx s m h e s' m' h')
  then show ?case
    by (cases s) (auto simp: either_class_def in_class_eq dest: input_source.ensure_fails [OF assms(1)]
        input_source.ensure_fails [OF assms(2)])
next
  case (4 cfg ctx s m h r s' m' h' R)
  then show ?case
    by (cases s) (auto simp: either_class_def in_class_eq intro: input_source.ensure_owned [OF assms(1)]
        input_source.ensure_owned [OF assms(2)])
next
  case (5 cfg s b c h res s' b' c' h')
  then show ?case
    by (cases s) (auto simp: either_class_def in_class_eq dest: input_source.receive_wf [OF assms(1)]
        input_source.receive_wf [OF assms(2)])
next
  case (6 cfg s b c h res s' b' c' h')
  then show ?case
    by (cases s) (auto simp: either_class_def in_class_eq dest: input_source.receive_held [OF assms(1)]
        input_source.receive_held [OF assms(2)])
next
  case (7 s m h s' m' h')
  then show ?case
    by (cases s) (auto simp: either_class_def map_class_eq dest: input_source.handle_wf [OF assms(1)]
        input_source.handle_wf [OF assms(2)])
next
  case (8 s m h s' m' h' R)
  then show ?case
    by (cases s) (auto simp: either_class_def map_class_eq intro: input_source.handle_owned [OF assms(1)]
        input_source.handle_owned [OF assms(2)])
next
  case (9 s)
  then show ?case
    by (cases s) (auto simp: either_class_def dest: input_source.no_poll [OF assms(1)]
        input_source.no_poll [OF assms(2)])
qed

definition relay_input_wf :: "RelayInput \<Rightarrow> bool" where
  "relay_input_wf = case_sum source_wf (switcher_wf source_wf)"

definition relay_input_held :: "RelayInput \<Rightarrow> handle multiset" where
  "relay_input_held = case_sum source_held (switcher_held source_held)"

interpretation relay_input: input_source "RelayInput_class os" relay_input_wf relay_input_held "accepts_timeout os" for os
  unfolding RelayInput_class_def relay_input_wf_def relay_input_held_def
  by (intro either_is_source source.input_source_axioms source.switcher_is_source)

lemma built_source_fresh:
  "source_wf (BuildInputSource spec)" "source_held (BuildInputSource spec) = {#}"
  by (simp_all add: BuildInputSource_def source_wf_def listener_wf_def listener_held_def held_socket_def
      held_fd_def io_errors.defs SrtInputListenerSource.defs SrtInputCallerSource.defs UdpInputSource.defs
      StdinInputSource.defs no_io_errors_def split: InputEndpointKind.split)

lemma built_sources_fresh: "sum_list (map (source_held \<circ> BuildInputSource) ss) = {#}"
  by (induction ss) (simp_all add: built_source_fresh)

lemma make_InputSwitcher_simps [simp]:
  "sources (make_InputSwitcher build cfg ss) = map build ss" "active_index (make_InputSwitcher build cfg ss) = 0"
  "specs (make_InputSwitcher build cfg ss) = ss"
  by (simp_all add: make_InputSwitcher_def io_errors.defs InputSwitcher.defs no_io_errors_def)

lemma built_input_fresh:
  assumes "BuildRelayInput cfg ss = Inr inp"
  shows "relay_input_wf inp" and "relay_input_held inp = {#}"
  using assms built_source_fresh built_sources_fresh
  by (auto simp: BuildRelayInput_def relay_input_wf_def relay_input_held_def switcher_wf_def switcher_held_def
      split: if_splits)

section \<open>Runs\<close>

datatype input_op = ensure_op Config EnsureAttemptContext | receive_op Config "byte list" SRT_MSGCTRL | handle_op

text \<open>One call of a method, and a sequence of them; exceptions are caught by the caller.\<close>

fun input_step :: "'s InputSource_methods \<Rightarrow> input_op \<Rightarrow> 's input_world \<Rightarrow> 's input_world" where
  "input_step V (ensure_op cfg ctx) w = snd (EnsureReady V cfg ctx w)"
| "input_step V (receive_op cfg buffer ctrl) (s, m, h) =
     (case Receive V cfg (s, buffer, ctrl, h) of (res, s', buffer', ctrl', h') \<Rightarrow> (s', m, h'))"
| "input_step V handle_op w = HandleReceiveError V w"

definition input_run :: "'s InputSource_methods \<Rightarrow> input_op list \<Rightarrow> 's input_world \<Rightarrow> 's input_world" where
  "input_run V ops w = fold (input_step V) ops w"

context input_source begin

lemma step_accounts:
  assumes "input_step V op (s, m, h) = (s', m', h')" and "well s" and "clean" and "owned R (held s) h"
  shows "well s' \<and> owned R (held s') h'"
proof (cases op)
  case (ensure_op cfg ctx)
  with assms(1) obtain r where "EnsureReady V cfg ctx (s, m, h) = (r, s', m', h')"
    by (cases "EnsureReady V cfg ctx (s, m, h)") auto
  with assms show ?thesis using ensure_wf ensure_owned by blast
next
  case (receive_op cfg b c)
  with assms(1) obtain res b' c' where rec: "Receive V cfg (s, b, c, h) = (res, s', b', c', h')"
    by (auto split: prod.splits)
  with assms show ?thesis using receive_wf [OF rec] receive_held [OF rec] by (simp add: owned_def)
next
  case handle_op
  with assms show ?thesis using handle_wf handle_owned by auto
qed

lemma run_accounts:
  assumes "input_run V ops (s, m, h) = (s', m', h')" and "well s" and "clean" and "owned R (held s) h"
  shows "well s' \<and> owned R (held s') h'"
  using assms
proof (induction ops arbitrary: s m h)
  case Nil
  then show ?case by (simp add: input_run_def)
next
  case (Cons op ops)
  obtain s1 m1 h1 where st: "input_step V op (s, m, h) = (s1, m1, h1)"
    by (cases "input_step V op (s, m, h)")
  with Cons.prems(1) have "input_run V ops (s1, m1, h1) = (s', m', h')" by (simp add: input_run_def)
  from Cons.IH [OF this] step_accounts [OF st Cons.prems(2-4)] Cons.prems(3) show ?case by simp
qed

end

text \<open>
  C33. As long as libsrt does not refuse \<open>SRTO_RCVTIMEO\<close> on a session it has just handed
  out, the input side loses no socket: build the input
  from any specifications and let it get ready, receive and fail in any order, with exceptions on the
  way and with switching between several sources; what is then open beyond what was open at the start
  is exactly what its sources hold. Without the condition an accepted session can be lost, see
  \<open>refused_timeout_leaks_session\<close> of InputSources.
\<close>

theorem input_holds_what_is_open:
  assumes "BuildRelayInput cfg ss = Inr inp" and "accepts_timeout os"
    and "input_run (RelayInput_class os) ops (inp, m, h) = (inp', m', h')"
  shows "mset (open_handles h') = mset (open_handles h) + relay_input_held inp'"
  using relay_input.run_accounts [OF assms(3) built_input_fresh(1) [OF assms(1)] assms(2),
      of "mset (open_handles h)"] built_input_fresh(2) [OF assms(1)]
  by (simp add: owned_def)
section \<open>What the switcher decides\<close>

text \<open>
  C34. A failed switcher is wholly down and a ready one is up: \<open>EnsureReady\<close> of the switcher over the
  program's sources throws only after every one of its inputs was tried and none is connected, and
  when it returns, the source that is active afterwards is connected and its index is in range.
\<close>

theorem switcher_ensure_outcome:
  assumes "switcher_EnsureReady (InputSource_class os) cfg ctx (sw, m, h) = (r, sw', m', h')"
    and "switcher_wf source_wf sw"
  shows "case r of
      Inl e \<Rightarrow> list_all (\<lambda>s. \<not> source_IsConnected s) (sources sw')
    | Inr _ \<Rightarrow> active_index sw' < length (sources sw') \<and> source_IsConnected (sources sw' ! active_index sw')"
proof (cases r)
  case (Inl e)
  with source.switcher_EnsureReady_law(3) [OF assms] show ?thesis
    by (auto simp: list_all_length InputSource_class_def)
next
  case (Inr u)
  with source.switcher_EnsureReady_law(2) [OF assms] source.switcher_EnsureReady_law(1) [OF assms] show ?thesis
    by (auto simp: InputSource_class_def active_source_def keeps_switcher_def switcher_wf_def)
qed

context input_source begin

lemma failures_rotate_index:
  assumes "switcher_wf well sw"
  shows "(switcher_HandleReceiveError V ^^ k) (sw, m, h) = (sw', m', h') \<Longrightarrow>
    switcher_wf well sw' \<and> length (sources sw') = length (sources sw) \<and>
    active_index sw' = (active_index sw + k) mod length (sources sw)"
proof (induction k arbitrary: sw' m' h')
  case 0
  with assms show ?case by (simp add: switcher_wf_def)
next
  case (Suc k)
  obtain sw1 m1 h1 where it: "(switcher_HandleReceiveError V ^^ k) (sw, m, h) = (sw1, m1, h1)"
    by (cases "(switcher_HandleReceiveError V ^^ k) (sw, m, h)")
  note ih = Suc.IH [OF it]
  from Suc.prems it have step: "switcher_HandleReceiveError V (sw1, m1, h1) = (sw', m', h')" by simp
  note law = switcher_HandleReceiveError_law [OF step conjunct1 [OF ih]]
  have "sources sw1 \<noteq> []" using ih assms by (auto simp: switcher_wf_def)
  with law ih keeps_switcher_wf [OF law(1)] keeps_switcher_length [OF law(1)] show ?case
    by (simp add: NextIndex_def mod_Suc_eq)
qed

end

text \<open>
  Failures go round: after \<open>k\<close> receive failures in a row the active source is the one \<open>k\<close> places
  further in the list of inputs, cyclically, so each input gets its turn within one round and after
  as many failures as there are inputs the first one is active again.
\<close>

theorem failures_rotate:
  assumes "switcher_wf source_wf sw"
    and "(switcher_HandleReceiveError (InputSource_class os) ^^ k) (sw, m, h) = (sw', m', h')"
  shows "active_index sw' = (active_index sw + k) mod length (sources sw)"
  using source.failures_rotate_index [OF assms(1,2)] by simp

text \<open>
  C35. In delayed mode only data moves the relay to the primary: a \<open>Receive\<close> that changes the active
  source returns data, moves to the candidate a ready primary was noted as, and leaves the source
  before it to be stopped next time; it never moves to a primary that is standard input.
\<close>

theorem delayed_switch_needs_data:
  assumes "switcher_Receive (InputSource_class os) cfg (sw, b, c, h) = (res, sw', b', c', h')"
    and "switcher_wf source_wf sw" and "active_index sw' \<noteq> active_index sw"
  shows "receive_status res = InputReceiveStatus.kData \<and> the_switch_mode sw = SwitchMode.kDelayed \<and>
    delayed_candidate_index sw = Some (active_index sw') \<and> pending_stop_index sw' = Some (active_index sw) \<and>
    kind (specs sw ! active_index sw') \<noteq> InputEndpointKind.kStdin"
proof -
  let ?V = "InputSource_class os"
  obtain o1 sw1 b1 c1 h1 where pr: "probe_delayed ?V cfg (clear_transfer_error sw, b, c, h) = (o1, sw1, b1, c1, h1)"
    by (cases "probe_delayed ?V cfg (clear_transfer_error sw, b, c, h)")
  have "switcher_wf source_wf (clear_transfer_error sw)" using assms(2) by simp
  note pl = source.probe_delayed_law [OF pr this]
  show ?thesis
  proof (cases o1)
    case (Some r)
    with assms(1) pr have "sw' = sw1" "res = r" by (auto simp: switcher_Receive_def)
    with pl Some show ?thesis by simp
  next
    case None
    obtain r2 sw2 b2 c2 h2 where rec: "nth_receive ?V cfg (active_index sw1) (sw1, b1, c1, h1) = (r2, sw2, b2, c2, h2)"
      by (cases "nth_receive ?V cfg (active_index sw1) (sw1, b1, c1, h1)")
    from pl have wf1: "switcher_wf source_wf sw1" by simp
    then have "active_index sw1 < length (sources sw1)" by (simp add: switcher_wf_def)
    note law = source.nth_receive_law [OF rec wf1 this]
    from assms(1) pr None rec have "active_index sw' = active_index sw2"
      by (auto simp: switcher_Receive_def Let_def)
    with law(3) pl None assms(3) show ?thesis by simp
  qed
qed

text \<open>
  A source that can be readied is left only for a primary in serial mode: when the active source's
  own attempt succeeds, \<open>EnsureReady\<close> leaves the active index alone, or the mode is serial and it is
  now the configured primary. In delayed mode a standard-input primary therefore never takes over
  from a source that keeps working.
\<close>

theorem ready_source_stays_active:
  assumes "switcher_EnsureReady (InputSource_class os) cfg ctx (sw, m, h) = (r, sw', m', h')"
    and "switcher_wf source_wf sw"
    and "ApplyPendingStop (InputSource_class os) (clear_ensure_error sw, m, h) = w0"
    and "nth_ensure (InputSource_class os) cfg ctx (active_index sw) w0 = (Inr u, w1)"
  shows "r = Inr () \<and> (active_index sw' = active_index sw \<or>
    the_switch_mode sw = SwitchMode.kSerial \<and> switch_primary sw = Some (active_index sw'))"
proof -
  let ?V = "InputSource_class os"
  obtain sw0 m0 h0 where w0: "w0 = (sw0, m0, h0)" by (cases w0)
  obtain sw1 m1 h1 where w1: "w1 = (sw1, m1, h1)" by (cases w1)
  have "switcher_wf source_wf (clear_ensure_error sw)" using assms(2) by simp
  note ap = source.ApplyPendingStop_law [OF assms(3) [unfolded w0] this]
  have wf0: "switcher_wf source_wf sw0" using keeps_switcher_wf [OF ap(1)] .
  have a0: "active_index sw0 = active_index sw" using ap(2) by simp
  have "active_index sw < length (sources sw0)" using wf0 a0 by (simp add: switcher_wf_def)
  note law = source.nth_ensure_law [OF assms(4) [unfolded w0 w1] wf0 this]
  from assms(1,3,4) a0 w0 w1 have r: "r = Inr ()" and pp: "probe_primary ?V cfg ctx (sw1, m1, h1) = (sw', m', h')"
    by (auto simp: switcher_EnsureReady_def Let_def)
  have "IsConnected ?V (active_source sw1)" using law(3,5) a0 by (simp add: active_source_def)
  note pl = source.probe_primary_law(3) [OF pp law(1) this]
  have "the_switch_mode sw1 = the_switch_mode sw" "switch_primary sw1 = switch_primary sw"
    using law(2) ap(1) by (simp_all add: keeps_switcher_def same_shape_def clear_ensure_error_def)
  with pl law(3) a0 r show ?thesis by simp
qed

section \<open>The properties at concrete inputs\<close>

definition example_input_specs :: "InputEndpointSpec list" where
  "example_input_specs =
     [default_InputEndpointSpec\<lparr>kind := InputEndpointKind.kUdpListener\<rparr>,
      default_InputEndpointSpec\<lparr>kind := InputEndpointKind.kSrtCaller, uris := [default_uri]\<rparr>,
      default_InputEndpointSpec\<lparr>kind := InputEndpointKind.kStdin\<rparr>]"

definition example_switcher :: "InputSource InputSwitcher" where
  "example_switcher =
     make_InputSwitcher BuildInputSource (default_Config\<lparr>primary_input_index := Some 1, switch_mode := SwitchMode.kDelayed\<rparr>)
       example_input_specs"

definition calm :: os where "calm = example_os (\<lambda>_. False)"

definition no_ctrl :: SRT_MSGCTRL where "no_ctrl = \<lparr>grpdata = None, grpdata_size = 0\<rparr>"

lemma example_switcher_wf: "switcher_wf source_wf example_switcher"
  by (simp add: example_switcher_def switcher_wf_def built_source_fresh example_input_specs_def)

lemma calm_accepts: "accepts_timeout calm"
  by (simp add: accepts_timeout_def calm_def example_os_def good_reply_def reply_def)

lemma example_input_built: "BuildRelayInput default_Config example_input_specs =
    Inr (Inr (make_InputSwitcher BuildInputSource default_Config example_input_specs))"
  by (simp add: BuildRelayInput_def example_input_specs_def)

definition example_input_run :: "RelayInput input_world" where
  "example_input_run =
     input_run (RelayInput_class calm)
       [ensure_op default_Config example_attempt, receive_op default_Config [0, 0, 0, 0] no_ctrl, handle_op,
        ensure_op default_Config example_attempt]
       (Inr (make_InputSwitcher BuildInputSource default_Config example_input_specs), example_relay_metrics, [])"

theorem input_holds_what_is_open_witness:
  "mset (open_handles (snd (snd example_input_run))) = relay_input_held (fst example_input_run) \<and>
   open_handles (snd (snd example_input_run)) = [srt_sock 107]"
proof
  show "mset (open_handles (snd (snd example_input_run))) = relay_input_held (fst example_input_run)"
    using input_holds_what_is_open [OF example_input_built calm_accepts,
        of _ example_relay_metrics "[]" "fst example_input_run" "fst (snd example_input_run)"
          "snd (snd example_input_run)"]
    by (simp add: example_input_run_def)
  show "open_handles (snd (snd example_input_run)) = [srt_sock 107]"
    by code_simp
qed

definition broken :: os where "broken = example_os (\<lambda>c. case c of call_socket f \<Rightarrow> True | call_srt_create_socket \<Rightarrow> True | _ \<Rightarrow> False)"

theorem switcher_ensure_outcome_witness:
  "source_IsConnected (sources (fst (snd (switcher_EnsureReady (InputSource_class broken) default_Config example_attempt
      (example_switcher, example_relay_metrics, [])))) ! 2)"
proof -
  obtain r sw m h where e: "switcher_EnsureReady (InputSource_class broken) default_Config example_attempt
      (example_switcher, example_relay_metrics, []) = (r, sw, m, h)"
    by (cases "switcher_EnsureReady (InputSource_class broken) default_Config example_attempt
      (example_switcher, example_relay_metrics, [])")
  have "fst (switcher_EnsureReady (InputSource_class broken) default_Config example_attempt
      (example_switcher, example_relay_metrics, [])) = Inr ()"
    by code_simp
  moreover have "active_index (fst (snd (switcher_EnsureReady (InputSource_class broken) default_Config example_attempt
      (example_switcher, example_relay_metrics, [])))) = 2"
    by code_simp
  ultimately show ?thesis using switcher_ensure_outcome [OF e example_switcher_wf] e by simp
qed

theorem failures_rotate_witness:
  "active_index (fst ((switcher_HandleReceiveError (InputSource_class calm) ^^ 4)
     (example_switcher, example_relay_metrics, []))) = 1"
proof -
  obtain sw m h where e: "(switcher_HandleReceiveError (InputSource_class calm) ^^ 4)
     (example_switcher, example_relay_metrics, []) = (sw, m, h)"
    by (cases "(switcher_HandleReceiveError (InputSource_class calm) ^^ 4) (example_switcher, example_relay_metrics, [])")
  from failures_rotate [OF example_switcher_wf e] e show ?thesis
    by (simp add: example_switcher_def example_input_specs_def)
qed

definition readied_switcher :: "InputSource InputSwitcher input_world" where
  "readied_switcher =
     snd (switcher_EnsureReady (InputSource_class calm) default_Config example_attempt
       (example_switcher, example_relay_metrics, []))"

lemma readied_switcher_wf: "switcher_wf source_wf (fst readied_switcher)"
proof -
  obtain r sw m h where e: "switcher_EnsureReady (InputSource_class calm) default_Config example_attempt
      (example_switcher, example_relay_metrics, []) = (r, sw, m, h)"
    by (cases "switcher_EnsureReady (InputSource_class calm) default_Config example_attempt
      (example_switcher, example_relay_metrics, [])")
  from keeps_switcher_wf [OF source.switcher_EnsureReady_law(1) [OF e example_switcher_wf]] e show ?thesis
    by (simp add: readied_switcher_def)
qed

theorem delayed_switch_needs_data_witness:
  "active_index (fst readied_switcher) = 0 \<and>
   (case switcher_Receive (InputSource_class calm) default_Config
           (fst readied_switcher, [], no_ctrl, snd (snd readied_switcher)) of
      (res, sw', w') \<Rightarrow> active_index sw' = 1 \<and> receive_status res = InputReceiveStatus.kData \<and>
        pending_stop_index sw' = Some 0)"
proof -
  obtain res sw' b c h where e: "switcher_Receive (InputSource_class calm) default_Config
           (fst readied_switcher, [], no_ctrl, snd (snd readied_switcher)) = (res, sw', b, c, h)"
    by (cases "switcher_Receive (InputSource_class calm) default_Config
           (fst readied_switcher, [], no_ctrl, snd (snd readied_switcher))")
  have a0: "active_index (fst readied_switcher) = 0" by code_simp
  have "active_index (fst (snd (switcher_Receive (InputSource_class calm) default_Config
           (fst readied_switcher, [], no_ctrl, snd (snd readied_switcher))))) = 1"
    by code_simp
  with e have a1: "active_index sw' = 1" by simp
  with delayed_switch_needs_data [OF e readied_switcher_wf] a0 e show ?thesis by simp
qed

theorem ready_source_stays_active_witness:
  "active_index (fst (snd (switcher_EnsureReady (InputSource_class calm) default_Config example_attempt
      (example_switcher, example_relay_metrics, [])))) = 0"
proof -
  let ?w = "(example_switcher, example_relay_metrics, [])"
  obtain r sw' m h where e: "switcher_EnsureReady (InputSource_class calm) default_Config example_attempt ?w
      = (r, sw', m, h)"
    by (cases "switcher_EnsureReady (InputSource_class calm) default_Config example_attempt ?w")
  let ?w0 = "ApplyPendingStop (InputSource_class calm) (clear_ensure_error example_switcher, example_relay_metrics, [])"
  obtain r1 w1 where n: "nth_ensure (InputSource_class calm) default_Config example_attempt
      (active_index example_switcher) ?w0 = (r1, w1)"
    by (cases "nth_ensure (InputSource_class calm) default_Config example_attempt (active_index example_switcher) ?w0")
  have "fst (nth_ensure (InputSource_class calm) default_Config example_attempt
      (active_index example_switcher) ?w0) = Inr ()"
    by code_simp
  with n have n1: "nth_ensure (InputSource_class calm) default_Config example_attempt
      (active_index example_switcher) ?w0 = (Inr (), w1)" by simp
  have mode: "the_switch_mode example_switcher = SwitchMode.kDelayed" and zero: "active_index example_switcher = 0"
    by code_simp+
  from ready_source_stays_active [OF e example_switcher_wf refl n1] mode zero e show ?thesis by simp
qed

end
