(* ===== verification/OutputSinks.thy ===== *)
theory OutputSinks
  imports EndpointIo
begin

text \<open>
  The output side (\<open>src/src/relay_output_sinks.cpp\<close>): the four kinds of output sink behind the
  interface \<open>OutputSink\<close>. As for the sources, a method takes and returns the object, the metrics and
  the history of library calls. \<open>Send\<close> returns \<open>None\<close> when it does not return, which only the write
  loop of the standard-output sink can do. The contract is the locale \<open>output_sink\<close>.
\<close>

section \<open>The interface\<close>

type_synonym 's ensure_world = "'s \<times> RelayStats \<times> RelayMetrics \<times> history"
type_synonym 's output_world = "'s \<times> RelayMetrics \<times> history"

record ListenerClients =
  clients_active :: int
  clients_accepted :: u64
  clients_dropped_timeout :: u64
  clients_dropped_disconnected :: u64
  clients_dropped_error :: u64
  accepts_rejected :: u64

definition no_clients :: ListenerClients where
  "no_clients = \<lparr>clients_active = 0, clients_accepted = 0, clients_dropped_timeout = 0,
                 clients_dropped_disconnected = 0, clients_dropped_error = 0, accepts_rejected = 0\<rparr>"

record 's OutputSink_methods =
  SinkEnsureReady :: "Config \<Rightarrow> EnsureAttemptContext \<Rightarrow> 's ensure_world \<Rightarrow> unit result \<times> 's ensure_world"
  Send :: "byte list \<Rightarrow> 's output_world \<Rightarrow> (OutputSendResult \<times> 's output_world) option"
  MarkDisconnected :: "'s output_world \<Rightarrow> 's output_world"
  TransportSocket :: "'s \<Rightarrow> int"
  MetricsMode :: "'s \<Rightarrow> OutputMetricsMode"
  SinkIsConnected :: "'s \<Rightarrow> bool"
  SinkIsListening :: "'s \<Rightarrow> bool"
  SinkNeedsEnsurePoll :: "'s \<Rightarrow> bool"
  LastSendErrorKind :: "'s \<Rightarrow> IoErrorKind"
  LastSendErrorMessage :: "'s \<Rightarrow> string"
  SinkLastEnsureErrorKind :: "'s \<Rightarrow> IoErrorKind"
  SinkLastEnsureErrorMessage :: "'s \<Rightarrow> string"
  OutputCount :: "'s \<Rightarrow> nat"
  OutputConnected :: "'s \<Rightarrow> nat \<Rightarrow> bool"
  OutputListening :: "'s \<Rightarrow> nat \<Rightarrow> bool"
  OutputClients :: "'s \<Rightarrow> nat \<Rightarrow> ListenerClients"

definition sent :: "int \<Rightarrow> OutputSendResult" where
  "sent n = \<lparr>send_status = OutputSendStatus.kSent, sent_bytes = n\<rparr>"

definition send_failed :: OutputSendResult where
  "send_failed = \<lparr>send_status = OutputSendStatus.kError, sent_bytes = 0\<rparr>"

definition output_down :: "RelayMetrics \<Rightarrow> RelayMetrics" where
  "output_down m = ResetOutputTrackingMetrics (m\<lparr>output_connected := 0\<rparr>)"

text \<open>One message on one SRT socket with its group data, as a caller and a single client get it.\<close>

definition srt_send ::
  "os \<Rightarrow> bool \<Rightarrow> int \<Rightarrow> byte list \<Rightarrow> 'z io_errors_scheme output_world \<Rightarrow>
   OutputSendResult \<times> 'z io_errors_scheme output_world" where
  "srt_send os has_metrics sock bytes w =
     (case w of (s, m, h) \<Rightarrow>
       (case ask os (call_srt_sendmsg2 sock bytes) h of
          (r, h') \<Rightarrow>
            if rc r = -1 then
              (send_failed,
               set_transfer_error
                 (if IsSrtTimeoutError os h' then IoErrorKind.kTimeout else IoErrorKind.kDisconnected)
                 (SrtLastErrorString os h') s, m, h')
            else
              (sent (rc r), clear_transfer_error s,
               (if has_metrics then UpdateOutputLinkHealthFromMsgCtrl (net os h') (message_ctrl r) m else m), h')))"

section \<open>The SRT caller\<close>

record SrtOutputCallerSink = io_errors +
  oc_uris :: "SrtUri list"
  oc_bonded :: bool
  oc_group_type :: SRT_GROUP_TYPE
  oc_socket :: int
  oc_metrics_set :: bool

definition output_caller_EnsureReady ::
  "os \<Rightarrow> Config \<Rightarrow> EnsureAttemptContext \<Rightarrow> SrtOutputCallerSink ensure_world \<Rightarrow>
   unit result \<times> SrtOutputCallerSink ensure_world" where
  "output_caller_EnsureReady os cfg attempt_ctx w =
     (case w of (s0, stats, m, h) \<Rightarrow>
        (let s = (clear_ensure_error s0)\<lparr>oc_metrics_set := True\<rparr>
         in if oc_socket s \<noteq> SRT_INVALID_SOCK then (Inr (), s, stats, m, h)
            else
              (case (if oc_bonded s
                     then ConnectBondedCallerGroup os (oc_uris s) (oc_group_type s) cfg True h
                     else ConnectSingleCallerSocket os (hd (oc_uris s)) cfg True h) of
                 (Inl e, h1) \<Rightarrow>
                   (case count_reconnect stats m of
                      (stats1, m1) \<Rightarrow>
                        (Inl e, note_srt_ensure_error os e h1 s, stats1, m1\<lparr>output_connected := 0\<rparr>, h1))
               | (Inr sock, h1) \<Rightarrow>
                   (case SrtSocketHolder_Set os (oc_socket s) sock h1 of (held, h2) \<Rightarrow>
                      (Inr (), s\<lparr>oc_socket := held\<rparr>, stats, m\<lparr>output_connected := 1\<rparr>, h2)))))"

definition output_caller_MarkDisconnected ::
  "os \<Rightarrow> SrtOutputCallerSink output_world \<Rightarrow> SrtOutputCallerSink output_world" where
  "output_caller_MarkDisconnected os w =
     (case w of (s, m, h) \<Rightarrow>
        (case SrtSocketHolder_Reset os (oc_socket s) h of (sock, h1) \<Rightarrow>
           (s\<lparr>oc_socket := sock\<rparr>, output_down m, h1)))"

section \<open>The SRT listener and its clients\<close>

record SrtOutputListenerSink = io_errors +
  ol_uris :: "SrtUri list"
  ol_listeners :: "int list"
  sessions :: "int list"
  fanout_enabled :: bool
  fanout_max_clients :: int
  listener_clients_accepted_total :: u64
  listener_clients_dropped_timeout_total :: u64
  listener_clients_dropped_disconnected_total :: u64
  listener_clients_dropped_error_total :: u64
  listener_accept_rejected_max_clients_total :: u64
  ol_metrics_set :: bool

definition kFanoutAcceptPollTimeoutMs :: int where "kFanoutAcceptPollTimeoutMs = 10"

definition ForceCloseSocketNow :: "os \<Rightarrow> int \<Rightarrow> history \<Rightarrow> history" where
  "ForceCloseSocketNow os sock h =
     (if sock = SRT_INVALID_SOCK then h
      else srt_close os sock (snd (ask os (call_srt_setsockflag sock SRTO_LINGER (linger_value True 0)) h)))"

definition RecordClientDrop :: "IoErrorKind \<Rightarrow> SrtOutputListenerSink \<Rightarrow> SrtOutputListenerSink" where
  "RecordClientDrop k s =
     (if k = IoErrorKind.kTimeout then
        s\<lparr>listener_clients_dropped_timeout_total := listener_clients_dropped_timeout_total s + 1\<rparr>
      else if k = IoErrorKind.kDisconnected then
        s\<lparr>listener_clients_dropped_disconnected_total := listener_clients_dropped_disconnected_total s + 1\<rparr>
      else s\<lparr>listener_clients_dropped_error_total := listener_clients_dropped_error_total s + 1\<rparr>)"

definition MaybeAcceptClient ::
  "os \<Rightarrow> Config \<Rightarrow> int \<Rightarrow> SrtOutputListenerSink \<Rightarrow> history \<Rightarrow>
   unit result \<times> SrtOutputListenerSink \<times> history" where
  "MaybeAcceptClient os cfg timeout_ms s h =
     (case ask os (call_srt_accept_bond (ol_listeners s) timeout_ms) h of
        (r, h1) \<Rightarrow>
          if rc r = SRT_INVALID_SOCK then
            (if srt_no_client_yet os h1 \<and> sessions s \<noteq> [] then (Inr (), s, h1)
             else (Inl (runtime_error (''output accept failed: '' @ SrtLastErrorString os h1)), s, h1))
          else if fanout_max_clients s \<le> int (length (sessions s)) then
            (Inr (),
             s\<lparr>listener_accept_rejected_max_clients_total := listener_accept_rejected_max_clients_total s + 1\<rparr>,
             ForceCloseSocketNow os (rc r) h1)
          else
            (case run_options os (rc r)
                    (\<lambda>f. ApplyIntSockOpt f SRTO_SNDTIMEO (io_timeout_ms cfg) ''SRTO_SNDTIMEO'') h1 of
               (Inl e, h2) \<Rightarrow> (Inl e, s, h2)
             | (Inr _, h2) \<Rightarrow>
                 (Inr (),
                  s\<lparr>sessions := sessions s @ [rc r],
                    listener_clients_accepted_total := listener_clients_accepted_total s + 1\<rparr>, h2)))"

definition output_listener_EnsureReady ::
  "os \<Rightarrow> Config \<Rightarrow> EnsureAttemptContext \<Rightarrow> SrtOutputListenerSink ensure_world \<Rightarrow>
   unit result \<times> SrtOutputListenerSink ensure_world" where
  "output_listener_EnsureReady os cfg attempt_ctx w =
     (case w of (s0, stats, m, h) \<Rightarrow>
        (let s = (clear_ensure_error s0)\<lparr>ol_metrics_set := True\<rparr>
         in case (if ol_listeners s = [] then
                    (case open_listeners os cfg ''output'' (ol_uris s) [] h of
                       (r, ls, h1) \<Rightarrow> (r, s\<lparr>ol_listeners := ls\<rparr>, h1))
                  else (Inr (), s, h)) of
              (Inl e, s1, h1) \<Rightarrow> (Inl e, note_srt_ensure_error os e h1 s1, stats, m, h1)
            | (Inr _, s1, h1) \<Rightarrow>
                (case MaybeAcceptClient os cfg
                        (if sessions s1 = [] then io_timeout_ms cfg else kFanoutAcceptPollTimeoutMs) s1 h1 of
                   (Inl e, s2, h2) \<Rightarrow> (Inl e, note_srt_ensure_error os e h2 s2, stats, m, h2)
                 | (Inr _, s2, h2) \<Rightarrow>
                     (Inr (), s2, stats, m\<lparr>output_connected := (if sessions s2 \<noteq> [] then 1 else 0)\<rparr>, h2))))"

text \<open>The loop over the clients in \<open>Send\<close>: what it has found and the positions that failed.\<close>

record fanout_progress =
  sent_any :: bool
  had_error :: bool
  first_sent :: int
  last_error :: "IoErrorKind \<times> string"
  failed_indices :: "nat list"

definition no_progress :: fanout_progress where
  "no_progress =
     \<lparr>sent_any = False, had_error = False, first_sent = 0,
      last_error = (IoErrorKind.kDisconnected, ''all output clients failed''), failed_indices = []\<rparr>"

fun send_each ::
  "os \<Rightarrow> byte list \<Rightarrow> nat \<Rightarrow> int list \<Rightarrow> fanout_progress \<times> SrtOutputListenerSink \<times> history \<Rightarrow>
   fanout_progress \<times> SrtOutputListenerSink \<times> history" where
  "send_each os bytes i [] w = w"
| "send_each os bytes i (sock # socks) (p, s, h) =
     (case ask os (call_srt_sendmsg2 sock bytes) h of
        (r, h1) \<Rightarrow>
          if rc r = -1 then
            (let k = (if IsSrtTimeoutError os h1 then IoErrorKind.kTimeout else IoErrorKind.kDisconnected)
             in send_each os bytes (i + 1) socks
                  (p\<lparr>had_error := True, last_error := (k, SrtLastErrorString os h1),
                     failed_indices := failed_indices p @ [i]\<rparr>, RecordClientDrop k s, h1))
          else
            send_each os bytes (i + 1) socks
              (p\<lparr>sent_any := True, first_sent := (if first_sent p = 0 then rc r else first_sent p)\<rparr>, s, h1))"

text \<open>The loop that closes and erases the failed clients, the last one first.\<close>

fun erase_failed :: "os \<Rightarrow> nat list \<Rightarrow> int list \<Rightarrow> history \<Rightarrow> int list \<times> history" where
  "erase_failed os [] socks h = (socks, h)"
| "erase_failed os (i # is) socks h =
     (if length socks \<le> i then erase_failed os is socks h
      else erase_failed os is (take i socks @ drop (Suc i) socks) (srt_close os (socks ! i) h))"

definition output_listener_Send ::
  "os \<Rightarrow> byte list \<Rightarrow> SrtOutputListenerSink output_world \<Rightarrow>
   OutputSendResult \<times> SrtOutputListenerSink output_world" where
  "output_listener_Send os bytes w =
     (case w of (s, m, h) \<Rightarrow>
        if sessions s = [] then
          (send_failed, set_transfer_error IoErrorKind.kDisconnected ''no connected output clients'' s, m, h)
        else if \<not> fanout_enabled s then srt_send os (ol_metrics_set s) (hd (sessions s)) bytes w
        else
          (case send_each os bytes 0 (sessions s) (no_progress, s, h) of
             (p, s1, h1) \<Rightarrow>
               (case erase_failed os (rev (failed_indices p)) (sessions s1) h1 of
                  (socks, h2) \<Rightarrow>
                    (let s2 = s1\<lparr>sessions := socks\<rparr>
                     in if sent_any p then (sent (first_sent p), clear_transfer_error s2, m, h2)
                        else if had_error p then
                          (send_failed, set_transfer_error (fst (last_error p)) (snd (last_error p)) s2, m, h2)
                        else
                          (send_failed,
                           set_transfer_error IoErrorKind.kDisconnected ''no connected output clients'' s2, m, h2)))))"

definition output_listener_MarkDisconnected ::
  "os \<Rightarrow> SrtOutputListenerSink output_world \<Rightarrow> SrtOutputListenerSink output_world" where
  "output_listener_MarkDisconnected os w =
     (case w of (s, m, h) \<Rightarrow> (s\<lparr>sessions := []\<rparr>, output_down m, CloseSocketList os (sessions s) h))"

definition output_listener_NeedsEnsurePoll :: "SrtOutputListenerSink \<Rightarrow> bool" where
  "output_listener_NeedsEnsurePoll s =
     (if \<not> fanout_enabled s then ol_listeners s \<noteq> [] \<or> sessions s = []
      else if ol_listeners s = [] then True
      else if sessions s = [] then True
      else int (length (sessions s)) < fanout_max_clients s)"

definition output_listener_clients :: "SrtOutputListenerSink \<Rightarrow> ListenerClients" where
  "output_listener_clients s =
     \<lparr>clients_active = int (length (sessions s)),
      clients_accepted = listener_clients_accepted_total s,
      clients_dropped_timeout = listener_clients_dropped_timeout_total s,
      clients_dropped_disconnected = listener_clients_dropped_disconnected_total s,
      clients_dropped_error = listener_clients_dropped_error_total s,
      accepts_rejected = listener_accept_rejected_max_clients_total s\<rparr>"

section \<open>The UDP sink\<close>

record UdpOutputSink = io_errors +
  uo_uri :: UdpUri
  uo_listener :: bool
  uo_socket_fd :: int

definition ApplyUdpOutputOptions :: "os \<Rightarrow> int \<Rightarrow> UdpUri \<Rightarrow> unit io" where
  "ApplyUdpOutputOptions os fd uri =
     io_bind (udp_query_option os fd uri ''reuseaddr'' SO_REUSEADDR ''SO_REUSEADDR'' (io_return ())) (\<lambda>_.
     io_bind (udp_query_option os fd uri ''sndbuf'' SO_SNDBUF ''SO_SNDBUF'' (io_return ())) (\<lambda>_.
     io_bind (udp_query_option os fd uri ''rcvbuf'' SO_RCVBUF ''SO_RCVBUF'' (io_return ())) (\<lambda>_.
     udp_ttl_option os fd uri)))"

definition set_up_udp_output :: "os \<Rightarrow> Config \<Rightarrow> UdpUri \<Rightarrow> bool \<Rightarrow> sockaddr_storage \<Rightarrow> int \<Rightarrow> unit io" where
  "set_up_udp_output os cfg uri is_listener peer_addr fd =
     io_bind (ApplyUdpOutputOptions os fd uri) (\<lambda>_.
     io_bind (SetUdpTimeout os fd (\<lambda>s us. SO_SNDTIMEO s us) ''send'' (io_timeout_ms cfg)) (\<lambda>_.
       if is_listener then
         io_bind (io_call os (call_bind fd peer_addr)) (\<lambda>b. errno_check os (rc b \<noteq> 0) ''UDP bind failed: '')
       else
         io_bind (MaybeBindUdpLocalAddress os fd uri) (\<lambda>_.
         io_bind (io_call os (call_connect fd peer_addr))
           (\<lambda>c. errno_check os (rc c \<noteq> 0) ''UDP connect failed: ''))))"

text \<open>Here \<open>errno\<close> is read before the descriptor is closed.\<close>

definition output_udp_EnsureReady ::
  "os \<Rightarrow> Config \<Rightarrow> EnsureAttemptContext \<Rightarrow> UdpOutputSink ensure_world \<Rightarrow>
   unit result \<times> UdpOutputSink ensure_world" where
  "output_udp_EnsureReady os cfg attempt_ctx w =
     (case w of (s0, stats, m, h) \<Rightarrow>
        (let s = clear_ensure_error s0
         in if 0 \<le> uo_socket_fd s then (Inr (), s, stats, m, h)
            else
              (case ResolveSockaddr os (host (uo_uri s)) (port (uo_uri s)) h of
                 (Inl e, h1) \<Rightarrow> (Inl e, s, stats, m, h1)
               | (Inr peer_addr, h1) \<Rightarrow>
                   (case ask os (call_socket (family_of peer_addr)) h1 of
                      (r, h2) \<Rightarrow>
                        if rc r < 0 then
                          (case count_reconnect stats m of
                             (stats1, m1) \<Rightarrow>
                               (Inl (runtime_error (''failed to create UDP socket: '' @ strerror os h2)),
                                s\<lparr>ensure_error_kind := IoErrorKind.kError, ensure_error_message := strerror os h2\<rparr>,
                                stats1, m1, h2))
                        else
                          (case set_up_udp_output os cfg (uo_uri s) (uo_listener s) peer_addr (rc r) h2 of
                             (Inl e, h3) \<Rightarrow>
                               (case count_reconnect stats m of
                                  (stats1, m1) \<Rightarrow>
                                    (Inl e, note_errno_ensure_error os h3 s, stats1, m1\<lparr>output_connected := 0\<rparr>,
                                     close_fd os (rc r) h3))
                           | (Inr _, h3) \<Rightarrow>
                               (Inr (), s\<lparr>uo_socket_fd := rc r\<rparr>, stats, m\<lparr>output_connected := 1\<rparr>, h3))))))"

definition output_udp_Send ::
  "os \<Rightarrow> byte list \<Rightarrow> UdpOutputSink output_world \<Rightarrow> OutputSendResult \<times> UdpOutputSink output_world" where
  "output_udp_Send os bytes w =
     (case w of (s, m, h) \<Rightarrow>
       (case ask os (call_send (uo_socket_fd s) bytes) h of
          (r, h') \<Rightarrow>
            if rc r < 0 then
              (send_failed, set_transfer_error (errno_kind os h') (strerror os h') s, m, h')
            else (sent (rc r), clear_transfer_error s, m, h')))"

definition output_udp_MarkDisconnected :: "os \<Rightarrow> UdpOutputSink output_world \<Rightarrow> UdpOutputSink output_world" where
  "output_udp_MarkDisconnected os w =
     (case w of (s, m, h) \<Rightarrow>
        (case CloseSocket os (uo_socket_fd s) h of (fd, h1) \<Rightarrow> (s\<lparr>uo_socket_fd := fd\<rparr>, output_down m, h1)))"

section \<open>Standard output\<close>

record StdoutOutputSink = io_errors +
  healthy :: bool

definition stdout_EnsureReady ::
  "Config \<Rightarrow> EnsureAttemptContext \<Rightarrow> StdoutOutputSink ensure_world \<Rightarrow> unit result \<times> StdoutOutputSink ensure_world" where
  "stdout_EnsureReady cfg attempt_ctx w =
     (case w of (s0, stats, m, h) \<Rightarrow>
        (let s = clear_ensure_error s0
         in if \<not> healthy s then
              (Inl (runtime_error ''stdout sink is not writable''),
               s\<lparr>ensure_error_kind := IoErrorKind.kDisconnected,
                 ensure_error_message := ''stdout sink is not writable''\<rparr>, stats, m, h)
            else (Inr (), s, stats, m\<lparr>output_connected := 1\<rparr>, h)))"

text \<open>
  The write loop: \<open>Some n\<close> is the number of bytes written, \<open>None\<close> a failed call. Nothing in the loop
  stops it when a call writes no byte.
\<close>

partial_function (option) write_loop ::
  "os \<Rightarrow> byte list \<Rightarrow> int \<Rightarrow> history \<Rightarrow> (int option \<times> history) option" where
  "write_loop os bytes total_written h =
     (if total_written < int (length bytes) then
        (case ask os (call_write (drop (nat total_written) bytes)) h of
           (r, h') \<Rightarrow>
             if rc r < 0 then Some (None, h') else write_loop os bytes (total_written + rc r) h')
      else Some (Some total_written, h))"

declare write_loop.simps [code]

definition stdout_Send ::
  "os \<Rightarrow> byte list \<Rightarrow> StdoutOutputSink output_world \<Rightarrow>
   (OutputSendResult \<times> StdoutOutputSink output_world) option" where
  "stdout_Send os bytes w =
     (case w of (s, m, h) \<Rightarrow>
       (case write_loop os bytes 0 h of
          None \<Rightarrow> None
        | Some (None, h') \<Rightarrow>
            Some (send_failed, set_transfer_error (errno_kind os h') (strerror os h') s, m, h')
        | Some (Some n, h') \<Rightarrow> Some (sent n, clear_transfer_error s, m, h')))"

definition stdout_MarkDisconnected :: "StdoutOutputSink output_world \<Rightarrow> StdoutOutputSink output_world" where
  "stdout_MarkDisconnected w = (case w of (s, m, h) \<Rightarrow> (s\<lparr>healthy := False\<rparr>, output_down m, h))"

section \<open>Objects of the interface\<close>

datatype OutputSink =
    caller_sink SrtOutputCallerSink
  | listener_sink SrtOutputListenerSink
  | udp_sink UdpOutputSink
  | stdout_sink StdoutOutputSink

definition BuildOutputSink :: "OutputEndpointSpec \<Rightarrow> OutputSink" where
  "BuildOutputSink spec =
     (case kind spec of
        OutputEndpointKind.kStdout \<Rightarrow> stdout_sink (io_errors.extend no_io_errors (StdoutOutputSink.fields True))
      | OutputEndpointKind.kUdpCaller \<Rightarrow>
          udp_sink (io_errors.extend no_io_errors (UdpOutputSink.fields (udp_uri spec) False (-1)))
      | OutputEndpointKind.kUdpListener \<Rightarrow>
          udp_sink (io_errors.extend no_io_errors (UdpOutputSink.fields (udp_uri spec) True (-1)))
      | OutputEndpointKind.kSrtListener \<Rightarrow>
          listener_sink (io_errors.extend no_io_errors
            (SrtOutputListenerSink.fields (uris spec) [] [] (listener_fanout_enabled spec)
               (max 1 (listener_max_clients spec)) 0 0 0 0 0 False))
      | OutputEndpointKind.kSrtCaller \<Rightarrow>
          caller_sink (io_errors.extend no_io_errors
            (SrtOutputCallerSink.fields (uris spec) (bonded spec) (group_type spec) SRT_INVALID_SOCK False)))"

definition sink_EnsureReady ::
  "os \<Rightarrow> Config \<Rightarrow> EnsureAttemptContext \<Rightarrow> OutputSink ensure_world \<Rightarrow> unit result \<times> OutputSink ensure_world" where
  "sink_EnsureReady os cfg attempt_ctx w =
     (case w of (sink, v) \<Rightarrow>
        (case sink of
           caller_sink s \<Rightarrow> in_class caller_sink (output_caller_EnsureReady os cfg attempt_ctx (s, v))
         | listener_sink s \<Rightarrow> in_class listener_sink (output_listener_EnsureReady os cfg attempt_ctx (s, v))
         | udp_sink s \<Rightarrow> in_class udp_sink (output_udp_EnsureReady os cfg attempt_ctx (s, v))
         | stdout_sink s \<Rightarrow> in_class stdout_sink (stdout_EnsureReady cfg attempt_ctx (s, v))))"

definition sink_Send ::
  "os \<Rightarrow> byte list \<Rightarrow> OutputSink output_world \<Rightarrow> (OutputSendResult \<times> OutputSink output_world) option" where
  "sink_Send os bytes w =
     (case w of (sink, v) \<Rightarrow>
        (case sink of
           caller_sink s \<Rightarrow>
             Some (in_class caller_sink (srt_send os (oc_metrics_set s) (oc_socket s) bytes (s, v)))
         | listener_sink s \<Rightarrow> Some (in_class listener_sink (output_listener_Send os bytes (s, v)))
         | udp_sink s \<Rightarrow> Some (in_class udp_sink (output_udp_Send os bytes (s, v)))
         | stdout_sink s \<Rightarrow> map_option (in_class stdout_sink) (stdout_Send os bytes (s, v))))"

definition sink_MarkDisconnected :: "os \<Rightarrow> OutputSink output_world \<Rightarrow> OutputSink output_world" where
  "sink_MarkDisconnected os w =
     (case w of (sink, v) \<Rightarrow>
        (case sink of
           caller_sink s \<Rightarrow> map_prod caller_sink id (output_caller_MarkDisconnected os (s, v))
         | listener_sink s \<Rightarrow> map_prod listener_sink id (output_listener_MarkDisconnected os (s, v))
         | udp_sink s \<Rightarrow> map_prod udp_sink id (output_udp_MarkDisconnected os (s, v))
         | stdout_sink s \<Rightarrow> map_prod stdout_sink id (stdout_MarkDisconnected (s, v))))"

fun sink_TransportSocket :: "OutputSink \<Rightarrow> int" where
  "sink_TransportSocket (caller_sink s) = oc_socket s"
| "sink_TransportSocket (listener_sink s) = (if sessions s = [] then SRT_INVALID_SOCK else hd (sessions s))"
| "sink_TransportSocket (udp_sink s) = SRT_INVALID_SOCK"
| "sink_TransportSocket (stdout_sink s) = SRT_INVALID_SOCK"

fun sink_MetricsMode :: "OutputSink \<Rightarrow> OutputMetricsMode" where
  "sink_MetricsMode (caller_sink s) = OutputMetricsMode.kSrtSocket"
| "sink_MetricsMode (listener_sink s) = OutputMetricsMode.kSrtSocket"
| "sink_MetricsMode (udp_sink s) = OutputMetricsMode.kStdout"
| "sink_MetricsMode (stdout_sink s) = OutputMetricsMode.kStdout"

fun sink_IsConnected :: "OutputSink \<Rightarrow> bool" where
  "sink_IsConnected (caller_sink s) = (oc_socket s \<noteq> SRT_INVALID_SOCK)"
| "sink_IsConnected (listener_sink s) = (sessions s \<noteq> [])"
| "sink_IsConnected (udp_sink s) = (0 \<le> uo_socket_fd s)"
| "sink_IsConnected (stdout_sink s) = healthy s"

fun sink_IsListening :: "OutputSink \<Rightarrow> bool" where
  "sink_IsListening (caller_sink s) = False"
| "sink_IsListening (listener_sink s) = (ol_listeners s \<noteq> [])"
| "sink_IsListening (udp_sink s) = (uo_listener s \<and> 0 \<le> uo_socket_fd s)"
| "sink_IsListening (stdout_sink s) = False"

fun sink_NeedsEnsurePoll :: "OutputSink \<Rightarrow> bool" where
  "sink_NeedsEnsurePoll (listener_sink s) = output_listener_NeedsEnsurePoll s"
| "sink_NeedsEnsurePoll s = (\<not> sink_IsConnected s)"

fun sink_errors :: "OutputSink \<Rightarrow> io_errors" where
  "sink_errors (caller_sink s) = io_errors.truncate s"
| "sink_errors (listener_sink s) = io_errors.truncate s"
| "sink_errors (udp_sink s) = io_errors.truncate s"
| "sink_errors (stdout_sink s) = io_errors.truncate s"

fun sink_clients :: "OutputSink \<Rightarrow> nat \<Rightarrow> ListenerClients" where
  "sink_clients (listener_sink s) i = (if i = 0 then output_listener_clients s else no_clients)"
| "sink_clients s i = no_clients"

definition OutputSink_class :: "os \<Rightarrow> OutputSink OutputSink_methods" where
  "OutputSink_class os =
     \<lparr>SinkEnsureReady = sink_EnsureReady os, Send = sink_Send os, MarkDisconnected = sink_MarkDisconnected os,
      TransportSocket = sink_TransportSocket, MetricsMode = sink_MetricsMode,
      SinkIsConnected = sink_IsConnected, SinkIsListening = sink_IsListening,
      SinkNeedsEnsurePoll = sink_NeedsEnsurePoll,
      LastSendErrorKind = (\<lambda>s. transfer_error_kind (sink_errors s)),
      LastSendErrorMessage = (\<lambda>s. transfer_error_message (sink_errors s)),
      SinkLastEnsureErrorKind = (\<lambda>s. ensure_error_kind (sink_errors s)),
      SinkLastEnsureErrorMessage = (\<lambda>s. ensure_error_message (sink_errors s)),
      OutputCount = (\<lambda>_. 1), OutputConnected = (\<lambda>s i. i = 0 \<and> sink_IsConnected s),
      OutputListening = (\<lambda>s i. i = 0 \<and> sink_IsListening s), OutputClients = sink_clients\<rparr>"

section \<open>The contract\<close>

locale output_sink =
  fixes V :: "'s OutputSink_methods"
    and well :: "'s \<Rightarrow> bool"
    and held :: "'s \<Rightarrow> handle multiset"
    and clean :: bool
  assumes ensure_wf: "SinkEnsureReady V cfg ctx (s, st, m, h) = (r, s', st', m', h') \<Longrightarrow> well s \<Longrightarrow> well s'"
    and ensure_connects: "SinkEnsureReady V cfg ctx (s, st, m, h) = (Inr u, s', st', m', h') \<Longrightarrow> well s \<Longrightarrow>
      SinkIsConnected V s'"
    and ensure_owned: "SinkEnsureReady V cfg ctx (s, st, m, h) = (r, s', st', m', h') \<Longrightarrow> well s \<Longrightarrow> clean \<Longrightarrow>
      owned R (held s) h \<Longrightarrow> owned R (held s') h'"
    and send_wf: "Send V bytes (s, m, h) = Some (res, s', m', h') \<Longrightarrow> well s \<Longrightarrow> well s'"
    and send_owned: "Send V bytes (s, m, h) = Some (res, s', m', h') \<Longrightarrow> well s \<Longrightarrow> clean \<Longrightarrow>
      owned R (held s) h \<Longrightarrow> owned R (held s') h'"
    and send_connected: "Send V bytes (s, m, h) = Some (res, s', m', h') \<Longrightarrow>
      send_status res = OutputSendStatus.kSent \<Longrightarrow> well s \<Longrightarrow> SinkIsConnected V s \<Longrightarrow> SinkIsConnected V s'"
    and mark_wf: "MarkDisconnected V (s, m, h) = (s', m', h') \<Longrightarrow> well s \<Longrightarrow> well s'"
    and mark_owned: "MarkDisconnected V (s, m, h) = (s', m', h') \<Longrightarrow> well s \<Longrightarrow> clean \<Longrightarrow>
      owned R (held s) h \<Longrightarrow> owned R (held s') h'"
    and mark_disconnects: "MarkDisconnected V (s, m, h) = (s', m', h') \<Longrightarrow> \<not> SinkIsConnected V s'"
    and no_poll: "well s \<Longrightarrow> \<not> SinkNeedsEnsurePoll V s \<Longrightarrow> SinkIsConnected V s"
    and ensure_stats: "SinkEnsureReady V cfg ctx (s, st, m, h) = (r, s', st', m', h') \<Longrightarrow>
      \<exists>n. st' = st\<lparr>stats_reconnect_count := n\<rparr>"

section \<open>Sending to every client\<close>

text \<open>Which clients a message fails for, in the order they are sent it.\<close>

fun send_failures :: "os \<Rightarrow> byte list \<Rightarrow> int list \<Rightarrow> history \<Rightarrow> bool list" where
  "send_failures os bytes [] h = []"
| "send_failures os bytes (sock # socks) h =
     (case ask os (call_srt_sendmsg2 sock bytes) h of
        (r, h1) \<Rightarrow> (rc r = -1) # send_failures os bytes socks h1)"

definition keep_where :: "bool list \<Rightarrow> 'a list \<Rightarrow> 'a list" where
  "keep_where fails xs = map fst (filter (\<lambda>(x, f). \<not> f) (zip xs fails))"

lemma keep_where_simps [simp]:
  "keep_where [] xs = []" "keep_where fs [] = []"
  "keep_where (f # fs) (x # xs) = (if f then keep_where fs xs else x # keep_where fs xs)"
  by (simp_all add: keep_where_def)

lemma length_send_failures [simp]: "length (send_failures os bytes socks h) = length socks"
  by (induction socks arbitrary: h) (simp_all split: prod.split)

lemma RecordClientDrop_frame [simp, frame_simps]:
  "sessions (RecordClientDrop k s) = sessions s" "ol_listeners (RecordClientDrop k s) = ol_listeners s"
  "fanout_max_clients (RecordClientDrop k s) = fanout_max_clients s"
  "listener_clients_accepted_total (RecordClientDrop k s) = listener_clients_accepted_total s"
  by (simp_all add: RecordClientDrop_def)

text \<open>Clients dropped so far, for whatever reason.\<close>

definition dropped :: "SrtOutputListenerSink \<Rightarrow> u64" where
  "dropped s = listener_clients_dropped_timeout_total s + listener_clients_dropped_disconnected_total s
     + listener_clients_dropped_error_total s"

lemma dropped_RecordClientDrop [simp]: "dropped (RecordClientDrop k s) = dropped s + 1"
  by (simp add: dropped_def RecordClientDrop_def)

lemma ask_sendmsg_open:
  "ask os (call_srt_sendmsg2 sock bytes) h = (r, h1) \<Longrightarrow> open_handles h1 = open_handles h"
  by (auto simp: ask_def Let_def)

lemma send_each_law:
  assumes "send_each os bytes i socks (p, s, h) = (p', s', h')"
  shows "failed_indices p' = failed_indices p @ map fst (filter snd (enumerate i (send_failures os bytes socks h))) \<and>
    sent_any p' = (sent_any p \<or> False \<in> set (send_failures os bytes socks h)) \<and>
    had_error p' = (had_error p \<or> True \<in> set (send_failures os bytes socks h)) \<and>
    sessions s' = sessions s \<and> ol_listeners s' = ol_listeners s \<and>
    fanout_max_clients s' = fanout_max_clients s \<and>
    listener_clients_accepted_total s' = listener_clients_accepted_total s \<and>
    dropped s' = dropped s + of_nat (count_list (send_failures os bytes socks h) True) \<and>
    open_handles h' = open_handles h"
  using assms
proof (induction socks arbitrary: i p s h)
  case Nil
  then show ?case by simp
next
  case (Cons sock socks)
  obtain r h1 where a: "ask os (call_srt_sendmsg2 sock bytes) h = (r, h1)"
    by (cases "ask os (call_srt_sendmsg2 sock bytes) h")
  note op = ask_sendmsg_open [OF a]
  show ?case
  proof (cases "rc r = -1")
    case True
    let ?k = "if IsSrtTimeoutError os h1 then IoErrorKind.kTimeout else IoErrorKind.kDisconnected"
    have "send_each os bytes (i + 1) socks
        (p\<lparr>had_error := True, last_error := (?k, SrtLastErrorString os h1),
           failed_indices := failed_indices p @ [i]\<rparr>, RecordClientDrop ?k s, h1) = (p', s', h')"
      using Cons.prems a True by (simp add: Let_def)
    from Cons.IH [OF this] True a op show ?thesis by simp
  next
    case False
    with Cons.prems a have "send_each os bytes (i + 1) socks
        (p\<lparr>sent_any := True, first_sent := (if first_sent p = 0 then rc r else first_sent p)\<rparr>, s, h1) = (p', s', h')"
      by simp
    from Cons.IH [OF this] False a op show ?thesis by simp
  qed
qed

lemma erase_failed_owned:
  assumes "erase_failed os is socks h = (socks', h')" and "SRT_INVALID_SOCK \<notin> set socks"
    and "owned R (held_sockets socks) h"
  shows "owned R (held_sockets socks') h' \<and> set socks' \<subseteq> set socks \<and> length socks' \<le> length socks"
  using assms
proof (induction "is" arbitrary: socks h)
  case Nil
  then show ?case by simp
next
  case (Cons i "is")
  show ?case
  proof (cases "length socks \<le> i")
    case True
    with Cons show ?thesis by simp
  next
    case False
    let ?rest = "take i socks @ drop (Suc i) socks"
    have split: "socks = take i socks @ socks ! i # drop (Suc i) socks"
      using False by (simp add: id_take_nth_drop)
    have "held_sockets socks = held_sockets ?rest + {#srt_sock (socks ! i)#}"
      using arg_cong [OF split, of held_sockets] by simp
    with Cons.prems(3) have "owned (R + held_sockets ?rest) {#srt_sock (socks ! i)#} h"
      by (simp add: owned_def)
    from srt_close_owned [OF this, of os] have own: "owned R (held_sockets ?rest) (srt_close os (socks ! i) h)"
      by (simp add: owned_def)
    have sub: "set ?rest \<subseteq> set socks" by (auto dest: in_set_takeD in_set_dropD)
    with Cons.prems(2) have inv: "SRT_INVALID_SOCK \<notin> set ?rest" by blast
    from Cons.prems(1) False have "erase_failed os is ?rest (srt_close os (socks ! i) h) = (socks', h')" by simp
    from Cons.IH [OF this inv own] sub False show ?thesis by auto
  qed
qed

lemma enumerate_increasing: "sorted_wrt (\<lambda>x y. fst x < fst y) (enumerate n xs)"
  by (induction xs arbitrary: n) (auto simp: in_set_enumerate_eq)

lemma erase_failed_enumerate:
  assumes "length fails = length xs"
  shows "fst (erase_failed os (rev (map fst (filter snd (enumerate (length pre) fails)))) (pre @ xs) h)
    = pre @ keep_where fails xs"
  using assms
proof (induction xs arbitrary: pre fails h rule: rev_induct)
  case Nil
  then show ?case by simp
next
  case (snoc x xs)
  from snoc.prems obtain fs f where fails: "fails = fs @ [f]" and len: "length fs = length xs"
    by (cases fails rule: rev_cases) auto
  have keep: "keep_where (fs @ [f]) (xs @ [x]) = keep_where fs xs @ (if f then [] else [x])"
    using len by (simp add: keep_where_def)
  have enum: "rev (map fst (filter snd (enumerate (length pre) (fs @ [f])))) =
      (if f then [length pre + length xs] else []) @ rev (map fst (filter snd (enumerate (length pre) fs)))"
    by (simp add: enumerate_append_eq len)
  have all: "\<forall>j \<in> set (rev (map fst (filter snd (enumerate (length pre) fs)))). j < length pre + length xs"
    using len by (auto simp: enumerate_eq_zip set_zip)
  have tail: "fst (erase_failed os is (ys @ [x]) h1) = fst (erase_failed os is ys h1) @ [x]"
    if "\<forall>j \<in> set is. j < length ys" "sorted_wrt (>) is" for "is" ys h1
    using that
  proof (induction "is" arbitrary: ys h1)
    case Nil
    then show ?case by simp
  next
    case (Cons j "is")
    then have j: "j < length ys" by simp
    have "\<forall>k \<in> set is. k < length (take j ys @ drop (Suc j) ys)"
      using Cons.prems j by auto
    from Cons.IH [OF this] Cons.prems j show ?case by (simp add: nth_append)
  qed
  show ?case
  proof (cases f)
    case True
    then show ?thesis
      unfolding fails enum keep using snoc.IH [OF len, of pre] by simp
  next
    case False
    have "sorted_wrt (>) (rev (map fst (filter snd (enumerate (length pre) fs))))"
      using sorted_wrt_filter [OF enumerate_increasing] by (simp add: sorted_wrt_rev sorted_wrt_map)
    from tail [of _ "pre @ xs", OF _ this] all False snoc.IH [OF len, of pre] show ?thesis
      unfolding fails enum keep by simp
  qed
qed

section \<open>Every sink keeps the contract\<close>

definition output_listener_wf :: "SrtOutputListenerSink \<Rightarrow> bool" where
  "output_listener_wf s \<longleftrightarrow>
     SRT_INVALID_SOCK \<notin> set (ol_listeners s) \<and> SRT_INVALID_SOCK \<notin> set (sessions s) \<and>
     1 \<le> fanout_max_clients s \<and> int (length (sessions s)) \<le> fanout_max_clients s"

definition output_listener_held :: "SrtOutputListenerSink \<Rightarrow> handle multiset" where
  "output_listener_held s = held_sockets (ol_listeners s) + held_sockets (sessions s)"

text \<open>libsrt does not refuse the send timeout of a client it has just handed out.\<close>

definition accepts_send_timeout :: "os \<Rightarrow> bool" where
  "accepts_send_timeout os \<longleftrightarrow>
     (\<forall>ls t h rep h1 v. ask os (call_srt_accept_bond ls t) h = (rep, h1) \<and> rc rep \<noteq> SRT_INVALID_SOCK \<longrightarrow>
        rc (answer os h1 (call_srt_setsockflag (rc rep) SRTO_SNDTIMEO v)) \<noteq> -1)"

lemma output_frame [simp, frame_simps]:
  "ol_listeners (note_srt_ensure_error os e h s) = ol_listeners s"
  "sessions (note_srt_ensure_error os e h s) = sessions s"
  "fanout_max_clients (note_srt_ensure_error os e h s) = fanout_max_clients s"
  "ol_listeners (clear_ensure_error s) = ol_listeners s" "sessions (clear_ensure_error s) = sessions s"
  "fanout_max_clients (clear_ensure_error s) = fanout_max_clients s"
  "ol_uris (clear_ensure_error s) = ol_uris s" "fanout_enabled (clear_ensure_error s) = fanout_enabled s"
  "ol_listeners (set_transfer_error k msg s) = ol_listeners s"
  "sessions (set_transfer_error k msg s) = sessions s"
  "fanout_max_clients (set_transfer_error k msg s) = fanout_max_clients s"
  "oc_socket (note_srt_ensure_error os e h c) = oc_socket c" "oc_socket (clear_ensure_error c) = oc_socket c"
  "oc_socket (set_transfer_error k msg c) = oc_socket c"
  "uo_socket_fd (note_errno_ensure_error os h u) = uo_socket_fd u"
  "uo_socket_fd (clear_ensure_error u) = uo_socket_fd u"
  "uo_socket_fd (set_transfer_error k msg u) = uo_socket_fd u"
  "healthy (clear_ensure_error i) = healthy i" "healthy (set_transfer_error k msg i) = healthy i"
  by (simp_all add: note_srt_ensure_error_def clear_ensure_error_def set_transfer_error_def
      note_errno_ensure_error_def)

lemma output_clear_frame [simp, frame_simps]:
  "ol_listeners (clear_transfer_error s) = ol_listeners s" "sessions (clear_transfer_error s) = sessions s"
  "fanout_max_clients (clear_transfer_error s) = fanout_max_clients s"
  "oc_socket (clear_transfer_error c) = oc_socket c" "uo_socket_fd (clear_transfer_error u) = uo_socket_fd u"
  "healthy (clear_transfer_error i) = healthy i"
  by (simp_all add: clear_transfer_error_def)

text \<open>The counters of a listener, which error notes leave alone.\<close>

definition client_counters :: "SrtOutputListenerSink \<Rightarrow> u64 \<times> u64 \<times> u64" where
  "client_counters s =
     (listener_clients_accepted_total s, dropped s, listener_accept_rejected_max_clients_total s)"

lemma client_counters_frame [simp, frame_simps]:
  "client_counters (note_srt_ensure_error os e h s) = client_counters s"
  "client_counters (clear_ensure_error s) = client_counters s"
  "client_counters (set_transfer_error k msg s) = client_counters s"
  "client_counters (clear_transfer_error s) = client_counters s"
  "client_counters (s\<lparr>ol_metrics_set := b\<rparr>) = client_counters s"
  "client_counters (s\<lparr>ol_listeners := ls\<rparr>) = client_counters s"
  "client_counters (s\<lparr>sessions := ss\<rparr>) = client_counters s"
  by (simp_all add: client_counters_def dropped_def note_srt_ensure_error_def clear_ensure_error_def
      set_transfer_error_def clear_transfer_error_def)

lemma ForceClose_owned:
  "owned R {#srt_sock s#} h \<Longrightarrow> s \<noteq> SRT_INVALID_SOCK \<Longrightarrow> owned R {#} (ForceCloseSocketNow os s h)"
  by (simp add: ForceCloseSocketNow_def owned_def srt_close_def io_call_def ask_def Let_def)

text \<open>Accepting: the client that was added, if one was, and what stays the same.\<close>

lemma MaybeAcceptClient_law:
  assumes "MaybeAcceptClient os cfg t s h = (r, s', h')" and "output_listener_wf s"
  shows "output_listener_wf s'" and "r = Inr () \<Longrightarrow> sessions s' \<noteq> []"
    and "ol_listeners s' = ol_listeners s"
    and "accepts_send_timeout os \<Longrightarrow> owned R (held_sockets (sessions s)) h \<Longrightarrow> owned R (held_sockets (sessions s')) h'"
    and "\<exists>new. sessions s' = sessions s @ new \<and> length new \<le> 1 \<and>
      listener_clients_accepted_total s' = listener_clients_accepted_total s + of_nat (length new) \<and>
      dropped s' = dropped s"
proof -
  obtain rep h1 where a: "ask os (call_srt_accept_bond (ol_listeners s) t) h = (rep, h1)"
    by (cases "ask os (call_srt_accept_bond (ol_listeners s) t) h")
  then have h1: "open_handles h1 =
      (if rc rep = SRT_INVALID_SOCK then open_handles h else srt_sock (rc rep) # open_handles h)"
    by (auto simp: ask_def Let_def)
  let ?opt = "run_options os (rc rep) (\<lambda>f. ApplyIntSockOpt f SRTO_SNDTIMEO (io_timeout_ms cfg) ''SRTO_SNDTIMEO'') h1"
  consider (none) "rc rep = SRT_INVALID_SOCK" "s' = s" "h' = h1" "r = Inr () \<longrightarrow> sessions s \<noteq> []"
    | (full) "rc rep \<noteq> SRT_INVALID_SOCK" "fanout_max_clients s \<le> int (length (sessions s))" "r = Inr ()"
        "h' = ForceCloseSocketNow os (rc rep) h1"
        "s' = s\<lparr>listener_accept_rejected_max_clients_total := listener_accept_rejected_max_clients_total s + 1\<rparr>"
    | (unset) e where "rc rep \<noteq> SRT_INVALID_SOCK" "fst ?opt = Inl e" "r = Inl e" "s' = s"
    | (new) h2 where "rc rep \<noteq> SRT_INVALID_SOCK" "\<not> fanout_max_clients s \<le> int (length (sessions s))"
        "?opt = (Inr (), h2)" "r = Inr ()" "h' = h2"
        "s' = s\<lparr>sessions := sessions s @ [rc rep],
               listener_clients_accepted_total := listener_clients_accepted_total s + 1\<rparr>"
    using assms(1) a
    by (auto simp: MaybeAcceptClient_def split: if_splits sum.splits prod.splits)
  note cases = this
  show "output_listener_wf s'" and "ol_listeners s' = ol_listeners s"
    using cases assms(2) by (cases; auto simp: output_listener_wf_def)+
  show "sessions s' \<noteq> []" if "r = Inr ()"
    using cases that assms(2) by cases (auto simp: output_listener_wf_def)
  show "\<exists>new. sessions s' = sessions s @ new \<and> length new \<le> 1 \<and>
      listener_clients_accepted_total s' = listener_clients_accepted_total s + of_nat (length new) \<and>
      dropped s' = dropped s"
    using cases
  proof cases
    case (new h2)
    then show ?thesis by (intro exI [of _ "[rc rep]"]) (simp add: dropped_def)
  qed (auto simp: dropped_def intro: exI [of _ "[]"])
  show "owned R (held_sockets (sessions s')) h'"
    if ok: "accepts_send_timeout os" and own: "owned R (held_sockets (sessions s)) h"
    using cases
  proof cases
    case none
    with own h1 show ?thesis by (simp add: owned_def)
  next
    case full
    have "owned (R + held_sockets (sessions s)) {#srt_sock (rc rep)#} h1"
      using own h1 full(1) by (simp add: owned_def)
    from ForceClose_owned [OF this full(1), of os] full show ?thesis by (simp add: owned_def)
  next
    case (unset e)
    then have "rc (answer os h1 (call_srt_setsockflag (rc rep) SRTO_SNDTIMEO (int_value (io_timeout_ms cfg)))) = -1"
      by (auto simp: run_options_def ApplyIntSockOpt_def set_option_def flag_answer_def
          split: prod.splits option.splits if_splits)
    with ok a unset(1) show ?thesis unfolding accepts_send_timeout_def by blast
  next
    case (new h2)
    have "open_handles h2 = open_handles h1"
      using keepsD [OF keeps_options, of os "rc rep" "\<lambda>f. ApplyIntSockOpt f SRTO_SNDTIMEO (io_timeout_ms cfg) ''SRTO_SNDTIMEO''" h1]
        new(3) by simp
    with own h1 new show ?thesis by (simp add: owned_def)
  qed
qed

lemma output_listener_EnsureReady_law:
  assumes "output_listener_EnsureReady os cfg ctx (s, st, m, h) = (r, s', st', m', h')" and "output_listener_wf s"
  shows "output_listener_wf s'" and "r = Inr () \<Longrightarrow> sessions s' \<noteq> []"
    and "accepts_send_timeout os \<Longrightarrow> owned R (output_listener_held s) h \<Longrightarrow> owned R (output_listener_held s') h'"
    and "\<exists>new. sessions s' = sessions s @ new \<and> length new \<le> 1 \<and>
      listener_clients_accepted_total s' = listener_clients_accepted_total s + of_nat (length new) \<and>
      dropped s' = dropped s"
proof -
  let ?s = "(clear_ensure_error s)\<lparr>ol_metrics_set := True\<rparr>"
  let ?open = "if ol_listeners ?s = [] then
                    (case open_listeners os cfg ''output'' (ol_uris ?s) [] h of
                       (r, ls, h1) \<Rightarrow> (r, ?s\<lparr>ol_listeners := ls\<rparr>, h1))
                  else (Inr (), ?s, h)"
  obtain r1 s1 h1 where op: "?open = (r1, s1, h1)" by (cases ?open)
  have wf1: "output_listener_wf s1" and ses: "sessions s1 = sessions s" and cnt: "client_counters s1 = client_counters s"
    and own1: "owned R (held_sockets (ol_listeners s)) h \<Longrightarrow> owned R (held_sockets (ol_listeners s1)) h1" for R
  proof -
    have "output_listener_wf s1 \<and> sessions s1 = sessions s \<and> client_counters s1 = client_counters s \<and>
      (\<forall>R. owned R (held_sockets (ol_listeners s)) h \<longrightarrow> owned R (held_sockets (ol_listeners s1)) h1)"
    proof (cases "ol_listeners s = []")
      case False
      with op assms(2) show ?thesis by (auto simp: output_listener_wf_def)
    next
      case True
      obtain rr ls hh where ol: "open_listeners os cfg ''output'' (ol_uris ?s) [] h = (rr, ls, hh)"
        by (cases "open_listeners os cfg ''output'' (ol_uris ?s) [] h")
      with op True have "s1 = ?s\<lparr>ol_listeners := ls\<rparr>" "h1 = hh" by auto
      with open_listeners_owned [OF ol] assms(2) True show ?thesis
        by (auto simp: output_listener_wf_def owned_def)
    qed
    then show "output_listener_wf s1" and "sessions s1 = sessions s" and "client_counters s1 = client_counters s"
      and "owned R (held_sockets (ol_listeners s)) h \<Longrightarrow> owned R (held_sockets (ol_listeners s1)) h1"
      by simp_all
  qed
  have all: "output_listener_wf s' \<and> (r = Inr () \<longrightarrow> sessions s' \<noteq> []) \<and>
    (accepts_send_timeout os \<longrightarrow> (\<forall>R. owned R (output_listener_held s) h \<longrightarrow> owned R (output_listener_held s') h')) \<and>
    (\<exists>new. sessions s' = sessions s @ new \<and> length new \<le> 1 \<and>
      listener_clients_accepted_total s' = listener_clients_accepted_total s + of_nat (length new) \<and>
      dropped s' = dropped s)"
  proof (cases r1)
    case (Inl e)
    with assms(1) op have res: "r = Inl e" "s' = note_srt_ensure_error os e h1 s1" "h' = h1"
      by (auto simp: output_listener_EnsureReady_def Let_def)
    have "client_counters s' = client_counters s" using res cnt by simp
    then have "listener_clients_accepted_total s' = listener_clients_accepted_total s \<and> dropped s' = dropped s"
      by (simp add: client_counters_def)
    moreover have "owned R (output_listener_held s') h'" if "owned R (output_listener_held s) h" for R
      using own1 [of "R + held_sockets (sessions s)"] that res ses
      by (simp add: output_listener_held_def owned_def ac_simps)
    ultimately show ?thesis using res wf1 ses by (auto simp: output_listener_wf_def)
  next
    case (Inr u)
    let ?t = "if sessions s1 = [] then io_timeout_ms cfg else kFanoutAcceptPollTimeoutMs"
    obtain r2 s2 h2 where ac: "MaybeAcceptClient os cfg ?t s1 h1 = (r2, s2, h2)"
      by (cases "MaybeAcceptClient os cfg ?t s1 h1")
    note law = MaybeAcceptClient_law [OF ac wf1]
    from assms(1) op Inr ac have res: "r = r2" "h' = h2" and
      same: "sessions s' = sessions s2" "ol_listeners s' = ol_listeners s2"
        "fanout_max_clients s' = fanout_max_clients s2" "client_counters s' = client_counters s2"
      by (cases r2; auto simp: output_listener_EnsureReady_def Let_def)+
    have own2: "owned R (output_listener_held s') h'"
      if ok: "accepts_send_timeout os" and own: "owned R (output_listener_held s) h" for R
    proof -
      have "owned (R + held_sockets (sessions s)) (held_sockets (ol_listeners s)) h"
        using own by (simp add: output_listener_held_def owned_def ac_simps)
      from own1 [OF this] have "owned (R + held_sockets (ol_listeners s1)) (held_sockets (sessions s1)) h1"
        by (simp add: owned_def ses ac_simps)
      from law(4) [OF ok this] show ?thesis
        by (simp add: output_listener_held_def owned_def same law(3) res ac_simps)
    qed
    obtain new where new: "sessions s2 = sessions s1 @ new" "length new \<le> 1"
      "listener_clients_accepted_total s2 = listener_clients_accepted_total s1 + of_nat (length new)"
      "dropped s2 = dropped s1"
      using law(5) by auto
    have "\<exists>new. sessions s' = sessions s @ new \<and> length new \<le> 1 \<and>
      listener_clients_accepted_total s' = listener_clients_accepted_total s + of_nat (length new) \<and>
      dropped s' = dropped s"
      using new same cnt ses by (intro exI [of _ new]) (simp add: client_counters_def)
    moreover have "output_listener_wf s'" using law(1) same by (simp add: output_listener_wf_def)
    ultimately show ?thesis using own2 law(2) res same by simp
  qed
  then show "output_listener_wf s'" and "r = Inr () \<Longrightarrow> sessions s' \<noteq> []"
    and "accepts_send_timeout os \<Longrightarrow> owned R (output_listener_held s) h \<Longrightarrow> owned R (output_listener_held s') h'"
    and "\<exists>new. sessions s' = sessions s @ new \<and> length new \<le> 1 \<and>
      listener_clients_accepted_total s' = listener_clients_accepted_total s + of_nat (length new) \<and>
      dropped s' = dropped s"
    by blast+
qed

lemma srt_send_frame:
  assumes "srt_send os b sock bytes (s, m, h) = (res, s', m', h')"
  shows "(\<exists>k msg. s' = set_transfer_error k msg s) \<and> open_handles h' = open_handles h \<and>
    (send_status res = OutputSendStatus.kSent \<longleftrightarrow> rc (answer os h (call_srt_sendmsg2 sock bytes)) \<noteq> -1)"
  using assms
  by (auto simp: srt_send_def ask_def Let_def clear_transfer_error_def sent_def send_failed_def split: if_splits)

lemma send_status_simps [simp]:
  "send_status (sent n) = OutputSendStatus.kSent" "sent_bytes (sent n) = n"
  "send_status send_failed = OutputSendStatus.kError"
  by (simp_all add: sent_def send_failed_def)

text \<open>A message to every client keeps exactly the clients it did not fail for.\<close>

lemma fanout_Send_law:
  assumes "output_listener_Send os bytes (s, m, h) = (res, s', m', h')" and "fanout_enabled s" and "sessions s \<noteq> []"
  shows "sessions s' = keep_where (send_failures os bytes (sessions s) h) (sessions s)"
    and "send_status res = OutputSendStatus.kSent \<longleftrightarrow> False \<in> set (send_failures os bytes (sessions s) h)"
    and "dropped s' = dropped s + of_nat (count_list (send_failures os bytes (sessions s) h) True)"
    and "ol_listeners s' = ol_listeners s" and "fanout_max_clients s' = fanout_max_clients s"
    and "listener_clients_accepted_total s' = listener_clients_accepted_total s"
    and "m' = m"
    and "SRT_INVALID_SOCK \<notin> set (sessions s) \<Longrightarrow> owned R (held_sockets (sessions s)) h \<Longrightarrow>
      owned R (held_sockets (sessions s')) h'"
proof -
  let ?fails = "send_failures os bytes (sessions s) h"
  obtain p s1 h1 where se: "send_each os bytes 0 (sessions s) (no_progress, s, h) = (p, s1, h1)"
    by (cases "send_each os bytes 0 (sessions s) (no_progress, s, h)")
  note law = send_each_law [OF se]
  obtain socks h2 where er: "erase_failed os (rev (failed_indices p)) (sessions s1) h1 = (socks, h2)"
    by (cases "erase_failed os (rev (failed_indices p)) (sessions s1) h1")
  have idx: "failed_indices p = map fst (filter snd (enumerate 0 ?fails))"
    using law by (simp add: no_progress_def)
  have socks: "socks = keep_where ?fails (sessions s)"
    using erase_failed_enumerate [where pre = "[]" and fails = ?fails and xs = "sessions s" and h = h1 and os = os] er idx law by simp
  have any: "sent_any p \<longleftrightarrow> False \<in> set ?fails" and err: "had_error p \<longleftrightarrow> True \<in> set ?fails"
    using law by (simp_all add: no_progress_def)
  from assms se er have res: "h' = h2" "m' = m" "(send_status res = OutputSendStatus.kSent) = sent_any p"
    and s': "\<exists>k msg. s' = set_transfer_error k msg (s1\<lparr>sessions := socks\<rparr>)"
    by (auto simp: output_listener_Send_def Let_def clear_transfer_error_def split: if_splits)
  from s' obtain k msg where s': "s' = set_transfer_error k msg (s1\<lparr>sessions := socks\<rparr>)" by auto
  show "sessions s' = keep_where ?fails (sessions s)" using s' socks by simp
  show "(send_status res = OutputSendStatus.kSent) \<longleftrightarrow> False \<in> set ?fails" using res any by simp
  have "client_counters s' = client_counters s1" using s' by simp
  then show "dropped s' = dropped s + of_nat (count_list ?fails True)"
    and "listener_clients_accepted_total s' = listener_clients_accepted_total s"
    using law by (simp_all add: client_counters_def)
  show "ol_listeners s' = ol_listeners s" and "fanout_max_clients s' = fanout_max_clients s" and "m' = m"
    using s' law res by simp_all
  show "owned R (held_sockets (sessions s')) h'"
    if "SRT_INVALID_SOCK \<notin> set (sessions s)" and "owned R (held_sockets (sessions s)) h"
    using erase_failed_owned [OF er] that law s' res(1) by (simp add: owned_def)
qed

lemma set_keep_where: "set (keep_where fails xs) \<subseteq> set xs"
  by (auto simp: keep_where_def dest: set_zip_leftD)

lemma length_keep_where: "length (keep_where fails xs) \<le> length xs"
  using length_filter_le [of "\<lambda>(x, f). \<not> f" "zip xs fails"] by (simp add: keep_where_def)

lemma keep_where_nonempty:
  "length fails = length xs \<Longrightarrow> False \<in> set fails \<Longrightarrow> keep_where fails xs \<noteq> []"
  by (induction fails xs rule: list_induct2) auto

lemma output_listener_Send_law:
  assumes "output_listener_Send os bytes (s, m, h) = (res, s', m', h')" and "output_listener_wf s"
  shows "output_listener_wf s'" and "owned R (output_listener_held s) h \<Longrightarrow> owned R (output_listener_held s') h'"
    and "send_status res = OutputSendStatus.kSent \<Longrightarrow> sessions s' \<noteq> []"
proof -
  have valid: "SRT_INVALID_SOCK \<notin> set (sessions s)" using assms(2) by (simp add: output_listener_wf_def)
  have "output_listener_wf s' \<and> (\<forall>R. owned R (output_listener_held s) h \<longrightarrow> owned R (output_listener_held s') h') \<and>
    (send_status res = OutputSendStatus.kSent \<longrightarrow> sessions s' \<noteq> [])"
  proof (cases "sessions s = [] \<or> \<not> fanout_enabled s")
    case False
    then have f: "fanout_enabled s" "sessions s \<noteq> []" by auto
    note law = fanout_Send_law [OF assms(1) f]
    have "set (sessions s') \<subseteq> set (sessions s)" and "length (sessions s') \<le> length (sessions s)"
      by (simp_all add: law(1) set_keep_where length_keep_where)
    with law(4,5) assms(2) have "output_listener_wf s'" by (auto simp: output_listener_wf_def)
    moreover have "owned R (output_listener_held s') h'" if "owned R (output_listener_held s) h" for R
      using law(8) [OF valid, of "R + held_sockets (ol_listeners s)"] that law(4)
      by (simp add: output_listener_held_def owned_def ac_simps)
    moreover have "sessions s' \<noteq> []" if "send_status res = OutputSendStatus.kSent"
      unfolding law(1) by (rule keep_where_nonempty) (use law(2) that in simp_all)
    ultimately show ?thesis by blast
  next
    case True
    show ?thesis
    proof (cases "sessions s = []")
      case True
      with assms show ?thesis
        by (auto simp: output_listener_Send_def output_listener_wf_def output_listener_held_def)
    next
      case False
      with True assms(1) have "srt_send os (ol_metrics_set s) (hd (sessions s)) bytes (s, m, h) = (res, s', m', h')"
        by (simp add: output_listener_Send_def)
      with srt_send_frame [OF this] assms(2) False show ?thesis
        by (auto simp: output_listener_wf_def output_listener_held_def owned_def)
    qed
  qed
  then show "output_listener_wf s'" and "owned R (output_listener_held s) h \<Longrightarrow> owned R (output_listener_held s') h'"
    and "send_status res = OutputSendStatus.kSent \<Longrightarrow> sessions s' \<noteq> []"
    by blast+
qed

lemma output_listener_Mark_law:
  assumes "output_listener_MarkDisconnected os (s, m, h) = (s', m', h')" and "output_listener_wf s"
  shows "output_listener_wf s'" and "owned R (output_listener_held s) h \<Longrightarrow> owned R (output_listener_held s') h'"
    and "sessions s' = []"
proof -
  from assms(1) have res: "s' = s\<lparr>sessions := []\<rparr>" "h' = CloseSocketList os (sessions s) h"
    by (simp_all add: output_listener_MarkDisconnected_def)
  then show "output_listener_wf s'" and "sessions s' = []" using assms(2) by (simp_all add: output_listener_wf_def)
  assume "owned R (output_listener_held s) h"
  then have "owned (R + held_sockets (ol_listeners s)) (held_sockets (sessions s)) h"
    by (simp add: output_listener_held_def owned_shift)
  from CloseSocketList_owned [OF this] assms(2) res show "owned R (output_listener_held s') h'"
    by (simp add: output_listener_wf_def output_listener_held_def owned_def)
qed

lemma output_caller_EnsureReady_law:
  assumes "output_caller_EnsureReady os cfg ctx (s, st, m, h) = (r, s', st', m', h')"
  shows "r = Inr () \<Longrightarrow> oc_socket s' \<noteq> SRT_INVALID_SOCK"
    and "owned R (held_socket (oc_socket s)) h \<Longrightarrow> owned R (held_socket (oc_socket s')) h'"
proof -
  have "(r = Inr () \<longrightarrow> oc_socket s' \<noteq> SRT_INVALID_SOCK) \<and>
    (\<forall>R. owned R (held_socket (oc_socket s)) h \<longrightarrow> owned R (held_socket (oc_socket s')) h')"
  proof (cases "oc_socket s = SRT_INVALID_SOCK")
    case False
    with assms show ?thesis by (auto simp: output_caller_EnsureReady_def Let_def)
  next
    case True
    let ?c = "(clear_ensure_error s)\<lparr>oc_metrics_set := True\<rparr>"
    let ?make = "if oc_bonded ?c then ConnectBondedCallerGroup os (oc_uris ?c) (oc_group_type ?c) cfg True
       else ConnectSingleCallerSocket os (hd (oc_uris ?c)) cfg True"
    have sound: "sound_maker ?make"
      by (simp add: ConnectBondedCallerGroup_sound ConnectSingleCallerSocket_sound)
    obtain r1 h1 where made: "?make h = (r1, h1)" by (cases "?make h")
    from made have made': "(if oc_bonded ?c then ConnectBondedCallerGroup os (oc_uris ?c) (oc_group_type ?c) cfg True h
        else ConnectSingleCallerSocket os (hd (oc_uris ?c)) cfg True h) = (r1, h1)"
      by (simp split: if_splits)
    have frame: "case r1 of Inl e \<Rightarrow> open_handles h1 = open_handles h
        | Inr sk \<Rightarrow> sk \<noteq> SRT_INVALID_SOCK \<and> open_handles h1 = srt_sock sk # open_handles h"
      by (rule sound_makerD [OF sound made])
    have res: "(case (r1, h1) of
                 (Inl e, h1) \<Rightarrow>
                   (case count_reconnect st m of
                      (stats1, m1) \<Rightarrow>
                        (Inl e, note_srt_ensure_error os e h1 ?c, stats1, m1\<lparr>output_connected := 0\<rparr>, h1))
               | (Inr sock, h1) \<Rightarrow>
                   (case SrtSocketHolder_Set os (oc_socket ?c) sock h1 of (held, h2) \<Rightarrow>
                      (Inr (), ?c\<lparr>oc_socket := held\<rparr>, st, m\<lparr>output_connected := 1\<rparr>, h2)))
        = (r, s', st', m', h')"
      using assms True made' unfolding output_caller_EnsureReady_def Let_def by (simp split del: if_split)
    from res frame True show ?thesis
      by (cases r1) (auto simp: SrtSocketHolder_Set_def SrtSocketHolder_Reset_def held_socket_def
          owned_def split: prod.splits)
  qed
  then show "r = Inr () \<Longrightarrow> oc_socket s' \<noteq> SRT_INVALID_SOCK"
    and "owned R (held_socket (oc_socket s)) h \<Longrightarrow> owned R (held_socket (oc_socket s')) h'"
    by blast+
qed

lemma keeps_set_up_udp_output [keeps_intros]: "keeps (set_up_udp_output os cfg uri is_listener peer_addr fd)"
  unfolding set_up_udp_output_def ApplyUdpOutputOptions_def by (intro keeps_intros)

lemma output_udp_EnsureReady_law:
  assumes "output_udp_EnsureReady os cfg ctx (s, st, m, h) = (r, s', st', m', h')"
  shows "(r = Inr () \<longrightarrow> 0 \<le> uo_socket_fd s') \<and>
    (owned R (held_fd (uo_socket_fd s)) h \<longrightarrow> owned R (held_fd (uo_socket_fd s')) h')"
proof (cases "0 \<le> uo_socket_fd s")
  case True
  with assms show ?thesis by (auto simp: output_udp_EnsureReady_def Let_def)
next
  case False
  let ?c = "clear_ensure_error s"
  obtain r1 h1 where res: "ResolveSockaddr os (host (uo_uri ?c)) (port (uo_uri ?c)) h = (r1, h1)"
    by (cases "ResolveSockaddr os (host (uo_uri ?c)) (port (uo_uri ?c)) h")
  then have h1: "open_handles h1 = open_handles h"
    using keepsD [OF keeps_ResolveSockaddr, of os "host (uo_uri ?c)" "port (uo_uri ?c)" h] by simp
  show ?thesis
  proof (cases r1)
    case (Inl e)
    with assms False res h1 show ?thesis
      by (auto simp: output_udp_EnsureReady_def held_fd_def owned_def)
  next
    case (Inr peer)
    obtain rep h2 where sk: "ask os (call_socket (family_of peer)) h1 = (rep, h2)"
      by (cases "ask os (call_socket (family_of peer)) h1")
    then have h2: "open_handles h2 = (if rc rep < 0 then open_handles h else udp_fd (rc rep) # open_handles h)"
      using h1 by (auto simp: ask_def Let_def)
    obtain r3 h3 where su: "set_up_udp_output os cfg (uo_uri ?c) (uo_listener ?c) peer (rc rep) h2 = (r3, h3)"
      by (cases "set_up_udp_output os cfg (uo_uri ?c) (uo_listener ?c) peer (rc rep) h2")
    then have h3: "open_handles h3 = open_handles h2"
      using keepsD [OF keeps_set_up_udp_output, of os cfg "uo_uri ?c" "uo_listener ?c" peer "rc rep" h2] by simp
    from assms False res Inr sk su h2 h3 show ?thesis
      by (cases r3; cases "rc rep < 0")
        (auto simp: output_udp_EnsureReady_def held_fd_def owned_def close_fd_def io_call_def Let_def count_reconnect_def)
  qed
qed

section \<open>The write loop\<close>

text \<open>The bytes standard output has taken, in order.\<close>

fun written :: "history \<Rightarrow> byte list" where
  "written [] = []"
| "written ((c, r) # h) = (case c of call_write bs \<Rightarrow> written h @ take (nat (rc r)) bs | _ \<Rightarrow> written h)"

text \<open>
  What POSIX says of \<open>write\<close> with a positive count on a descriptor that is ready: it fails, or it
  writes at least one byte and at most the count.
\<close>

definition write_progresses :: "os \<Rightarrow> bool" where
  "write_progresses os \<longleftrightarrow>
     (\<forall>h bs. bs \<noteq> [] \<longrightarrow>
        rc (answer os h (call_write bs)) < 0 \<or>
        1 \<le> rc (answer os h (call_write bs)) \<and> rc (answer os h (call_write bs)) \<le> int (length bs))"

lemma write_loop_open:
  assumes "write_loop os bytes n h = Some (res, h')"
  shows "open_handles h' = open_handles h"
proof -
  have "open_handles (snd (res, h')) = open_handles h"
  proof (rule write_loop.raw_induct [where P = "\<lambda>os bytes n h r. open_handles (snd r) = open_handles h", OF _ assms])
    fix f os bytes n h r
    assume IH: "\<And>os bytes n h r. f os bytes n h = Some r \<Longrightarrow> open_handles (snd r) = open_handles h"
      and eq: "(if n < int (length bytes) then
          case ask os (call_write (drop (nat n) bytes)) h of
            (r, h') \<Rightarrow> if rc r < 0 then Some (None, h') else f os bytes (n + rc r) h'
        else Some (Some n, h)) = Some (r :: int option \<times> history)"
    obtain rep h1 where a: "ask os (call_write (drop (nat n) bytes)) h = (rep, h1)"
      by (cases "ask os (call_write (drop (nat n) bytes)) h")
    then have "open_handles h1 = open_handles h" by (auto simp: ask_def Let_def)
    with eq a IH show "open_handles (snd r) = open_handles h"
      by (auto split: if_splits)
  qed
  then show ?thesis by simp
qed

lemma write_loop_returns:
  assumes "write_progresses os" and "n \<le> length bytes"
  shows "\<exists>k h'. write_loop os bytes (int n) h = Some (if k = length bytes then Some (int k) else None, h') \<and>
    n \<le> k \<and> k \<le> length bytes \<and> written h' = written h @ drop n (take k bytes)"
  using assms(2)
proof (induction "length bytes - n" arbitrary: n h rule: less_induct)
  case less
  show ?case
  proof (cases "n = length bytes")
    case True
    then show ?thesis
      by (subst write_loop.simps) (auto intro!: exI [of _ "length bytes"])
  next
    case False
    with less.prems have lt: "n < length bytes" by simp
    let ?c = "call_write (drop n bytes)"
    obtain r h1 where a: "ask os ?c h = (r, h1)" by (cases "ask os ?c h")
    then have r: "r = answer os h ?c" and h1: "h1 = (?c, r) # h" by (auto simp: ask_def Let_def)
    have unfold: "write_loop os bytes (int n) h =
        (if rc r < 0 then Some (None, h1) else write_loop os bytes (int n + rc r) h1)"
      using lt a by (subst write_loop.simps) simp
    have prog: "rc r < 0 \<or> 1 \<le> rc r \<and> rc r \<le> int (length bytes - n)"
      using assms(1) lt unfolding write_progresses_def r by (metis drop_eq_Nil length_drop not_le)
    show ?thesis
    proof (cases "rc r < 0")
      case True
      with unfold lt h1 show ?thesis by (intro exI [of _ n] exI [of _ h1]) simp
    next
      case False
      define j where "j = nat (rc r)"
      from prog False have j: "rc r = int j" "1 \<le> j" "j \<le> length bytes - n" by (auto simp: j_def)
      have w1: "written h1 = written h @ take j (drop n bytes)" using h1 j by simp
      have "length bytes - (n + j) < length bytes - n" and "n + j \<le> length bytes" using j lt by auto
      from less.hyps [OF this, of h1] obtain k h' where
        "write_loop os bytes (int (n + j)) h1 = Some (if k = length bytes then Some (int k) else None, h')"
        "n + j \<le> k" "k \<le> length bytes" "written h' = written h1 @ drop (n + j) (take k bytes)" by auto
      moreover from this(2) obtain i where "k = n + j + i" by (auto simp: le_iff_add)
      then have "take j (drop n bytes) @ drop (n + j) (take k bytes) = drop n (take k bytes)"
        using take_add [of j i "drop n bytes"] by (simp add: drop_take add.commute)
      ultimately show ?thesis using unfold False j(1) w1
        by (intro exI [of _ k] exI [of _ h']) simp
    qed
  qed
qed

text \<open>
  Writing to standard output ends and loses nothing: if each call to write fails or takes at least
  one of the bytes it is given, \<open>Send\<close> returns, and what standard output took is the whole message
  when it reports success and a proper prefix of it when it reports an error.
\<close>

theorem stdout_Send_terminates:
  assumes "write_progresses os"
  shows "\<exists>res s' h' taken. stdout_Send os bytes (s, m, h) = Some (res, s', m, h') \<and>
    written h' = written h @ taken \<and>
    (if send_status res = OutputSendStatus.kSent then taken = bytes \<and> sent_bytes res = int (length bytes)
     else \<exists>k < length bytes. taken = take k bytes)"
proof -
  obtain k h' where w: "write_loop os bytes 0 h = Some (if k = length bytes then Some (int k) else None, h')"
    "k \<le> length bytes" "written h' = written h @ take k bytes"
    using write_loop_returns [OF assms, of 0 bytes h] by auto
  show ?thesis
  proof (cases "k = length bytes")
    case True
    with w show ?thesis
      by (intro exI [of _ "sent (int k)"] exI [of _ "clear_transfer_error s"] exI [of _ h'] exI [of _ bytes])
        (simp add: stdout_Send_def)
  next
    case False
    with w show ?thesis
      by (intro exI [of _ send_failed] exI [of _ "set_transfer_error (errno_kind os h') (strerror os h') s"]
          exI [of _ h'] exI [of _ "take k bytes"])
        (auto simp: stdout_Send_def intro: exI [of _ k])
  qed
qed

text \<open>
  C39. A write that takes nothing hangs the relay: when \<open>write\<close> returns 0 every time, \<open>Send\<close> of a
  nonempty message to standard output never returns.
\<close>

theorem stdout_Send_spins:
  assumes "\<And>h bs. rc (answer os h (call_write bs)) = 0" and "bytes \<noteq> []"
  shows "stdout_Send os bytes (s, m, h) = None"
proof -
  have "write_loop os bytes 0 h \<noteq> Some r" for r
  proof
    assume "write_loop os bytes 0 h = Some r"
    then have "\<not> ((\<forall>h bs. rc (answer os h (call_write bs)) = 0) \<and> 0 < int (length bytes))"
    proof (rule write_loop.raw_induct [where P = "\<lambda>os bytes n h r.
        \<not> ((\<forall>h bs. rc (answer os h (call_write bs)) = 0) \<and> n < int (length bytes))", rotated])
      fix f os bytes n h r
      assume IH: "\<And>os bytes n h r. f os bytes n h = Some r \<Longrightarrow>
          \<not> ((\<forall>h bs. rc (answer os h (call_write bs)) = 0) \<and> n < int (length bytes))"
        and eq: "(if n < int (length bytes) then
            case ask os (call_write (drop (nat n) bytes)) h of
              (r, h') \<Rightarrow> if rc r < 0 then Some (None, h') else f os bytes (n + rc r) h'
          else Some (Some n, h)) = Some (r :: int option \<times> history)"
      show "\<not> ((\<forall>h bs. rc (answer os h (call_write bs)) = 0) \<and> n < int (length bytes))"
      proof
        assume z: "(\<forall>h bs. rc (answer os h (call_write bs)) = 0) \<and> n < int (length bytes)"
        obtain rep h1 where a: "ask os (call_write (drop (nat n) bytes)) h = (rep, h1)"
          by (cases "ask os (call_write (drop (nat n) bytes)) h")
        then have "rc rep = 0" using z by (auto simp: ask_def Let_def)
        with eq a z have "f os bytes n h1 = Some r" by simp
        from IH [OF this] z show False by simp
      qed
    qed
    with assms show False by simp
  qed
  then have "write_loop os bytes 0 h = None" by (cases "write_loop os bytes 0 h") auto
  then show ?thesis by (simp add: stdout_Send_def)
qed

section \<open>The contract holds\<close>

definition sink_wf :: "OutputSink \<Rightarrow> bool" where
  "sink_wf sink = (case sink of listener_sink s \<Rightarrow> output_listener_wf s | _ \<Rightarrow> True)"

fun sink_held :: "OutputSink \<Rightarrow> handle multiset" where
  "sink_held (caller_sink s) = held_socket (oc_socket s)"
| "sink_held (listener_sink s) = output_listener_held s"
| "sink_held (udp_sink s) = held_fd (uo_socket_fd s)"
| "sink_held (stdout_sink s) = {#}"

lemma sink_ensure_law:
  assumes "sink_EnsureReady os cfg ctx (sink, st, m, h) = (r, sink', st', m', h')" and "sink_wf sink"
  shows "sink_wf sink'" and "r = Inr () \<Longrightarrow> sink_IsConnected sink'"
    and "accepts_send_timeout os \<Longrightarrow> owned R (sink_held sink) h \<Longrightarrow> owned R (sink_held sink') h'"
proof -
  have "sink_wf sink' \<and> (r = Inr () \<longrightarrow> sink_IsConnected sink') \<and>
    (accepts_send_timeout os \<longrightarrow> owned R (sink_held sink) h \<longrightarrow> owned R (sink_held sink') h')"
  proof (cases sink)
    case (caller_sink s)
    with assms obtain s' where "output_caller_EnsureReady os cfg ctx (s, st, m, h) = (r, s', st', m', h')"
      and "sink' = OutputSink.caller_sink s'"
      by (auto simp: sink_EnsureReady_def in_class_eq)
    with caller_sink output_caller_EnsureReady_law [OF this(1)] show ?thesis by (auto simp: sink_wf_def)
  next
    case (listener_sink s)
    with assms obtain s' where e: "output_listener_EnsureReady os cfg ctx (s, st, m, h) = (r, s', st', m', h')"
      and s': "sink' = OutputSink.listener_sink s'"
      by (auto simp: sink_EnsureReady_def in_class_eq)
    have "output_listener_wf s" using assms(2) listener_sink by (simp add: sink_wf_def)
    from output_listener_EnsureReady_law(1-3) [OF e this] s' listener_sink show ?thesis by (auto simp: sink_wf_def)
  next
    case (udp_sink s)
    with assms obtain s' where "output_udp_EnsureReady os cfg ctx (s, st, m, h) = (r, s', st', m', h')"
      and "sink' = OutputSink.udp_sink s'"
      by (auto simp: sink_EnsureReady_def in_class_eq)
    with udp_sink output_udp_EnsureReady_law [OF this(1)] show ?thesis by (auto simp: sink_wf_def)
  next
    case (stdout_sink s)
    with assms show ?thesis
      by (auto simp: sink_EnsureReady_def in_class_eq stdout_EnsureReady_def Let_def sink_wf_def split: if_splits)
  qed
  then show "sink_wf sink'" and "r = Inr () \<Longrightarrow> sink_IsConnected sink'"
    and "accepts_send_timeout os \<Longrightarrow> owned R (sink_held sink) h \<Longrightarrow> owned R (sink_held sink') h'"
    by blast+
qed

lemma sink_Send_law:
  assumes "sink_Send os bytes (sink, m, h) = Some (res, sink', m', h')" and "sink_wf sink"
  shows "sink_wf sink'" and "owned R (sink_held sink) h \<Longrightarrow> owned R (sink_held sink') h'"
    and "send_status res = OutputSendStatus.kSent \<Longrightarrow> sink_IsConnected sink \<Longrightarrow> sink_IsConnected sink'"
proof -
  have "sink_wf sink' \<and> (owned R (sink_held sink) h \<longrightarrow> owned R (sink_held sink') h') \<and>
    (send_status res = OutputSendStatus.kSent \<longrightarrow> sink_IsConnected sink \<longrightarrow> sink_IsConnected sink')"
  proof (cases sink)
    case (caller_sink s)
    with assms obtain s' where e: "srt_send os (oc_metrics_set s) (oc_socket s) bytes (s, m, h) = (res, s', m', h')"
      and "sink' = OutputSink.caller_sink s'"
      by (auto simp: sink_Send_def in_class_eq)
    with caller_sink srt_send_frame [OF this(1)] show ?thesis by (auto simp: sink_wf_def owned_def)
  next
    case (listener_sink s)
    with assms obtain s' where e: "output_listener_Send os bytes (s, m, h) = (res, s', m', h')"
      and s': "sink' = OutputSink.listener_sink s'"
      by (auto simp: sink_Send_def in_class_eq)
    have "output_listener_wf s" using assms(2) listener_sink by (simp add: sink_wf_def)
    from output_listener_Send_law [OF e this] s' listener_sink show ?thesis by (auto simp: sink_wf_def)
  next
    case (udp_sink s)
    with assms show ?thesis
      by (auto simp: sink_Send_def in_class_eq output_udp_Send_def ask_def Let_def sink_wf_def owned_def split: if_splits)
  next
    case (stdout_sink s)
    with assms show ?thesis
      by (auto simp: sink_Send_def in_class_eq stdout_Send_def sink_wf_def owned_def dest: write_loop_open
          split: option.splits)
  qed
  then show "sink_wf sink'" and "owned R (sink_held sink) h \<Longrightarrow> owned R (sink_held sink') h'"
    and "send_status res = OutputSendStatus.kSent \<Longrightarrow> sink_IsConnected sink \<Longrightarrow> sink_IsConnected sink'"
    by blast+
qed

lemma sink_Mark_law:
  assumes "sink_MarkDisconnected os (sink, m, h) = (sink', m', h')"
  shows "sink_wf sink \<Longrightarrow> sink_wf sink'" and "sink_wf sink \<Longrightarrow> owned R (sink_held sink) h \<Longrightarrow> owned R (sink_held sink') h'"
    and "\<not> sink_IsConnected sink'"
proof -
  have "(sink_wf sink \<longrightarrow> sink_wf sink' \<and> (owned R (sink_held sink) h \<longrightarrow> owned R (sink_held sink') h')) \<and>
    \<not> sink_IsConnected sink'"
  proof (cases sink)
    case (caller_sink s)
    with assms Reset_owned [of R "oc_socket s" h os] show ?thesis
      by (auto simp: sink_MarkDisconnected_def map_class_eq output_caller_MarkDisconnected_def sink_wf_def
          held_socket_def SrtSocketHolder_Reset_def split: prod.splits if_splits)
  next
    case (listener_sink s)
    with assms obtain s' where e: "output_listener_MarkDisconnected os (s, m, h) = (s', m', h')"
      and s': "sink' = OutputSink.listener_sink s'"
      by (auto simp: sink_MarkDisconnected_def map_class_eq)
    have "sessions s' = []" using e by (auto simp: output_listener_MarkDisconnected_def)
    with output_listener_Mark_law [OF e] s' listener_sink show ?thesis by (auto simp: sink_wf_def)
  next
    case (udp_sink s)
    with assms CloseSocket_owned [of R "uo_socket_fd s" h os] show ?thesis
      by (auto simp: sink_MarkDisconnected_def map_class_eq output_udp_MarkDisconnected_def sink_wf_def
          held_fd_def CloseSocket_def split: prod.splits if_splits)
  next
    case (stdout_sink s)
    with assms show ?thesis
      by (auto simp: sink_MarkDisconnected_def map_class_eq stdout_MarkDisconnected_def sink_wf_def)
  qed
  then show "sink_wf sink \<Longrightarrow> sink_wf sink'" and "sink_wf sink \<Longrightarrow> owned R (sink_held sink) h \<Longrightarrow> owned R (sink_held sink') h'"
    and "\<not> sink_IsConnected sink'"
    by blast+
qed

lemma sink_no_poll: "\<not> sink_NeedsEnsurePoll sink \<Longrightarrow> sink_IsConnected sink"
  by (cases sink) (auto simp: output_listener_NeedsEnsurePoll_def split: if_splits)

text \<open>Getting ready changes no statistics but the number of reconnects.\<close>

lemma stats_unchanged: "\<exists>n. st = st\<lparr>stats_reconnect_count := n\<rparr>"
  by (rule exI [of _ "stats_reconnect_count st"]) simp

lemma sink_ensure_stats:
  assumes "sink_EnsureReady os cfg ctx (sink, st, m, h) = (r, sink', st', m', h')"
  shows "\<exists>n. st' = st\<lparr>stats_reconnect_count := n\<rparr>"
proof -
  have "st' = st \<or> st' = st\<lparr>stats_reconnect_count := stats_reconnect_count st + 1\<rparr>"
  proof (cases sink)
    case (caller_sink s)
    with assms show ?thesis
      by (auto simp: sink_EnsureReady_def in_class_eq output_caller_EnsureReady_def count_reconnect_def Let_def
          split: if_splits prod.splits sum.splits)
  next
    case (listener_sink s)
    with assms show ?thesis
      by (auto simp: sink_EnsureReady_def in_class_eq output_listener_EnsureReady_def Let_def
          split: if_splits prod.splits sum.splits)
  next
    case (udp_sink s)
    with assms show ?thesis
      by (auto simp: sink_EnsureReady_def in_class_eq output_udp_EnsureReady_def count_reconnect_def Let_def
          split: if_splits prod.splits sum.splits)
  next
    case (stdout_sink s)
    with assms show ?thesis
      by (auto simp: sink_EnsureReady_def in_class_eq stdout_EnsureReady_def Let_def split: if_splits)
  qed
  then show ?thesis using stats_unchanged [of st] by auto
qed

interpretation sink: output_sink "OutputSink_class os" sink_wf sink_held "accepts_send_timeout os" for os
  by unfold_locales
    (auto simp: OutputSink_class_def dest: sink_ensure_law sink_Send_law sink_Mark_law sink_no_poll sink_ensure_stats)

section \<open>Standard output at concrete inputs\<close>

text \<open>An operating system whose \<open>write\<close> takes at most \<open>k\<close> bytes at a time.\<close>

definition writes_at_most :: "nat \<Rightarrow> os" where
  "writes_at_most k =
     (example_os (\<lambda>_. False))
       \<lparr>answer := (\<lambda>h c. case c of call_write bs \<Rightarrow> reply (int (min k (length bs))) [] | _ \<Rightarrow> good_reply h c)\<rparr>"

definition healthy_stdout :: StdoutOutputSink where
  "healthy_stdout = io_errors.extend no_io_errors (StdoutOutputSink.fields True)"

theorem stdout_Send_terminates_witness:
  "\<exists>res s' h'. stdout_Send (writes_at_most 2) [1, 2, 3, 4, 5] (healthy_stdout, example_relay_metrics, []) =
     Some (res, s', example_relay_metrics, h') \<and> written h' = [1, 2, 3, 4, 5] \<and> length h' = 3"
proof -
  have "write_progresses (writes_at_most 2)"
    by (simp add: write_progresses_def writes_at_most_def reply_def Suc_leI min_def)
  from stdout_Send_terminates [OF this, of "[1, 2, 3, 4, 5]" healthy_stdout example_relay_metrics "[]"]
  obtain res s' h' taken where snd: "stdout_Send (writes_at_most 2) [1, 2, 3, 4, 5]
      (healthy_stdout, example_relay_metrics, []) = Some (res, s', example_relay_metrics, h')"
    and w: "written h' = taken"
    and t: "if send_status res = OutputSendStatus.kSent
      then taken = [1, 2, 3, 4, 5] \<and> sent_bytes res = int (length ([1, 2, 3, 4, 5] :: byte list))
      else \<exists>k < length ([1, 2, 3, 4, 5] :: byte list). taken = take k [1, 2, 3, 4, 5]"
    by (metis append.left_neutral written.simps(1))
  have e: "stdout_Send (writes_at_most 2) [1, 2, 3, 4, 5] (healthy_stdout, example_relay_metrics, []) =
      Some (sent 5, healthy_stdout, example_relay_metrics,
        [(call_write [5], reply 1 []), (call_write [3, 4, 5], reply 2 []), (call_write [1, 2, 3, 4, 5], reply 2 [])])"
    by (simp add: stdout_Send_def write_loop.simps ask_def Let_def writes_at_most_def reply_def healthy_stdout_def
        clear_transfer_error_def set_transfer_error_def io_errors.defs StdoutOutputSink.defs no_io_errors_def)
  with snd have "res = sent 5" and "length h' = 3" by auto
  with t w snd show ?thesis by auto
qed

theorem stdout_Send_spins_witness:
  "stdout_Send (writes_at_most 0) [1, 2, 3] (healthy_stdout, example_relay_metrics, []) = None"
proof (rule stdout_Send_spins)
  show "rc (answer (writes_at_most 0) h (call_write bs)) = 0" for h bs
    by (simp add: writes_at_most_def reply_def)
qed simp

end
