(* ===== verification/OutputFanout.thy ===== *)
theory OutputFanout
  imports OutputSinks
begin

text \<open>
  \<open>OutputFanoutSink\<close> of \<open>src/src/relay_output_sinks.cpp\<close>: it sends each message to every connected
  one of several branches and goes on while one of them is connected. It is defined over the methods
  \<open>V\<close> of its branches; what they promise is the locale \<open>output_sink\<close>, and the fan-out keeps that
  contract in turn. Then comes the output of the relay, one sink or a fan-out, and its runs.
\<close>

section \<open>State\<close>

record 's OutputFanoutSink = io_errors +
  branches :: "'s list"
  fan_metrics_set :: bool
  fallback_metrics :: RelayMetrics

definition fan_IsConnected :: "'s OutputSink_methods \<Rightarrow> 's OutputFanoutSink \<Rightarrow> bool" where
  "fan_IsConnected V s = list_ex (SinkIsConnected V) (branches s)"

definition fan_IsListening :: "'s OutputSink_methods \<Rightarrow> 's OutputFanoutSink \<Rightarrow> bool" where
  "fan_IsListening V s = list_ex (SinkIsListening V) (branches s)"

definition fan_NeedsEnsurePoll :: "'s OutputSink_methods \<Rightarrow> 's OutputFanoutSink \<Rightarrow> bool" where
  "fan_NeedsEnsurePoll V s = list_ex (SinkNeedsEnsurePoll V) (branches s)"

definition RefreshAggregateConnected ::
  "'s OutputSink_methods \<Rightarrow> 's OutputFanoutSink \<Rightarrow> RelayMetrics \<Rightarrow> RelayMetrics" where
  "RefreshAggregateConnected V s m = m\<lparr>output_connected := (if fan_IsConnected V s then 1 else 0)\<rparr>"

section \<open>Methods\<close>

text \<open>The loop of \<open>EnsureReady\<close> over the branches that ask for it; whether one threw.\<close>

fun ensure_branches ::
  "'s OutputSink_methods \<Rightarrow> Config \<Rightarrow> EnsureAttemptContext \<Rightarrow> nat list \<Rightarrow> bool \<Rightarrow>
   's OutputFanoutSink ensure_world \<Rightarrow> bool \<times> 's OutputFanoutSink ensure_world" where
  "ensure_branches V cfg attempt_ctx [] failed w = (failed, w)"
| "ensure_branches V cfg attempt_ctx (i # is) failed (s, stats, m, h) =
     (if \<not> SinkNeedsEnsurePoll V (branches s ! i) then ensure_branches V cfg attempt_ctx is failed (s, stats, m, h)
      else
        (case SinkEnsureReady V cfg (attempt_ctx\<lparr>source_index := Some (i + 1)\<rparr>) (branches s ! i, stats, m, h) of
           (Inr _, b, w) \<Rightarrow>
             ensure_branches V cfg attempt_ctx is failed (s\<lparr>branches := (branches s)[i := b]\<rparr>, w)
         | (Inl e, b, w) \<Rightarrow>
             ensure_branches V cfg attempt_ctx is True
               (s\<lparr>branches := (branches s)[i := b],
                  ensure_error_kind := SinkLastEnsureErrorKind V b,
                  ensure_error_message :=
                    (if SinkLastEnsureErrorMessage V b = [] then what e else SinkLastEnsureErrorMessage V b)\<rparr>, w)))"

definition fan_EnsureReady ::
  "'s OutputSink_methods \<Rightarrow> Config \<Rightarrow> EnsureAttemptContext \<Rightarrow> 's OutputFanoutSink ensure_world \<Rightarrow>
   unit result \<times> 's OutputFanoutSink ensure_world" where
  "fan_EnsureReady V cfg attempt_ctx w =
     (case w of (s, stats, m, h) \<Rightarrow>
        (case ensure_branches V cfg attempt_ctx [0..<length (branches s)] False
                ((clear_ensure_error s)\<lparr>fan_metrics_set := True\<rparr>, stats, m, h) of
           (failed, s1, stats1, m1, h1) \<Rightarrow>
             (if \<not> fan_IsConnected V s1 \<and> failed then
                Inl (runtime_error (if ensure_error_message s1 = [] then ''all outputs disconnected''
                                    else ensure_error_message s1))
              else Inr (),
              s1, stats1, RefreshAggregateConnected V s1 m1, h1)))"

text \<open>A branch that failed to send is disconnected, on the relay's metrics once they are known.\<close>

definition drop_branch ::
  "'s OutputSink_methods \<Rightarrow> nat \<Rightarrow> 's \<Rightarrow> 's OutputFanoutSink output_world \<Rightarrow> 's OutputFanoutSink output_world" where
  "drop_branch V i b w =
     (case w of (s, m, h) \<Rightarrow>
        if fan_metrics_set s then
          (case MarkDisconnected V (b, m, h) of
             (b', m', h') \<Rightarrow> (s\<lparr>branches := (branches s)[i := b']\<rparr>, m', h'))
        else
          (case MarkDisconnected V (b, fallback_metrics s, h) of
             (b', m', h') \<Rightarrow>
               (s\<lparr>branches := (branches s)[i := b'], fallback_metrics := m'\<rparr>, m, h')))"

text \<open>The loop of \<open>Send\<close>: whether a branch took the message, whether one failed, and the bytes.\<close>

fun send_branches ::
  "'s OutputSink_methods \<Rightarrow> byte list \<Rightarrow> nat list \<Rightarrow> bool \<times> bool \<times> int \<Rightarrow> 's OutputFanoutSink output_world \<Rightarrow>
   ((bool \<times> bool \<times> int) \<times> 's OutputFanoutSink output_world) option" where
  "send_branches V bytes [] p w = Some (p, w)"
| "send_branches V bytes (i # is) (any, failed, n) (s, m, h) =
     (if \<not> SinkIsConnected V (branches s ! i) then send_branches V bytes is (any, failed, n) (s, m, h)
      else
        (case Send V bytes (branches s ! i, m, h) of
           None \<Rightarrow> None
         | Some (res, b, m1, h1) \<Rightarrow>
             if send_status res = OutputSendStatus.kError then
               send_branches V bytes is (any, True, n)
                 (drop_branch V i b
                    (set_transfer_error (LastSendErrorKind V b) (LastSendErrorMessage V b) s, m1, h1))
             else
               send_branches V bytes is (True, failed, if n = 0 then sent_bytes res else n)
                 (s\<lparr>branches := (branches s)[i := b]\<rparr>, m1, h1)))"

definition fan_Send ::
  "'s OutputSink_methods \<Rightarrow> byte list \<Rightarrow> 's OutputFanoutSink output_world \<Rightarrow>
   (OutputSendResult \<times> 's OutputFanoutSink output_world) option" where
  "fan_Send V bytes w =
     (case w of (s, m, h) \<Rightarrow>
        (case send_branches V bytes [0..<length (branches s)] (False, False, 0) (clear_transfer_error s, m, h) of
           None \<Rightarrow> None
         | Some ((any, failed, n), s1, m1, h1) \<Rightarrow>
             (let m2 = (if fan_metrics_set s1 then RefreshAggregateConnected V s1 m1 else m1);
                  s2 = (if fan_metrics_set s1 then s1
                        else s1\<lparr>fallback_metrics := RefreshAggregateConnected V s1 (fallback_metrics s1)\<rparr>)
              in Some
                   (if any then (sent n, clear_transfer_error s2, m2, h1)
                    else if failed then (send_failed, s2, m2, h1)
                    else (send_failed,
                          set_transfer_error IoErrorKind.kDisconnected ''no connected outputs available'' s2, m2, h1)))))"

fun mark_branches :: "'s OutputSink_methods \<Rightarrow> 's list output_world \<Rightarrow> 's list output_world" where
  "mark_branches V ([], w) = ([], w)"
| "mark_branches V (b # bs, m, h) =
     (case MarkDisconnected V (b, m, h) of
        (b', w1) \<Rightarrow> (case mark_branches V (bs, w1) of (bs', w2) \<Rightarrow> (b' # bs', w2)))"

definition fan_MarkDisconnected ::
  "'s OutputSink_methods \<Rightarrow> 's OutputFanoutSink output_world \<Rightarrow> 's OutputFanoutSink output_world" where
  "fan_MarkDisconnected V w =
     (case w of (s, m, h) \<Rightarrow>
        (case mark_branches V (branches s, m, h) of
           (bs, m1, h1) \<Rightarrow> (s\<lparr>branches := bs\<rparr>, output_down m1, h1)))"

text \<open>The socket whose statistics stand for the output: that of the first SRT branch with a session.\<close>

definition fan_TransportSocket :: "'s OutputSink_methods \<Rightarrow> 's OutputFanoutSink \<Rightarrow> int" where
  "fan_TransportSocket V s =
     (case find (\<lambda>b. MetricsMode V b = OutputMetricsMode.kSrtSocket \<and> TransportSocket V b \<noteq> SRT_INVALID_SOCK)
             (branches s) of
        None \<Rightarrow> SRT_INVALID_SOCK
      | Some b \<Rightarrow> TransportSocket V b)"

definition OutputFanoutSink_class :: "'s OutputSink_methods \<Rightarrow> 's OutputFanoutSink OutputSink_methods" where
  "OutputFanoutSink_class V =
     \<lparr>SinkEnsureReady = fan_EnsureReady V, Send = fan_Send V, MarkDisconnected = fan_MarkDisconnected V,
      TransportSocket = fan_TransportSocket V,
      MetricsMode = (\<lambda>s. if fan_TransportSocket V s = SRT_INVALID_SOCK then OutputMetricsMode.kStdout
                         else OutputMetricsMode.kSrtSocket),
      SinkIsConnected = fan_IsConnected V, SinkIsListening = fan_IsListening V,
      SinkNeedsEnsurePoll = fan_NeedsEnsurePoll V,
      LastSendErrorKind = transfer_error_kind, LastSendErrorMessage = transfer_error_message,
      SinkLastEnsureErrorKind = ensure_error_kind, SinkLastEnsureErrorMessage = ensure_error_message,
      OutputCount = (\<lambda>s. length (branches s)),
      OutputConnected = (\<lambda>s i. i < length (branches s) \<and> SinkIsConnected V (branches s ! i)),
      OutputListening = (\<lambda>s i. i < length (branches s) \<and> SinkIsListening V (branches s ! i)),
      OutputClients = (\<lambda>s i. if i < length (branches s) then OutputClients V (branches s ! i) 0 else no_clients)\<rparr>"

section \<open>The output of the relay\<close>

definition either_sink ::
  "'a OutputSink_methods \<Rightarrow> 'b OutputSink_methods \<Rightarrow> ('a + 'b) OutputSink_methods" where
  "either_sink A B =
     \<lparr>SinkEnsureReady = (\<lambda>cfg ctx (s, w).
        case s of Inl a \<Rightarrow> in_class Inl (SinkEnsureReady A cfg ctx (a, w))
                | Inr b \<Rightarrow> in_class Inr (SinkEnsureReady B cfg ctx (b, w))),
      Send = (\<lambda>bytes (s, w).
        case s of Inl a \<Rightarrow> map_option (in_class Inl) (Send A bytes (a, w))
                | Inr b \<Rightarrow> map_option (in_class Inr) (Send B bytes (b, w))),
      MarkDisconnected = (\<lambda>(s, w).
        case s of Inl a \<Rightarrow> map_prod Inl id (MarkDisconnected A (a, w))
                | Inr b \<Rightarrow> map_prod Inr id (MarkDisconnected B (b, w))),
      TransportSocket = case_sum (TransportSocket A) (TransportSocket B),
      MetricsMode = case_sum (MetricsMode A) (MetricsMode B),
      SinkIsConnected = case_sum (SinkIsConnected A) (SinkIsConnected B),
      SinkIsListening = case_sum (SinkIsListening A) (SinkIsListening B),
      SinkNeedsEnsurePoll = case_sum (SinkNeedsEnsurePoll A) (SinkNeedsEnsurePoll B),
      LastSendErrorKind = case_sum (LastSendErrorKind A) (LastSendErrorKind B),
      LastSendErrorMessage = case_sum (LastSendErrorMessage A) (LastSendErrorMessage B),
      SinkLastEnsureErrorKind = case_sum (SinkLastEnsureErrorKind A) (SinkLastEnsureErrorKind B),
      SinkLastEnsureErrorMessage = case_sum (SinkLastEnsureErrorMessage A) (SinkLastEnsureErrorMessage B),
      OutputCount = case_sum (OutputCount A) (OutputCount B),
      OutputConnected = case_sum (OutputConnected A) (OutputConnected B),
      OutputListening = case_sum (OutputListening A) (OutputListening B),
      OutputClients = case_sum (OutputClients A) (OutputClients B)\<rparr>"

type_synonym RelayOutput = "OutputSink + OutputSink OutputFanoutSink"

definition RelayOutput_class :: "os \<Rightarrow> RelayOutput OutputSink_methods" where
  "RelayOutput_class os = either_sink (OutputSink_class os) (OutputFanoutSink_class (OutputSink_class os))"

text \<open>\<open>fresh\<close> is a new \<open>MetricsState\<close>, the fall-back of a fan-out.\<close>

definition BuildRelayOutput :: "RelayMetrics \<Rightarrow> OutputEndpointSpec list \<Rightarrow> RelayOutput result" where
  "BuildRelayOutput fresh ss =
     (if ss = [] then Inl (runtime_error ''no output specs configured'')
      else if length ss = 1 then Inr (Inl (BuildOutputSink (hd ss)))
      else Inr (Inr (io_errors.extend no_io_errors (OutputFanoutSink.fields (map BuildOutputSink ss) False fresh))))"

section \<open>The fan-out keeps the contract of its branches\<close>

definition fan_wf :: "('s \<Rightarrow> bool) \<Rightarrow> 's OutputFanoutSink \<Rightarrow> bool" where
  "fan_wf well s \<longleftrightarrow> branches s \<noteq> [] \<and> (\<forall>b \<in> set (branches s). well b)"

definition fan_held :: "('s \<Rightarrow> handle multiset) \<Rightarrow> 's OutputFanoutSink \<Rightarrow> handle multiset" where
  "fan_held held s = sum_list (map held (branches s))"

lemma fan_frame [simp, frame_simps]:
  "branches (clear_ensure_error s) = branches s" "branches (set_transfer_error k msg s) = branches s"
  "branches (clear_transfer_error s) = branches s"
  "fan_metrics_set (set_transfer_error k msg s) = fan_metrics_set s"
  "fan_metrics_set (clear_transfer_error s) = fan_metrics_set s"
  by (simp_all add: clear_ensure_error_def set_transfer_error_def clear_transfer_error_def)

text \<open>\<open>keeps_fan\<close>: the branches stay well, as many as they were, and account for what is open.\<close>

definition keeps_fan ::
  "('s \<Rightarrow> bool) \<Rightarrow> ('s \<Rightarrow> handle multiset) \<Rightarrow> bool \<Rightarrow> 's list \<Rightarrow> history \<Rightarrow> 's list \<Rightarrow> history \<Rightarrow> bool" where
  "keeps_fan well held clean bs h bs' h' \<longleftrightarrow>
     length bs' = length bs \<and> (\<forall>b \<in> set bs'. well b) \<and>
     (clean \<longrightarrow> (\<forall>R. owned R (sum_list (map held bs)) h \<longrightarrow> owned R (sum_list (map held bs')) h'))"

lemma keeps_fan_refl: "(\<forall>b \<in> set bs. well b) \<Longrightarrow> keeps_fan well held clean bs h bs h"
  by (simp add: keeps_fan_def)

lemma keeps_fan_trans:
  "keeps_fan well held clean a h b h1 \<Longrightarrow> keeps_fan well held clean b h1 c h2 \<Longrightarrow>
   keeps_fan well held clean a h c h2"
  by (simp add: keeps_fan_def)

lemma keeps_fan_update:
  assumes "i < length bs" and "\<forall>b \<in> set bs. well b" and "well b'"
    and "\<And>R. clean \<Longrightarrow> owned R (held (bs ! i)) h \<Longrightarrow> owned R (held b') h'"
  shows "keeps_fan well held clean bs h (bs[i := b']) h'"
proof -
  have "\<forall>b \<in> set (bs[i := b']). well b"
    using assms(2,3) by (auto dest: subsetD [OF set_update_subset_insert])
  with owned_update [OF assms(1), of _ held h b' h'] assms(4) show ?thesis
    by (auto simp: keeps_fan_def)
qed

lemma ensure_branches_failed: "fst (ensure_branches V cfg ctx is True w)"
proof (induction "is" arbitrary: w)
  case Nil
  then show ?case by simp
next
  case (Cons i "is")
  obtain s st m h where w: "w = (s, st, m, h)" by (cases w)
  show ?case by (simp add: w Cons.IH split: sum.split prod.split)
qed

context output_sink begin

abbreviation "keeps_bs \<equiv> keeps_fan well held clean"

lemma ensure_branches_law:
  assumes "ensure_branches V cfg ctx is failed (s, st, m, h) = (failed', s', st', m', h')"
    and "\<forall>b \<in> set (branches s). well b" and "\<forall>i \<in> set is. i < length (branches s)"
  shows "keeps_bs (branches s) h (branches s') h' \<and>
    (\<not> failed' \<longrightarrow>
       (\<forall>i < length (branches s). (i \<in> set is \<or> SinkIsConnected V (branches s ! i)) \<longrightarrow> SinkIsConnected V (branches s' ! i)))"
  using assms
proof (induction "is" arbitrary: failed s st m h)
  case Nil
  then show ?case by (auto intro: keeps_fan_refl)
next
  case (Cons i "is")
  from Cons.prems have i: "i < length (branches s)" by simp
  then have wi: "well (branches s ! i)" using Cons.prems(2) by simp
  show ?case
  proof (cases "SinkNeedsEnsurePoll V (branches s ! i)")
    case False
    with Cons.prems have rest: "ensure_branches V cfg ctx is failed (s, st, m, h) = (failed', s', st', m', h')" by simp
    have "\<forall>i \<in> set is. i < length (branches s)" using Cons.prems by simp
    from Cons.IH [OF rest Cons.prems(2) this] no_poll [OF wi False] show ?thesis by auto
  next
    case True
    obtain r b st1 m1 h1 where ens: "SinkEnsureReady V cfg (ctx\<lparr>source_index := Some (i + 1)\<rparr>) (branches s ! i, st, m, h)
        = (r, b, st1, m1, h1)"
      by (cases "SinkEnsureReady V cfg (ctx\<lparr>source_index := Some (i + 1)\<rparr>) (branches s ! i, st, m, h)")
    have k1: "keeps_bs (branches s) h ((branches s)[i := b]) h1"
      by (rule keeps_fan_update [OF i Cons.prems(2) ensure_wf [OF ens wi]]) (rule ensure_owned [OF ens wi])
    then have w1: "\<forall>b' \<in> set ((branches s)[i := b]). well b'" by (simp add: keeps_fan_def)
    show ?thesis
    proof (cases r)
      case (Inr u)
      let ?s = "s\<lparr>branches := (branches s)[i := b]\<rparr>"
      have rest: "ensure_branches V cfg ctx is failed (?s, st1, m1, h1) = (failed', s', st', m', h')"
        using Cons.prems(1) True ens Inr by simp
      have con: "SinkIsConnected V b" using ensure_connects [OF ens [unfolded Inr] wi] .
      have pre: "\<forall>b' \<in> set (branches ?s). well b'" "\<forall>j \<in> set is. j < length (branches ?s)"
        using w1 Cons.prems(3) by simp_all
      note ih = Cons.IH [OF rest pre]
      have "keeps_bs (branches s) h (branches s') h'" using keeps_fan_trans [OF k1] ih by simp
      with ih con i show ?thesis by (auto simp: nth_list_update)
    next
      case (Inl e)
      let ?s = "s\<lparr>branches := (branches s)[i := b], ensure_error_kind := SinkLastEnsureErrorKind V b,
                  ensure_error_message :=
                    (if SinkLastEnsureErrorMessage V b = [] then what e else SinkLastEnsureErrorMessage V b)\<rparr>"
      have rest: "ensure_branches V cfg ctx is True (?s, st1, m1, h1) = (failed', s', st', m', h')"
        using Cons.prems(1) True ens Inl by simp
      have pre: "\<forall>b' \<in> set (branches ?s). well b'" "\<forall>j \<in> set is. j < length (branches ?s)"
        using w1 Cons.prems(3) by simp_all
      note ih = Cons.IH [OF rest pre]
      have "keeps_bs (branches s) h (branches s') h'" using keeps_fan_trans [OF k1] ih by simp
      moreover have "failed'"
        using ensure_branches_failed [of V cfg ctx "is" "(?s, st1, m1, h1)"] rest by simp
      ultimately show ?thesis by simp
    qed
  qed
qed

end

context output_sink begin

lemma fan_EnsureReady_law:
  assumes "fan_EnsureReady V cfg ctx (s, st, m, h) = (r, s', st', m', h')" and "fan_wf well s"
  shows "keeps_bs (branches s) h (branches s') h'" and "r = Inr () \<longleftrightarrow> fan_IsConnected V s'"
    and "output_connected m' = (if fan_IsConnected V s' then 1 else 0)"
proof -
  let ?s = "(clear_ensure_error s)\<lparr>fan_metrics_set := True\<rparr>"
  obtain failed s1 st1 m1 h1 where eb: "ensure_branches V cfg ctx [0..<length (branches s)] False (?s, st, m, h)
      = (failed, s1, st1, m1, h1)"
    by (cases "ensure_branches V cfg ctx [0..<length (branches s)] False (?s, st, m, h)")
  with assms(1) have res: "s' = s1" "h' = h1" "m' = RefreshAggregateConnected V s1 m1"
    "r = Inr () \<longleftrightarrow> \<not> (\<not> fan_IsConnected V s1 \<and> failed)"
    by (auto simp: fan_EnsureReady_def split: if_splits)
  have pre: "\<forall>b \<in> set (branches ?s). well b" "\<forall>i \<in> set [0..<length (branches s)]. i < length (branches ?s)"
    using assms(2) by (simp_all add: fan_wf_def)
  note law = ensure_branches_law [OF eb pre]
  show "keeps_bs (branches s) h (branches s') h'" using law res by simp
  have "fan_IsConnected V s1" if "\<not> failed"
  proof -
    have 0: "0 < length (branches s)" using assms(2) by (simp add: fan_wf_def)
    have "SinkIsConnected V (branches s1 ! 0)" using law that 0 by simp
    moreover have "length (branches s1) = length (branches s)" using law by (simp add: keeps_fan_def)
    ultimately show ?thesis using 0 by (auto simp: fan_IsConnected_def list_ex_length)
  qed
  with res show "r = Inr () \<longleftrightarrow> fan_IsConnected V s'" by auto
  show "output_connected m' = (if fan_IsConnected V s' then 1 else 0)"
    using res by (simp add: RefreshAggregateConnected_def)
qed

text \<open>
  Sending: a branch that was down is left alone, and a branch that was up is up afterwards only when
  it took the message.
\<close>

lemma send_branches_law:
  assumes "send_branches V bytes is (any, failed, n) (s, m, h) = Some ((any', failed', n'), s', m', h')"
    and "\<forall>b \<in> set (branches s). well b" and "\<forall>i \<in> set is. i < length (branches s)" and "distinct is"
  shows "keeps_bs (branches s) h (branches s') h' \<and> fan_metrics_set s' = fan_metrics_set s \<and>
    (\<forall>i < length (branches s). i \<notin> set is \<or> \<not> SinkIsConnected V (branches s ! i) \<longrightarrow> branches s' ! i = branches s ! i) \<and>
    (any' \<longleftrightarrow> any \<or> (\<exists>i \<in> set is. SinkIsConnected V (branches s' ! i)))"
  using assms
proof (induction "is" arbitrary: any failed n s m h)
  case Nil
  then show ?case by (auto intro: keeps_fan_refl)
next
  case (Cons i "is")
  from Cons.prems have i: "i < length (branches s)" by simp
  then have wi: "well (branches s ! i)" using Cons.prems(2) by simp
  show ?case
  proof (cases "SinkIsConnected V (branches s ! i)")
    case False
    with Cons.prems have rest: "send_branches V bytes is (any, failed, n) (s, m, h) = Some ((any', failed', n'), s', m', h')"
      by simp
    have "\<forall>i \<in> set is. i < length (branches s)" "distinct is" using Cons.prems by simp_all
    note ih = Cons.IH [OF rest Cons.prems(2) this]
    have "branches s' ! i = branches s ! i" using ih i False by simp
    with ih False show ?thesis by auto
  next
    case True
    then obtain res b m1 h1 where snd: "Send V bytes (branches s ! i, m, h) = Some (res, b, m1, h1)"
      using Cons.prems(1) by (auto split: option.splits)
    note wb = send_wf [OF snd wi]
    have step: "\<exists>any1 failed1 n1 s1 m2 h2.
        send_branches V bytes is (any1, failed1, n1) (s1, m2, h2) = Some ((any', failed', n'), s', m', h') \<and>
        keeps_bs (branches s) h (branches s1) h2 \<and> fan_metrics_set s1 = fan_metrics_set s \<and>
        (\<forall>j < length (branches s). j \<noteq> i \<longrightarrow> branches s1 ! j = branches s ! j) \<and>
        (any1 \<longleftrightarrow> any \<or> SinkIsConnected V (branches s1 ! i))"
    proof (cases "send_status res = OutputSendStatus.kError")
      case False
      then have kSent: "send_status res = OutputSendStatus.kSent" by (cases "send_status res") simp_all
      have "keeps_bs (branches s) h ((branches s)[i := b]) h1"
        by (rule keeps_fan_update [OF i Cons.prems(2) wb]) (rule send_owned [OF snd wi])
      moreover have "SinkIsConnected V b" using send_connected [OF snd kSent wi True] .
      moreover have "send_branches V bytes is (True, failed, if n = 0 then sent_bytes res else n)
          (s\<lparr>branches := (branches s)[i := b]\<rparr>, m1, h1) = Some ((any', failed', n'), s', m', h')"
        using Cons.prems(1) True snd False by simp
      ultimately show ?thesis using i
        by (intro exI [of _ True] exI [of _ failed] exI [of _ "if n = 0 then sent_bytes res else n"]
            exI [of _ "s\<lparr>branches := (branches s)[i := b]\<rparr>"] exI [of _ m1] exI [of _ h1]) simp
    next
      case kError: True
      let ?s = "set_transfer_error (LastSendErrorKind V b) (LastSendErrorMessage V b) s"
      let ?mm = "if fan_metrics_set s then m1 else fallback_metrics ?s"
      obtain b2 m2 h2 where mk: "MarkDisconnected V (b, ?mm, h1) = (b2, m2, h2)"
        by (cases "MarkDisconnected V (b, ?mm, h1)")
      obtain s1 m3 where dr: "drop_branch V i b (?s, m1, h1) = (s1, m3, h2)" "branches s1 = (branches s)[i := b2]"
        "fan_metrics_set s1 = fan_metrics_set s"
        using mk by (cases "fan_metrics_set s") (auto simp: drop_branch_def)
      have "keeps_bs (branches s) h ((branches s)[i := b2]) h2"
        by (rule keeps_fan_update [OF i Cons.prems(2) mark_wf [OF mk wb]])
          (blast intro: mark_owned [OF mk wb] send_owned [OF snd wi])
      moreover have "send_branches V bytes is (any, True, n) (s1, m3, h2) = Some ((any', failed', n'), s', m', h')"
        using Cons.prems(1) True snd kError dr(1) by simp
      ultimately show ?thesis using i dr mark_disconnects [OF mk]
        by (intro exI [of _ any] exI [of _ True] exI [of _ n] exI [of _ s1] exI [of _ m3] exI [of _ h2]) simp
    qed
    then obtain any1 failed1 n1 s1 m2 h2 where
      rest: "send_branches V bytes is (any1, failed1, n1) (s1, m2, h2) = Some ((any', failed', n'), s', m', h')"
      and k1: "keeps_bs (branches s) h (branches s1) h2" and ms: "fan_metrics_set s1 = fan_metrics_set s"
      and same: "\<forall>j < length (branches s). j \<noteq> i \<longrightarrow> branches s1 ! j = branches s ! j"
      and any1: "any1 \<longleftrightarrow> any \<or> SinkIsConnected V (branches s1 ! i)" by blast
    have len: "length (branches s1) = length (branches s)" using k1 by (simp add: keeps_fan_def)
    have pre: "\<forall>b \<in> set (branches s1). well b" "\<forall>j \<in> set is. j < length (branches s1)" "distinct is"
      using k1 Cons.prems(3,4) len by (simp_all add: keeps_fan_def)
    note ih = Cons.IH [OF rest pre]
    have "keeps_bs (branches s) h (branches s') h'" using keeps_fan_trans [OF k1] ih by simp
    moreover have "branches s' ! i = branches s1 ! i" using ih i len Cons.prems(4) by simp
    moreover have "branches s' ! j = branches s ! j"
      if "j < length (branches s)" "j \<notin> set (i # is) \<or> \<not> SinkIsConnected V (branches s ! j)" for j
    proof -
      have "j \<noteq> i" using that True by auto
      with same that(1) have "branches s1 ! j = branches s ! j" by simp
      with ih that len \<open>j \<noteq> i\<close> show ?thesis by auto
    qed
    ultimately show ?thesis using ih any1 ms by auto
  qed
qed

lemma fan_Send_law:
  assumes "fan_Send V bytes (s, m, h) = Some (res, s', m', h')" and "fan_wf well s"
  shows "keeps_bs (branches s) h (branches s') h'"
    and "send_status res = OutputSendStatus.kSent \<longleftrightarrow> fan_IsConnected V s'"
    and "i < length (branches s) \<Longrightarrow> \<not> SinkIsConnected V (branches s ! i) \<Longrightarrow> branches s' ! i = branches s ! i"
    and "fan_metrics_set s \<Longrightarrow> output_connected m' = (if fan_IsConnected V s' then 1 else 0)"
proof -
  obtain any failed n s1 m1 h1 where
    sb: "send_branches V bytes [0..<length (branches s)] (False, False, 0) (clear_transfer_error s, m, h)
      = Some ((any, failed, n), s1, m1, h1)"
    using assms(1) by (auto simp: fan_Send_def split: option.splits)
  have pre: "\<forall>b \<in> set (branches (clear_transfer_error s)). well b"
    "\<forall>i \<in> set [0..<length (branches s)]. i < length (branches (clear_transfer_error s))" "distinct [0..<length (branches s)]"
    using assms(2) by (simp_all add: fan_wf_def)
  note law = send_branches_law [OF sb pre]
  have len: "length (branches s1) = length (branches s)" using law by (simp add: keeps_fan_def)
  have con: "any \<longleftrightarrow> fan_IsConnected V s1" using law len by (auto simp: fan_IsConnected_def list_ex_length)
  have res: "branches s' = branches s1 \<and> h' = h1 \<and> (send_status res = OutputSendStatus.kSent) = any \<and>
      m' = (if fan_metrics_set s1 then RefreshAggregateConnected V s1 m1 else m1)"
    using assms(1) sb by (auto simp: fan_Send_def Let_def split: if_splits)
  then have same: "fan_IsConnected V s' = fan_IsConnected V s1" by (simp add: fan_IsConnected_def)
  show "keeps_bs (branches s) h (branches s') h'" using law res by simp
  show "send_status res = OutputSendStatus.kSent \<longleftrightarrow> fan_IsConnected V s'" using res con same by simp
  show "branches s' ! i = branches s ! i" if "i < length (branches s)" "\<not> SinkIsConnected V (branches s ! i)"
    using law res that by simp
  show "output_connected m' = (if fan_IsConnected V s' then 1 else 0)" if "fan_metrics_set s"
    using res law that same by (simp add: RefreshAggregateConnected_def)
qed

lemma mark_branches_law:
  assumes "mark_branches V (bs, m, h) = (bs', m', h')" and "\<forall>b \<in> set bs. well b"
  shows "keeps_bs bs h bs' h' \<and> \<not> list_ex (SinkIsConnected V) bs'"
  using assms
proof (induction bs arbitrary: m h bs')
  case Nil
  then show ?case by (simp add: keeps_fan_refl)
next
  case (Cons b bs)
  obtain b1 m1 h1 where mk: "MarkDisconnected V (b, m, h) = (b1, m1, h1)"
    by (cases "MarkDisconnected V (b, m, h)")
  obtain bs2 m2 h2 where rest: "mark_branches V (bs, m1, h1) = (bs2, m2, h2)"
    by (cases "mark_branches V (bs, m1, h1)")
  from Cons.prems(1) mk rest have res: "bs' = b1 # bs2" "h' = h2" "m' = m2" by auto
  have wb: "well b" and ws: "\<forall>b \<in> set bs. well b" using Cons.prems(2) by simp_all
  note ih = Cons.IH [OF rest [folded res(2,3)] ws]
  have "owned R (held b1 + sum_list (map held bs2)) h'"
    if ok: clean and own: "owned R (held b + sum_list (map held bs)) h" for R
  proof -
    have "owned (R + sum_list (map held bs)) (held b) h" using own by (simp add: owned_def ac_simps)
    from mark_owned [OF mk wb ok this] have "owned (R + held b1) (sum_list (map held bs)) h1"
      by (simp add: owned_def ac_simps)
    with ih ok have "owned (R + held b1) (sum_list (map held bs2)) h'" by (simp add: keeps_fan_def)
    then show ?thesis by (simp add: owned_def ac_simps)
  qed
  with ih mark_wf [OF mk wb] mark_disconnects [OF mk] res show ?case by (simp add: keeps_fan_def)
qed

end

lemma OutputFanoutSink_class_simps [simp]:
  "SinkEnsureReady (OutputFanoutSink_class V) = fan_EnsureReady V"
  "Send (OutputFanoutSink_class V) = fan_Send V"
  "MarkDisconnected (OutputFanoutSink_class V) = fan_MarkDisconnected V"
  "SinkIsConnected (OutputFanoutSink_class V) = fan_IsConnected V"
  "SinkNeedsEnsurePoll (OutputFanoutSink_class V) = fan_NeedsEnsurePoll V"
  by (simp_all add: OutputFanoutSink_class_def)

lemma keeps_fan_wf:
  "keeps_fan well held clean (branches s) h (branches s') h' \<Longrightarrow> fan_wf well s \<Longrightarrow> fan_wf well s'"
  by (auto simp: keeps_fan_def fan_wf_def)

lemma keeps_fan_held:
  "keeps_fan well held clean (branches s) h (branches s') h' \<Longrightarrow> clean \<Longrightarrow>
   owned R (fan_held held s) h \<Longrightarrow> owned R (fan_held held s') h'"
  by (simp add: keeps_fan_def fan_held_def)

context output_sink begin

lemma fan_Mark_law:
  assumes "fan_MarkDisconnected V (s, m, h) = (s', m', h')" and "\<forall>b \<in> set (branches s). well b"
  shows "keeps_bs (branches s) h (branches s') h'"
proof -
  obtain bs m1 h1 where mb: "mark_branches V (branches s, m, h) = (bs, m1, h1)"
    by (cases "mark_branches V (branches s, m, h)")
  with mark_branches_law [OF mb assms(2)] assms(1) show ?thesis
    by (auto simp: fan_MarkDisconnected_def)
qed

lemma mark_branches_down: "fst (mark_branches V (bs, m, h)) = bs' \<Longrightarrow> \<not> list_ex (SinkIsConnected V) bs'"
proof (induction bs arbitrary: m h bs')
  case Nil
  then show ?case by auto
next
  case (Cons b bs)
  obtain b1 m1 h1 where mk: "MarkDisconnected V (b, m, h) = (b1, m1, h1)"
    by (cases "MarkDisconnected V (b, m, h)")
  obtain bs2 w2 where rest: "mark_branches V (bs, m1, h1) = (bs2, w2)"
    by (cases "mark_branches V (bs, m1, h1)")
  have "\<not> list_ex (SinkIsConnected V) bs2" using Cons.IH [of m1 h1 bs2] rest by simp
  with Cons.prems mk rest mark_disconnects [OF mk] show ?case by auto
qed

lemma ensure_branches_stats:
  "ensure_branches V cfg ctx is failed (s, st, m, h) = (failed', s', st', m', h') \<Longrightarrow>
   \<exists>n. st' = st\<lparr>stats_reconnect_count := n\<rparr>"
proof (induction "is" arbitrary: failed s st m h)
  case Nil
  then show ?case using stats_unchanged [of st] by simp
next
  case (Cons i "is")
  show ?case
  proof (cases "SinkNeedsEnsurePoll V (branches s ! i)")
    case False
    with Cons.prems have "ensure_branches V cfg ctx is failed (s, st, m, h) = (failed', s', st', m', h')" by simp
    then show ?thesis by (rule Cons.IH)
  next
    case True
    obtain r b st1 m1 h1 where ens: "SinkEnsureReady V cfg (ctx\<lparr>source_index := Some (i + 1)\<rparr>) (branches s ! i, st, m, h)
        = (r, b, st1, m1, h1)"
      by (cases "SinkEnsureReady V cfg (ctx\<lparr>source_index := Some (i + 1)\<rparr>) (branches s ! i, st, m, h)")
    with Cons.prems True have "\<exists>failed1 s1. ensure_branches V cfg ctx is failed1 (s1, st1, m1, h1) = (failed', s', st', m', h')"
      by (cases r) auto
    then obtain n where "st' = st1\<lparr>stats_reconnect_count := n\<rparr>" using Cons.IH by blast
    with ensure_stats [OF ens] show ?thesis by auto
  qed
qed

lemma fan_is_sink: "output_sink (OutputFanoutSink_class V) (fan_wf well) (fan_held held) clean"
proof (unfold_locales, goal_cases)
  case (1 cfg ctx s st m h r s' st' m' h')
  then show ?case using keeps_fan_wf [OF fan_EnsureReady_law(1)] by simp
next
  case (2 cfg ctx s st m h u s' st' m' h')
  then have "fan_EnsureReady V cfg ctx (s, st, m, h) = (Inr (), s', st', m', h')" and "fan_wf well s" by simp_all
  from fan_EnsureReady_law(2) [OF this] show ?case by simp
next
  case (3 cfg ctx s st m h r s' st' m' h' R)
  then show ?case using keeps_fan_held [OF fan_EnsureReady_law(1)] by simp
next
  case (4 bytes s m h res s' m' h')
  then show ?case using keeps_fan_wf [OF fan_Send_law(1)] by simp
next
  case (5 bytes s m h res s' m' h' R)
  then show ?case using keeps_fan_held [OF fan_Send_law(1)] by simp
next
  case (6 bytes s m h res s' m' h')
  then show ?case using fan_Send_law(2) by simp
next
  case (7 s m h s' m' h')
  then show ?case using keeps_fan_wf [OF fan_Mark_law] by (simp add: fan_wf_def)
next
  case (8 s m h s' m' h' R)
  then show ?case using keeps_fan_held [OF fan_Mark_law] by (simp add: fan_wf_def)
next
  case (9 s m h s' m' h')
  then show ?case using mark_branches_down [of "branches s" m h]
    by (auto simp: fan_MarkDisconnected_def fan_IsConnected_def split: prod.splits)
next
  case (10 s)
  then have ne: "branches s \<noteq> []" and wb: "well (branches s ! 0)" and np: "\<not> SinkNeedsEnsurePoll V (branches s ! 0)"
    by (auto simp: fan_wf_def fan_NeedsEnsurePoll_def list_ex_iff)
  from no_poll [OF wb np] ne show ?case by (auto simp: fan_IsConnected_def list_ex_length)
next
  case (11 cfg ctx s st m h r s' st' m' h')
  then show ?case
    by (auto simp: fan_EnsureReady_def dest: ensure_branches_stats split: prod.splits)
qed

end

section \<open>The output of the relay keeps the contract\<close>

lemma either_is_sink:
  assumes "output_sink A wa ha c" and "output_sink B wb hb c"
  shows "output_sink (either_sink A B) (case_sum wa wb) (case_sum ha hb) c"
proof (unfold_locales, goal_cases)
  case (1 cfg ctx s st m h r s' st' m' h')
  then show ?case
    by (cases s) (auto simp: either_sink_def in_class_eq dest: output_sink.ensure_wf [OF assms(1)]
        output_sink.ensure_wf [OF assms(2)])
next
  case (2 cfg ctx s st m h u s' st' m' h')
  then show ?case
    by (cases s) (auto simp: either_sink_def in_class_eq dest: output_sink.ensure_connects [OF assms(1)]
        output_sink.ensure_connects [OF assms(2)])
next
  case (3 cfg ctx s st m h r s' st' m' h' R)
  then show ?case
    by (cases s) (auto simp: either_sink_def in_class_eq intro: output_sink.ensure_owned [OF assms(1)]
        output_sink.ensure_owned [OF assms(2)])
next
  case (4 bytes s m h res s' m' h')
  then show ?case
    by (cases s) (auto simp: either_sink_def in_class_eq dest: output_sink.send_wf [OF assms(1)]
        output_sink.send_wf [OF assms(2)])
next
  case (5 bytes s m h res s' m' h' R)
  then show ?case
    by (cases s) (auto simp: either_sink_def in_class_eq intro: output_sink.send_owned [OF assms(1)]
        output_sink.send_owned [OF assms(2)])
next
  case (6 bytes s m h res s' m' h')
  then show ?case
    by (cases s) (auto simp: either_sink_def in_class_eq dest: output_sink.send_connected [OF assms(1)]
        output_sink.send_connected [OF assms(2)])
next
  case (7 s m h s' m' h')
  then show ?case
    by (cases s) (auto simp: either_sink_def map_class_eq dest: output_sink.mark_wf [OF assms(1)]
        output_sink.mark_wf [OF assms(2)])
next
  case (8 s m h s' m' h' R)
  then show ?case
    by (cases s) (auto simp: either_sink_def map_class_eq intro: output_sink.mark_owned [OF assms(1)]
        output_sink.mark_owned [OF assms(2)])
next
  case (9 s m h s' m' h')
  then show ?case
    by (cases s) (auto simp: either_sink_def map_class_eq dest: output_sink.mark_disconnects [OF assms(1)]
        output_sink.mark_disconnects [OF assms(2)])
next
  case (10 s)
  then show ?case
    by (cases s) (auto simp: either_sink_def dest: output_sink.no_poll [OF assms(1)]
        output_sink.no_poll [OF assms(2)])
next
  case (11 cfg ctx s st m h r s' st' m' h')
  then show ?case
    by (cases s) (auto simp: either_sink_def in_class_eq dest: output_sink.ensure_stats [OF assms(1)]
        output_sink.ensure_stats [OF assms(2)])
qed

definition relay_output_wf :: "RelayOutput \<Rightarrow> bool" where
  "relay_output_wf = case_sum sink_wf (fan_wf sink_wf)"

definition relay_output_held :: "RelayOutput \<Rightarrow> handle multiset" where
  "relay_output_held = case_sum sink_held (fan_held sink_held)"

interpretation relay_output: output_sink "RelayOutput_class os" relay_output_wf relay_output_held "accepts_send_timeout os"
  for os
  unfolding RelayOutput_class_def relay_output_wf_def relay_output_held_def
  by (intro either_is_sink sink.output_sink_axioms sink.fan_is_sink)

lemma built_sink_fresh:
  "sink_wf (BuildOutputSink spec)" "sink_held (BuildOutputSink spec) = {#}"
  by (simp_all add: BuildOutputSink_def sink_wf_def output_listener_wf_def output_listener_held_def held_socket_def
      held_fd_def io_errors.defs SrtOutputListenerSink.defs SrtOutputCallerSink.defs UdpOutputSink.defs
      StdoutOutputSink.defs no_io_errors_def le_max_iff_disj split: OutputEndpointKind.split)

lemma built_sinks_fresh: "sum_list (map (sink_held \<circ> BuildOutputSink) ss) = {#}"
  by (induction ss) (simp_all add: built_sink_fresh)

lemma built_output_fresh:
  assumes "BuildRelayOutput fresh ss = Inr out"
  shows "relay_output_wf out" and "relay_output_held out = {#}"
  using assms built_sink_fresh built_sinks_fresh
  by (auto simp: BuildRelayOutput_def relay_output_wf_def relay_output_held_def fan_wf_def fan_held_def
      io_errors.defs OutputFanoutSink.defs no_io_errors_def split: if_splits)

section \<open>Runs\<close>

datatype output_op = ensure_output Config EnsureAttemptContext | send_output "byte list" | mark_output

text \<open>
  One call of a method, and a sequence of them; exceptions are caught by the caller, and a call that
  does not return ends the run.
\<close>

fun output_step :: "'s OutputSink_methods \<Rightarrow> output_op \<Rightarrow> 's ensure_world \<Rightarrow> 's ensure_world option" where
  "output_step V (ensure_output cfg ctx) w = Some (snd (SinkEnsureReady V cfg ctx w))"
| "output_step V (send_output bytes) (s, st, m, h) =
     map_option (\<lambda>(res, s', m', h'). (s', st, m', h')) (Send V bytes (s, m, h))"
| "output_step V mark_output (s, st, m, h) =
     (case MarkDisconnected V (s, m, h) of (s', m', h') \<Rightarrow> Some (s', st, m', h'))"

fun output_run :: "'s OutputSink_methods \<Rightarrow> output_op list \<Rightarrow> 's ensure_world \<Rightarrow> 's ensure_world option" where
  "output_run V [] w = Some w"
| "output_run V (op # ops) w = Option.bind (output_step V op w) (output_run V ops)"

context output_sink begin

lemma step_accounts:
  assumes "output_step V op (s, st, m, h) = Some (s', st', m', h')" and "well s" and "clean" and "owned R (held s) h"
  shows "well s' \<and> owned R (held s') h'"
proof (cases op)
  case (ensure_output cfg ctx)
  with assms(1) obtain r where "SinkEnsureReady V cfg ctx (s, st, m, h) = (r, s', st', m', h')"
    by (cases "SinkEnsureReady V cfg ctx (s, st, m, h)") auto
  from ensure_wf [OF this assms(2)] ensure_owned [OF this assms(2-4)] show ?thesis by simp
next
  case (send_output bytes)
  with assms(1) obtain res where snd: "Send V bytes (s, m, h) = Some (res, s', m', h')" by auto
  with assms show ?thesis using send_wf [OF snd] send_owned [OF snd] by simp
next
  case mark_output
  with assms(1) have mk: "MarkDisconnected V (s, m, h) = (s', m', h')" by (auto split: prod.splits)
  with assms show ?thesis using mark_wf [OF mk] mark_owned [OF mk] by simp
qed

lemma run_accounts:
  assumes "output_run V ops (s, st, m, h) = Some (s', st', m', h')" and "well s" and "clean" and "owned R (held s) h"
  shows "well s' \<and> owned R (held s') h'"
  using assms
proof (induction ops arbitrary: s st m h)
  case Nil
  then show ?case by simp
next
  case (Cons op ops)
  then obtain s1 st1 m1 h1 where op: "output_step V op (s, st, m, h) = Some (s1, st1, m1, h1)"
    and "output_run V ops (s1, st1, m1, h1) = Some (s', st', m', h')"
    by (auto simp: bind_eq_Some_conv)
  from Cons.IH [OF this(2)] step_accounts [OF op Cons.prems(2-4)] Cons.prems(3) show ?case by simp
qed

end

text \<open>
  C36. As long as libsrt does not refuse \<open>SRTO_SNDTIMEO\<close> on a client it has just handed
  out, the output side loses no socket: build the output
  from any specifications and let it get ready, send and be marked disconnected in any order, with
  exceptions on the way, failed clients and failed branches; if every call returns, what is then open
  beyond what was open at the start is exactly what its sinks hold. The output listener sets the option
  on an accepted client before it takes the client in, so without the condition a client can be lost as
  an input session can (\<open>refused_timeout_leaks_session\<close> of InputSources).
\<close>

theorem output_holds_what_is_open:
  assumes "BuildRelayOutput fresh ss = Inr out" and "accepts_send_timeout os"
    and "output_run (RelayOutput_class os) ops (out, st, m, h) = Some (out', st', m', h')"
  shows "mset (open_handles h') = mset (open_handles h) + relay_output_held out'"
  using relay_output.run_accounts [OF assms(3) built_output_fresh(1) [OF assms(1)] assms(2),
      of "mset (open_handles h)"] built_output_fresh(2) [OF assms(1)]
  by (simp add: owned_def)

text \<open>
  C37. What a message to a fan-out means: it is sent exactly when some branch is connected afterwards, so
  an error leaves no branch connected; branches that were down are not touched; and once the fan-out
  has seen the relay's metrics, the connection gauge shows whether a branch is left.
\<close>

theorem fanout_send_outcome:
  assumes "fan_Send (OutputSink_class os) bytes (s, m, h) = Some (res, s', m', h')" and "fan_wf sink_wf s"
  shows "(send_status res = OutputSendStatus.kSent \<longleftrightarrow> list_ex sink_IsConnected (branches s')) \<and>
    length (branches s') = length (branches s) \<and>
    (\<forall>i < length (branches s). \<not> sink_IsConnected (branches s ! i) \<longrightarrow> branches s' ! i = branches s ! i) \<and>
    (fan_metrics_set s \<longrightarrow>
       output_connected m' = (if list_ex sink_IsConnected (branches s') then 1 else 0))"
  using sink.fan_Send_law [OF assms]
  by (auto simp: fan_IsConnected_def keeps_fan_def OutputSink_class_def)

section \<open>The clients of a listener\<close>

text \<open>
  The clients of a listening sink in fan-out mode with limit \<open>n\<close> are accounted for when \<open>k\<close> of them
  were closed by \<open>MarkDisconnected\<close>, which counts none of them.
\<close>

definition accounted :: "int \<Rightarrow> nat \<Rightarrow> OutputSink \<Rightarrow> bool" where
  "accounted n k sink \<longleftrightarrow>
     (case sink of
        listener_sink s \<Rightarrow>
          output_listener_wf s \<and> fanout_enabled s \<and> fanout_max_clients s = n \<and>
          listener_clients_accepted_total s = dropped s + of_nat k + of_nat (length (sessions s))
      | _ \<Rightarrow> False)"

text \<open>The clients that the \<open>MarkDisconnected\<close> calls of a run close.\<close>

fun clients_of :: "OutputSink \<Rightarrow> nat" where
  "clients_of (listener_sink s) = length (sessions s)"
| "clients_of _ = 0"

definition marked_by :: "output_op \<Rightarrow> OutputSink \<Rightarrow> nat" where
  "marked_by op sink = (if op = mark_output then clients_of sink else 0)"

fun marked_clients :: "os \<Rightarrow> output_op list \<Rightarrow> OutputSink ensure_world \<Rightarrow> nat" where
  "marked_clients os [] w = 0"
| "marked_clients os (op # ops) w =
     marked_by op (fst w) +
     (case output_step (OutputSink_class os) op w of
        None \<Rightarrow> 0
      | Some w' \<Rightarrow> marked_clients os ops w')"

definition listener_options :: "SrtOutputListenerSink \<Rightarrow> bool \<times> int" where
  "listener_options s = (fanout_enabled s, fanout_max_clients s)"

lemma listener_options_frame [simp, frame_simps]:
  "listener_options (note_srt_ensure_error os e h s) = listener_options s"
  "listener_options (clear_ensure_error s) = listener_options s"
  "listener_options (set_transfer_error k msg s) = listener_options s"
  "listener_options (clear_transfer_error s) = listener_options s"
  "listener_options (RecordClientDrop k s) = listener_options s"
  "listener_options (s\<lparr>ol_metrics_set := b\<rparr>) = listener_options s"
  "listener_options (s\<lparr>ol_listeners := ls\<rparr>) = listener_options s"
  "listener_options (s\<lparr>sessions := ss\<rparr>) = listener_options s"
  "listener_options (s\<lparr>listener_clients_accepted_total := n\<rparr>) = listener_options s"
  "listener_options (s\<lparr>listener_accept_rejected_max_clients_total := n\<rparr>) = listener_options s"
  by (simp_all add: listener_options_def note_srt_ensure_error_def clear_ensure_error_def
      set_transfer_error_def clear_transfer_error_def RecordClientDrop_def)

lemma MaybeAcceptClient_options:
  "MaybeAcceptClient os cfg t s h = (r, s', h') \<Longrightarrow> listener_options s' = listener_options s"
  by (auto simp: MaybeAcceptClient_def split: prod.splits if_splits sum.splits)

lemma EnsureReady_options:
  "output_listener_EnsureReady os cfg ctx (s, st, m, h) = (r, s', st', m', h') \<Longrightarrow>
   listener_options s' = listener_options s"
  by (auto simp: output_listener_EnsureReady_def Let_def dest!: MaybeAcceptClient_options
      split: prod.splits if_splits sum.splits)

lemma send_each_options:
  "send_each os bytes i socks (p, s, h) = (p', s', h') \<Longrightarrow> listener_options s' = listener_options s"
  by (induction socks arbitrary: i p s h) (auto simp: Let_def split: prod.splits if_splits)

lemma Send_options:
  "output_listener_Send os bytes (s, m, h) = (res, s', m', h') \<Longrightarrow> listener_options s' = listener_options s"
  by (auto simp: output_listener_Send_def Let_def srt_send_def dest!: send_each_options
      split: prod.splits if_splits)

lemma keep_where_count:
  "length fails = length xs \<Longrightarrow> length (keep_where fails xs) + count_list fails True = length xs"
  by (induction fails xs rule: list_induct2) auto

lemma step_accounted:
  assumes "output_step (OutputSink_class os) op (sink, st, m, h) = Some (sink', st', m', h')"
    and "accounted n k sink"
  shows "accounted n (k + marked_by op sink) sink'"
proof -
  obtain s where sink: "sink = listener_sink s" and wf: "output_listener_wf s"
    and opts: "listener_options s = (True, n)"
    and bal: "listener_clients_accepted_total s = dropped s + of_nat k + of_nat (length (sessions s))"
    using assms(2) by (auto simp: accounted_def listener_options_def split: OutputSink.splits)
  show ?thesis
  proof (cases op)
    case (ensure_output cfg ctx)
    with assms(1) sink obtain r s' where e: "output_listener_EnsureReady os cfg ctx (s, st, m, h) = (r, s', st', m', h')"
      and s': "sink' = listener_sink s'"
      by (cases "output_listener_EnsureReady os cfg ctx (s, st, m, h)")
        (auto simp: OutputSink_class_def sink_EnsureReady_def in_class_def)
    note law = output_listener_EnsureReady_law [OF e wf]
    obtain new where "sessions s' = sessions s @ new"
      "listener_clients_accepted_total s' = listener_clients_accepted_total s + of_nat (length new)" "dropped s' = dropped s"
      using law(4) by auto
    with bal law(1) EnsureReady_options [OF e] opts s' ensure_output show ?thesis
      by (simp add: accounted_def listener_options_def marked_by_def)
  next
    case (send_output bytes)
    with assms(1) sink obtain res s' where e: "output_listener_Send os bytes (s, m, h) = (res, s', m', h')"
      and s': "sink' = listener_sink s'"
      by (cases "output_listener_Send os bytes (s, m, h)")
        (auto simp: OutputSink_class_def sink_Send_def in_class_def)
    note wf' = output_listener_Send_law(1) [OF e wf]
    have "listener_clients_accepted_total s' = dropped s' + of_nat k + of_nat (length (sessions s'))"
    proof (cases "sessions s = []")
      case True
      with e have "client_counters s' = client_counters s" and "sessions s' = []"
        by (auto simp: output_listener_Send_def)
      with bal True show ?thesis by (simp add: client_counters_def)
    next
      case False
      let ?fails = "send_failures os bytes (sessions s) h"
      have "fanout_enabled s" using opts by (simp add: listener_options_def)
      note law = fanout_Send_law [OF e this False]
      have "length (sessions s) = length (sessions s') + count_list ?fails True"
        using keep_where_count [of ?fails "sessions s"] by (simp add: law(1))
      with bal law(3,6) show ?thesis by (simp add: of_nat_add)
    qed
    with wf' Send_options [OF e] opts s' send_output show ?thesis
      by (simp add: accounted_def listener_options_def marked_by_def)
  next
    case mark_output
    with assms(1) sink obtain s' where e: "output_listener_MarkDisconnected os (s, m, h) = (s', m', h')"
      and s': "sink' = listener_sink s'"
      by (cases "output_listener_MarkDisconnected os (s, m, h)")
        (auto simp: OutputSink_class_def sink_MarkDisconnected_def)
    from e have "s' = s\<lparr>sessions := []\<rparr>" by (simp add: output_listener_MarkDisconnected_def)
    with output_listener_Mark_law(1) [OF e wf] bal opts s' sink mark_output show ?thesis
      by (simp add: accounted_def listener_options_def marked_by_def dropped_def add.assoc)
  qed
qed

lemma run_accounted:
  "output_run (OutputSink_class os) ops (sink, st, m, h) = Some (sink', st', m', h') \<Longrightarrow>
   accounted n k sink \<Longrightarrow> accounted n (k + marked_clients os ops (sink, st, m, h)) sink'"
proof (induction ops arbitrary: k sink st m h)
  case Nil
  then show ?case by simp
next
  case (Cons op ops)
  then obtain s1 st1 m1 h1 where op: "output_step (OutputSink_class os) op (sink, st, m, h) = Some (s1, st1, m1, h1)"
    and "output_run (OutputSink_class os) ops (s1, st1, m1, h1) = Some (sink', st', m', h')"
    by (auto simp: bind_eq_Some_conv)
  from Cons.IH [OF this(2) step_accounted [OF op Cons.prems(2)]] op show ?case by (simp add: add.assoc)
qed

text \<open>
  C38. Every client of an output listener in fan-out mode is accounted for: from a freshly built sink,
  through any calls of \<open>EnsureReady\<close>, \<open>Send\<close> and \<open>MarkDisconnected\<close>, the clients it counted as
  accepted are those it has, those it counted as dropped (on timeout, disconnection or error) and
  those the \<open>MarkDisconnected\<close> calls closed, which it counts nowhere, modulo the 64 bits of the
  counters; and its clients never outnumber the configured limit.
\<close>

theorem clients_accounted:
  assumes "kind spec = OutputEndpointKind.kSrtListener" and "listener_fanout_enabled spec"
    and "output_run (OutputSink_class os) ops (BuildOutputSink spec, st, m, h) = Some (listener_sink s, st', m', h')"
  shows "listener_clients_accepted_total s = dropped s +
      of_nat (marked_clients os ops (BuildOutputSink spec, st, m, h)) + of_nat (length (sessions s)) \<and>
    int (length (sessions s)) \<le> max 1 (listener_max_clients spec)"
proof -
  have "accounted (max 1 (listener_max_clients spec)) 0 (BuildOutputSink spec)"
    using assms(1,2) built_sink_fresh(1) [of spec]
    by (simp add: accounted_def BuildOutputSink_def sink_wf_def dropped_def io_errors.defs
        SrtOutputListenerSink.defs no_io_errors_def)
  from run_accounted [OF assms(3) this] show ?thesis
    by (simp add: accounted_def output_listener_wf_def)
qed

section \<open>The properties at concrete inputs\<close>

definition example_output_specs :: "OutputEndpointSpec list" where
  "example_output_specs =
     [default_OutputEndpointSpec\<lparr>kind := OutputEndpointKind.kSrtListener, uris := [default_uri],
        listener_fanout_enabled := True, listener_max_clients := 2\<rparr>,
      default_OutputEndpointSpec\<lparr>kind := OutputEndpointKind.kUdpCaller\<rparr>]"

definition example_fan :: "OutputSink OutputFanoutSink" where
  "example_fan =
     io_errors.extend no_io_errors
       (OutputFanoutSink.fields (map BuildOutputSink example_output_specs) False example_relay_metrics)"

lemma example_output_built: "BuildRelayOutput example_relay_metrics example_output_specs = Inr (Inr example_fan)"
  by (simp add: BuildRelayOutput_def example_output_specs_def example_fan_def)

text \<open>Sending to clients fails, the rest of the system works.\<close>

definition unsendable :: os where
  "unsendable = example_os (\<lambda>c. case c of call_srt_sendmsg2 s bs \<Rightarrow> True | _ \<Rightarrow> False)"

lemma unsendable_accepts: "accepts_send_timeout unsendable"
  by (simp add: accepts_send_timeout_def unsendable_def example_os_def good_reply_def reply_def)

definition example_output_ops :: "output_op list" where
  "example_output_ops =
     [ensure_output default_Config example_attempt, send_output [1, 2], ensure_output default_Config example_attempt]"

definition example_output_run :: "RelayOutput ensure_world" where
  "example_output_run =
     the (output_run (RelayOutput_class unsendable) example_output_ops
       (Inr example_fan, default_RelayStats, example_relay_metrics, []))"

theorem output_holds_what_is_open_witness:
  "mset (open_handles (snd (snd (snd example_output_run)))) = relay_output_held (fst example_output_run) \<and>
   open_handles (snd (snd (snd example_output_run))) = [srt_sock 317, udp_fd 13, srt_sock 100]"
proof
  have "output_run (RelayOutput_class unsendable) example_output_ops (Inr example_fan, default_RelayStats, example_relay_metrics, [])
      \<noteq> None"
    by code_simp
  then have "output_run (RelayOutput_class unsendable) example_output_ops (Inr example_fan, default_RelayStats, example_relay_metrics, [])
      = Some (fst example_output_run, fst (snd example_output_run), fst (snd (snd example_output_run)),
          snd (snd (snd example_output_run)))"
    by (simp add: example_output_run_def option.collapse)
  from output_holds_what_is_open [OF example_output_built unsendable_accepts this]
  show "mset (open_handles (snd (snd (snd example_output_run)))) = relay_output_held (fst example_output_run)"
    by simp
  show "open_handles (snd (snd (snd example_output_run))) = [srt_sock 317, udp_fd 13, srt_sock 100]"
    by code_simp
qed

definition readied_fan :: "OutputSink OutputFanoutSink ensure_world" where
  "readied_fan =
     snd (fan_EnsureReady (OutputSink_class unsendable) default_Config example_attempt
       (example_fan, default_RelayStats, example_relay_metrics, []))"

lemma readied_fan_wf: "fan_wf sink_wf (fst readied_fan)"
proof -
  obtain r s st m h where e: "fan_EnsureReady (OutputSink_class unsendable) default_Config example_attempt
      (example_fan, default_RelayStats, example_relay_metrics, []) = (r, s, st, m, h)"
    by (cases "fan_EnsureReady (OutputSink_class unsendable) default_Config example_attempt
      (example_fan, default_RelayStats, example_relay_metrics, [])")
  have wf: "fan_wf sink_wf example_fan"
    using built_output_fresh(1) [OF example_output_built] by (simp add: relay_output_wf_def)
  from keeps_fan_wf [OF sink.fan_EnsureReady_law(1) [OF e wf] wf] e show ?thesis
    by (simp add: readied_fan_def)
qed

theorem fanout_send_outcome_witness:
  "\<exists>res s' m' h'. fan_Send (OutputSink_class unsendable) [1, 2] (fst readied_fan, snd (snd readied_fan)) =
     Some (res, s', m', h') \<and> list_ex sink_IsConnected (branches s') \<and>
     map sink_IsConnected (branches s') = [False, True]"
proof -
  let ?send = "fan_Send (OutputSink_class unsendable) [1, 2]
    (fst readied_fan, fst (snd (snd readied_fan)), snd (snd (snd readied_fan)))"
  have "?send \<noteq> None" by code_simp
  then obtain res s' m' h' where e: "?send = Some (res, s', m', h')" by auto
  have "send_status (fst (the ?send)) = OutputSendStatus.kSent"
    and "map sink_IsConnected (branches (fst (snd (the ?send)))) = [False, True]"
    by code_simp+
  with fanout_send_outcome [OF e readied_fan_wf] e show ?thesis by simp
qed

text \<open>Two clients are accepted and closed by \<open>MarkDisconnected\<close>, then a third is accepted.\<close>

definition marked_ops :: "output_op list" where
  "marked_ops =
     [ensure_output default_Config example_attempt, ensure_output default_Config example_attempt,
      ensure_output default_Config example_attempt, send_output [1], mark_output,
      ensure_output default_Config example_attempt]"

theorem clients_accounted_witness:
  "\<exists>s. map_option fst (output_run (OutputSink_class (example_os (\<lambda>_. False))) marked_ops
        (BuildOutputSink (hd example_output_specs), default_RelayStats, example_relay_metrics, [])) = Some (listener_sink s) \<and>
     listener_clients_accepted_total s = dropped s + 2 + of_nat (length (sessions s)) \<and> length (sessions s) = 1"
proof -
  let ?w = "(BuildOutputSink (hd example_output_specs), default_RelayStats, example_relay_metrics, [])"
  let ?run = "output_run (OutputSink_class (example_os (\<lambda>_. False))) marked_ops ?w"
  let ?clients = "case ?run of Some (listener_sink s, _) \<Rightarrow> length (sessions s) | _ \<Rightarrow> 0"
  have one: "?clients = 1" by code_simp
  have two: "marked_clients (example_os (\<lambda>_. False)) marked_ops ?w = 2" by code_simp
  from one obtain s st m h where r: "?run = Some (listener_sink s, st, m, h)"
    by (auto split: option.splits prod.splits OutputSink.splits)
  have "kind (hd example_output_specs) = OutputEndpointKind.kSrtListener"
    and "listener_fanout_enabled (hd example_output_specs)"
    by (simp_all add: example_output_specs_def)
  from clients_accounted [OF this r] one two show ?thesis
    unfolding r by simp
qed

end
