(* ===== verification/Stats.thy ===== *)
theory Stats
  imports AutoCompact EndpointIo
begin

text \<open>
  The statistics tick: \<open>MaybeLogStats\<close> of \<open>src/src/metrics.cpp\<close>, which the relay loop calls in every
  round. Every \<open>stats_interval_ms\<close> it collects the metrics, compacts link slots, writes four lines and
  starts a new interval. Rates are computed and printed in double precision, which is the parameter
  \<open>double_ops\<close>; the steady clock counts nanoseconds.
\<close>

section \<open>State\<close>

record RelayState =
  state_input_listening :: bool
  state_input_connected :: bool
  state_output_connected :: bool

record IntervalRates =
  rx_bps :: u64
  tx_bps :: u64
  rx_mps :: u64
  tx_mps :: u64

record double_ops =
  ComputeIntervalRates :: "RelayStats \<Rightarrow> int \<Rightarrow> IntervalRates"
  FormatMbpsFromBytesPerSec :: "u64 \<Rightarrow> string"

text \<open>The part of \<open>MetricsState\<close> that the relay loop writes and the tick publishes.\<close>

record LoopMetrics =
  total_rx_bytes :: u64
  total_tx_bytes :: u64
  total_rx_msgs :: u64
  total_tx_msgs :: u64
  total_send_failures :: u64
  rx_bytes_per_sec :: u64
  tx_bytes_per_sec :: u64
  rx_msgs_per_sec :: u64
  tx_msgs_per_sec :: u64
  interval_send_failures :: u64

definition PublishIntervalMetrics :: "IntervalRates \<Rightarrow> RelayStats \<Rightarrow> 'l LoopMetrics_scheme \<Rightarrow> 'l LoopMetrics_scheme" where
  "PublishIntervalMetrics rates stats lm =
     lm\<lparr>rx_bytes_per_sec := rx_bps rates, tx_bytes_per_sec := tx_bps rates,
        rx_msgs_per_sec := rx_mps rates, tx_msgs_per_sec := tx_mps rates,
        interval_send_failures := stats_interval_send_failures stats\<rparr>"

definition BondModeName :: "int \<Rightarrow> string" where
  "BondModeName bond_mode =
     (if bond_mode = 1 then ''broadcast'' else if bond_mode = 2 then ''backup'' else ''unknown'')"

section \<open>What the lines say\<close>

text \<open>The growth of the transport counters since the last tick.\<close>

record interval_deltas =
  d_input_retrans :: u64
  d_input_loss :: u64
  d_input_drop :: u64
  d_input_belated :: u64
  d_input_recv :: u64
  d_output_retrans :: u64
  d_output_drop :: u64

definition deltas_since :: "RelayStats \<Rightarrow> 'm TrafficMetrics_scheme \<Rightarrow> interval_deltas" where
  "deltas_since stats m =
     \<lparr>d_input_retrans =
        CounterDeltaWithReset (last_input_transport_byte_retrans_total stats) (input_transport_byte_retrans_total m),
      d_input_loss =
        CounterDeltaWithReset (last_input_transport_byte_loss_total stats) (input_transport_byte_loss_total m),
      d_input_drop =
        CounterDeltaWithReset (last_input_group_byte_drop_total stats) (input_group_byte_drop_total m),
      d_input_belated =
        CounterDeltaWithReset (last_input_transport_packet_belated_total stats) (input_transport_packet_belated_total m),
      d_input_recv =
        CounterDeltaWithReset (last_input_transport_byte_recv_total stats) (input_transport_byte_recv_total m),
      d_output_retrans =
        CounterDeltaWithReset (last_output_transport_byte_retrans_total stats) (output_transport_byte_retrans_total m),
      d_output_drop =
        CounterDeltaWithReset (last_output_transport_byte_drop_total stats) (output_transport_byte_drop_total m)\<rparr>"

definition throughput_line :: "double_ops \<Rightarrow> IntervalRates \<Rightarrow> RelayStats \<Rightarrow> string list" where
  "throughput_line fl rates stats =
     [''Total forwarded: rx '' @ FormatWithThousands (stats_total_rx_bytes stats) @ '' bytes, tx '' @
        FormatWithThousands (stats_total_tx_bytes stats) @ '' bytes, rx '' @
        FormatWithThousands (stats_total_rx_msgs stats) @ '' packets, tx '' @
        FormatWithThousands (stats_total_tx_msgs stats) @ '' packets'',
      ''| Interval forwarded: rx '' @ FormatWithThousands (stats_interval_rx_bytes stats) @ '' bytes, tx '' @
        FormatWithThousands (stats_interval_tx_bytes stats) @ '' bytes, rx '' @
        FormatWithThousands (stats_interval_rx_msgs stats) @ '' packets, tx '' @
        FormatWithThousands (stats_interval_tx_msgs stats) @ '' packets'',
      ''| Rates: rx '' @ FormatMbpsFromBytesPerSec fl (rx_bps rates) @ '' Mbps, tx '' @
        FormatMbpsFromBytesPerSec fl (tx_bps rates) @ '' Mbps, rx '' @
        FormatWithThousands (rx_mps rates) @ '' pps, tx '' @
        FormatWithThousands (tx_mps rates) @ '' pps'',
      ''| Failures: send: '' @ FormatWithThousands (stats_interval_send_failures stats) @
        '' (interval), reconnects: '' @ FormatWithThousands (stats_reconnect_count stats) @ '' (total)'']"

definition input_transport_line :: "interval_deltas \<Rightarrow> 'm TrafficMetrics_scheme \<Rightarrow> string list" where
  "input_transport_line d m =
     [''Total recv: '' @ FormatWithThousands (input_transport_byte_recv_total m) @
        '' bytes, retransmit: '' @ FormatWithThousands (input_transport_byte_retrans_total m) @
        '' bytes, lost: '' @ FormatWithThousands (input_transport_byte_loss_total m) @
        '' bytes, dropped: '' @ FormatWithThousands (input_group_byte_drop_total m) @ '' bytes ('' @
        FormatWithThousands (input_group_packet_drop_total m) @ '' packets), belated: '' @
        FormatWithThousands (input_transport_packet_belated_total m) @ '' packets'',
      ''| Interval recv: '' @ FormatWithThousands (d_input_recv d) @
        '' bytes, retransmit: '' @ FormatWithThousands (d_input_retrans d) @
        '' bytes, lost: '' @ FormatWithThousands (d_input_loss d) @
        '' bytes, dropped: '' @ FormatWithThousands (d_input_drop d) @ '' bytes, belated: '' @
        FormatWithThousands (d_input_belated d) @ '' packets'']"

definition output_transport_line :: "interval_deltas \<Rightarrow> RelayStats \<Rightarrow> 'm TrafficMetrics_scheme \<Rightarrow> string list" where
  "output_transport_line d stats m =
     [''Total sent: '' @ FormatWithThousands (output_transport_byte_sent_total m) @
        '' bytes, retransmit: '' @ FormatWithThousands (output_transport_byte_retrans_total m) @
        '' bytes, dropped: '' @ FormatWithThousands (output_transport_byte_drop_total m) @ '' bytes'',
      ''| Interval sent: '' @ FormatWithThousands (stats_interval_tx_bytes stats) @
        '' bytes, retransmit: '' @ FormatWithThousands (d_output_retrans d) @
        '' bytes, dropped: '' @ FormatWithThousands (d_output_drop d) @ '' bytes'']"

definition link_health_line :: "RelayState \<Rightarrow> 'm TrafficMetrics_scheme \<Rightarrow> string list" where
  "link_health_line state m =
     [''Link health: input '' @ FormatSignedWithThousands (input_links_running m) @ ''/'' @
        FormatSignedWithThousands (input_links_total m) @ '' running ('' @
        FormatSignedWithThousands (input_links_healthy m) @ '' healthy), output '' @
        FormatSignedWithThousands (output_links_running m) @ ''/'' @
        FormatSignedWithThousands (output_links_total m) @ '' running ('' @
        FormatSignedWithThousands (output_links_healthy m) @ '' healthy)'',
      ''| Latency/RTT: input delay: '' @ FormatSignedWithThousands (input_effective_latency_ms m) @
        '' ms, output delay: '' @ FormatSignedWithThousands (output_effective_latency_ms m) @
        '' ms, input RTT: '' @ FormatSignedWithThousands (input_rtt_ms m) @
        '' ms, output RTT: '' @ FormatSignedWithThousands (output_rtt_ms m) @ '' ms'',
      ''| Modes: input: '' @ BondModeName (input_bond_mode m) @ '', output: '' @ BondModeName (output_bond_mode m),
      ''| State: input: '' @
        (if state_input_connected state then ''connected''
         else if state_input_listening state then ''listening'' else ''down'') @
        '', output: '' @ (if state_output_connected state then ''connected'' else ''down''),
      ''| Slot map: input['' @ BuildLinkStatusCompact LinkSide.kInput m @ ''] output['' @
        BuildLinkStatusCompact LinkSide.kOutput m @ '']'']"

section \<open>The tick\<close>

definition start_interval :: "'m TrafficMetrics_scheme \<Rightarrow> RelayStats \<Rightarrow> RelayStats" where
  "start_interval m stats =
     stats\<lparr>last_input_transport_byte_retrans_total := input_transport_byte_retrans_total m,
           last_input_transport_byte_loss_total := input_transport_byte_loss_total m,
           last_input_group_byte_drop_total := input_group_byte_drop_total m,
           last_input_transport_packet_belated_total := input_transport_packet_belated_total m,
           last_input_transport_byte_recv_total := input_transport_byte_recv_total m,
           last_output_transport_byte_retrans_total := output_transport_byte_retrans_total m,
           last_output_transport_byte_drop_total := output_transport_byte_drop_total m,
           stats_interval_rx_bytes := 0, stats_interval_tx_bytes := 0, stats_interval_rx_msgs := 0,
           stats_interval_tx_msgs := 0, stats_interval_send_failures := 0\<rparr>"

text \<open>The lines of a tick, each an event name with its texts.\<close>

type_synonym stats_lines = "(string \<times> string list) list"

definition MaybeLogStats ::
  "'e transport_env_scheme \<Rightarrow> double_ops \<Rightarrow> Config \<Rightarrow> int \<Rightarrow> int \<Rightarrow> RelayState \<Rightarrow> int \<Rightarrow> int \<Rightarrow> OutputMetricsMode \<Rightarrow>
   RelayStats \<times> 'm TrafficMetrics_scheme \<times> 'l LoopMetrics_scheme \<times> int \<Rightarrow>
   (RelayStats \<times> 'm TrafficMetrics_scheme \<times> 'l LoopMetrics_scheme \<times> int) \<times> stats_lines" where
  "MaybeLogStats env fl cfg now unix_now state input_session_sock output_sock output_metrics_mode w =
     (case w of (stats, m, lm, last_stats_at) \<Rightarrow>
        (let elapsed_ms = (now - last_stats_at) div 1000000
         in if elapsed_ms < stats_interval_ms cfg then (w, [])
            else
              (let rates = ComputeIntervalRates fl stats elapsed_ms;
                   output_stats_sock = ResolveOutputStatsSocket output_sock output_metrics_mode;
                   m1 = CollectTickMetrics env input_session_sock output_stats_sock m;
                   m2 = RefreshEffectiveLatencyMetrics env input_session_sock output_stats_sock m1;
                   m3 = fst (MaybeAutoCompactLinkSlots cfg unix_now m2);
                   lm1 = PublishIntervalMetrics rates stats lm;
                   d = deltas_since stats m3
               in ((start_interval m3 stats, m3, lm1, now),
                   [(''stats-throughput'', throughput_line fl rates stats),
                    (''stats-input-transport'', input_transport_line d m3),
                    (''stats-output-transport'', output_transport_line d stats m3),
                    (''stats-link-health'', link_health_line state m3)]))))"

section \<open>The counters of the relay loop\<close>

definition count_rx :: "int \<Rightarrow> RelayStats \<Rightarrow> RelayStats" where
  "count_rx n stats =
     stats\<lparr>stats_total_rx_bytes := stats_total_rx_bytes stats + of_int n,
           stats_total_rx_msgs := stats_total_rx_msgs stats + 1,
           stats_interval_rx_bytes := stats_interval_rx_bytes stats + of_int n,
           stats_interval_rx_msgs := stats_interval_rx_msgs stats + 1\<rparr>"

definition count_tx :: "int \<Rightarrow> RelayStats \<Rightarrow> RelayStats" where
  "count_tx n stats =
     stats\<lparr>stats_total_tx_bytes := stats_total_tx_bytes stats + of_int n,
           stats_total_tx_msgs := stats_total_tx_msgs stats + 1,
           stats_interval_tx_bytes := stats_interval_tx_bytes stats + of_int n,
           stats_interval_tx_msgs := stats_interval_tx_msgs stats + 1\<rparr>"

definition count_send_failure :: "RelayStats \<Rightarrow> RelayStats" where
  "count_send_failure stats =
     stats\<lparr>stats_total_send_failures := stats_total_send_failures stats + 1,
           stats_interval_send_failures := stats_interval_send_failures stats + 1,
           stats_reconnect_count := stats_reconnect_count stats + 1\<rparr>"

end
