(* ===== verification/Runtime.thy ===== *)
theory Runtime
  imports Stats Incident InputSwitch OutputFanout
begin

text \<open>
  The relay loop (\<open>src/src/relay_runtime.cpp\<close>): \<open>RelayMain\<close> gets the input and the output ready, moves
  messages from one to the other, tracks failures, and repacks standard input into chunks of whole
  transport stream packets. The loop is defined over the methods \<open>VI\<close> and \<open>VO\<close> of its input and
  output; \<open>RelayInput_class\<close> and \<open>RelayOutput_class\<close> are the program's. What it reads of the world
  besides the library calls, the two clocks and the flag the signal handler sets, comes from
  \<open>runtime_env\<close>, one reading after the other. \<open>MetricsState\<close> is the fields \<open>relay_metrics\<close>,
  \<open>source_metrics\<close> and those of \<open>tracker\<close>, and the log is \<open>trace\<close>.
\<close>

section \<open>State\<close>

record runtime_env =
  unix_now_ms :: "nat \<Rightarrow> int"
  steady_now :: "nat \<Rightarrow> int"
  signalled :: "nat \<Rightarrow> bool"
  zeroed_member :: SRT_SOCKGROUPDATA
  doubles :: double_ops

record SourceMetrics = LoopMetrics +
  input_sources_total :: int
  output_sources_total :: int
  active_input_index :: int
  input_switches_total :: u64
  the_primary_input_index :: int
  the_switch_policy :: int
  the_switch_mode_code :: int
  input_source_connected :: "int list"
  input_source_listening :: "int list"
  input_source_bond_mode :: "int list"
  output_source_connected :: "int list"
  output_source_listening :: "int list"
  output_source_bond_mode :: "int list"
  output_listener_clients_of :: "ListenerClients list"
  input_session_socket_id :: int
  output_transport_socket_id :: int

definition kMaxInputSources :: nat where "kMaxInputSources = 16"
definition kMaxOutputSources :: nat where "kMaxOutputSources = 16"

text \<open>What the log shows of a run.\<close>

datatype relay_event =
    ev_incident incident_event
  | ev_failure FailureSide ReasonDescriptor
  | ev_members "MemberLog list"
  | ev_stats RelayStats stats_lines
  | ev_received int "byte list"
  | ev_sent int "byte list"
  | ev_send_failed "byte list"
  | ev_slept int
  | ev_shutdown RelayStats

record ('i, 'o) relay =
  the_input :: 'i
  the_output :: 'o
  relay_stats :: RelayStats
  relay_metrics :: RelayMetrics
  source_metrics :: SourceMetrics
  tracker :: CausalityTracker
  recv_buffer :: "byte list"
  stdin_pending :: "byte list"
  stdin_pending_offset :: nat
  last_stats_at :: int
  last_member_events_at :: int
  shutdown_requested :: bool
  readings :: nat
  calls :: history
  trace :: "relay_event list"

definition logs :: "relay_event list \<Rightarrow> ('i, 'o) relay \<Rightarrow> ('i, 'o) relay" where
  "logs es s = s\<lparr>trace := trace s @ es\<rparr>"

definition tick :: "('i, 'o) relay \<Rightarrow> ('i, 'o) relay" where
  "tick s = s\<lparr>readings := readings s + 1\<rparr>"

text \<open>\<open>g_shutdown_requested.load()\<close>; the handler only ever sets the flag.\<close>

definition load_shutdown :: "runtime_env \<Rightarrow> ('i, 'o) relay \<Rightarrow> bool \<times> ('i, 'o) relay" where
  "load_shutdown env s =
     (let b = (shutdown_requested s \<or> signalled env (readings s))
      in (b, tick (s\<lparr>shutdown_requested := b\<rparr>)))"

section \<open>Small helpers\<close>

function sleep_loop :: "runtime_env \<Rightarrow> int \<Rightarrow> int \<Rightarrow> ('i, 'o) relay \<Rightarrow> ('i, 'o) relay" where
  "sleep_loop env delay slept s =
     (if slept < delay then
        (case load_shutdown env s of
           (stop, s1) \<Rightarrow>
             if stop then s1
             else (let to_sleep = min 100 (delay - slept)
                   in sleep_loop env delay (slept + to_sleep) (logs [ev_slept to_sleep] s1)))
      else s)"
  by pat_completeness auto
termination
  by (relation "measure (\<lambda>(env, delay, slept, s). nat (delay - slept))") auto

declare sleep_loop.simps [simp del]

definition SleepReconnectDelay :: "runtime_env \<Rightarrow> Config \<Rightarrow> ('i, 'o) relay \<Rightarrow> ('i, 'o) relay" where
  "SleepReconnectDelay env cfg s = sleep_loop env (reconnect_delay_ms cfg) 0 s"

definition InputModeLabel :: "InputEndpointKind \<Rightarrow> string" where
  "InputModeLabel k =
     (case k of
        InputEndpointKind.kStdin \<Rightarrow> ''stdin''
      | InputEndpointKind.kSrtCaller \<Rightarrow> ''srt-caller''
      | InputEndpointKind.kSrtListener \<Rightarrow> ''srt-listener''
      | InputEndpointKind.kUdpCaller \<Rightarrow> ''udp-caller''
      | InputEndpointKind.kUdpListener \<Rightarrow> ''udp-listener'')"

definition OutputModeLabel :: "OutputEndpointKind \<Rightarrow> string" where
  "OutputModeLabel k =
     (case k of
        OutputEndpointKind.kStdout \<Rightarrow> ''stdout''
      | OutputEndpointKind.kSrtListener \<Rightarrow> ''srt-listener''
      | OutputEndpointKind.kSrtCaller \<Rightarrow> ''srt-caller''
      | OutputEndpointKind.kUdpCaller \<Rightarrow> ''udp-caller''
      | OutputEndpointKind.kUdpListener \<Rightarrow> ''udp-listener'')"

definition IsSrtInputKind :: "InputEndpointKind \<Rightarrow> bool" where
  "IsSrtInputKind k \<longleftrightarrow> k = InputEndpointKind.kSrtListener \<or> k = InputEndpointKind.kSrtCaller"

definition active_input_kind ::
  "InputEndpointSpec list \<Rightarrow> 'i InputSource_methods \<Rightarrow> 'i \<Rightarrow> InputEndpointKind" where
  "active_input_kind input_specs VI i =
     (if ActiveInputIndex VI i < length input_specs then kind (input_specs ! ActiveInputIndex VI i)
      else kind (hd input_specs))"

text \<open>\<open>causality.RecordFailure\<close>, with the line that reports the reason.\<close>

definition note_failure ::
  "runtime_env \<Rightarrow> FailureSide \<Rightarrow> failure_args \<Rightarrow> ('i, 'o) relay \<Rightarrow> ('i, 'o) relay" where
  "note_failure env side a s =
     (case RecordFailure side a (unix_now_ms env (readings s)) (tracker s) of
        (t, reason, es) \<Rightarrow> logs (map ev_incident es @ [ev_failure side reason]) (tick (s\<lparr>tracker := t\<rparr>)))"

definition start_attempt :: "FailureSide \<Rightarrow> ('i, 'o) relay \<Rightarrow> ('i, 'o) relay \<times> u64" where
  "start_attempt side s =
     (case EnsureAttemptStarted side (tracker s) of (t, k) \<Rightarrow> (s\<lparr>tracker := t\<rparr>, k))"

definition reset_input :: "'i InputSource_methods \<Rightarrow> ('i, 'o) relay \<Rightarrow> ('i, 'o) relay" where
  "reset_input VI s =
     (case HandleReceiveError VI (the_input s, relay_metrics s, calls s) of
        (i, m, h) \<Rightarrow> s\<lparr>the_input := i, relay_metrics := m, calls := h\<rparr>)"

definition reset_output :: "'o OutputSink_methods \<Rightarrow> ('i, 'o) relay \<Rightarrow> ('i, 'o) relay" where
  "reset_output VO s =
     (case MarkDisconnected VO (the_output s, relay_metrics s, calls s) of
        (out, m, h) \<Rightarrow> s\<lparr>the_output := out, relay_metrics := m, calls := h\<rparr>)"

section \<open>The start of a round\<close>

definition bit :: "bool \<Rightarrow> int" where
  "bit b = (if b then 1 else 0)"

text \<open>The gauges of the sources and sinks; a listener that is gone keeps its totals.\<close>

definition source_gauges ::
  "'i InputSource_methods \<Rightarrow> 'o OutputSink_methods \<Rightarrow> 'i \<Rightarrow> 'o \<Rightarrow> SourceMetrics \<Rightarrow> SourceMetrics" where
  "source_gauges VI VO i out lm =
     (let n = min (OutputCount VO out) kMaxOutputSources
      in lm\<lparr>input_source_connected :=
              (replicate kMaxInputSources 0)[ActiveInputIndex VI i := bit (IsConnected VI i)],
            input_source_listening :=
              (replicate kMaxInputSources 0)[ActiveInputIndex VI i := bit (IsListening VI i)],
            output_source_connected :=
              map (\<lambda>k. if k < n then bit (OutputConnected VO out k) else 0) [0..<kMaxOutputSources],
            output_source_listening :=
              map (\<lambda>k. if k < n then bit (OutputListening VO out k) else 0) [0..<kMaxOutputSources],
            output_listener_clients_of :=
              map (\<lambda>k. if k < n then OutputClients VO out k
                       else (output_listener_clients_of lm ! k)\<lparr>clients_active := 0\<rparr>)
                [0..<kMaxOutputSources]\<rparr>)"

definition output_session :: "'o OutputSink_methods \<Rightarrow> 'o \<Rightarrow> int" where
  "output_session VO out =
     (if MetricsMode VO out = OutputMetricsMode.kSrtSocket then TransportSocket VO out else SRT_INVALID_SOCK)"

definition publish_gauges ::
  "'i InputSource_methods \<Rightarrow> 'o OutputSink_methods \<Rightarrow> ('i, 'o) relay \<Rightarrow> ('i, 'o) relay" where
  "publish_gauges VI VO s =
     (let i = the_input s; out = the_output s
      in s\<lparr>source_metrics := (source_gauges VI VO i out (source_metrics s))
              \<lparr>input_session_socket_id := SessionSocket VI i,
               output_transport_socket_id := output_session VO out\<rparr>,
           relay_metrics := (relay_metrics s)
              \<lparr>input_listening := bit (IsListening VI i), input_connected := bit (IsConnected VI i),
               output_connected := bit (SinkIsConnected VO out)\<rparr>\<rparr>)"

definition emit_members ::
  "os \<Rightarrow> runtime_env \<Rightarrow> 'i InputSource_methods \<Rightarrow> 'o OutputSink_methods \<Rightarrow> ('i, 'o) relay \<Rightarrow> ('i, 'o) relay" where
  "emit_members os env VI VO s =
     (case MaybeEmitMemberConnectionEvents (net os (calls s)) (steady_now env (readings s))
             (SessionSocket VI (the_input s)) (TransportSocket VO (the_output s)) (MetricsMode VO (the_output s))
             (ActiveIncidentId (tracker s)) (last_member_events_at s) (relay_metrics s) of
        (m, at, lines) \<Rightarrow>
          logs (if lines = [] then [] else [ev_members lines])
            (tick (s\<lparr>relay_metrics := m, last_member_events_at := at\<rparr>)))"

definition log_stats ::
  "os \<Rightarrow> runtime_env \<Rightarrow> 'i InputSource_methods \<Rightarrow> 'o OutputSink_methods \<Rightarrow> Config \<Rightarrow> ('i, 'o) relay \<Rightarrow> ('i, 'o) relay" where
  "log_stats os env VI VO cfg s =
     (case MaybeLogStats (net os (calls s)) (doubles env) cfg
             (steady_now env (readings s)) (unix_now_ms env (readings s + 1))
             \<lparr>state_input_listening = IsListening VI (the_input s),
              state_input_connected = IsConnected VI (the_input s),
              state_output_connected = SinkIsConnected VO (the_output s)\<rparr>
             (SessionSocket VI (the_input s)) (TransportSocket VO (the_output s)) (MetricsMode VO (the_output s))
             (relay_stats s, relay_metrics s, source_metrics s, last_stats_at s) of
        ((stats, m, lm, at), lines) \<Rightarrow>
          logs (if lines = [] then [] else [ev_stats (relay_stats s) lines])
            (tick (tick (s\<lparr>relay_stats := stats, relay_metrics := m, source_metrics := lm, last_stats_at := at\<rparr>))))"

definition close_incident ::
  "'i InputSource_methods \<Rightarrow> 'o OutputSink_methods \<Rightarrow> ('i, 'o) relay \<Rightarrow> ('i, 'o) relay" where
  "close_incident VI VO s =
     (case MaybeCloseIncident (IsConnected VI (the_input s)) (SinkIsConnected VO (the_output s)) (tracker s) of
        (t, es) \<Rightarrow> logs (map ev_incident es) (s\<lparr>tracker := t\<rparr>))"

definition begin_round ::
  "os \<Rightarrow> runtime_env \<Rightarrow> 'i InputSource_methods \<Rightarrow> 'o OutputSink_methods \<Rightarrow> Config \<Rightarrow> ('i, 'o) relay \<Rightarrow> ('i, 'o) relay" where
  "begin_round os env VI VO cfg s =
     (let s1 = log_stats os env VI VO cfg (emit_members os env VI VO (publish_gauges VI VO s));
          s2 = s1\<lparr>source_metrics := (source_metrics s1)
                    \<lparr>active_input_index := int (ActiveInputIndex VI (the_input s1)) + 1,
                     input_switches_total := InputSwitchCount VI (the_input s1)\<rparr>\<rparr>
      in close_incident VI VO s2)"

section \<open>Getting ready\<close>

datatype round_outcome = next_round | leave_loop | exits int

text \<open>\<open>None\<close> is going on with the round.\<close>

definition input_failed ::
  "runtime_env \<Rightarrow> InputEndpointSpec list \<Rightarrow> 'i InputSource_methods \<Rightarrow> Config \<Rightarrow> u64 \<Rightarrow> exn \<Rightarrow> ('i, 'o) relay \<Rightarrow>
   round_outcome option \<times> ('i, 'o) relay" where
  "input_failed env input_specs VI cfg attempt e s =
     (let i = the_input s;
          is_timeout = (LastEnsureErrorKind VI i = IoErrorKind.kTimeout);
          a = \<lparr>fa_operation = FailureOperation.kEnsure, fa_is_timeout = is_timeout, fa_is_disconnected = False,
               fa_listener_mode =
                 (active_input_kind input_specs VI i = InputEndpointKind.kSrtListener \<or>
                  active_input_kind input_specs VI i = InputEndpointKind.kUdpListener),
               fa_detail = (if LastEnsureErrorMessage VI i = [] then what e else LastEnsureErrorMessage VI i),
               fa_source = ''input.ensure'', fa_attempt_id = attempt\<rparr>;
          s1 = note_failure env FailureSide.kInput a s
      in if is_timeout then (Some next_round, s1)
         else (let s2 = reset_input VI s1
               in if exit_on_input_failure cfg then (Some (exits 2), s2)
                  else (Some next_round, SleepReconnectDelay env cfg s2)))"

definition ensure_input ::
  "runtime_env \<Rightarrow> InputEndpointSpec list \<Rightarrow> 'i InputSource_methods \<Rightarrow> Config \<Rightarrow> ('i, 'o) relay \<Rightarrow>
   round_outcome option \<times> ('i, 'o) relay" where
  "ensure_input env input_specs VI cfg s =
     (let reconnect = (\<not> IsConnected VI (the_input s))
      in if \<not> NeedsEnsurePoll VI (the_input s) then (None, s)
         else
           (case (if reconnect then start_attempt FailureSide.kInput s else (s, 0)) of
              (s1, attempt) \<Rightarrow>
                (case EnsureReady VI cfg
                        \<lparr>attempt_id = attempt, attempt_incident_id = ActiveIncidentId (tracker s1), source_index = None\<rparr>
                        (the_input s1, relay_metrics s1, calls s1) of
                   (r, i, m, h) \<Rightarrow>
                     (let s2 = s1\<lparr>the_input := i, relay_metrics := m, calls := h\<rparr>
                      in case r of
                           Inr _ \<Rightarrow>
                             (None, if reconnect then s2\<lparr>tracker := CompleteAttempt FailureSide.kInput (tracker s2)\<rparr> else s2)
                         | Inl e \<Rightarrow>
                             if \<not> reconnect \<and> IsConnected VI i then (Some next_round, s2)
                             else input_failed env input_specs VI cfg attempt e s2))))"

definition output_failed ::
  "runtime_env \<Rightarrow> 'o OutputSink_methods \<Rightarrow> Config \<Rightarrow> u64 \<Rightarrow> exn \<Rightarrow> ('i, 'o) relay \<Rightarrow>
   round_outcome option \<times> ('i, 'o) relay" where
  "output_failed env VO cfg attempt e s =
     (let out = the_output s;
          is_timeout = (SinkLastEnsureErrorKind VO out = IoErrorKind.kTimeout);
          a = \<lparr>fa_operation = FailureOperation.kEnsure, fa_is_timeout = is_timeout, fa_is_disconnected = False,
               fa_listener_mode = SinkIsListening VO out,
               fa_detail =
                 (if SinkLastEnsureErrorMessage VO out = [] then what e else SinkLastEnsureErrorMessage VO out),
               fa_source = ''output.ensure'', fa_attempt_id = attempt\<rparr>;
          s1 = note_failure env FailureSide.kOutput a s
      in if is_timeout then (Some next_round, s1)
         else (let s2 = reset_output VO s1
               in if exit_on_output_failure cfg then (Some (exits 3), s2)
                  else (Some next_round, SleepReconnectDelay env cfg s2)))"

definition ensure_output ::
  "runtime_env \<Rightarrow> 'o OutputSink_methods \<Rightarrow> Config \<Rightarrow> ('i, 'o) relay \<Rightarrow> round_outcome option \<times> ('i, 'o) relay" where
  "ensure_output env VO cfg s =
     (if \<not> SinkNeedsEnsurePoll VO (the_output s) then (None, s)
      else
        (let reconnect = (\<not> SinkIsConnected VO (the_output s))
         in case (if reconnect then start_attempt FailureSide.kOutput s else (s, 0)) of
              (s1, attempt) \<Rightarrow>
                (case SinkEnsureReady VO cfg
                        \<lparr>attempt_id = attempt, attempt_incident_id = ActiveIncidentId (tracker s1), source_index = None\<rparr>
                        (the_output s1, relay_stats s1, relay_metrics s1, calls s1) of
                   (r, out, st, m, h) \<Rightarrow>
                     (let s2 = s1\<lparr>the_output := out, relay_stats := st, relay_metrics := m, calls := h\<rparr>
                      in case r of
                           Inr _ \<Rightarrow>
                             (None, if reconnect then s2\<lparr>tracker := CompleteAttempt FailureSide.kOutput (tracker s2)\<rparr> else s2)
                         | Inl e \<Rightarrow>
                             if \<not> reconnect \<and> SinkIsConnected VO out then (Some next_round, s2)
                             else output_failed env VO cfg attempt e s2))))"

section \<open>Receiving\<close>

text \<open>What happens when \<open>Receive\<close> reported an error.\<close>

definition receive_error ::
  "runtime_env \<Rightarrow> 'i InputSource_methods \<Rightarrow> Config \<Rightarrow> ('i, 'o) relay \<Rightarrow> round_outcome \<times> ('i, 'o) relay" where
  "receive_error env VI cfg s =
     (case start_attempt FailureSide.kInput s of
        (s1, attempt) \<Rightarrow>
          (let i = the_input s1
           in if IsTerminalEof VI i then
                (leave_loop,
                 note_failure env FailureSide.kInput
                   \<lparr>fa_operation = FailureOperation.kProtocol, fa_is_timeout = False, fa_is_disconnected = False,
                    fa_listener_mode = False, fa_detail = ''stdin EOF'', fa_source = ''input.protocol'',
                    fa_attempt_id = attempt\<rparr> s1)
              else
                (let is_timeout = (LastReceiveErrorKind VI i = IoErrorKind.kTimeout);
                     s2 = note_failure env FailureSide.kInput
                       \<lparr>fa_operation = FailureOperation.kReceive, fa_is_timeout = is_timeout,
                        fa_is_disconnected = (LastReceiveErrorKind VI i = IoErrorKind.kDisconnected),
                        fa_listener_mode = False,
                        fa_detail = (if LastReceiveErrorMessage VI i = [] then ''input receive failed''
                                     else LastReceiveErrorMessage VI i),
                        fa_source = ''input.receive'', fa_attempt_id = attempt\<rparr> s1
                 in if is_timeout then (next_round, s2)
                    else (if exit_on_input_failure cfg then exits 2 else next_round, reset_input VI s2))))"

text \<open>The books on a received message.\<close>

definition received_data ::
  "os \<Rightarrow> runtime_env \<Rightarrow> InputEndpointSpec list \<Rightarrow> 'i InputSource_methods \<Rightarrow> int \<Rightarrow> SRT_MSGCTRL \<Rightarrow>
   ('i, 'o) relay \<Rightarrow> ('i, 'o) relay" where
  "received_data os env input_specs VI recv_size rx_ctrl s =
     (let st = count_rx recv_size (relay_stats s)
      in logs [ev_received recv_size (take (nat recv_size) (recv_buffer s))]
           (tick (s\<lparr>relay_stats := st,
              tracker := note_rx (unix_now_ms env (readings s)) (tracker s),
              relay_metrics :=
                (if IsSrtInputKind (active_input_kind input_specs VI (the_input s))
                 then UpdateInputLinkHealthFromMsgCtrl (net os (calls s)) rx_ctrl (relay_metrics s)
                 else relay_metrics s),
              source_metrics := (source_metrics s)
                \<lparr>total_rx_bytes := stats_total_rx_bytes st, total_rx_msgs := stats_total_rx_msgs st\<rparr>\<rparr>)))"

definition fresh_rx_ctrl :: "runtime_env \<Rightarrow> SRT_MSGCTRL" where
  "fresh_rx_ctrl env = \<lparr>grpdata = Some (replicate 16 (zeroed_member env)), grpdata_size = 16\<rparr>"

text \<open>The size of the message, or how the round ends.\<close>

definition receive_message ::
  "os \<Rightarrow> runtime_env \<Rightarrow> InputEndpointSpec list \<Rightarrow> 'i InputSource_methods \<Rightarrow> Config \<Rightarrow> ('i, 'o) relay \<Rightarrow>
   (round_outcome + int) \<times> ('i, 'o) relay" where
  "receive_message os env input_specs VI cfg s =
     (case Receive VI cfg (the_input s, recv_buffer s, fresh_rx_ctrl env, calls s) of
        (res, i, b, rx_ctrl, h) \<Rightarrow>
          (let s1 = s\<lparr>the_input := i, recv_buffer := b, calls := h\<rparr>
           in if receive_status res = InputReceiveStatus.kError then
                (case receive_error env VI cfg s1 of (outcome, s2) \<Rightarrow> (Inl outcome, s2))
              else (Inr (received_bytes res), received_data os env input_specs VI (received_bytes res) rx_ctrl s1)))"

section \<open>Sending\<close>

definition failed_data :: "byte list \<Rightarrow> ('i, 'o) relay \<Rightarrow> ('i, 'o) relay" where
  "failed_data bytes s =
     (let st = count_send_failure (relay_stats s)
      in logs [ev_send_failed bytes]
           (s\<lparr>relay_stats := st,
              source_metrics := (source_metrics s)\<lparr>total_send_failures := stats_total_send_failures st\<rparr>,
              relay_metrics := (relay_metrics s)\<lparr>reconnect_count := stats_reconnect_count st\<rparr>\<rparr>))"

definition send_error ::
  "runtime_env \<Rightarrow> 'o OutputSink_methods \<Rightarrow> Config \<Rightarrow> byte list \<Rightarrow> ('i, 'o) relay \<Rightarrow> ('i, 'o) relay" where
  "send_error env VO cfg bytes s =
     (case start_attempt FailureSide.kOutput (failed_data bytes s) of
        (s1, attempt) \<Rightarrow>
          (let out = the_output s1;
               a = \<lparr>fa_operation = FailureOperation.kSend,
                    fa_is_timeout = (LastSendErrorKind VO out = IoErrorKind.kTimeout),
                    fa_is_disconnected = (LastSendErrorKind VO out = IoErrorKind.kDisconnected),
                    fa_listener_mode = False,
                    fa_detail = (if LastSendErrorMessage VO out = [] then ''output send failed''
                                 else LastSendErrorMessage VO out),
                    fa_source = ''output.send'', fa_attempt_id = attempt\<rparr>;
               s2 = reset_output VO (note_failure env FailureSide.kOutput a s1)
           in if exit_on_output_failure cfg \<and> \<not> SinkIsConnected VO (the_output s2)
              then s2\<lparr>shutdown_requested := True\<rparr>
              else SleepReconnectDelay env cfg s2))"

definition sent_data :: "runtime_env \<Rightarrow> int \<Rightarrow> byte list \<Rightarrow> ('i, 'o) relay \<Rightarrow> ('i, 'o) relay" where
  "sent_data env sent_size bytes s =
     (let st = count_tx sent_size (relay_stats s)
      in logs [ev_sent sent_size bytes]
           (tick (s\<lparr>relay_stats := st, tracker := note_tx (unix_now_ms env (readings s)) (tracker s),
              source_metrics := (source_metrics s)
                \<lparr>total_tx_bytes := stats_total_tx_bytes st, total_tx_msgs := stats_total_tx_msgs st\<rparr>\<rparr>)))"

definition send_chunk ::
  "runtime_env \<Rightarrow> 'o OutputSink_methods \<Rightarrow> Config \<Rightarrow> byte list \<Rightarrow> ('i, 'o) relay \<Rightarrow> (bool \<times> ('i, 'o) relay) option" where
  "send_chunk env VO cfg bytes s =
     (case Send VO bytes (the_output s, relay_metrics s, calls s) of
        None \<Rightarrow> None
      | Some (res, out, m, h) \<Rightarrow>
          (let s1 = s\<lparr>the_output := out, relay_metrics := m, calls := h\<rparr>
           in Some (if send_status res = OutputSendStatus.kError then (False, send_error env VO cfg bytes s1)
                    else (True, sent_data env (sent_bytes res) bytes s1))))"

section \<open>Standard input in whole packets\<close>

definition stdin_chunk_size :: "Config \<Rightarrow> int" where
  "stdin_chunk_size cfg =
     (let ts_aligned = (max_message_size cfg div 188) * 188
      in if 0 < ts_aligned then ts_aligned else max_message_size cfg)"

text \<open>A sent chunk leaves the front of the queue; the vector is cleared or compacted now and then.\<close>

definition pop_chunk :: "nat \<Rightarrow> ('i, 'o) relay \<Rightarrow> ('i, 'o) relay" where
  "pop_chunk chunk s =
     (let offset = stdin_pending_offset s + chunk
      in if offset = length (stdin_pending s) then s\<lparr>stdin_pending := [], stdin_pending_offset := 0\<rparr>
         else if length (stdin_pending s) div 2 < offset then
           s\<lparr>stdin_pending := drop offset (stdin_pending s), stdin_pending_offset := 0\<rparr>
         else s\<lparr>stdin_pending_offset := offset\<rparr>)"

text \<open>The loop; the result is whether it ended without a failed send.\<close>

partial_function (option) send_pending ::
  "runtime_env \<Rightarrow> 'o OutputSink_methods \<Rightarrow> Config \<Rightarrow> nat \<Rightarrow> ('i, 'o) relay \<Rightarrow> (bool \<times> ('i, 'o) relay) option" where
  "send_pending env VO cfg chunk s =
     (if chunk \<le> length (stdin_pending s) - stdin_pending_offset s then
        (case send_chunk env VO cfg (take chunk (drop (stdin_pending_offset s) (stdin_pending s))) s of
           None \<Rightarrow> None
         | Some (ok, s1) \<Rightarrow>
             if ok then send_pending env VO cfg chunk (pop_chunk chunk s1) else Some (False, s1))
      else Some (True, s))"

declare send_pending.simps [code]

text \<open>Handing on a message of the given size that is in the buffer.\<close>

definition forward_message ::
  "runtime_env \<Rightarrow> 'o OutputSink_methods \<Rightarrow> Config \<Rightarrow> bool \<Rightarrow> int \<Rightarrow> ('i, 'o) relay \<Rightarrow>
   (round_outcome \<times> ('i, 'o) relay) option" where
  "forward_message env VO cfg repacketize recv_size s =
     (let message = take (nat recv_size) (recv_buffer s)
      in map_option
           (\<lambda>(ok, s1). (if \<not> ok \<and> exit_on_output_failure cfg then exits 3 else next_round, s1))
           (if repacketize then
              send_pending env VO cfg (nat (stdin_chunk_size cfg))
                (s\<lparr>stdin_pending := stdin_pending s @ message\<rparr>)
            else send_chunk env VO cfg message s))"

section \<open>The loop\<close>

definition relay_round ::
  "os \<Rightarrow> runtime_env \<Rightarrow> InputEndpointSpec list \<Rightarrow> 'i InputSource_methods \<Rightarrow> 'o OutputSink_methods \<Rightarrow> Config \<Rightarrow> bool \<Rightarrow>
   ('i, 'o) relay \<Rightarrow> (round_outcome \<times> ('i, 'o) relay) option" where
  "relay_round os env input_specs VI VO cfg repacketize s =
     (case ensure_input env input_specs VI cfg (begin_round os env VI VO cfg s) of
        (Some outcome, s1) \<Rightarrow> Some (outcome, s1)
      | (None, s1) \<Rightarrow>
          (case ensure_output env VO cfg s1 of
             (Some outcome, s2) \<Rightarrow> Some (outcome, s2)
           | (None, s2) \<Rightarrow>
               (case receive_message os env input_specs VI cfg s2 of
                  (Inl outcome, s3) \<Rightarrow> Some (outcome, s3)
                | (Inr recv_size, s3) \<Rightarrow> forward_message env VO cfg repacketize recv_size s3)))"

text \<open>The exit code; \<open>None\<close> is running on.\<close>

partial_function (option) relay_loop ::
  "os \<Rightarrow> runtime_env \<Rightarrow> InputEndpointSpec list \<Rightarrow> 'i InputSource_methods \<Rightarrow> 'o OutputSink_methods \<Rightarrow> Config \<Rightarrow> bool \<Rightarrow>
   ('i, 'o) relay \<Rightarrow> (int \<times> ('i, 'o) relay) option" where
  "relay_loop os env input_specs VI VO cfg repacketize s =
     (case load_shutdown env s of
        (stop, s1) \<Rightarrow>
          if stop then Some (0, logs [ev_shutdown (relay_stats s1)] s1)
          else
            (case relay_round os env input_specs VI VO cfg repacketize s1 of
               None \<Rightarrow> None
             | Some (outcome, s2) \<Rightarrow>
                 (case outcome of
                    next_round \<Rightarrow> relay_loop os env input_specs VI VO cfg repacketize s2
                  | leave_loop \<Rightarrow> Some (0, logs [ev_shutdown (relay_stats s2)] s2)
                  | exits status \<Rightarrow> Some (status, s2))))"

declare relay_loop.simps [code]

section \<open>Starting up\<close>

definition bond_mode_of :: "('k, 'z) endpoint_spec_scheme \<Rightarrow> int" where
  "bond_mode_of spec =
     (if group_type spec = SRT_GTYPE_BROADCAST then 1 else if group_type spec = SRT_GTYPE_BACKUP then 2 else 0)"



definition initial_source_metrics ::
  "Config \<Rightarrow> InputEndpointSpec list \<Rightarrow> OutputEndpointSpec list \<Rightarrow> SourceMetrics" where
  "initial_source_metrics cfg ins outs =
     \<lparr>total_rx_bytes = 0, total_tx_bytes = 0, total_rx_msgs = 0, total_tx_msgs = 0, total_send_failures = 0,
      rx_bytes_per_sec = 0, tx_bytes_per_sec = 0, rx_msgs_per_sec = 0, tx_msgs_per_sec = 0,
      interval_send_failures = 0,
      input_sources_total = int (length ins), output_sources_total = int (length outs),
      active_input_index = 1, input_switches_total = 0,
      the_primary_input_index = (case primary_input_index cfg of None \<Rightarrow> 0 | Some k \<Rightarrow> int k + 1),
      the_switch_policy = (case primary_input_index cfg of None \<Rightarrow> 0 | Some _ \<Rightarrow> 1),
      the_switch_mode_code = (if switch_mode cfg = SwitchMode.kDelayed then 1 else 0),
      input_source_connected = replicate kMaxInputSources 0,
      input_source_listening = replicate kMaxInputSources 0,
      input_source_bond_mode =
        map (\<lambda>k. if k < length ins then bond_mode_of (ins ! k) else 0) [0..<kMaxInputSources],
      output_source_connected = replicate kMaxOutputSources 0,
      output_source_listening = replicate kMaxOutputSources 0,
      output_source_bond_mode =
        map (\<lambda>k. if k < length outs then bond_mode_of (outs ! k) else 0) [0..<kMaxOutputSources],
      output_listener_clients_of = replicate kMaxOutputSources no_clients,
      input_session_socket_id = SRT_INVALID_SOCK, output_transport_socket_id = SRT_INVALID_SOCK\<rparr>"

definition initial_relay ::
  "runtime_env \<Rightarrow> Config \<Rightarrow> RelayMetrics \<Rightarrow> InputEndpointSpec list \<Rightarrow> OutputEndpointSpec list \<Rightarrow> 'i \<Rightarrow> 'o \<Rightarrow> history \<Rightarrow>
   ('i, 'o) relay" where
  "initial_relay env cfg fresh ins outs i out h =
     \<lparr>the_input = i, the_output = out, relay_stats = default_RelayStats, relay_metrics = fresh,
      source_metrics = initial_source_metrics cfg ins outs,
      tracker = initial_tracker (unix_now_ms env 2), recv_buffer = replicate (nat (max_message_size cfg)) 0,
      stdin_pending = [], stdin_pending_offset = 0, last_stats_at = steady_now env 0,
      last_member_events_at = steady_now env 1, shutdown_requested = False, readings = 3, calls = h, trace = []\<rparr>"

definition stdin_repacketize_enabled :: "InputEndpointSpec list \<Rightarrow> bool" where
  "stdin_repacketize_enabled ins \<longleftrightarrow> length ins = 1 \<and> kind (hd ins) = InputEndpointKind.kStdin"

text \<open>\<open>fresh\<close> is a \<open>MetricsState\<close> as its constructor leaves it.\<close>

definition RelayMain ::
  "os \<Rightarrow> runtime_env \<Rightarrow> RelayMetrics \<Rightarrow> Config \<Rightarrow> history \<Rightarrow>
   (int \<times> (RelayInput, RelayOutput) relay) result option" where
  "RelayMain os env fresh cfg h =
     (case rbind (ParseInputEndpointSpecs cfg) (\<lambda>ins.
           rbind (ParseOutputEndpointSpecs cfg) (\<lambda>outs.
           rbind (BuildRelayInput cfg ins) (\<lambda>i.
           rbind (BuildRelayOutput fresh outs) (\<lambda>out. Inr (ins, outs, i, out))))) of
        Inl e \<Rightarrow> Some (Inl e)
      | Inr (ins, outs, i, out) \<Rightarrow>
          map_option Inr
            (relay_loop os env ins (RelayInput_class os) (RelayOutput_class os) cfg (stdin_repacketize_enabled ins)
               (initial_relay env cfg fresh ins outs i out h)))"

section \<open>Sleeping\<close>

text \<open>The sleeps a run of the loop adds, in order.\<close>

fun sleeps :: "relay_event list \<Rightarrow> int list" where
  "sleeps [] = []"
| "sleeps (ev_slept n # es) = n # sleeps es"
| "sleeps (e # es) = sleeps es"

lemma sleeps_append [simp]: "sleeps (xs @ ys) = sleeps xs @ sleeps ys"
  by (induction xs rule: sleeps.induct) simp_all

lemma logs_simps [simp]:
  "trace (logs es s) = trace s @ es" "readings (logs es s) = readings s"
  "shutdown_requested (logs es s) = shutdown_requested s"
  by (simp_all add: logs_def)

lemma tick_simps [simp]: "trace (tick s) = trace s" "shutdown_requested (tick s) = shutdown_requested s"
  by (simp_all add: tick_def)

lemma sleep_loop_sleeps:
  "slept \<le> delay \<Longrightarrow>
   \<exists>naps. sleeps (trace (sleep_loop env delay slept s)) = sleeps (trace s) @ naps \<and>
     (\<forall>n \<in> set naps. 0 < n \<and> n \<le> 100) \<and> slept + sum_list naps \<le> delay \<and>
     (\<not> shutdown_requested (sleep_loop env delay slept s) \<longrightarrow> slept + sum_list naps = delay)"
proof (induction env delay slept s rule: sleep_loop.induct)
  case (1 env delay slept s)
  obtain stop s1 where l: "load_shutdown env s = (stop, s1)" by (cases "load_shutdown env s")
  then have s1: "trace s1 = trace s" "shutdown_requested s1 = stop"
    by (auto simp: load_shutdown_def Let_def)
  show ?case
  proof (cases "slept < delay \<and> \<not> stop")
    case False
    then consider "slept = delay" | "slept < delay" "stop" using 1(2) by fastforce
    then show ?thesis
      using l s1 1(2) by cases (auto simp: sleep_loop.simps [of env delay slept s] sleep_loop.simps [of env delay delay s] intro: exI [of _ "[]"])
  next
    case True
    let ?n = "min 100 (delay - slept)"
    have step: "sleep_loop env delay slept s = sleep_loop env delay (slept + ?n) (logs [ev_slept ?n] s1)"
      using True l by (simp add: sleep_loop.simps [of env delay slept s] Let_def)
    have le: "slept + ?n \<le> delay" by simp
    have "slept < delay" and "\<not> stop" using True by simp_all
    from 1(1) [OF this(1) l [symmetric] this(2) refl le]
    obtain naps where "sleeps (trace (sleep_loop env delay (slept + ?n) (logs [ev_slept ?n] s1))) =
        sleeps (trace (logs [ev_slept ?n] s1)) @ naps" "\<forall>n \<in> set naps. 0 < n \<and> n \<le> 100"
      "slept + ?n + sum_list naps \<le> delay"
      "\<not> shutdown_requested (sleep_loop env delay (slept + ?n) (logs [ev_slept ?n] s1)) \<longrightarrow>
        slept + ?n + sum_list naps = delay"
      by auto
    with True step s1 show ?thesis by (intro exI [of _ "?n # naps"]) (auto simp: add.assoc)
  qed
qed

text \<open>
  C10. Waiting to reconnect ends in time: the wait is cut into naps of at most 100 ms that never add up
  to more than the configured delay, and to exactly that delay unless a shutdown is requested, which
  ends the wait after the nap it falls into.
\<close>

theorem SleepReconnectDelay_bounded:
  assumes "0 \<le> reconnect_delay_ms cfg"
  shows "\<exists>naps. sleeps (trace (SleepReconnectDelay env cfg s)) = sleeps (trace s) @ naps \<and>
    (\<forall>n \<in> set naps. 0 < n \<and> n \<le> 100) \<and> sum_list naps \<le> reconnect_delay_ms cfg \<and>
    (\<not> shutdown_requested (SleepReconnectDelay env cfg s) \<longrightarrow> sum_list naps = reconnect_delay_ms cfg)"
  using sleep_loop_sleeps [OF assms, of env s] by (simp add: SleepReconnectDelay_def)

end
