(* ===== verification/RelayRun.thy ===== *)
theory RelayRun
  imports Runtime
begin

text \<open>
  Runs of the relay loop. \<open>relay_step\<close> is an abstract relay that does one thing at a time: a call of an
  endpoint, an operation of the tracker, the books on a message. Every round of the loop is a sequence
  of its steps, so what all steps keep holds in every run: what is open is what the endpoints hold,
  the counters are those of the messages in the log, and the incidents are those of a run of the
  tracker. That the messages themselves are neither lost nor reordered is shown on the loop.
\<close>

section \<open>The abstract relay\<close>

text \<open>The counters of \<open>MetricsState\<close> that mirror the statistics.\<close>

definition mirrored :: "SourceMetrics \<Rightarrow> u64 \<times> u64 \<times> u64 \<times> u64 \<times> u64" where
  "mirrored lm = (total_rx_bytes lm, total_tx_bytes lm, total_rx_msgs lm, total_tx_msgs lm, total_send_failures lm)"

text \<open>Events that report nothing the invariants speak of.\<close>

fun quiet :: "relay_event \<Rightarrow> bool" where
  "quiet (ev_members ls) = True"
| "quiet (ev_slept n) = True"
| "quiet (ev_shutdown st) = True"
| "quiet e = False"

text \<open>What can fail on each side, a send aside.\<close>

definition can_fail :: "FailureSide \<Rightarrow> FailureOperation \<Rightarrow> bool" where
  "can_fail side op \<longleftrightarrow>
     (if side = FailureSide.kInput
      then op = FailureOperation.kEnsure \<or> op = FailureOperation.kReceive \<or> op = FailureOperation.kProtocol
      else op = FailureOperation.kEnsure)"

inductive relay_step ::
  "'i InputSource_methods \<Rightarrow> 'o OutputSink_methods \<Rightarrow> Config \<Rightarrow> ('i, 'o) relay \<Rightarrow> ('i, 'o) relay \<Rightarrow> bool"
  for VI :: "'i InputSource_methods" and VO :: "'o OutputSink_methods" and cfg :: Config where
  step_quiet:
    "mirrored lm = mirrored (source_metrics s) \<Longrightarrow> list_all quiet es \<Longrightarrow> readings s \<le> k \<Longrightarrow>
     relay_step VI VO cfg s
       (s\<lparr>relay_metrics := m, source_metrics := lm, last_member_events_at := at, shutdown_requested := b,
          readings := k, stdin_pending := p, stdin_pending_offset := n, trace := trace s @ es\<rparr>)"
| step_start_attempt: "relay_step VI VO cfg s (fst (start_attempt side s))"
| step_end_attempt: "relay_step VI VO cfg s (s\<lparr>tracker := CompleteAttempt side (tracker s)\<rparr>)"
| step_close_incident: "relay_step VI VO cfg s (close_incident VI VO s)"
| step_note_failure: "can_fail side (fa_operation a) \<Longrightarrow> relay_step VI VO cfg s (note_failure env side a s)"
| step_stats:
    "mirrored lm = mirrored (source_metrics s) \<Longrightarrow> readings s \<le> k \<Longrightarrow>
     relay_step VI VO cfg s
       (s\<lparr>relay_stats := start_interval (m :: RelayMetrics) (relay_stats s), relay_metrics := m', source_metrics := lm,
          last_stats_at := at, readings := k, trace := trace s @ [ev_stats (relay_stats s) lines]\<rparr>)"
| step_ensure_input:
    "EnsureReady VI cfg ctx (the_input s, relay_metrics s, calls s) = (r, i, m, h) \<Longrightarrow>
     relay_step VI VO cfg s (s\<lparr>the_input := i, relay_metrics := m, calls := h\<rparr>)"
| step_reset_input:
    "HandleReceiveError VI (the_input s, relay_metrics s, calls s) = (i, m, h) \<Longrightarrow>
     relay_step VI VO cfg s (s\<lparr>the_input := i, relay_metrics := m, calls := h\<rparr>)"
| step_receive:
    "Receive VI cfg (the_input s, recv_buffer s, ctrl, calls s) = (res, i, b, ctrl', h) \<Longrightarrow>
     relay_step VI VO cfg s (s\<lparr>the_input := i, recv_buffer := b, calls := h\<rparr>)"
| step_ensure_output:
    "SinkEnsureReady VO cfg ctx (the_output s, relay_stats s, relay_metrics s, calls s) = (r, out, st, m, h) \<Longrightarrow>
     relay_step VI VO cfg s (s\<lparr>the_output := out, relay_stats := st, relay_metrics := m, calls := h\<rparr>)"
| step_reset_output:
    "MarkDisconnected VO (the_output s, relay_metrics s, calls s) = (out, m, h) \<Longrightarrow>
     relay_step VI VO cfg s (s\<lparr>the_output := out, relay_metrics := m, calls := h\<rparr>)"
| step_send:
    "Send VO bytes (the_output s, relay_metrics s, calls s) = Some (res, out, m, h) \<Longrightarrow>
     relay_step VI VO cfg s (s\<lparr>the_output := out, relay_metrics := m, calls := h\<rparr>)"
| step_received: "relay_step VI VO cfg s (received_data os env input_specs VI n ctrl s)"
| step_sent: "relay_step VI VO cfg s (sent_data env n bytes s)"
| step_send_failed:
    "fa_operation a = FailureOperation.kSend \<Longrightarrow>
     relay_step VI VO cfg s
       (note_failure env FailureSide.kOutput a (fst (start_attempt FailureSide.kOutput (failed_data bytes s))))"

text \<open>What the operations of the tracker do to the state.\<close>

lemma start_attempt_eq:
  "fst (start_attempt side s) = s\<lparr>tracker := fst (EnsureAttemptStarted side (tracker s))\<rparr>"
  by (simp add: start_attempt_def split: prod.split)

lemma close_incident_eq:
  "close_incident VI VO s =
     (let r = MaybeCloseIncident (IsConnected VI (the_input s)) (SinkIsConnected VO (the_output s)) (tracker s)
      in s\<lparr>tracker := fst r, trace := trace s @ map ev_incident (snd r)\<rparr>)"
  by (simp add: close_incident_def logs_def Let_def split: prod.split)

lemma note_failure_eq:
  "note_failure env side a s =
     (let r = RecordFailure side a (unix_now_ms env (readings s)) (tracker s)
      in s\<lparr>tracker := fst r, readings := readings s + 1,
           trace := trace s @ map ev_incident (snd (snd r)) @ [ev_failure side (reason_of a)]\<rparr>)"
  by (simp add: note_failure_def logs_def tick_def Let_def RecordFailure_def split: prod.split)

lemmas tracker_eqs = start_attempt_eq close_incident_eq note_failure_eq

abbreviation relay_steps ::
  "'i InputSource_methods \<Rightarrow> 'o OutputSink_methods \<Rightarrow> Config \<Rightarrow> ('i, 'o) relay \<Rightarrow> ('i, 'o) relay \<Rightarrow> bool" where
  "relay_steps VI VO cfg \<equiv> (relay_step VI VO cfg)\<^sup>*\<^sup>*"

lemma steps_readings: "relay_steps VI VO cfg s s' \<Longrightarrow> readings s \<le> readings s'"
proof (induction rule: rtranclp_induct)
  case (step t u)
  from step(2) have "readings t \<le> readings u"
    by cases (simp_all add: received_data_def sent_data_def failed_data_def tracker_eqs logs_def tick_def Let_def)
  with step(3) show ?case by simp
qed simp

text \<open>One quiet step, stated as what stays the same.\<close>

lemma quiet_step:
  assumes "s' = s\<lparr>relay_metrics := relay_metrics s', source_metrics := source_metrics s',
      last_member_events_at := last_member_events_at s', shutdown_requested := shutdown_requested s',
      readings := readings s', stdin_pending := stdin_pending s',
      stdin_pending_offset := stdin_pending_offset s', trace := trace s @ es\<rparr>"
    and "mirrored (source_metrics s') = mirrored (source_metrics s)" and "list_all quiet es"
    and "readings s \<le> readings s'"
  shows "relay_steps VI VO cfg s s'"
proof -
  have "relay_step VI VO cfg s s'"
    by (subst assms(1)) (rule step_quiet [OF assms(2-4)])
  then show ?thesis by (rule r_into_rtranclp)
qed

section \<open>Every round is a sequence of steps\<close>

lemmas steps_trans = rtranclp_trans [of "relay_step VI VO cfg" for VI VO cfg]

lemma relay_eqI:
  fixes s t :: "('i, 'o) relay"
  shows "the_input s = the_input t \<Longrightarrow> the_output s = the_output t \<Longrightarrow> relay_stats s = relay_stats t \<Longrightarrow>
    relay_metrics s = relay_metrics t \<Longrightarrow> source_metrics s = source_metrics t \<Longrightarrow> tracker s = tracker t \<Longrightarrow>
    recv_buffer s = recv_buffer t \<Longrightarrow> stdin_pending s = stdin_pending t \<Longrightarrow>
    stdin_pending_offset s = stdin_pending_offset t \<Longrightarrow> last_stats_at s = last_stats_at t \<Longrightarrow>
    last_member_events_at s = last_member_events_at t \<Longrightarrow> shutdown_requested s = shutdown_requested t \<Longrightarrow>
    readings s = readings t \<Longrightarrow> calls s = calls t \<Longrightarrow> trace s = trace t \<Longrightarrow> s = t"
  by simp

lemma steps_load: "relay_steps VI VO cfg s (snd (load_shutdown env s))"
  by (rule quiet_step [where es = "[]"]) (simp_all add: load_shutdown_def tick_def Let_def)

lemma steps_log: "list_all quiet es \<Longrightarrow> relay_steps VI VO cfg s (logs es s)"
  by (rule quiet_step [where es = es]) (simp_all add: logs_def)

lemma steps_sleep_loop: "relay_steps VI VO cfg s (sleep_loop env delay slept s)"
proof (induction env delay slept s rule: sleep_loop.induct)
  case (1 env delay slept s)
  obtain stop s1 where l: "load_shutdown env s = (stop, s1)" by (cases "load_shutdown env s")
  then have s1: "relay_steps VI VO cfg s s1" using steps_load [of VI VO cfg s env] by simp
  show ?case
  proof (cases "slept < delay \<and> \<not> stop")
    case False
    with l s1 show ?thesis by (auto simp: sleep_loop.simps [of env delay slept s])
  next
    case True
    let ?n = "min 100 (delay - slept)"
    have step: "sleep_loop env delay slept s = sleep_loop env delay (slept + ?n) (logs [ev_slept ?n] s1)"
      using True l by (simp add: sleep_loop.simps [of env delay slept s] Let_def)
    have "slept < delay" and "\<not> stop" using True by simp_all
    from 1(1) [OF this(1) l [symmetric] this(2) refl]
    have "relay_steps VI VO cfg (logs [ev_slept ?n] s1) (sleep_loop env delay slept s)" by (simp add: step)
    moreover have "relay_steps VI VO cfg s1 (logs [ev_slept ?n] s1)" by (rule steps_log) simp
    ultimately show ?thesis using s1 by (meson rtranclp_trans)
  qed
qed

lemma steps_sleep: "relay_steps VI VO cfg s (SleepReconnectDelay env cfg' s)"
  unfolding SleepReconnectDelay_def by (rule steps_sleep_loop)

lemma steps_note_failure:
  "can_fail side (fa_operation a) \<Longrightarrow> relay_steps VI VO cfg s (note_failure env side a s)"
  by (rule r_into_rtranclp) (rule step_note_failure)

lemma steps_end_attempt: "relay_steps VI VO cfg s (s\<lparr>tracker := CompleteAttempt side (tracker s)\<rparr>)"
  by (rule r_into_rtranclp) (rule step_end_attempt)

lemma steps_start_attempt: "relay_steps VI VO cfg s (fst (start_attempt side s))"
  by (rule r_into_rtranclp) (rule step_start_attempt)

lemma steps_reset_input: "relay_steps VI VO cfg s (reset_input VI s)"
  unfolding reset_input_def
  by (auto split: prod.split intro: step_reset_input)

lemma steps_reset_output: "relay_steps VI VO cfg s (reset_output VO s)"
  unfolding reset_output_def
  by (auto split: prod.split intro: step_reset_output)

lemma mirrored_frame [simp, frame_simps]:
  "mirrored (source_gauges VI VO i out lm) = mirrored lm"
  "mirrored (lm\<lparr>input_session_socket_id := a\<rparr>) = mirrored lm"
  "mirrored (lm\<lparr>output_transport_socket_id := a\<rparr>) = mirrored lm"
  "mirrored (lm\<lparr>active_input_index := a\<rparr>) = mirrored lm"
  "mirrored (lm\<lparr>input_switches_total := n\<rparr>) = mirrored lm"
  "mirrored (PublishIntervalMetrics rates st lm) = mirrored lm"
  by (simp_all add: mirrored_def source_gauges_def PublishIntervalMetrics_def Let_def)

lemma steps_publish: "relay_steps VI VO cfg s (publish_gauges VI VO s)"
  by (rule quiet_step [where es = "[]"]) (simp_all add: publish_gauges_def Let_def)

lemma steps_emit_members: "relay_steps VI VO cfg s (emit_members os env VI VO s)"
proof -
  obtain m at lines where e: "MaybeEmitMemberConnectionEvents (net os (calls s)) (steady_now env (readings s))
             (SessionSocket VI (the_input s)) (TransportSocket VO (the_output s)) (MetricsMode VO (the_output s))
             (ActiveIncidentId (tracker s)) (last_member_events_at s) (relay_metrics s) = (m, at, lines)"
    by (metis prod_cases3)
  show ?thesis
    by (rule quiet_step [where es = "if lines = [] then [] else [ev_members lines]"])
      (simp_all add: emit_members_def e logs_def tick_def)
qed

lemma steps_log_stats: "relay_steps VI VO cfg s (log_stats os env VI VO cfg' s)"
proof -
  let ?state = "\<lparr>state_input_listening = IsListening VI (the_input s), state_input_connected = IsConnected VI (the_input s),
       state_output_connected = SinkIsConnected VO (the_output s)\<rparr>"
  obtain stats m lm at lines where e: "MaybeLogStats (net os (calls s)) (doubles env) cfg'
       (steady_now env (readings s)) (unix_now_ms env (readings s + 1)) ?state
       (SessionSocket VI (the_input s)) (TransportSocket VO (the_output s)) (MetricsMode VO (the_output s))
       (relay_stats s, relay_metrics s, source_metrics s, last_stats_at s) = ((stats, m, lm, at), lines)"
    by (metis prod.exhaust)
  then have s': "log_stats os env VI VO cfg' s =
      logs (if lines = [] then [] else [ev_stats (relay_stats s) lines])
        (tick (tick (s\<lparr>relay_stats := stats, relay_metrics := m, source_metrics := lm, last_stats_at := at\<rparr>)))"
    by (simp add: log_stats_def)
  show ?thesis
  proof (cases "lines = []")
    case True
    with e have "stats = relay_stats s" "m = relay_metrics s" "lm = source_metrics s" "at = last_stats_at s"
      by (auto simp: MaybeLogStats_def Let_def split: if_splits)
    with True s' have "log_stats os env VI VO cfg' s = s\<lparr>readings := readings s + 1 + 1\<rparr>"
      by (simp add: logs_def tick_def)
    then show ?thesis by (intro quiet_step [where es = "[]"]) simp_all
  next
    case False
    with e have st: "stats = start_interval m (relay_stats s)" and lm: "mirrored lm = mirrored (source_metrics s)"
      by (auto simp: MaybeLogStats_def Let_def split: if_splits)
    have "relay_step VI VO cfg s
       (s\<lparr>relay_stats := start_interval m (relay_stats s), relay_metrics := m, source_metrics := lm,
          last_stats_at := at, readings := readings s + 1 + 1, trace := trace s @ [ev_stats (relay_stats s) lines]\<rparr>)"
      by (rule step_stats [OF lm]) simp
    then show ?thesis using s' False st by (intro r_into_rtranclp) (simp add: logs_def tick_def)
  qed
qed

lemma steps_close_incident: "relay_steps VI VO cfg s (close_incident VI VO s)"
  by (rule r_into_rtranclp) (rule step_close_incident)

lemma steps_begin_round: "relay_steps VI VO cfg s (begin_round os env VI VO cfg' s)"
proof -
  let ?s1 = "log_stats os env VI VO cfg' (emit_members os env VI VO (publish_gauges VI VO s))"
  let ?s2 = "?s1\<lparr>source_metrics := (source_metrics ?s1)
      \<lparr>active_input_index := int (ActiveInputIndex VI (the_input ?s1)) + 1,
       input_switches_total := InputSwitchCount VI (the_input ?s1)\<rparr>\<rparr>"
  have a: "relay_steps VI VO cfg s ?s1"
    by (meson steps_publish steps_emit_members steps_log_stats rtranclp_trans)
  have b: "relay_steps VI VO cfg ?s1 ?s2"
    by (rule quiet_step [where es = "[]"]) simp_all
  have "begin_round os env VI VO cfg' s = close_incident VI VO ?s2"
    by (simp add: begin_round_def Let_def)
  with rtranclp_trans [OF rtranclp_trans [OF a b] steps_close_incident] show ?thesis by simp
qed

lemma steps_ensure_input:
  assumes "ensure_input env input_specs VI cfg s = (r, s')"
  shows "relay_steps VI VO cfg s s'"
proof (cases "NeedsEnsurePoll VI (the_input s)")
  case False
  with assms show ?thesis by (simp add: ensure_input_def)
next
  case True
  let ?reconnect = "\<not> IsConnected VI (the_input s)"
  obtain s1 attempt where st: "(if ?reconnect then start_attempt FailureSide.kInput s else (s, 0)) = (s1, attempt)"
    by (cases "if ?reconnect then start_attempt FailureSide.kInput s else (s, 0)")
  then have 1: "relay_steps VI VO cfg s s1"
    using steps_start_attempt [of VI VO cfg s FailureSide.kInput] by (auto split: if_splits)
  let ?ctx = "\<lparr>attempt_id = attempt, attempt_incident_id = ActiveIncidentId (tracker s1), source_index = None\<rparr>"
  obtain res i m h where e: "EnsureReady VI cfg ?ctx (the_input s1, relay_metrics s1, calls s1) = (res, i, m, h)"
    by (cases "EnsureReady VI cfg ?ctx (the_input s1, relay_metrics s1, calls s1)")
  let ?s2 = "s1\<lparr>the_input := i, relay_metrics := m, calls := h\<rparr>"
  have 2: "relay_steps VI VO cfg s ?s2" using 1 step_ensure_input [OF e] by (rule rtranclp.rtrancl_into_rtrancl)
  have s': "(r, s') = (case res of
        Inr _ \<Rightarrow> (None, if ?reconnect then ?s2\<lparr>tracker := CompleteAttempt FailureSide.kInput (tracker ?s2)\<rparr> else ?s2)
      | Inl x \<Rightarrow> if \<not> ?reconnect \<and> IsConnected VI i then (Some next_round, ?s2)
                 else input_failed env input_specs VI cfg attempt x ?s2)"
    using assms True st e by (simp add: ensure_input_def Let_def)
  have "relay_steps VI VO cfg ?s2 s'"
  proof (cases res)
    case (Inr u)
    then show ?thesis using s' steps_end_attempt [of VI VO cfg ?s2] by (auto split: if_splits)
  next
    case (Inl x)
    have "relay_steps VI VO cfg ?s2 (snd (input_failed env input_specs VI cfg attempt x ?s2))"
      unfolding input_failed_def Let_def
      by (auto intro: steps_note_failure
          rtranclp_trans [OF rtranclp_trans [OF steps_note_failure steps_reset_input] steps_sleep]
          rtranclp_trans [OF steps_note_failure steps_reset_input] simp: can_fail_def)
    with Inl s' show ?thesis by (auto split: if_splits dest: arg_cong [where f = snd])
  qed
  with 2 show ?thesis by (rule rtranclp_trans)
qed

lemma steps_ensure_output:
  assumes "ensure_output env VO cfg s = (r, s')"
  shows "relay_steps VI VO cfg s s'"
proof (cases "SinkNeedsEnsurePoll VO (the_output s)")
  case False
  with assms show ?thesis by (simp add: ensure_output_def)
next
  case True
  let ?reconnect = "\<not> SinkIsConnected VO (the_output s)"
  obtain s1 attempt where st: "(if ?reconnect then start_attempt FailureSide.kOutput s else (s, 0)) = (s1, attempt)"
    by (cases "if ?reconnect then start_attempt FailureSide.kOutput s else (s, 0)")
  then have 1: "relay_steps VI VO cfg s s1"
    using steps_start_attempt [of VI VO cfg s FailureSide.kOutput] by (auto split: if_splits)
  let ?ctx = "\<lparr>attempt_id = attempt, attempt_incident_id = ActiveIncidentId (tracker s1), source_index = None\<rparr>"
  obtain res out rs m h where
    e: "SinkEnsureReady VO cfg ?ctx (the_output s1, relay_stats s1, relay_metrics s1, calls s1) = (res, out, rs, m, h)"
    by (cases "SinkEnsureReady VO cfg ?ctx (the_output s1, relay_stats s1, relay_metrics s1, calls s1)")
  let ?s2 = "s1\<lparr>the_output := out, relay_stats := rs, relay_metrics := m, calls := h\<rparr>"
  have 2: "relay_steps VI VO cfg s ?s2" using 1 step_ensure_output [OF e] by (rule rtranclp.rtrancl_into_rtrancl)
  have s': "(r, s') = (case res of
        Inr _ \<Rightarrow> (None, if ?reconnect then ?s2\<lparr>tracker := CompleteAttempt FailureSide.kOutput (tracker ?s2)\<rparr> else ?s2)
      | Inl x \<Rightarrow> if \<not> ?reconnect \<and> SinkIsConnected VO out then (Some next_round, ?s2)
                 else output_failed env VO cfg attempt x ?s2)"
    using assms True st e by (simp add: ensure_output_def Let_def)
  have "relay_steps VI VO cfg ?s2 s'"
  proof (cases res)
    case (Inr u)
    then show ?thesis using s' steps_end_attempt [of VI VO cfg ?s2] by (auto split: if_splits)
  next
    case (Inl x)
    have "relay_steps VI VO cfg ?s2 (snd (output_failed env VO cfg attempt x ?s2))"
      unfolding output_failed_def Let_def
      by (auto intro: steps_note_failure
          rtranclp_trans [OF rtranclp_trans [OF steps_note_failure steps_reset_output] steps_sleep]
          rtranclp_trans [OF steps_note_failure steps_reset_output] simp: can_fail_def)
    with Inl s' show ?thesis by (auto split: if_splits dest: arg_cong [where f = snd])
  qed
  with 2 show ?thesis by (rule rtranclp_trans)
qed

lemma steps_receive_error: "relay_steps VI VO cfg s (snd (receive_error env VI cfg' s))"
proof -
  obtain s1 k where st: "start_attempt FailureSide.kInput s = (s1, k)" by (cases "start_attempt FailureSide.kInput s")
  then have 1: "relay_steps VI VO cfg s s1" using steps_start_attempt [of VI VO cfg s FailureSide.kInput] by simp
  have "relay_steps VI VO cfg s1 (snd (receive_error env VI cfg' s))"
    unfolding receive_error_def st Let_def
    by (auto intro: steps_note_failure rtranclp_trans [OF steps_note_failure steps_reset_input]
        simp: can_fail_def)
  with 1 show ?thesis by (rule rtranclp_trans)
qed

lemma steps_receive_message:
  assumes "receive_message os env input_specs VI cfg s = (r, s')"
  shows "relay_steps VI VO cfg s s'"
proof -
  obtain res i b ctrl h where rec: "Receive VI cfg (the_input s, recv_buffer s, fresh_rx_ctrl env, calls s) = (res, i, b, ctrl, h)"
    by (cases "Receive VI cfg (the_input s, recv_buffer s, fresh_rx_ctrl env, calls s)")
  let ?s1 = "s\<lparr>the_input := i, recv_buffer := b, calls := h\<rparr>"
  have 1: "relay_steps VI VO cfg s ?s1" by (rule r_into_rtranclp) (rule step_receive [OF rec])
  have "relay_steps VI VO cfg ?s1 s'"
    using assms rec steps_receive_error [of VI VO cfg ?s1 env cfg]
    by (auto simp: receive_message_def Let_def intro: step_received split: if_splits prod.splits)
  with 1 show ?thesis by (rule rtranclp_trans)
qed

lemma steps_send_error: "relay_steps VI VO cfg s (send_error env VO cfg' bytes s)"
proof -
  obtain s1 k where st: "start_attempt FailureSide.kOutput (failed_data bytes s) = (s1, k)"
    by (cases "start_attempt FailureSide.kOutput (failed_data bytes s)")
  have booked: "relay_steps VI VO cfg s (note_failure env FailureSide.kOutput a s1)"
    if "fa_operation a = FailureOperation.kSend" for a
    using r_into_rtranclp [of "relay_step VI VO cfg", OF step_send_failed [OF that]] st by (metis fst_conv)
  have flag: "relay_steps VI VO cfg t (t\<lparr>shutdown_requested := True\<rparr>)" for t :: "('a, 'b) relay"
    by (rule quiet_step [where es = "[]"]) simp_all
  show ?thesis
    unfolding send_error_def st Let_def
    by (auto intro: rtranclp_trans [OF rtranclp_trans [OF booked steps_reset_output] steps_sleep]
        rtranclp_trans [OF rtranclp_trans [OF booked steps_reset_output] flag])
qed

lemma steps_send_chunk:
  assumes "send_chunk env VO cfg' bytes s = Some (ok, s')"
  shows "relay_steps VI VO cfg s s'"
proof -
  obtain res out m h where snd: "Send VO bytes (the_output s, relay_metrics s, calls s) = Some (res, out, m, h)"
    using assms by (auto simp: send_chunk_def split: option.splits)
  let ?s1 = "s\<lparr>the_output := out, relay_metrics := m, calls := h\<rparr>"
  have 1: "relay_steps VI VO cfg s ?s1" by (rule r_into_rtranclp) (rule step_send [OF snd])
  have "relay_steps VI VO cfg ?s1 s'"
    using assms snd by (auto simp: send_chunk_def Let_def intro: steps_send_error step_sent split: if_splits)
  with 1 show ?thesis by (rule rtranclp_trans)
qed

lemma steps_pop: "relay_steps VI VO cfg s (pop_chunk n s)"
  by (rule quiet_step [where es = "[]"]) (simp_all add: pop_chunk_def Let_def)

lemma steps_send_pending:
  assumes "send_pending env VO cfg' chunk s = Some (ok, s')"
  shows "relay_steps VI VO cfg s s'"
proof -
  have "relay_steps VI VO cfg s (snd (ok, s'))"
  proof (rule send_pending.raw_induct [where P = "\<lambda>env VO cfg' chunk s r. relay_steps VI VO cfg s (snd r)", OF _ assms])
    fix f env VO cfg' chunk s r
    assume IH: "\<And>env VO cfg' chunk s r. f env VO cfg' chunk s = Some r \<Longrightarrow> relay_steps VI VO cfg s (snd r)"
      and eq: "(if chunk \<le> length (stdin_pending s) - stdin_pending_offset s then
        (case send_chunk env VO cfg' (take chunk (drop (stdin_pending_offset s) (stdin_pending s))) s of
           None \<Rightarrow> None
         | Some (ok, s1) \<Rightarrow> if ok then f env VO cfg' chunk (pop_chunk chunk s1) else Some (False, s1))
      else Some (True, s)) = Some r"
    show "relay_steps VI VO cfg s (snd r)"
    proof (cases "chunk \<le> length (stdin_pending s) - stdin_pending_offset s")
      case False
      with eq show ?thesis by auto
    next
      case True
      with eq obtain ok s1 where
        sc: "send_chunk env VO cfg' (take chunk (drop (stdin_pending_offset s) (stdin_pending s))) s = Some (ok, s1)"
        by (auto split: option.splits)
      note 1 = steps_send_chunk [OF sc]
      show ?thesis
      proof (cases ok)
        case False
        with eq sc True 1 show ?thesis by auto
      next
        case ok: True
        with eq sc True have "f env VO cfg' chunk (pop_chunk chunk s1) = Some r" by simp
        from rtranclp_trans [OF rtranclp_trans [OF 1 steps_pop] IH [OF this]] show ?thesis .
      qed
    qed
  qed
  then show ?thesis by simp
qed

lemma steps_forward:
  assumes "forward_message env VO cfg' repacketize n s = Some (r, s')"
  shows "relay_steps VI VO cfg s s'"
proof (cases repacketize)
  case False
  with assms steps_send_chunk [of env VO cfg' "take (nat n) (recv_buffer s)" s _ s' VI cfg] show ?thesis
    by (auto simp: forward_message_def Let_def)
next
  case True
  let ?s1 = "s\<lparr>stdin_pending := stdin_pending s @ take (nat n) (recv_buffer s)\<rparr>"
  have 1: "relay_steps VI VO cfg s ?s1" by (rule quiet_step [where es = "[]"]) simp_all
  from True assms obtain ok where "send_pending env VO cfg' (nat (stdin_chunk_size cfg')) ?s1 = Some (ok, s')"
    by (auto simp: forward_message_def Let_def)
  from rtranclp_trans [OF 1 steps_send_pending [OF this]] show ?thesis .
qed

text \<open>The refinement: what a round does is a sequence of steps of the abstract relay.\<close>

lemma steps_round:
  assumes "relay_round os env input_specs VI VO cfg repacketize s = Some (r, s')"
  shows "relay_steps VI VO cfg s s'"
proof -
  let ?s0 = "begin_round os env VI VO cfg s"
  note 0 = steps_begin_round [of VI VO cfg s os env cfg]
  obtain r1 s1 where e1: "ensure_input env input_specs VI cfg ?s0 = (r1, s1)"
    by (cases "ensure_input env input_specs VI cfg ?s0")
  note 1 = rtranclp_trans [OF 0 steps_ensure_input [OF e1]]
  show ?thesis
  proof (cases r1)
    case (Some x)
    with assms e1 1 show ?thesis by (simp add: relay_round_def)
  next
    case None
    obtain r2 s2 where e2: "ensure_output env VO cfg s1 = (r2, s2)" by (cases "ensure_output env VO cfg s1")
    note 2 = rtranclp_trans [OF 1 steps_ensure_output [OF e2]]
    show ?thesis
    proof (cases r2)
      case (Some x)
      with assms e1 e2 \<open>r1 = None\<close> 2 show ?thesis by (simp add: relay_round_def)
    next
      case None
      obtain r3 s3 where e3: "receive_message os env input_specs VI cfg s2 = (r3, s3)"
        by (cases "receive_message os env input_specs VI cfg s2")
      note 3 = rtranclp_trans [OF 2 steps_receive_message [OF e3]]
      show ?thesis
      proof (cases r3)
        case (Inl x)
        with assms e1 e2 e3 \<open>r1 = None\<close> \<open>r2 = None\<close> 3 show ?thesis by (simp add: relay_round_def)
      next
        case (Inr n)
        with assms e1 e2 e3 \<open>r1 = None\<close> \<open>r2 = None\<close>
        have "forward_message env VO cfg repacketize n s3 = Some (r, s')" by (simp add: relay_round_def)
        from rtranclp_trans [OF 3 steps_forward [OF this]] show ?thesis .
      qed
    qed
  qed
qed

text \<open>Rounds from a start, each one going on to the next, with the check of the flag before it.\<close>

inductive rounds ::
  "os \<Rightarrow> runtime_env \<Rightarrow> InputEndpointSpec list \<Rightarrow> 'i InputSource_methods \<Rightarrow> 'o OutputSink_methods \<Rightarrow> Config \<Rightarrow> bool \<Rightarrow>
   ('i, 'o) relay \<Rightarrow> ('i, 'o) relay \<Rightarrow> bool"
  for os env input_specs VI VO cfg repacketize where
  rounds_refl: "rounds os env input_specs VI VO cfg repacketize s s"
| rounds_next: "load_shutdown env s = (False, s1) \<Longrightarrow>
    relay_round os env input_specs VI VO cfg repacketize s1 = Some (next_round, s2) \<Longrightarrow>
    rounds os env input_specs VI VO cfg repacketize s2 s3 \<Longrightarrow>
    rounds os env input_specs VI VO cfg repacketize s s3"

text \<open>How the loop can end after the last full round: on the flag, on the end of the input, or by failing.\<close>

definition last_round ::
  "os \<Rightarrow> runtime_env \<Rightarrow> InputEndpointSpec list \<Rightarrow> 'i InputSource_methods \<Rightarrow> 'o OutputSink_methods \<Rightarrow> Config \<Rightarrow> bool \<Rightarrow>
   ('i, 'o) relay \<Rightarrow> int \<Rightarrow> ('i, 'o) relay \<Rightarrow> bool" where
  "last_round os env input_specs VI VO cfg repacketize s status s' \<longleftrightarrow>
     (case load_shutdown env s of
        (True, s1) \<Rightarrow> status = 0 \<and> s' = logs [ev_shutdown (relay_stats s1)] s1
      | (False, s1) \<Rightarrow>
          (\<exists>s2. relay_round os env input_specs VI VO cfg repacketize s1 = Some (leave_loop, s2) \<and>
                status = 0 \<and> s' = logs [ev_shutdown (relay_stats s2)] s2) \<or>
          relay_round os env input_specs VI VO cfg repacketize s1 = Some (exits status, s'))"

lemma relay_loop_rounds:
  assumes "relay_loop os env input_specs VI VO cfg repacketize s = Some (status, s')"
  shows "\<exists>s1. rounds os env input_specs VI VO cfg repacketize s s1 \<and>
    last_round os env input_specs VI VO cfg repacketize s1 status s'"
proof -
  let ?P = "\<lambda>os env input_specs VI VO cfg repacketize s r.
    \<exists>s1. rounds os env input_specs VI VO cfg repacketize s s1 \<and>
      last_round os env input_specs VI VO cfg repacketize s1 (fst r) (snd r)"
  have "?P os env input_specs VI VO cfg repacketize s (status, s')"
  proof (rule relay_loop.raw_induct [where P = ?P, OF _ assms])
    fix f os env input_specs and VI :: "'a InputSource_methods" and VO :: "'b OutputSink_methods"
      and cfg repacketize s r
    assume IH: "\<And>os env input_specs VI VO cfg repacketize s r.
        f os env input_specs VI VO cfg repacketize s = Some r \<Longrightarrow> ?P os env input_specs VI VO cfg repacketize s r"
      and eq: "(case load_shutdown env s of
        (stop, s1) \<Rightarrow>
          if stop then Some (0, logs [ev_shutdown (relay_stats s1)] s1)
          else
            (case relay_round os env input_specs VI VO cfg repacketize s1 of
               None \<Rightarrow> None
             | Some (outcome, s2) \<Rightarrow>
                 (case outcome of
                    next_round \<Rightarrow> f os env input_specs VI VO cfg repacketize s2
                  | leave_loop \<Rightarrow> Some (0, logs [ev_shutdown (relay_stats s2)] s2)
                  | exits status \<Rightarrow> Some (status, s2)))) = Some r"
    obtain stop s1 where l: "load_shutdown env s = (stop, s1)" by (cases "load_shutdown env s")
    show "?P os env input_specs VI VO cfg repacketize s r"
    proof (cases stop)
      case True
      with eq l show ?thesis by (intro exI [of _ s] conjI rounds_refl) (auto simp: last_round_def)
    next
      case False
      with eq l obtain outcome s2 where
        rr: "relay_round os env input_specs VI VO cfg repacketize s1 = Some (outcome, s2)"
        by (auto split: option.splits)
      show ?thesis
      proof (cases outcome)
        case next_round
        with eq l rr False have "f os env input_specs VI VO cfg repacketize s2 = Some r" by simp
        then obtain s3 where r3: "rounds os env input_specs VI VO cfg repacketize s2 s3"
          and l3: "last_round os env input_specs VI VO cfg repacketize s3 (fst r) (snd r)"
          using IH by blast
        have "load_shutdown env s = (False, s1)" using l False by simp
        from rounds_next [OF this rr [unfolded next_round] r3] l3 show ?thesis by blast
      next
        case leave_loop
        with eq l rr False show ?thesis by (intro exI [of _ s] conjI rounds_refl) (auto simp: last_round_def)
      next
        case (exits x)
        with eq l rr False show ?thesis by (intro exI [of _ s] conjI rounds_refl) (auto simp: last_round_def)
      qed
    qed
  qed
  then show ?thesis by simp
qed

lemma steps_rounds: "rounds os env input_specs VI VO cfg repacketize s s' \<Longrightarrow> relay_steps VI VO cfg s s'"
proof (induction rule: rounds.induct)
  case (rounds_refl s)
  then show ?case by simp
next
  case (rounds_next s s1 s2 s3)
  with steps_load [of VI VO cfg s env] steps_round [OF rounds_next(2)] show ?case by (simp add: rtranclp_trans)
qed

lemma steps_loop:
  assumes "relay_loop os env input_specs VI VO cfg repacketize s = Some (status, s')"
  shows "relay_steps VI VO cfg s s'"
proof -
  obtain s1 where r: "rounds os env input_specs VI VO cfg repacketize s s1"
    and l: "last_round os env input_specs VI VO cfg repacketize s1 status s'"
    using relay_loop_rounds [OF assms] by blast
  obtain stop s2 where ld: "load_shutdown env s1 = (stop, s2)" by (cases "load_shutdown env s1")
  then have 2: "relay_steps VI VO cfg s s2"
    using rtranclp_trans [OF steps_rounds [OF r] steps_load [of VI VO cfg s1 env]] by simp
  have "relay_steps VI VO cfg s2 s'"
    using l ld by (auto simp: last_round_def intro: steps_log steps_round rtranclp_trans [OF steps_round steps_log]
        split: bool.splits)
  with 2 show ?thesis by (rule rtranclp_trans)
qed

section \<open>What the log shows\<close>

definition incidents_of :: "relay_event list \<Rightarrow> incident_event list" where
  "incidents_of es = concat (map (\<lambda>e. case e of ev_incident i \<Rightarrow> [i] | _ \<Rightarrow> []) es)"

definition received_of :: "relay_event list \<Rightarrow> (int \<times> byte list) list" where
  "received_of es = concat (map (\<lambda>e. case e of ev_received n bs \<Rightarrow> [(n, bs)] | _ \<Rightarrow> []) es)"

definition sent_of :: "relay_event list \<Rightarrow> (int \<times> byte list) list" where
  "sent_of es = concat (map (\<lambda>e. case e of ev_sent n bs \<Rightarrow> [(n, bs)] | _ \<Rightarrow> []) es)"

definition failed_of :: "relay_event list \<Rightarrow> byte list list" where
  "failed_of es = concat (map (\<lambda>e. case e of ev_send_failed bs \<Rightarrow> [bs] | _ \<Rightarrow> []) es)"

definition reported_of :: "relay_event list \<Rightarrow> RelayStats list" where
  "reported_of es = concat (map (\<lambda>e. case e of ev_stats st ls \<Rightarrow> [st] | _ \<Rightarrow> []) es)"

lemmas event_lists = incidents_of_def received_of_def sent_of_def failed_of_def reported_of_def

lemma event_lists_append [simp]:
  "incidents_of (xs @ ys) = incidents_of xs @ incidents_of ys"
  "received_of (xs @ ys) = received_of xs @ received_of ys"
  "sent_of (xs @ ys) = sent_of xs @ sent_of ys" "failed_of (xs @ ys) = failed_of xs @ failed_of ys"
  "reported_of (xs @ ys) = reported_of xs @ reported_of ys"
  by (simp_all add: event_lists)

lemma event_lists_simps [simp]:
  "incidents_of [] = []" "received_of [] = []" "sent_of [] = []" "failed_of [] = []" "reported_of [] = []"
  "received_of [ev_received n bs] = [(n, bs)]" "received_of [ev_sent n bs] = []"
  "received_of [ev_send_failed bs] = []" "received_of [ev_stats st ls] = []"
  "sent_of [ev_sent n bs] = [(n, bs)]" "sent_of [ev_received n bs] = []"
  "sent_of [ev_send_failed bs] = []" "sent_of [ev_stats st ls] = []"
  "failed_of [ev_send_failed bs] = [bs]" "failed_of [ev_received n bs] = []"
  "failed_of [ev_sent n bs] = []" "failed_of [ev_stats st ls] = []"
  "reported_of [ev_stats st ls] = [st]" "reported_of [ev_received n bs] = []"
  "reported_of [ev_sent n bs] = []" "reported_of [ev_send_failed bs] = []"
  "incidents_of [ev_received n bs] = []" "incidents_of [ev_sent n bs] = []"
  "incidents_of [ev_send_failed bs] = []" "incidents_of [ev_stats st ls] = []"
  by (simp_all add: event_lists)

lemma event_lists_failure [simp]:
  "incidents_of [ev_failure side reason] = []" "received_of [ev_failure side reason] = []"
  "sent_of [ev_failure side reason] = []" "failed_of [ev_failure side reason] = []"
  "reported_of [ev_failure side reason] = []"
  by (simp_all add: event_lists)

lemma event_lists_send_failed [simp]:
  "incidents_of (ev_send_failed bs # es) = incidents_of es" "received_of (ev_send_failed bs # es) = received_of es"
  "sent_of (ev_send_failed bs # es) = sent_of es" "failed_of (ev_send_failed bs # es) = bs # failed_of es"
  "reported_of (ev_send_failed bs # es) = reported_of es"
  by (simp_all add: event_lists)

lemma event_lists_quiet:
  "list_all quiet es \<Longrightarrow> incidents_of es = [] \<and> received_of es = [] \<and> sent_of es = [] \<and>
     failed_of es = [] \<and> reported_of es = []"
  by (induction es) (auto simp: event_lists elim: quiet.elims)

lemma event_lists_incidents [simp]:
  "incidents_of (map ev_incident es) = es" "received_of (map ev_incident es) = []"
  "sent_of (map ev_incident es) = []" "failed_of (map ev_incident es) = []"
  "reported_of (map ev_incident es) = []"
  by (induction es) (simp_all add: event_lists)

lemma books_frame [simp, frame_simps]:
  "the_input (received_data os env input_specs VI n ctrl s) = the_input s"
  "the_output (received_data os env input_specs VI n ctrl s) = the_output s"
  "calls (received_data os env input_specs VI n ctrl s) = calls s"
  "the_input (sent_data env n bytes s) = the_input s" "the_output (sent_data env n bytes s) = the_output s"
  "calls (sent_data env n bytes s) = calls s"
  "the_input (failed_data bytes s) = the_input s" "the_output (failed_data bytes s) = the_output s"
  "calls (failed_data bytes s) = calls s"
  "trace (received_data os env input_specs VI n ctrl s) = trace s @ [ev_received n (take (nat n) (recv_buffer s))]"
  "trace (sent_data env n bytes s) = trace s @ [ev_sent n bytes]"
  "trace (failed_data bytes s) = trace s @ [ev_send_failed bytes]"
  "tracker (received_data os env input_specs VI n ctrl s) = note_rx (unix_now_ms env (readings s)) (tracker s)"
  "tracker (sent_data env n bytes s) = note_tx (unix_now_ms env (readings s)) (tracker s)"
  "tracker (failed_data bytes s) = tracker s"
  by (simp_all add: received_data_def sent_data_def failed_data_def Let_def logs_def tick_def)

section \<open>Incidents\<close>

lemma step_tracked:
  assumes "relay_step VI VO cfg s s'" and "tracker_run t0 (incidents_of (trace s)) (tracker s)"
  shows "tracker_run t0 (incidents_of (trace s')) (tracker s')"
proof -
  note run = run_step [OF assms(2)]
  have attempt: "tracker_run t0 (incidents_of (trace s)) (fst (EnsureAttemptStarted side (tracker s)))" for side
    using run [OF step_ensure [of side "tracker s", OF surjective_pairing]] by simp
  have failure: "tracker_run t0 (incidents_of (trace s) @ es) t \<Longrightarrow>
      tracker_run t0 (incidents_of (trace s) @ es @ snd (snd (RecordFailure side a n t)))
        (fst (RecordFailure side a n t))" for t es side a n
    using run_step [OF _ step_failure [of side a n t "fst (RecordFailure side a n t)" "fst (snd (RecordFailure side a n t))"
      "snd (snd (RecordFailure side a n t))"]] by fastforce
  show ?thesis
    using assms(1)
  proof cases
    case step_quiet
    with assms(2) event_lists_quiet show ?thesis by simp
  next
    case (step_start_attempt side)
    with attempt show ?thesis by (simp add: tracker_eqs)
  next
    case (step_end_attempt side)
    with run [OF step_complete] show ?thesis by simp
  next
    case step_close_incident
    with run [OF step_close [OF surjective_pairing]] show ?thesis by (simp add: tracker_eqs Let_def)
  next
    case (step_note_failure side a env)
    with failure [of "[]" "tracker s"] assms(2) show ?thesis by (simp add: tracker_eqs Let_def)
  next
    case (step_received os env input_specs n ctrl)
    with run [OF step_rx] show ?thesis by simp
  next
    case (step_sent env n bytes)
    with run [OF step_tx] show ?thesis by simp
  next
    case (step_send_failed a env bytes)
    with failure [of "[]"] attempt [of FailureSide.kOutput] show ?thesis by (simp add: tracker_eqs Let_def)
  qed (use assms(2) in auto)
qed

lemma steps_tracked:
  "relay_steps VI VO cfg s s' \<Longrightarrow> tracker_run t0 (incidents_of (trace s)) (tracker s) \<Longrightarrow>
   tracker_run t0 (incidents_of (trace s')) (tracker s')"
  by (induction rule: rtranclp_induct) (auto intro: step_tracked)

section \<open>The books\<close>

text \<open>
  The totals are those of the messages in the log, the metrics mirror them, and each total is what the
  statistics lines reported of it interval by interval plus the interval that has begun.
\<close>

definition balanced ::
  "RelayStats \<Rightarrow> (int \<times> byte list) list \<Rightarrow> (int \<times> byte list) list \<Rightarrow> byte list list \<Rightarrow> RelayStats list \<Rightarrow> bool" where
  "balanced st rx tx failed reported \<longleftrightarrow>
     stats_total_rx_bytes st = sum_list (map (of_int \<circ> fst) rx) \<and>
     stats_total_rx_msgs st = of_nat (length rx) \<and>
     stats_total_tx_bytes st = sum_list (map (of_int \<circ> fst) tx) \<and>
     stats_total_tx_msgs st = of_nat (length tx) \<and>
     stats_total_send_failures st = of_nat (length failed) \<and>
     stats_total_rx_bytes st = sum_list (map stats_interval_rx_bytes reported) + stats_interval_rx_bytes st \<and>
     stats_total_rx_msgs st = sum_list (map stats_interval_rx_msgs reported) + stats_interval_rx_msgs st \<and>
     stats_total_tx_bytes st = sum_list (map stats_interval_tx_bytes reported) + stats_interval_tx_bytes st \<and>
     stats_total_tx_msgs st = sum_list (map stats_interval_tx_msgs reported) + stats_interval_tx_msgs st \<and>
     stats_total_send_failures st =
       sum_list (map stats_interval_send_failures reported) + stats_interval_send_failures st"

lemma balanced_rx: "balanced st rx tx fs rep \<Longrightarrow> balanced (count_rx n st) (rx @ [(n, bs)]) tx fs rep"
  unfolding balanced_def by (elim conjE, intro conjI) (simp_all add: count_rx_def)

lemma balanced_tx: "balanced st rx tx fs rep \<Longrightarrow> balanced (count_tx n st) rx (tx @ [(n, bs)]) fs rep"
  unfolding balanced_def by (elim conjE, intro conjI) (simp_all add: count_tx_def)

lemma balanced_failure: "balanced st rx tx fs rep \<Longrightarrow> balanced (count_send_failure st) rx tx (fs @ [bs]) rep"
  unfolding balanced_def by (elim conjE, intro conjI) (simp_all add: count_send_failure_def)

lemma balanced_tick: "balanced st rx tx fs rep \<Longrightarrow> balanced (start_interval m st) rx tx fs (rep @ [st])"
  unfolding balanced_def by (elim conjE, intro conjI) (simp_all add: start_interval_def)

lemma balanced_reconnect: "balanced (st\<lparr>stats_reconnect_count := n\<rparr>) rx tx fs rep \<longleftrightarrow> balanced st rx tx fs rep"
  by (simp add: balanced_def)

definition stats_totals :: "RelayStats \<Rightarrow> u64 \<times> u64 \<times> u64 \<times> u64 \<times> u64" where
  "stats_totals st =
     (stats_total_rx_bytes st, stats_total_tx_bytes st, stats_total_rx_msgs st, stats_total_tx_msgs st,
      stats_total_send_failures st)"

definition books :: "('i, 'o) relay \<Rightarrow> bool" where
  "books s \<longleftrightarrow>
     balanced (relay_stats s) (received_of (trace s)) (sent_of (trace s)) (failed_of (trace s)) (reported_of (trace s)) \<and>
     mirrored (source_metrics s) = stats_totals (relay_stats s)"

context output_sink begin

lemma step_books:
  assumes "relay_step VI V cfg s s'" and "books s"
  shows "books s'"
  using assms(1)
proof cases
  case (step_quiet lm es m at b k p n)
  with assms(2) event_lists_quiet [OF step_quiet(3)] show ?thesis by (simp add: books_def)
next
  case (step_stats lm m m' at k lines)
  with assms(2) show ?thesis
    by (simp add: books_def balanced_tick) (simp add: stats_totals_def start_interval_def)
next
  case (step_ensure_output ctx r out st m h)
  obtain n where "st = (relay_stats s)\<lparr>stats_reconnect_count := n\<rparr>"
    using ensure_stats [OF step_ensure_output(2)] by blast
  with step_ensure_output assms(2) show ?thesis
    by (simp add: books_def balanced_reconnect) (simp add: stats_totals_def)
next
  case (step_received os env input_specs n ctrl)
  have "relay_stats s' = count_rx n (relay_stats s)"
    "mirrored (source_metrics s') = (case mirrored (source_metrics s) of
       (a, b, c, d, e) \<Rightarrow> (stats_total_rx_bytes (relay_stats s'), b, stats_total_rx_msgs (relay_stats s'), d, e))"
    by (simp_all add: step_received received_data_def Let_def logs_def tick_def mirrored_def)
  with step_received assms(2) show ?thesis
    by (simp add: books_def balanced_rx) (simp add: stats_totals_def count_rx_def)
next
  case (step_sent env n bytes)
  have "relay_stats s' = count_tx n (relay_stats s)"
    "mirrored (source_metrics s') = (case mirrored (source_metrics s) of
       (a, b, c, d, e) \<Rightarrow> (a, stats_total_tx_bytes (relay_stats s'), c, stats_total_tx_msgs (relay_stats s'), e))"
    by (simp_all add: step_sent sent_data_def Let_def logs_def tick_def mirrored_def)
  with step_sent assms(2) show ?thesis
    by (simp add: books_def balanced_tx) (simp add: stats_totals_def count_tx_def)
next
  case (step_send_failed a env bytes)
  have "relay_stats s' = count_send_failure (relay_stats s)"
    "mirrored (source_metrics s') = (case mirrored (source_metrics s) of
       (a, b, c, d, e) \<Rightarrow> (a, b, c, d, stats_total_send_failures (relay_stats s')))"
    by (simp_all add: step_send_failed tracker_eqs failed_data_def Let_def logs_def mirrored_def)
  with step_send_failed assms(2) show ?thesis
    by (simp add: books_def balanced_failure tracker_eqs Let_def) (simp add: stats_totals_def count_send_failure_def)
qed (use assms(2) in \<open>simp_all add: books_def tracker_eqs Let_def\<close>)

lemma steps_books: "relay_steps VI V cfg s s' \<Longrightarrow> books s \<Longrightarrow> books s'"
  by (induction rule: rtranclp_induct) (auto intro: step_books)

end

section \<open>The failures\<close>

definition failures_of :: "relay_event list \<Rightarrow> (FailureSide \<times> ReasonDescriptor) list" where
  "failures_of es = concat (map (\<lambda>e. case e of ev_failure side reason \<Rightarrow> [(side, reason)] | _ \<Rightarrow> []) es)"

definition failures_with :: "FailureSide \<Rightarrow> (ReasonDescriptor \<Rightarrow> bool) \<Rightarrow> relay_event list \<Rightarrow> nat" where
  "failures_with side P es = length (filter (\<lambda>(sd, r). sd = side \<and> P r) (failures_of es))"

lemma failures_of_simps [simp]:
  "failures_of (xs @ ys) = failures_of xs @ failures_of ys" "failures_of [] = []"
  "failures_of [ev_failure side r] = [(side, r)]" "failures_of (ev_send_failed bs # es) = failures_of es"
  "failures_of [ev_received n bs] = []" "failures_of [ev_sent n bs] = []" "failures_of [ev_stats st ls] = []"
  "failures_of [ev_slept k] = []" "failures_of [ev_members lines] = []" "failures_of [ev_shutdown st] = []"
  by (simp_all add: failures_of_def)

lemma failures_of_incidents [simp]: "failures_of (map ev_incident es) = []"
  by (induction es) (simp_all add: failures_of_def)

lemma failures_of_quiet: "list_all quiet es \<Longrightarrow> failures_of es = []"
  by (induction es) (auto simp: failures_of_def elim: quiet.elims)

definition last_failure :: "FailureSide \<Rightarrow> CausalityMetrics \<Rightarrow> LastFailureSnapshot" where
  "last_failure side m = (if side = FailureSide.kInput then input_last_failure m else output_last_failure m)"

text \<open>
  The counters of the failures are those of the log, by side and reason and by side and kind of timeout,
  and the failure shown of a side is the last one logged of it.
\<close>

definition failures_counted :: "CausalityMetrics \<Rightarrow> relay_event list \<Rightarrow> bool" where
  "failures_counted m es \<longleftrightarrow>
     (\<forall>side c. disconnects_total m ! SideIndex side ! ReasonCodeIndex c = of_nat (failures_with side (\<lambda>r. code r = c) es)) \<and>
     (\<forall>side t. timeouts_total m ! SideIndex side ! TimeoutTypeIndex t =
        of_nat (failures_with side (\<lambda>r. has_timeout_type r \<and> timeout_type r = t) es))"

definition failures_shown :: "CausalityMetrics \<Rightarrow> relay_event list \<Rightarrow> bool" where
  "failures_shown m es \<longleftrightarrow>
     (\<forall>side. let fs = filter (\<lambda>(sd, r). sd = side) (failures_of es); shown = last_failure side m
       in if fs = [] then shown = default_LastFailureSnapshot
          else lf_reason_code shown = ReasonCodeName (code (snd (last fs))) \<and>
               lf_reason_class shown = ReasonClassName (reason_class (snd (last fs))))"

text \<open>Reasons only a failed send has, and those only a failed receive has.\<close>

definition send_reason :: "ReasonDescriptor \<Rightarrow> bool" where
  "send_reason r \<longleftrightarrow> code r \<in> {ReasonCode.kSendTimeout, ReasonCode.kSendFailed, ReasonCode.kDisconnected}"

definition receive_reason :: "ReasonDescriptor \<Rightarrow> bool" where
  "receive_reason r \<longleftrightarrow> code r \<in> {ReasonCode.kReceiveTimeout, ReasonCode.kReceiveFailed, ReasonCode.kProtocolEof}"

definition sends_booked :: "relay_event list \<Rightarrow> bool" where
  "sends_booked es \<longleftrightarrow>
     failures_with FailureSide.kOutput send_reason es = length (failed_of es) \<and>
     failures_with FailureSide.kOutput receive_reason es = 0 \<and>
     failures_with FailureSide.kInput (\<lambda>r. code r \<in> {ReasonCode.kSendTimeout, ReasonCode.kSendFailed}) es = 0"

lemma failures_with_snoc [simp]:
  "failures_with side P (xs @ ys) = failures_with side P xs + failures_with side P ys"
  "failures_with side P [ev_failure sd r] = (if sd = side \<and> P r then 1 else 0)"
  "failures_with side P (map ev_incident is) = 0" "failures_with side P [] = 0"
  "failures_with side P (ev_send_failed bs # es) = failures_with side P es"
  by (simp_all add: failures_with_def)

lemma failures_with_none: "failures_of es = [] \<Longrightarrow> failures_with side P es = 0"
  by (simp add: failures_with_def)

lemma reason_sides:
  "fa_operation a = FailureOperation.kSend \<Longrightarrow> send_reason (reason_of a) \<and> \<not> receive_reason (reason_of a)"
  "can_fail FailureSide.kOutput (fa_operation a) \<Longrightarrow> \<not> send_reason (reason_of a) \<and> \<not> receive_reason (reason_of a)"
  "can_fail FailureSide.kInput (fa_operation a) \<Longrightarrow>
     code (reason_of a) \<notin> {ReasonCode.kSendTimeout, ReasonCode.kSendFailed}"
  by (auto simp: reason_of_def classify_defs can_fail_def send_reason_def receive_reason_def split: if_splits)

lemma nth_bump:
  assumes "i < length table" and "j < length (table ! i)"
  shows "bump i j table ! i' ! j' = table ! i' ! j' + (if i' = i \<and> j' = j then 1 else 0)"
  using assms by (auto simp: bump_def nth_list_update)

text \<open>What the failures leave in the metrics; nothing else changes it.\<close>

definition failure_view where
  "failure_view m = (disconnects_total m, timeouts_total m, input_last_failure m, output_last_failure m)"

lemma failure_view_frame:
  "failure_view (metrics (fst (EnsureAttemptStarted side t))) = failure_view (metrics t)"
  "failure_view (metrics (CompleteAttempt side t)) = failure_view (metrics t)"
  "failure_view (metrics (fst (MaybeCloseIncident ic oc t))) = failure_view (metrics t)"
  "failure_view (metrics (note_rx n t)) = failure_view (metrics t)"
  "failure_view (metrics (note_tx n t)) = failure_view (metrics t)"
  by (simp_all add: failure_view_def EnsureAttemptStarted_def CompleteAttempt_def MaybeCloseIncident_def note_rx_def
      note_tx_def NoteDataSuccess_def Let_def)

lemma failure_view_counts:
  assumes "failure_view m = failure_view m'"
  shows "failures_counted m es = failures_counted m' es" and "failures_shown m es = failures_shown m' es"
  using assms by (simp_all add: failure_view_def failures_counted_def failures_shown_def last_failure_def)

lemma SideIndex_inj: "SideIndex a = SideIndex b \<longleftrightarrow> a = b"
  by (cases a; cases b) simp_all

lemma RecordFailure_view:
  assumes "m = metrics t" and "m' = metrics (fst (RecordFailure side a n t))"
  shows "disconnects_total m' = bump (SideIndex side) (ReasonCodeIndex (code (reason_of a))) (disconnects_total m)"
    and "timeouts_total m' = (if has_timeout_type (reason_of a)
      then bump (SideIndex side) (TimeoutTypeIndex (timeout_type (reason_of a))) (timeouts_total m) else timeouts_total m)"
    and "\<exists>inc_id. last_failure side m' = snapshot_of a n inc_id"
    and "sd \<noteq> side \<Longrightarrow> last_failure sd m' = last_failure sd m"
proof -
  have same: "disconnects_total (metrics (opened side a n t)) = disconnects_total (metrics t)"
    "timeouts_total (metrics (opened side a n t)) = timeouts_total (metrics t)"
    "last_failure sd (metrics (opened side a n t)) = last_failure sd (metrics t)" for sd
    by (simp_all add: opened_def counted_def open_incident_def last_failure_def Let_def)
  show "disconnects_total m' = bump (SideIndex side) (ReasonCodeIndex (code (reason_of a))) (disconnects_total m)"
    "timeouts_total m' = (if has_timeout_type (reason_of a)
      then bump (SideIndex side) (TimeoutTypeIndex (timeout_type (reason_of a))) (timeouts_total m) else timeouts_total m)"
    by (simp_all add: assms RecordFailure_eq failure_metrics_tables same)
  show "\<exists>inc_id. last_failure side m' = snapshot_of a n inc_id"
    by (cases side) (auto simp: assms RecordFailure_eq last_failure_def failure_metrics_tables)
  show "sd \<noteq> side \<Longrightarrow> last_failure sd m' = last_failure sd m"
    using same(3) [of sd]
    by (cases side; cases sd) (simp_all add: assms RecordFailure_eq last_failure_def failure_metrics_def Let_def)
qed

lemma failures_counted_snoc:
  assumes "tracker_inv t" and "failures_counted (metrics t) es"
  shows "failures_counted (metrics (fst (RecordFailure side a n t))) (es @ map ev_incident is @ [ev_failure side (reason_of a)])"
proof -
  note view = RecordFailure_view(1,2) [OF refl refl, of side a n t]
  have "map length (disconnects_total (metrics t)) ! SideIndex side = kReasonCodes"
    "map length (timeouts_total (metrics t)) ! SideIndex side = kTimeoutTypes"
    "length (map length (disconnects_total (metrics t))) = kFailureSides"
    "length (map length (timeouts_total (metrics t))) = kFailureSides"
    using assms(1) SideIndex_lt [of side] by (simp_all only: tracker_inv_def shape_inv_def) simp_all
  then have lens: "SideIndex side < length (disconnects_total (metrics t))"
    "SideIndex side < length (timeouts_total (metrics t))"
    "ReasonCodeIndex c < length (disconnects_total (metrics t) ! SideIndex side)"
    "TimeoutTypeIndex tt < length (timeouts_total (metrics t) ! SideIndex side)" for c tt
    using SideIndex_lt [of side] ReasonCodeIndex_lt [of c] TimeoutTypeIndex_lt [of tt] by simp_all
  show ?thesis
    using assms(2)
    by (auto simp: failures_counted_def view nth_bump lens SideIndex_inj ReasonCodeIndex_inj TimeoutTypeIndex_inj)
qed

lemma failures_shown_snoc:
  assumes "failures_shown (metrics t) es"
  shows "failures_shown (metrics (fst (RecordFailure side a n t))) (es @ map ev_incident is @ [ev_failure side (reason_of a)])"
proof -
  obtain inc_id where "last_failure side (metrics (fst (RecordFailure side a n t))) = snapshot_of a n inc_id"
    using RecordFailure_view(3) [OF refl refl] by blast
  with assms RecordFailure_view(4) [OF refl refl, of _ side a n t] show ?thesis
    by (auto simp: failures_shown_def Let_def snapshot_of_def split: if_splits)
qed

definition failures_booked :: "('i, 'o) relay \<Rightarrow> bool" where
  "failures_booked s \<longleftrightarrow>
     tracker_inv (tracker s) \<and> failures_counted (metrics (tracker s)) (trace s) \<and>
     failures_shown (metrics (tracker s)) (trace s) \<and> sends_booked (trace s)"

text \<open>A step that logs no failure and leaves the figures alone.\<close>

lemma booked_frame:
  assumes "failures_booked s" and "tracker_inv t" and "failure_view (metrics t) = failure_view (metrics (tracker s))"
    and "failures_of es = []" and "failed_of es = []" and "tracker s' = t" and "trace s' = trace s @ es"
  shows "failures_booked s'"
proof -
  have "failures_counted (metrics (tracker s)) (trace s @ es)" "failures_shown (metrics (tracker s)) (trace s @ es)"
    "sends_booked (trace s @ es)"
    using assms(1,4,5) failures_with_none [OF assms(4)]
    by (simp_all add: failures_booked_def failures_counted_def failures_shown_def sends_booked_def)
  with assms failure_view_counts [OF assms(3)] show ?thesis by (simp add: failures_booked_def)
qed

lemma booked_failure:
  assumes "failures_booked s" and "can_fail side (fa_operation a)"
  shows "failures_booked (note_failure env side a s)"
  using assms(1) inv_failure [of "tracker s"] failures_counted_snoc [of "tracker s" "trace s"]
    failures_shown_snoc [of "tracker s" "trace s"] reason_sides(2,3) [of a] assms(2)
  by (cases side) (auto simp: failures_booked_def note_failure_eq Let_def sends_booked_def)

lemma booked_send_failure:
  assumes "failures_booked s" and "fa_operation a = FailureOperation.kSend"
  shows "failures_booked
    (note_failure env FailureSide.kOutput a (fst (start_attempt FailureSide.kOutput (failed_data bytes s))))"
proof -
  let ?t = "fst (EnsureAttemptStarted FailureSide.kOutput (tracker s))"
  let ?es = "trace s @ [ev_send_failed bytes]"
  have t: "tracker_inv ?t" using assms(1) by (simp add: failures_booked_def inv_ensure)
  have "failures_counted (metrics (tracker s)) ?es" "failures_shown (metrics (tracker s)) ?es"
    using assms(1) by (simp_all add: failures_booked_def failures_counted_def failures_shown_def failures_with_def failures_of_def)
  then have "failures_counted (metrics ?t) ?es" "failures_shown (metrics ?t) ?es"
    using failure_view_counts [OF failure_view_frame(1)] by simp_all
  with t assms(1) inv_failure [OF t] failures_counted_snoc [OF t, of ?es] failures_shown_snoc [of ?t ?es]
    reason_sides(1) [OF assms(2)]
  show ?thesis by (auto simp: failures_booked_def tracker_eqs Let_def sends_booked_def)
qed

lemma step_failures_booked:
  assumes "relay_step VI VO cfg s s'" and "failures_booked s"
  shows "failures_booked s'"
proof -
  have inv: "tracker_inv (tracker s)" using assms(2) by (simp add: failures_booked_def)
  note frame = booked_frame [OF assms(2)]
  note same = frame [where es = "[]", OF inv refl]
  show ?thesis
    using assms(1)
  proof cases
    case (step_quiet lm es m at b k p n)
    with failures_of_quiet event_lists_quiet show ?thesis by (intro frame [OF inv refl, of es]) auto
  next
    case (step_start_attempt side)
    show ?thesis unfolding step_start_attempt tracker_eqs
      by (rule frame [OF inv_ensure [OF inv] failure_view_frame(1), where es = "[]"]) simp_all
  next
    case (step_end_attempt side)
    show ?thesis unfolding step_end_attempt
      by (rule frame [OF inv_complete [OF inv] failure_view_frame(2), where es = "[]"]) simp_all
  next
    case step_close_incident
    show ?thesis unfolding step_close_incident tracker_eqs Let_def
      by (rule frame [OF inv_close [OF inv] failure_view_frame(3)]) simp_all
  next
    case (step_note_failure side a env)
    with booked_failure assms(2) show ?thesis by simp
  next
    case (step_send_failed a env bytes)
    with booked_send_failure assms(2) show ?thesis by simp
  next
    case (step_stats lm k m m' at lines)
    show ?thesis unfolding step_stats(1) by (rule frame [OF inv refl]) simp_all
  next
    case (step_received os env input_specs n ctrl)
    show ?thesis unfolding step_received
      by (rule frame [OF inv_data(1) [OF inv] failure_view_frame(4)]) simp_all
  next
    case (step_sent env n bytes)
    show ?thesis unfolding step_sent
      by (rule frame [OF inv_data(2) [OF inv] failure_view_frame(5)]) simp_all
  qed (auto intro: same)
qed

lemma steps_failures_booked: "relay_steps VI VO cfg s s' \<Longrightarrow> failures_booked s \<Longrightarrow> failures_booked s'"
  by (induction rule: rtranclp_induct) (auto intro: step_failures_booked)

section \<open>What is open\<close>

locale relay_endpoints =
  ins: input_source VI wi hi clean_i + outs: output_sink VO wo ho clean_o
  for VI :: "'i InputSource_methods" and wi hi clean_i
    and VO :: "'o OutputSink_methods" and wo ho clean_o
begin

text \<open>The endpoints keep their invariants and hold what is open beyond \<open>R\<close>.\<close>

definition accounts :: "handle multiset \<Rightarrow> ('i, 'o) relay \<Rightarrow> bool" where
  "accounts R s \<longleftrightarrow>
     wi (the_input s) \<and> wo (the_output s) \<and> owned R (hi (the_input s) + ho (the_output s)) (calls s)"

lemma owned_split: "owned R (a + b) h \<longleftrightarrow> owned (R + b) a h" "owned R (a + b) h \<longleftrightarrow> owned (R + a) b h"
  by (auto simp: owned_def ac_simps)

lemma step_accounts:
  assumes "relay_step VI VO cfg s s'" and "clean_i" and "clean_o" and "accounts R s"
  shows "accounts R s'"
  using assms(1)
proof cases
  case (step_ensure_input ctx r i m h)
  with assms ins.ensure_wf [OF step_ensure_input(2)]
    ins.ensure_owned [OF step_ensure_input(2), of "R + ho (the_output s)"] show ?thesis
    by (simp add: accounts_def owned_split(1))
next
  case (step_reset_input i m h)
  with assms ins.handle_wf [OF step_reset_input(2)]
    ins.handle_owned [OF step_reset_input(2), of "R + ho (the_output s)"] show ?thesis
    by (simp add: accounts_def owned_split(1))
next
  case (step_receive ctrl res i b ctrl' h)
  with assms ins.receive_wf [OF step_receive(2)] ins.receive_held [OF step_receive(2)] show ?thesis
    by (simp add: accounts_def owned_def)
next
  case (step_ensure_output ctx r out st m h)
  with assms outs.ensure_wf [OF step_ensure_output(2)]
    outs.ensure_owned [OF step_ensure_output(2), of "R + hi (the_input s)"] show ?thesis
    by (simp add: accounts_def owned_split(2))
next
  case (step_reset_output out m h)
  with assms outs.mark_wf [OF step_reset_output(2)]
    outs.mark_owned [OF step_reset_output(2), of "R + hi (the_input s)"] show ?thesis
    by (simp add: accounts_def owned_split(2))
next
  case (step_send bytes res out m h)
  with assms outs.send_wf [OF step_send(2)]
    outs.send_owned [OF step_send(2), of "R + hi (the_input s)"] show ?thesis
    by (simp add: accounts_def owned_split(2))
qed (use assms(4) in \<open>simp_all add: accounts_def tracker_eqs Let_def\<close>)

lemma steps_accounts:
  "relay_steps VI VO cfg s s' \<Longrightarrow> clean_i \<Longrightarrow> clean_o \<Longrightarrow> accounts R s \<Longrightarrow> accounts R s'"
  by (induction rule: rtranclp_induct) (auto intro: step_accounts)

text \<open>Without the condition on the library the invariants still hold.\<close>

lemma step_wf:
  assumes "relay_step VI VO cfg s s'" and "wi (the_input s) \<and> wo (the_output s)"
  shows "wi (the_input s') \<and> wo (the_output s')"
  using assms
  by cases
    (auto simp: tracker_eqs Let_def
      dest: ins.ensure_wf ins.handle_wf ins.receive_wf outs.ensure_wf outs.mark_wf outs.send_wf)

lemma steps_wf:
  "relay_steps VI VO cfg s s' \<Longrightarrow> wi (the_input s) \<and> wo (the_output s) \<Longrightarrow> wi (the_input s') \<and> wo (the_output s')"
  by (induction rule: rtranclp_induct) (auto dest: step_wf)

end

section \<open>Both ends are ready before a message is taken\<close>

context relay_endpoints begin

lemma ensure_input_ready:
  assumes "ensure_input env input_specs VI cfg s = (None, s')" and "wi (the_input s)"
  shows "IsConnected VI (the_input s')"
proof (cases "NeedsEnsurePoll VI (the_input s)")
  case False
  with assms ins.no_poll [OF False] show ?thesis by (simp add: ensure_input_def)
next
  case True
  let ?reconnect = "\<not> IsConnected VI (the_input s)"
  obtain s1 attempt where st: "(if ?reconnect then start_attempt FailureSide.kInput s else (s, 0)) = (s1, attempt)"
    by (cases "if ?reconnect then start_attempt FailureSide.kInput s else (s, 0)")
  then have same: "the_input s1 = the_input s" by (auto simp: start_attempt_def split: if_splits prod.splits)
  let ?ctx = "\<lparr>attempt_id = attempt, attempt_incident_id = ActiveIncidentId (tracker s1), source_index = None\<rparr>"
  obtain res i m h where e: "EnsureReady VI cfg ?ctx (the_input s1, relay_metrics s1, calls s1) = (res, i, m, h)"
    by (cases "EnsureReady VI cfg ?ctx (the_input s1, relay_metrics s1, calls s1)")
  let ?s2 = "s1\<lparr>the_input := i, relay_metrics := m, calls := h\<rparr>"
  show ?thesis
  proof (cases res)
    case (Inr u)
    have "the_input s' = i" using assms(1) True st e Inr by (auto simp: ensure_input_def Let_def)
    with ins.ensure_connects [OF e [unfolded Inr]] assms(2) same show ?thesis by simp
  next
    case (Inl x)
    with assms(1) True st e have "(None, s') = (if \<not> ?reconnect \<and> IsConnected VI i then (Some next_round, ?s2)
        else input_failed env input_specs VI cfg attempt x ?s2)"
      by (simp add: ensure_input_def Let_def)
    then have "fst (None :: round_outcome option, s') = fst (if \<not> ?reconnect \<and> IsConnected VI i then (Some next_round, ?s2)
        else input_failed env input_specs VI cfg attempt x ?s2)" by (rule arg_cong [where f = fst])
    also have "\<dots> \<noteq> None" by (simp add: input_failed_def Let_def)
    finally show ?thesis by simp
  qed
qed

lemma ensure_output_ready:
  assumes "ensure_output env VO cfg s = (None, s')" and "wo (the_output s)"
  shows "SinkIsConnected VO (the_output s')" and "the_input s' = the_input s"
proof -
  have "SinkIsConnected VO (the_output s') \<and> the_input s' = the_input s"
  proof (cases "SinkNeedsEnsurePoll VO (the_output s)")
    case False
    with assms outs.no_poll [OF assms(2) False] show ?thesis by (simp add: ensure_output_def)
  next
    case True
    let ?reconnect = "\<not> SinkIsConnected VO (the_output s)"
    obtain s1 attempt where st: "(if ?reconnect then start_attempt FailureSide.kOutput s else (s, 0)) = (s1, attempt)"
      by (cases "if ?reconnect then start_attempt FailureSide.kOutput s else (s, 0)")
    then have same: "the_output s1 = the_output s" "the_input s1 = the_input s"
      by (auto simp: start_attempt_def split: if_splits prod.splits)
    let ?ctx = "\<lparr>attempt_id = attempt, attempt_incident_id = ActiveIncidentId (tracker s1), source_index = None\<rparr>"
    obtain res out rs m h where
      e: "SinkEnsureReady VO cfg ?ctx (the_output s1, relay_stats s1, relay_metrics s1, calls s1) = (res, out, rs, m, h)"
      by (cases "SinkEnsureReady VO cfg ?ctx (the_output s1, relay_stats s1, relay_metrics s1, calls s1)")
    let ?s2 = "s1\<lparr>the_output := out, relay_stats := rs, relay_metrics := m, calls := h\<rparr>"
    show ?thesis
    proof (cases res)
      case (Inr u)
      have "the_output s' = out \<and> the_input s' = the_input s1"
        using assms(1) True st e Inr by (auto simp: ensure_output_def Let_def)
      with outs.ensure_connects [OF e [unfolded Inr]] assms(2) same show ?thesis by simp
    next
      case (Inl x)
      with assms(1) True st e have "(None, s') = (if \<not> ?reconnect \<and> SinkIsConnected VO out then (Some next_round, ?s2)
          else output_failed env VO cfg attempt x ?s2)"
        by (simp add: ensure_output_def Let_def)
      then have "fst (None :: round_outcome option, s') = fst (if \<not> ?reconnect \<and> SinkIsConnected VO out then (Some next_round, ?s2)
          else output_failed env VO cfg attempt x ?s2)" by (rule arg_cong [where f = fst])
      also have "\<dots> \<noteq> None" by (simp add: output_failed_def Let_def)
      finally show ?thesis by simp
    qed
  qed
  then show "SinkIsConnected VO (the_output s')" and "the_input s' = the_input s" by simp_all
qed

lemma ready_to_receive:
  assumes "ensure_input env input_specs VI cfg s = (None, s1)" and "ensure_output env VO cfg s1 = (None, s2)"
    and "wi (the_input s)" and "wo (the_output s)"
  shows "IsConnected VI (the_input s2) \<and> SinkIsConnected VO (the_output s2)"
proof -
  have "wi (the_input s1) \<and> wo (the_output s1)"
    using steps_wf [OF steps_ensure_input [OF assms(1)]] assms(3,4) by simp
  with ensure_output_ready [OF assms(2)] ensure_input_ready [OF assms(1,3)] show ?thesis by simp
qed

end

section \<open>The messages\<close>

definition forwarded_of :: "relay_event list \<Rightarrow> byte list list" where
  "forwarded_of es = concat (map (\<lambda>e. case e of ev_sent n bs \<Rightarrow> [bs] | ev_send_failed bs \<Rightarrow> [bs] | _ \<Rightarrow> []) es)"

lemma forwarded_of_simps [simp]:
  "forwarded_of (xs @ ys) = forwarded_of xs @ forwarded_of ys" "forwarded_of [] = []"
  "forwarded_of [ev_sent n bs] = [bs]" "forwarded_of [ev_send_failed bs] = [bs]"
  "forwarded_of [ev_received n bs] = []" "forwarded_of [ev_stats st ls] = []"
  "forwarded_of [ev_failure side reason] = []"
  "forwarded_of [ev_slept k] = []" "forwarded_of [ev_members lines] = []" "forwarded_of [ev_shutdown st] = []"
  by (simp_all add: forwarded_of_def)

lemma forwarded_of_incidents [simp]: "forwarded_of (map ev_incident es) = []"
  by (induction es) (simp_all add: forwarded_of_def)

lemma received_sent_quiet [simp]:
  "received_of [ev_slept k] = []" "sent_of [ev_slept k] = []"
  "received_of [ev_members lines] = []" "sent_of [ev_members lines] = []"
  "received_of [ev_shutdown st] = []" "sent_of [ev_shutdown st] = []"
  by (simp_all add: event_lists)

text \<open>What the data path sees of the state; the rest of a round leaves it alone.\<close>

definition data_view :: "('i, 'o) relay \<Rightarrow> byte list \<times> nat \<times> (int \<times> byte list) list \<times> (int \<times> byte list) list \<times> byte list list" where
  "data_view s =
     (stdin_pending s, stdin_pending_offset s, received_of (trace s), sent_of (trace s), forwarded_of (trace s))"

lemma data_view_updates [simp]:
  "data_view (s\<lparr>tracker := t\<rparr>) = data_view s"
  "data_view (s\<lparr>the_input := i, relay_metrics := m, calls := h\<rparr>) = data_view s"
  "data_view (s\<lparr>the_output := out, relay_metrics := m, calls := h\<rparr>) = data_view s"
  "data_view (s\<lparr>the_output := out, relay_stats := st, relay_metrics := m, calls := h\<rparr>) = data_view s"
  "data_view (s\<lparr>the_input := i, recv_buffer := b, calls := h\<rparr>) = data_view s"
  "data_view (s\<lparr>source_metrics := lm\<rparr>) = data_view s"
  "data_view (s\<lparr>shutdown_requested := x\<rparr>) = data_view s"
  "data_view (tick s) = data_view s"
  by (simp_all add: data_view_def tick_def)

lemma data_view_logs [simp]:
  "data_view (logs (map ev_incident es) s) = data_view s"
  "data_view (logs [ev_slept n] s) = data_view s" "data_view (logs [ev_shutdown st] s) = data_view s"
  by (simp_all add: data_view_def logs_def)

lemma data_view_load [simp]: "load_shutdown env s = (b, s') \<Longrightarrow> data_view s' = data_view s"
  by (auto simp: load_shutdown_def Let_def)

lemma data_view_sleep_loop: "data_view (sleep_loop env delay slept s) = data_view s"
proof (induction env delay slept s rule: sleep_loop.induct)
  case (1 env delay slept s)
  obtain stop s1 where l: "load_shutdown env s = (stop, s1)" by (cases "load_shutdown env s")
  show ?case
  proof (cases "slept < delay \<and> \<not> stop")
    case False
    with l show ?thesis by (auto simp: sleep_loop.simps [of env delay slept s])
  next
    case True
    then have "slept < delay" and "\<not> stop" by simp_all
    with 1 [OF this(1) l [symmetric] this(2) refl] l show ?thesis
      by (simp add: sleep_loop.simps [of env delay slept s] Let_def)
  qed
qed

lemma data_view_helpers [simp]:
  "data_view (SleepReconnectDelay env cfg s) = data_view s"
  "data_view (note_failure env side a s) = data_view s"
  "data_view (reset_input VI s) = data_view s" "data_view (reset_output VO s) = data_view s"
  "data_view (fst (start_attempt side s)) = data_view s"
proof -
  show "data_view (SleepReconnectDelay env cfg s) = data_view s"
    unfolding SleepReconnectDelay_def by (rule data_view_sleep_loop)
qed (simp_all add: note_failure_def reset_input_def reset_output_def start_attempt_def data_view_def logs_def tick_def
    split: prod.split)

lemma data_view_begin_round [simp]: "data_view (begin_round os env VI VO cfg s) = data_view s"
proof -
  have "data_view (publish_gauges VI VO s) = data_view s" for s :: "('a, 'b) relay"
    by (simp add: publish_gauges_def data_view_def Let_def)
  moreover have "data_view (emit_members os env VI VO s) = data_view s" for s :: "('a, 'b) relay"
    by (simp add: emit_members_def data_view_def logs_def tick_def split: prod.split)
  moreover have "data_view (log_stats os env VI VO cfg s) = data_view s" for s :: "('a, 'b) relay"
    by (simp add: log_stats_def data_view_def logs_def tick_def split: prod.split)
  moreover have "data_view (close_incident VI VO s) = data_view s" for s :: "('a, 'b) relay"
    by (simp add: close_incident_def split: prod.split)
  ultimately show ?thesis by (simp add: begin_round_def Let_def)
qed

lemma data_view_attempt: "start_attempt side s = (s1, k) \<Longrightarrow> data_view s1 = data_view s"
  by (auto simp: start_attempt_def split: prod.splits)

lemma data_view_ensure_input: "ensure_input env input_specs VI cfg s = (r, s') \<Longrightarrow> data_view s' = data_view s"
  by (auto simp: ensure_input_def input_failed_def Let_def split: if_splits prod.splits sum.splits
      dest!: data_view_attempt)

lemma data_view_ensure_output: "ensure_output env VO cfg s = (r, s') \<Longrightarrow> data_view s' = data_view s"
  by (auto simp: ensure_output_def output_failed_def Let_def split: if_splits prod.splits sum.splits
      dest!: data_view_attempt)

lemma data_view_receive_error: "receive_error env VI cfg s = (r, s') \<Longrightarrow> data_view s' = data_view s"
  by (auto simp: receive_error_def start_attempt_def Let_def split: if_splits prod.splits)

definition queue :: "('i, 'o) relay \<Rightarrow> byte list" where
  "queue s = drop (stdin_pending_offset s) (stdin_pending s)"

lemma data_viewD:
  assumes "data_view s' = data_view s"
  shows "stdin_pending s' = stdin_pending s" and "stdin_pending_offset s' = stdin_pending_offset s"
    and "received_of (trace s') = received_of (trace s)" and "sent_of (trace s') = sent_of (trace s)"
    and "forwarded_of (trace s') = forwarded_of (trace s)" and "queue s' = queue s"
  using assms by (simp_all add: data_view_def queue_def)

lemma send_chunk_view:
  assumes "send_chunk env VO cfg bytes s = Some (ok, s')"
  shows "stdin_pending s' = stdin_pending s \<and> stdin_pending_offset s' = stdin_pending_offset s \<and>
    received_of (trace s') = received_of (trace s) \<and>
    (\<exists>n. sent_of (trace s') = sent_of (trace s) @ (if ok then [(n, bytes)] else [])) \<and>
    forwarded_of (trace s') = forwarded_of (trace s) @ [bytes]"
proof -
  obtain res out m h where snd: "Send VO bytes (the_output s, relay_metrics s, calls s) = Some (res, out, m, h)"
    using assms by (auto simp: send_chunk_def split: option.splits)
  let ?s1 = "s\<lparr>the_output := out, relay_metrics := m, calls := h\<rparr>"
  show ?thesis
  proof (cases "send_status res = OutputSendStatus.kError")
    case False
    with assms snd have "ok" and "s' = sent_data env (sent_bytes res) bytes ?s1" by (simp_all add: send_chunk_def)
    then show ?thesis by (simp add: sent_data_def Let_def logs_def tick_def)
  next
    case True
    with assms snd have res: "\<not> ok" "s' = send_error env VO cfg bytes ?s1" by (simp_all add: send_chunk_def)
    obtain s2 k where st: "start_attempt FailureSide.kOutput (failed_data bytes ?s1) = (s2, k)"
      by (cases "start_attempt FailureSide.kOutput (failed_data bytes ?s1)")
    have "data_view s' = data_view s2" unfolding res send_error_def st by (simp add: Let_def)
    also have "\<dots> = data_view (failed_data bytes ?s1)" using data_view_attempt [OF st] .
    finally show ?thesis using res(1) by (simp add: data_view_def) (simp add: failed_data_def Let_def logs_def)
  qed
qed

lemma pop_chunk_queue:
  assumes "n \<le> length (stdin_pending s) - stdin_pending_offset s" and "stdin_pending_offset s \<le> length (stdin_pending s)"
  shows "queue (pop_chunk n s) = drop n (queue s)"
    and "stdin_pending_offset (pop_chunk n s) \<le> length (stdin_pending (pop_chunk n s))"
    and "trace (pop_chunk n s) = trace s"
proof -
  have "stdin_pending_offset s + n \<le> length (stdin_pending s)" using assms by simp
  then show "queue (pop_chunk n s) = drop n (queue s)"
    and "stdin_pending_offset (pop_chunk n s) \<le> length (stdin_pending (pop_chunk n s))"
    and "trace (pop_chunk n s) = trace s"
    by (simp_all add: pop_chunk_def queue_def Let_def add.commute)
qed

text \<open>
  What the repacketizer sends: whole chunks off the front of the queue, until less than a chunk is
  left or a chunk could not be sent, and then that chunk is still the front of the queue.
\<close>

definition repacketized :: "nat \<Rightarrow> ('i, 'o) relay \<Rightarrow> bool \<Rightarrow> ('i, 'o) relay \<Rightarrow> bool" where
  "repacketized chunk s ok s' \<longleftrightarrow>
     (\<exists>new. sent_of (trace s') = sent_of (trace s) @ new \<and> (\<forall>x \<in> set new. length (snd x) = chunk) \<and>
        queue s = concat (map snd new) @ queue s') \<and>
     received_of (trace s') = received_of (trace s) \<and>
     stdin_pending_offset s' \<le> length (stdin_pending s') \<and>
     (if ok then length (queue s') < chunk else chunk \<le> length (queue s'))"

lemma repacketized_step:
  assumes "send_chunk env VO cfg (take chunk (queue s)) s = Some (True, s1)" and "chunk \<le> length (queue s)"
    and "stdin_pending_offset s \<le> length (stdin_pending s)" and "repacketized chunk (pop_chunk chunk s1) ok s'"
  shows "repacketized chunk s ok s'"
proof -
  note view = send_chunk_view [OF assms(1)]
  then obtain n where sent: "sent_of (trace s1) = sent_of (trace s) @ [(n, take chunk (queue s))]" by auto
  have q1: "queue s1 = queue s" and o1: "stdin_pending_offset s1 \<le> length (stdin_pending s1)"
    and l1: "chunk \<le> length (stdin_pending s1) - stdin_pending_offset s1"
    using view assms(2,3) by (simp_all add: queue_def)
  note pop = pop_chunk_queue [OF l1 o1]
  obtain new where "sent_of (trace s') = sent_of (trace s1) @ new" "\<forall>x \<in> set new. length (snd x) = chunk"
    "drop chunk (queue s) = concat (map snd new) @ queue s'"
    using assms(4) pop q1 by (auto simp: repacketized_def)
  moreover from this(3) have "queue s = take chunk (queue s) @ concat (map snd new) @ queue s'"
    by (metis append_take_drop_id)
  ultimately have "\<exists>new. sent_of (trace s') = sent_of (trace s) @ new \<and> (\<forall>x \<in> set new. length (snd x) = chunk) \<and>
      queue s = concat (map snd new) @ queue s'"
    using sent assms(2) by (intro exI [of _ "(n, take chunk (queue s)) # new"]) auto
  with assms(4) pop view show ?thesis by (simp add: repacketized_def)
qed

lemma send_pending_law:
  assumes "send_pending env VO cfg chunk s = Some (ok, s')" and "stdin_pending_offset s \<le> length (stdin_pending s)"
  shows "repacketized chunk s ok s'"
proof -
  let ?P = "\<lambda>env VO cfg chunk s r. stdin_pending_offset s \<le> length (stdin_pending s) \<longrightarrow>
    repacketized chunk s (fst r) (snd r)"
  have "?P env VO cfg chunk s (ok, s')"
  proof (rule send_pending.raw_induct [where P = ?P, OF _ assms(1)], rule impI)
    fix f env VO cfg chunk s r
    assume IH: "\<And>env VO cfg chunk s r. f env VO cfg chunk s = Some r \<Longrightarrow> ?P env VO cfg chunk s r"
      and eq: "(if chunk \<le> length (stdin_pending s) - stdin_pending_offset s then
        (case send_chunk env VO cfg (take chunk (drop (stdin_pending_offset s) (stdin_pending s))) s of
           None \<Rightarrow> None
         | Some (ok, s1) \<Rightarrow> if ok then f env VO cfg chunk (pop_chunk chunk s1) else Some (False, s1))
      else Some (True, s)) = Some r"
      and ofs: "stdin_pending_offset s \<le> length (stdin_pending s)"
    show "repacketized chunk s (fst r) (snd r)"
    proof (cases "chunk \<le> length (queue s)")
      case False
      with eq ofs show ?thesis by (auto simp: queue_def repacketized_def)
    next
      case True
      with eq obtain ok s1 where sc: "send_chunk env VO cfg (take chunk (queue s)) s = Some (ok, s1)"
        by (auto simp: queue_def split: option.splits)
      note view = send_chunk_view [OF sc]
      show ?thesis
      proof (cases ok)
        case False
        with eq sc True have "r = (False, s1)" by (simp add: queue_def)
        with view False True ofs show ?thesis by (auto simp: repacketized_def queue_def)
      next
        case ok: True
        with eq sc True have f: "f env VO cfg chunk (pop_chunk chunk s1) = Some r" by (simp add: queue_def)
        have "stdin_pending_offset s1 \<le> length (stdin_pending s1)"
          and "chunk \<le> length (stdin_pending s1) - stdin_pending_offset s1"
          using view ofs True by (simp_all add: queue_def)
        from pop_chunk_queue(2) [OF this(2,1)] IH [OF f]
        have "repacketized chunk (pop_chunk chunk s1) (fst r) (snd r)" by simp
        moreover have "send_chunk env VO cfg (take chunk (queue s)) s = Some (True, s1)" using sc ok by simp
        ultimately show ?thesis using repacketized_step True ofs by blast
      qed
    qed
  qed
  with assms(2) show ?thesis by simp
qed

text \<open>A round moves no data, or it takes one message and hands it on.\<close>

lemma round_data:
  assumes "relay_round os env input_specs VI VO cfg repacketize s = Some (r, s')"
  shows "data_view s' = data_view s \<or>
    (\<exists>n s3. data_view s3 = (case data_view s of (p, k, rx, tx, fw) \<Rightarrow> (p, k, rx @ [(n, take (nat n) (recv_buffer s3))], tx, fw)) \<and>
       forward_message env VO cfg repacketize n s3 = Some (r, s'))"
proof -
  let ?s0 = "begin_round os env VI VO cfg s"
  obtain r1 s1 where e1: "ensure_input env input_specs VI cfg ?s0 = (r1, s1)"
    by (cases "ensure_input env input_specs VI cfg ?s0")
  obtain r2 s2 where e2: "ensure_output env VO cfg s1 = (r2, s2)" by (cases "ensure_output env VO cfg s1")
  obtain r3 s3 where e3: "receive_message os env input_specs VI cfg s2 = (r3, s3)"
    by (cases "receive_message os env input_specs VI cfg s2")
  have v1: "data_view s1 = data_view s" using data_view_ensure_input [OF e1] by simp
  have v2: "data_view s2 = data_view s" using data_view_ensure_output [OF e2] v1 by simp
  consider (stop1) x where "r1 = Some x" "s' = s1" | (stop2) x where "r1 = None" "r2 = Some x" "s' = s2"
    | (stop3) x where "r1 = None" "r2 = None" "r3 = Inl x" "s' = s3"
    | (data) n where "r3 = Inr n" "forward_message env VO cfg repacketize n s3 = Some (r, s')"
    using assms e1 e2 e3 by (auto simp: relay_round_def split: option.splits sum.splits)
  then show ?thesis
  proof cases
    case stop1
    with v1 show ?thesis by simp
  next
    case stop2
    with v2 show ?thesis by simp
  next
    case stop3
    obtain res i b ctrl h where rec: "Receive VI cfg (the_input s2, recv_buffer s2, fresh_rx_ctrl env, calls s2) = (res, i, b, ctrl, h)"
      by (cases "Receive VI cfg (the_input s2, recv_buffer s2, fresh_rx_ctrl env, calls s2)")
    with e3 stop3 have "receive_error env VI cfg (s2\<lparr>the_input := i, recv_buffer := b, calls := h\<rparr>) = (x, s3)"
      by (auto simp: receive_message_def Let_def split: if_splits prod.splits)
    from data_view_receive_error [OF this] v2 stop3 show ?thesis by simp
  next
    case data
    obtain res i b ctrl h where rec: "Receive VI cfg (the_input s2, recv_buffer s2, fresh_rx_ctrl env, calls s2) = (res, i, b, ctrl, h)"
      by (cases "Receive VI cfg (the_input s2, recv_buffer s2, fresh_rx_ctrl env, calls s2)")
    let ?s2 = "s2\<lparr>the_input := i, recv_buffer := b, calls := h\<rparr>"
    from e3 data rec have "s3 = received_data os env input_specs VI n ctrl ?s2"
      by (auto simp: receive_message_def Let_def split: if_splits prod.splits)
    then have "recv_buffer s3 = b" and "data_view s3 = (case data_view ?s2 of
        (p, k, rx, tx, fw) \<Rightarrow> (p, k, rx @ [(n, take (nat n) b)], tx, fw))"
      by (simp_all add: received_data_def data_view_def Let_def logs_def tick_def)
    with v2 data(2) show ?thesis by (intro disjI2 exI [of _ n] exI [of _ s3]) simp
  qed
qed

text \<open>Without repacketizing each message is handed on once, in order, and as it was.\<close>

definition in_order :: "('i, 'o) relay \<Rightarrow> bool" where
  "in_order s \<longleftrightarrow> forwarded_of (trace s) = map snd (received_of (trace s))"

lemma round_in_order:
  assumes "relay_round os env input_specs VI VO cfg False s = Some (r, s')" and "in_order s"
  shows "in_order s'"
  using round_data [OF assms(1)]
proof
  assume "data_view s' = data_view s"
  with assms(2) data_viewD [OF this] show ?thesis by (simp add: in_order_def)
next
  assume "\<exists>n s3. data_view s3 = (case data_view s of (p, k, rx, tx, fw) \<Rightarrow> (p, k, rx @ [(n, take (nat n) (recv_buffer s3))], tx, fw)) \<and>
       forward_message env VO cfg False n s3 = Some (r, s')"
  then obtain n s3 ok where v: "data_view s3 = (case data_view s of
      (p, k, rx, tx, fw) \<Rightarrow> (p, k, rx @ [(n, take (nat n) (recv_buffer s3))], tx, fw))"
    and "send_chunk env VO cfg (take (nat n) (recv_buffer s3)) s3 = Some (ok, s')"
    by (auto simp: forward_message_def)
  from send_chunk_view [OF this(2)] v assms(2) show ?thesis by (simp add: in_order_def data_view_def)
qed

text \<open>With repacketizing nothing is lost: what was received is what was sent and what is queued.\<close>

definition conserved :: "nat \<Rightarrow> ('i, 'o) relay \<Rightarrow> bool" where
  "conserved chunk s \<longleftrightarrow>
     concat (map snd (received_of (trace s))) = concat (map snd (sent_of (trace s))) @ queue s \<and>
     (\<forall>x \<in> set (sent_of (trace s)). length (snd x) = chunk) \<and>
     stdin_pending_offset s \<le> length (stdin_pending s)"

lemma round_conserved:
  assumes "relay_round os env input_specs VI VO cfg True s = Some (r, s')"
    and "conserved (nat (stdin_chunk_size cfg)) s"
  shows "conserved (nat (stdin_chunk_size cfg)) s'"
  using round_data [OF assms(1)]
proof
  assume "data_view s' = data_view s"
  with assms(2) data_viewD [OF this] show ?thesis by (simp add: conserved_def)
next
  let ?chunk = "nat (stdin_chunk_size cfg)"
  assume "\<exists>n s3. data_view s3 = (case data_view s of (p, k, rx, tx, fw) \<Rightarrow> (p, k, rx @ [(n, take (nat n) (recv_buffer s3))], tx, fw)) \<and>
       forward_message env VO cfg True n s3 = Some (r, s')"
  then obtain n s3 ok where v: "data_view s3 = (case data_view s of
      (p, k, rx, tx, fw) \<Rightarrow> (p, k, rx @ [(n, take (nat n) (recv_buffer s3))], tx, fw))"
    and sp: "send_pending env VO cfg ?chunk (s3\<lparr>stdin_pending := stdin_pending s3 @ take (nat n) (recv_buffer s3)\<rparr>)
      = Some (ok, s')"
    by (auto simp: forward_message_def Let_def)
  let ?msg = "take (nat n) (recv_buffer s3)"
  let ?s4 = "s3\<lparr>stdin_pending := stdin_pending s3 @ ?msg\<rparr>"
  have same: "stdin_pending s3 = stdin_pending s" "stdin_pending_offset s3 = stdin_pending_offset s"
    "received_of (trace s3) = received_of (trace s) @ [(n, ?msg)]" "sent_of (trace s3) = sent_of (trace s)"
    using v by (simp_all add: data_view_def)
  have ofs: "stdin_pending_offset s \<le> length (stdin_pending s)" using assms(2) by (simp add: conserved_def)
  then have q4: "queue ?s4 = queue s @ ?msg" using same by (simp add: queue_def)
  have "stdin_pending_offset ?s4 \<le> length (stdin_pending ?s4)" using ofs same by simp
  note law = send_pending_law [OF sp this]
  obtain new where "sent_of (trace s') = sent_of (trace s) @ new" "\<forall>x \<in> set new. length (snd x) = ?chunk"
    "queue s @ ?msg = concat (map snd new) @ queue s'"
    using law same q4 by (auto simp: repacketized_def)
  with law assms(2) same show ?thesis by (auto simp: conserved_def repacketized_def)
qed

lemma conserved_load: "load_shutdown env s = (b, s') \<Longrightarrow> conserved n s' \<longleftrightarrow> conserved n s"
  using data_viewD [OF data_view_load, of env s b s'] by (simp add: conserved_def)

lemma in_order_load: "load_shutdown env s = (b, s') \<Longrightarrow> in_order s' \<longleftrightarrow> in_order s"
  using data_viewD [OF data_view_load, of env s b s'] by (simp add: in_order_def)

lemma data_log_shutdown [simp]:
  "conserved n (logs [ev_shutdown st] s) \<longleftrightarrow> conserved n s" "in_order (logs [ev_shutdown st] s) \<longleftrightarrow> in_order s"
  by (simp_all add: conserved_def in_order_def queue_def logs_def)

text \<open>What a check of the flag and a round keep holds in every run.\<close>

lemma rounds_keep:
  assumes "rounds os env input_specs VI VO cfg repacketize s s'" and "I s"
    and "\<And>s b s'. load_shutdown env s = (b, s') \<Longrightarrow> I s \<Longrightarrow> I s'"
    and "\<And>s r s'. relay_round os env input_specs VI VO cfg repacketize s = Some (r, s') \<Longrightarrow> I s \<Longrightarrow> I s'"
  shows "I s'"
  using assms(1,2) by (induction rule: rounds.induct) (auto intro: assms(3,4))

lemma loop_keeps:
  assumes "relay_loop os env input_specs VI VO cfg repacketize s = Some (status, s')" and "I s"
    and load: "\<And>s b s'. load_shutdown env s = (b, s') \<Longrightarrow> I s \<Longrightarrow> I s'"
    and round: "\<And>s r s'. relay_round os env input_specs VI VO cfg repacketize s = Some (r, s') \<Longrightarrow> I s \<Longrightarrow> I s'"
    and log: "\<And>s st. I s \<Longrightarrow> I (logs [ev_shutdown st] s)"
  shows "I s'"
proof -
  obtain s1 where r: "rounds os env input_specs VI VO cfg repacketize s s1"
    and l: "last_round os env input_specs VI VO cfg repacketize s1 status s'"
    using relay_loop_rounds [OF assms(1)] by blast
  have "I s1" using rounds_keep [OF r, where I = I] assms(2) load round by blast
  obtain stop s2 where ld: "load_shutdown env s1 = (stop, s2)" by (cases "load_shutdown env s1")
  from load [OF ld \<open>I s1\<close>] l ld round log show ?thesis
    by (auto simp: last_round_def split: bool.splits)
qed

end
