(* ===== verification/Relay.thy ===== *)
theory Relay
  imports RelayRun
begin

text \<open>
  The relay as a whole: what holds in every state \<open>RelayMain\<close> reaches, from the command line's
  specifications through the parsers, the endpoints and the loop.
\<close>

section \<open>States of a run\<close>

interpretation program: relay_endpoints "RelayInput_class os" relay_input_wf relay_input_held "accepts_timeout os"
  "RelayOutput_class os" relay_output_wf relay_output_held "accepts_send_timeout os" for os
  by (intro relay_endpoints.intro relay_input.input_source_axioms relay_output.output_sink_axioms)

text \<open>
  \<open>run_state\<close>: the configuration names the inputs \<open>ins\<close>, and \<open>s\<close> is a state at the top of the loop, or
  the state in which the loop ended.
\<close>

definition run_state ::
  "os \<Rightarrow> runtime_env \<Rightarrow> RelayMetrics \<Rightarrow> Config \<Rightarrow> history \<Rightarrow> InputEndpointSpec list \<Rightarrow> (RelayInput, RelayOutput) relay \<Rightarrow> bool" where
  "run_state os env fresh cfg h ins s \<longleftrightarrow>
     ParseInputEndpointSpecs cfg = Inr ins \<and>
     (\<exists>outs i out s0.
        ParseOutputEndpointSpecs cfg = Inr outs \<and> BuildRelayInput cfg ins = Inr i \<and>
        BuildRelayOutput fresh outs = Inr out \<and> s0 = initial_relay env cfg fresh ins outs i out h \<and>
        (rounds os env ins (RelayInput_class os) (RelayOutput_class os) cfg (stdin_repacketize_enabled ins) s0 s \<or>
         (\<exists>status. relay_loop os env ins (RelayInput_class os) (RelayOutput_class os) cfg
            (stdin_repacketize_enabled ins) s0 = Some (status, s))))"

lemma RelayMain_run_state:
  assumes "RelayMain os env fresh cfg h = Some (Inr (status, s))"
  shows "\<exists>ins. run_state os env fresh cfg h ins s"
  using assms
  by (auto simp: RelayMain_def run_state_def rbind_eq_Inr_iff split: sum.splits)

lemma run_stateE:
  assumes "run_state os env fresh cfg h ins s"
  obtains outs i out where "BuildRelayInput cfg ins = Inr i" and "BuildRelayOutput fresh outs = Inr out"
    and "relay_steps (RelayInput_class os) (RelayOutput_class os) cfg (initial_relay env cfg fresh ins outs i out h) s"
  using assms that steps_rounds steps_loop unfolding run_state_def by metis

lemma initial_relay_simps [simp]:
  "the_input (initial_relay env cfg fresh ins outs i out h) = i"
  "the_output (initial_relay env cfg fresh ins outs i out h) = out"
  "calls (initial_relay env cfg fresh ins outs i out h) = h"
  "trace (initial_relay env cfg fresh ins outs i out h) = []"
  "tracker (initial_relay env cfg fresh ins outs i out h) = initial_tracker (unix_now_ms env 2)"
  "relay_stats (initial_relay env cfg fresh ins outs i out h) = default_RelayStats"
  "source_metrics (initial_relay env cfg fresh ins outs i out h) = initial_source_metrics cfg ins outs"
  "stdin_pending (initial_relay env cfg fresh ins outs i out h) = []"
  "stdin_pending_offset (initial_relay env cfg fresh ins outs i out h) = 0"
  by (simp_all add: initial_relay_def)

lemma books_initial: "books (initial_relay env cfg fresh ins outs i out h)"
  by (simp add: books_def balanced_def stats_totals_def default_RelayStats_def mirrored_def initial_source_metrics_def)

lemma run_state_keeps:
  assumes "run_state os env fresh cfg h ins s"
    and start: "\<And>outs i out. I (initial_relay env cfg fresh ins outs i out h)"
    and load: "\<And>s b s'. load_shutdown env s = (b, s') \<Longrightarrow> I s \<Longrightarrow> I s'"
    and round: "\<And>s r s'. relay_round os env ins (RelayInput_class os) (RelayOutput_class os) cfg
      (stdin_repacketize_enabled ins) s = Some (r, s') \<Longrightarrow> I s \<Longrightarrow> I s'"
    and log: "\<And>s st. I s \<Longrightarrow> I (logs [ev_shutdown st] s)"
  shows "I s"
proof -
  obtain s0 where i0: "I s0" and "rounds os env ins (RelayInput_class os) (RelayOutput_class os) cfg
       (stdin_repacketize_enabled ins) s0 s \<or>
     (\<exists>status. relay_loop os env ins (RelayInput_class os) (RelayOutput_class os) cfg
        (stdin_repacketize_enabled ins) s0 = Some (status, s))"
    using assms(1) start unfolding run_state_def by blast
  then consider (at) "rounds os env ins (RelayInput_class os) (RelayOutput_class os) cfg
       (stdin_repacketize_enabled ins) s0 s"
    | (over) status where "relay_loop os env ins (RelayInput_class os) (RelayOutput_class os) cfg
        (stdin_repacketize_enabled ins) s0 = Some (status, s)" by blast
  then show ?thesis
  proof cases
    case at
    show ?thesis by (rule rounds_keep [OF at, where I = I, OF i0]) (rule load round; assumption)+
  next
    case (over status)
    show ?thesis by (rule loop_keeps [OF over, where I = I, OF i0]) (rule load round log; assumption)+
  qed
qed

lemma run_state_accounts:
  assumes "run_state os env fresh cfg h ins s" and "accepts_timeout os" and "accepts_send_timeout os"
  shows "program.accounts (mset (open_handles h)) s"
proof -
  obtain outs i out where b: "BuildRelayInput cfg ins = Inr i" "BuildRelayOutput fresh outs = Inr out"
    and st: "relay_steps (RelayInput_class os) (RelayOutput_class os) cfg (initial_relay env cfg fresh ins outs i out h) s"
    using assms(1) by (rule run_stateE)
  have "program.accounts (mset (open_handles h)) (initial_relay env cfg fresh ins outs i out h)"
    using built_input_fresh [OF b(1)] built_output_fresh [OF b(2)] by (simp add: program.accounts_def owned_def)
  from program.steps_accounts [OF st assms(2,3) this] show ?thesis .
qed

section \<open>Properties of every run\<close>

text \<open>
  C2. As long as libsrt refuses neither timeout set on a session just accepted (\<open>SRTO_RCVTIMEO\<close> on an input
  session, \<open>SRTO_SNDTIMEO\<close> on an output client), the relay loses no socket: in every state of every run,
  whatever else fails on the way, what is open beyond what was open at the start is exactly what the
  input and the output hold. Without the condition a session can be lost, see
  \<open>refused_timeout_leaks_session\<close> of InputSources.
\<close>

theorem relay_holds_what_is_open:
  assumes "run_state os env fresh cfg h ins s" and "accepts_timeout os" and "accepts_send_timeout os"
  shows "mset (open_handles (calls s)) =
    mset (open_handles h) + relay_input_held (the_input s) + relay_output_held (the_output s)"
  using run_state_accounts [OF assms] by (simp add: program.accounts_def owned_def add.assoc)

text \<open>
  C5. The books balance in every state of every run: the totals are the sizes and numbers of the messages
  received and sent and of the sends that failed, \<open>MetricsState\<close> shows the same totals, and each total
  is what the statistics lines reported of it, interval by interval, plus the interval under way, all
  modulo the 64 bits of the counters.
\<close>

theorem relay_books_balance:
  assumes "run_state os env fresh cfg h ins s"
  shows "balanced (relay_stats s) (received_of (trace s)) (sent_of (trace s)) (failed_of (trace s))
      (reported_of (trace s)) \<and>
    mirrored (source_metrics s) = stats_totals (relay_stats s)"
proof -
  obtain outs i out where
    "relay_steps (RelayInput_class os) (RelayOutput_class os) cfg (initial_relay env cfg fresh ins outs i out h) s"
    using assms by (rule run_stateE)
  from relay_output.steps_books [OF this books_initial] show ?thesis by (simp add: books_def)
qed

text \<open>
  The tracker is a component: in every state of every run it is where a run of its step relation gets
  that opens and closes exactly the incidents in the log, so what holds of all its runs holds here.
\<close>

lemma relay_runs_tracker:
  assumes "run_state os env fresh cfg h ins s"
  shows "tracker_run (initial_tracker (unix_now_ms env 2)) (incidents_of (trace s)) (tracker s)"
proof -
  obtain outs i out where
    "relay_steps (RelayInput_class os) (RelayOutput_class os) cfg (initial_relay env cfg fresh ins outs i out h) s"
    using assms by (rule run_stateE)
  from steps_tracked [OF this] show ?thesis by (simp add: run_refl)
qed

text \<open>
  C4. Messages go through once, in order and unchanged: unless standard input is repacketized, in every
  state of every run the messages handed to the output, sent or failed, are those received.
\<close>

theorem relay_forwards_in_order:
  assumes "run_state os env fresh cfg h ins s" and "\<not> stdin_repacketize_enabled ins"
  shows "forwarded_of (trace s) = map snd (received_of (trace s))"
proof -
  have "in_order s"
  proof (rule run_state_keeps [OF assms(1)])
    show "in_order (initial_relay env cfg fresh ins outs i out h)" for outs i out by (simp add: in_order_def)
  qed (use assms(2) in \<open>auto simp: in_order_load intro: round_in_order\<close>)
  then show ?thesis by (simp add: in_order_def)
qed

text \<open>
  C3. Repacketizing loses nothing: when the only input is standard input, in every state of every run, also
  after failed sends, the bytes read are the bytes sent followed by those queued, and each chunk sent
  has the chunk size.
\<close>

theorem relay_conserves_stdin:
  assumes "run_state os env fresh cfg h ins s" and "stdin_repacketize_enabled ins"
  shows "concat (map snd (received_of (trace s))) = concat (map snd (sent_of (trace s))) @ queue s \<and>
    (\<forall>(n, chunk) \<in> set (sent_of (trace s)). length chunk = nat (stdin_chunk_size cfg))"
proof -
  have "conserved (nat (stdin_chunk_size cfg)) s"
  proof (rule run_state_keeps [OF assms(1)])
    show "conserved (nat (stdin_chunk_size cfg)) (initial_relay env cfg fresh ins outs i out h)" for outs i out
      by (simp add: conserved_def queue_def)
  qed (use assms(2) in \<open>auto simp: conserved_load intro: round_conserved\<close>)
  then show ?thesis by (auto simp: conserved_def)
qed

text \<open>
  A message is taken only when it can be handed on: when a round of a run gets as far as receiving, the
  input and the output are connected.
\<close>

theorem relay_receives_when_ready:
  assumes "run_state os env fresh cfg h ins s"
    and "ensure_input env ins (RelayInput_class os) cfg (begin_round os env (RelayInput_class os) (RelayOutput_class os) cfg s)
      = (None, s1)"
    and "ensure_output env (RelayOutput_class os) cfg s1 = (None, s2)"
  shows "IsConnected (RelayInput_class os) (the_input s2) \<and> SinkIsConnected (RelayOutput_class os) (the_output s2)"
proof -
  let ?s0 = "begin_round os env (RelayInput_class os) (RelayOutput_class os) cfg s"
  obtain outs i out where b: "BuildRelayInput cfg ins = Inr i" "BuildRelayOutput fresh outs = Inr out"
    and st: "relay_steps (RelayInput_class os) (RelayOutput_class os) cfg (initial_relay env cfg fresh ins outs i out h) s"
    using assms(1) by (rule run_stateE)
  have "relay_input_wf (the_input ?s0) \<and> relay_output_wf (the_output ?s0)"
    using program.steps_wf [OF rtranclp_trans [OF st steps_begin_round]]
      built_input_fresh(1) [OF b(1)] built_output_fresh(1) [OF b(2)] by simp
  with program.ready_to_receive [OF assms(2,3)] show ?thesis by simp
qed

section \<open>How it ends\<close>

lemma ensure_input_exits:
  "ensure_input env input_specs VI cfg s = (Some (exits status), s') \<Longrightarrow> status = 2 \<and> exit_on_input_failure cfg"
  by (auto simp: ensure_input_def input_failed_def Let_def split: sum.splits prod.splits if_splits)

lemma ensure_output_exits:
  "ensure_output env VO cfg s = (Some (exits status), s') \<Longrightarrow> status = 3 \<and> exit_on_output_failure cfg"
  by (auto simp: ensure_output_def output_failed_def Let_def split: sum.splits prod.splits if_splits)

lemma receive_error_exits:
  "receive_error env VI cfg s = (exits status, s') \<Longrightarrow> status = 2 \<and> exit_on_input_failure cfg"
  by (auto simp: receive_error_def Let_def split: prod.splits if_splits)

lemma receive_exits:
  "receive_message os env input_specs VI cfg s = (Inl (exits status), s') \<Longrightarrow> status = 2 \<and> exit_on_input_failure cfg"
  by (auto simp: receive_message_def Let_def dest: receive_error_exits split: prod.splits if_splits)

lemma forward_exits:
  "forward_message env VO cfg repacketize n s = Some (exits status, s') \<Longrightarrow> status = 3 \<and> exit_on_output_failure cfg"
  by (auto simp: forward_message_def Let_def split: if_splits)

lemma round_exits:
  assumes "relay_round os env input_specs VI VO cfg repacketize s = Some (exits status, s')"
  shows "status = 2 \<and> exit_on_input_failure cfg \<or> status = 3 \<and> exit_on_output_failure cfg"
  using assms unfolding relay_round_def
  by (auto split: option.splits sum.splits prod.splits
      dest: ensure_input_exits ensure_output_exits receive_exits forward_exits)

text \<open>A failing exit is for the failure logged last.\<close>

definition last_fails :: "FailureSide \<Rightarrow> ('i, 'o) relay \<Rightarrow> bool" where
  "last_fails side s \<longleftrightarrow> failures_of (trace s) \<noteq> [] \<and> fst (last (failures_of (trace s))) = side"

lemma failures_sleep_loop: "failures_of (trace (sleep_loop env delay slept s)) = failures_of (trace s)"
proof (induction env delay slept s rule: sleep_loop.induct)
  case (1 env delay slept s)
  obtain stop s1 where l: "load_shutdown env s = (stop, s1)" by (cases "load_shutdown env s")
  then have "failures_of (trace s1) = failures_of (trace s)" by (auto simp: load_shutdown_def tick_def Let_def)
  then show ?case using 1 [OF _ l [symmetric] _ refl] l
    by (auto simp: sleep_loop.simps [of env delay slept s] logs_def Let_def)
qed

lemma last_fails_frame [simp]:
  "last_fails side (reset_input VI s) = last_fails side s" "last_fails side (reset_output VO s) = last_fails side s"
  "last_fails side (SleepReconnectDelay env cfg s) = last_fails side s"
  "last_fails side (s\<lparr>shutdown_requested := b\<rparr>) = last_fails side s"
  by (simp_all add: last_fails_def reset_input_def reset_output_def SleepReconnectDelay_def failures_sleep_loop split: prod.split)

lemma last_fails_note [simp]: "last_fails side (note_failure env sd a s) \<longleftrightarrow> side = sd"
  by (auto simp: last_fails_def note_failure_eq Let_def)

lemma exits_after_input:
  "ensure_input env input_specs VI cfg s = (Some (exits status), s') \<Longrightarrow> last_fails FailureSide.kInput s'"
  "receive_error env VI cfg s = (exits status, s') \<Longrightarrow> last_fails FailureSide.kInput s'"
  by (auto simp: ensure_input_def input_failed_def receive_error_def Let_def split: sum.splits prod.splits if_splits)

lemma exits_after_receive:
  "receive_message os env input_specs VI cfg s = (Inl (exits status), s') \<Longrightarrow> last_fails FailureSide.kInput s'"
  by (auto simp: receive_message_def Let_def dest: exits_after_input split: prod.splits if_splits)

lemma exits_after_output:
  "ensure_output env VO cfg s = (Some (exits status), s') \<Longrightarrow> last_fails FailureSide.kOutput s'"
  by (auto simp: ensure_output_def output_failed_def Let_def split: sum.splits prod.splits if_splits)

lemma send_chunk_fails: "send_chunk env VO cfg bytes s = Some (False, s') \<Longrightarrow> last_fails FailureSide.kOutput s'"
  by (auto simp: send_chunk_def send_error_def Let_def split: option.splits prod.splits if_splits)

lemma send_pending_fails:
  assumes "send_pending env VO cfg chunk s = Some (False, s')"
  shows "last_fails FailureSide.kOutput s'"
proof -
  have "\<not> fst (False, s') \<longrightarrow> last_fails FailureSide.kOutput (snd (False, s'))"
    by (rule send_pending.raw_induct [where P = "\<lambda>env VO cfg chunk s r. \<not> fst r \<longrightarrow> last_fails FailureSide.kOutput (snd r)",
        OF _ assms]) (auto dest: send_chunk_fails split: if_splits option.splits)
  then show ?thesis by simp
qed

lemma exits_after_send:
  "forward_message env VO cfg repacketize n s = Some (exits status, s') \<Longrightarrow> last_fails FailureSide.kOutput s'"
  by (auto simp: forward_message_def Let_def dest: send_chunk_fails send_pending_fails split: if_splits)

lemma round_exit_fails:
  assumes "relay_round os env input_specs VI VO cfg repacketize s = Some (exits status, s')"
  shows "status = 2 \<and> last_fails FailureSide.kInput s' \<or> status = 3 \<and> last_fails FailureSide.kOutput s'"
  using assms unfolding relay_round_def
  by (auto split: option.splits sum.splits prod.splits
      dest: ensure_input_exits ensure_output_exits receive_exits forward_exits
        exits_after_input(1) exits_after_output exits_after_receive exits_after_send)

lemma relay_exit_fails:
  assumes "RelayMain os env fresh cfg h = Some (Inr (status, s))"
  shows "(status = 2 \<longrightarrow> last_fails FailureSide.kInput s) \<and> (status = 3 \<longrightarrow> last_fails FailureSide.kOutput s)"
proof -
  obtain ins outs i out where "relay_loop os env ins (RelayInput_class os) (RelayOutput_class os) cfg
      (stdin_repacketize_enabled ins) (initial_relay env cfg fresh ins outs i out h) = Some (status, s)"
    using assms by (auto simp: RelayMain_def split: sum.splits)
  from relay_loop_rounds [OF this] obtain s1 where
    "last_round os env ins (RelayInput_class os) (RelayOutput_class os) cfg (stdin_repacketize_enabled ins) s1 status s"
    by blast
  then show ?thesis by (auto simp: last_round_def dest: round_exit_fails split: prod.splits bool.splits)
qed

lemma failures_booked_initial: "failures_booked (initial_relay env cfg fresh ins outs i out h)"
proof -
  have "metrics (initial_tracker n) = initial_metrics n" for n by (simp add: initial_tracker_def)
  then show ?thesis
    by (simp add: failures_booked_def inv_initial failures_counted_def failures_shown_def sends_booked_def
        failures_with_none last_failure_def SideIndex_lt ReasonCodeIndex_lt TimeoutTypeIndex_lt initial_metrics_def Let_def)
qed

text \<open>
  C9. The failures are booked where they happen: in every state of every run the counters of the metrics
  page are, by side and reason and by side and kind of timeout, the failures in the log, and the last
  failure shown of a side is the last one logged of it; each failed send is one output failure with a
  reason of a send, and no side has a failure that only the other can have. A relay that exits with
  status 2 logged an input failure last, one that exits with status 3 an output failure.
\<close>

theorem relay_failures_booked:
  assumes "run_state os env fresh cfg h ins s"
  shows "failures_counted (metrics (tracker s)) (trace s) \<and> failures_shown (metrics (tracker s)) (trace s) \<and>
    sends_booked (trace s) \<and>
    (\<forall>status. RelayMain os env fresh cfg h = Some (Inr (status, s)) \<longrightarrow>
       (status = 2 \<longrightarrow> last_fails FailureSide.kInput s) \<and> (status = 3 \<longrightarrow> last_fails FailureSide.kOutput s))"
proof -
  obtain outs i out where
    "relay_steps (RelayInput_class os) (RelayOutput_class os) cfg (initial_relay env cfg fresh ins outs i out h) s"
    using assms by (rule run_stateE)
  from steps_failures_booked [OF this failures_booked_initial] relay_exit_fails [of os env fresh cfg h _ s]
  show ?thesis by (simp add: failures_booked_def)
qed

text \<open>The loop is left on the end of the input only.\<close>

lemma note_failure_frame [simp]: "the_input (note_failure env side a s) = the_input s"
  by (simp add: note_failure_def logs_def tick_def split: prod.split)

lemma receive_error_leaves:
  assumes "receive_error env VI cfg s = (leave_loop, s')"
  shows "IsTerminalEof VI (the_input s')"
  using assms by (auto simp: receive_error_def Let_def split: prod.splits if_splits)

lemma round_leaves:
  assumes "relay_round os env input_specs VI VO cfg repacketize s = Some (leave_loop, s')"
  shows "IsTerminalEof VI (the_input s')"
proof -
  let ?s0 = "begin_round os env VI VO cfg s"
  obtain r1 s1 where e1: "ensure_input env input_specs VI cfg ?s0 = (r1, s1)"
    by (cases "ensure_input env input_specs VI cfg ?s0")
  obtain r2 s2 where e2: "ensure_output env VO cfg s1 = (r2, s2)" by (cases "ensure_output env VO cfg s1")
  obtain r3 s3 where e3: "receive_message os env input_specs VI cfg s2 = (r3, s3)"
    by (cases "receive_message os env input_specs VI cfg s2")
  have "fst (ensure_input env input_specs VI cfg ?s0) \<noteq> Some leave_loop"
    by (auto simp: ensure_input_def input_failed_def Let_def split: sum.splits prod.splits)
  moreover have "fst (ensure_output env VO cfg s1) \<noteq> Some leave_loop"
    by (auto simp: ensure_output_def output_failed_def Let_def split: sum.splits prod.splits)
  moreover have "forward_message env VO cfg repacketize n s3 \<noteq> Some (leave_loop, s')" for n
    by (auto simp: forward_message_def Let_def)
  ultimately have "r3 = Inl leave_loop \<and> s' = s3"
    using assms e1 e2 e3 by (auto simp: relay_round_def split: option.splits sum.splits)
  with e3 show ?thesis
    by (auto simp: receive_message_def Let_def dest: receive_error_leaves split: prod.splits if_splits)
qed

text \<open>
  What the exit status means: a relay that ends reports 2 only when it was told to exit on input
  failures, 3 only when it was told to exit on output failures, and otherwise 0, and then a shutdown
  was requested or its input has ended for good.
\<close>

theorem relay_exit_status:
  assumes "RelayMain os env fresh cfg h = Some (Inr (status, s))"
  shows "status = 2 \<and> exit_on_input_failure cfg \<or> status = 3 \<and> exit_on_output_failure cfg \<or>
    status = 0 \<and> (shutdown_requested s \<or> IsTerminalEof (RelayInput_class os) (the_input s))"
proof -
  obtain ins outs i out where "relay_loop os env ins (RelayInput_class os) (RelayOutput_class os) cfg
      (stdin_repacketize_enabled ins) (initial_relay env cfg fresh ins outs i out h) = Some (status, s)"
    using assms by (auto simp: RelayMain_def split: sum.splits)
  from relay_loop_rounds [OF this] obtain s1 where
    l: "last_round os env ins (RelayInput_class os) (RelayOutput_class os) cfg (stdin_repacketize_enabled ins) s1 status s"
    by blast
  obtain stop s2 where ld: "load_shutdown env s1 = (stop, s2)" by (cases "load_shutdown env s1")
  have eof: "the_input (logs es t) = the_input t" for es and t :: "(RelayInput, RelayOutput) relay"
    by (simp add: logs_def)
  show ?thesis
  proof (cases stop)
    case True
    with l ld show ?thesis by (auto simp: last_round_def load_shutdown_def Let_def)
  next
    case False
    with l ld show ?thesis by (auto simp: last_round_def eof dest: round_exits round_leaves)
  qed
qed

section \<open>The relay keeps going\<close>

text \<open>
  Of all calls of the endpoints only the write loop of standard output can run on for ever; when every
  write makes progress each method returns, and so does every round.
\<close>

definition send_returns :: "'o OutputSink_methods \<Rightarrow> bool" where
  "send_returns VO \<longleftrightarrow> (\<forall>bytes w. Send VO bytes w \<noteq> None)"

lemma sink_send_returns:
  assumes "write_progresses os"
  shows "send_returns (OutputSink_class os)"
proof -
  have "write_loop os bytes 0 h \<noteq> None" for bytes h
    using write_loop_returns [OF assms, of 0 bytes h] by auto
  then have "stdout_Send os bytes (s, m, h) \<noteq> None" for bytes s m h
    by (cases "write_loop os bytes 0 h") (auto simp: stdout_Send_def simp del: not_None_eq split: option.splits)
  then have "sink_Send os bytes (sink, m, h) \<noteq> None" for bytes sink m h
    by (cases sink) (simp_all add: sink_Send_def del: not_None_eq)
  then show ?thesis by (auto simp: send_returns_def OutputSink_class_def simp del: not_None_eq)
qed

lemma send_returnsD: "send_returns V \<Longrightarrow> Send V bytes w \<noteq> None"
  unfolding send_returns_def by blast

lemma send_branches_returns:
  assumes "send_returns V"
  shows "send_branches V bytes is p w \<noteq> None"
proof (induction "is" arbitrary: p w)
  case (Cons i "is")
  obtain any failed n s m h where p: "p = (any, failed, n)" "w = (s, m, h)" by (cases p, cases w)
  obtain res b m1 h1 where "Send V bytes (branches s ! i, m, h) = Some (res, b, m1, h1)"
    using send_returnsD [OF assms, of bytes "(branches s ! i, m, h)"] by auto
  then show ?case using Cons.IH unfolding p by (simp del: not_None_eq)
qed simp

lemma fan_send_returns:
  assumes "send_returns V"
  shows "send_returns (OutputFanoutSink_class V)"
proof -
  have "fan_Send V bytes (s, m, h) \<noteq> None" for bytes s m h
    using send_branches_returns [OF assms, of bytes "[0..<length (branches s)]" "(False, False, 0)" "(clear_transfer_error s, m, h)"]
    by (auto simp: fan_Send_def Let_def)
  then show ?thesis by (auto simp: send_returns_def simp del: not_None_eq)
qed

lemma relay_send_returns:
  assumes "write_progresses os"
  shows "send_returns (RelayOutput_class os)"
proof -
  note sink = sink_send_returns [OF assms]
  have "Send (RelayOutput_class os) bytes (out, m, h) \<noteq> None" for bytes out m h
    using send_returnsD [OF sink] send_returnsD [OF fan_send_returns [OF sink]]
    by (cases out) (simp_all add: RelayOutput_class_def either_sink_def option.map_disc_iff del: not_None_eq)
  then show ?thesis by (auto simp: send_returns_def simp del: not_None_eq)
qed

lemma send_chunk_returns: "send_returns VO \<Longrightarrow> \<exists>ok s'. send_chunk env VO cfg bytes s = Some (ok, s')"
  using send_returnsD [of VO bytes "(the_output s, relay_metrics s, calls s)"]
  by (auto simp: send_chunk_def Let_def)

text \<open>The queue gets shorter by a chunk with every chunk sent.\<close>

lemma send_pending_returns:
  assumes "send_returns VO" and "0 < chunk"
  shows "stdin_pending_offset s \<le> length (stdin_pending s) \<Longrightarrow> send_pending env VO cfg chunk s \<noteq> None"
proof (induction "length (queue s)" arbitrary: s rule: less_induct)
  case less
  obtain ok s1 where sc: "send_chunk env VO cfg (take chunk (queue s)) s = Some (ok, s1)"
    using send_chunk_returns [OF assms(1)] by blast
  note view = send_chunk_view [OF sc]
  have q: "queue s1 = queue s" and ofs: "stdin_pending_offset s1 \<le> length (stdin_pending s1)"
    using view less.prems by (simp_all add: queue_def)
  show ?case
  proof (cases "chunk \<le> length (queue s) \<and> ok")
    case False
    then show ?thesis using sc by (subst send_pending.simps) (auto simp: queue_def)
  next
    case True
    then have "chunk \<le> length (queue s1)" using q by simp
    then have "chunk \<le> length (stdin_pending s1) - stdin_pending_offset s1" by (simp add: queue_def)
    note pop = pop_chunk_queue [OF this ofs]
    have "length (queue (pop_chunk chunk s1)) < length (queue s)" using pop(1) q conjunct1 [OF True] assms(2) by auto
    from less.hyps [OF this pop(2)] have "send_pending env VO cfg chunk (pop_chunk chunk s1) \<noteq> None" .
    with True sc show ?thesis by (subst send_pending.simps) (simp add: queue_def)
  qed
qed

lemma chunk_size_positive: "0 < max_message_size cfg \<Longrightarrow> 0 < nat (stdin_chunk_size cfg)"
  by (simp add: stdin_chunk_size_def Let_def)

lemma round_returns:
  assumes "send_returns VO" and "0 < max_message_size cfg" and "stdin_pending_offset s \<le> length (stdin_pending s)"
  shows "relay_round os env input_specs VI VO cfg repacketize s \<noteq> None"
proof -
  let ?s0 = "begin_round os env VI VO cfg s"
  obtain r1 s1 where e1: "ensure_input env input_specs VI cfg ?s0 = (r1, s1)"
    by (cases "ensure_input env input_specs VI cfg ?s0")
  obtain r2 s2 where e2: "ensure_output env VO cfg s1 = (r2, s2)" by (cases "ensure_output env VO cfg s1")
  obtain r3 s3 where e3: "receive_message os env input_specs VI cfg s2 = (r3, s3)"
    by (cases "receive_message os env input_specs VI cfg s2")
  have "data_view s2 = data_view s" using data_view_ensure_output [OF e2] data_view_ensure_input [OF e1] by simp
  then have v2: "stdin_pending s2 = stdin_pending s" "stdin_pending_offset s2 = stdin_pending_offset s"
    by (simp_all add: data_view_def)
  have "forward_message env VO cfg repacketize n s3 \<noteq> None" if "r3 = Inr n" for n
  proof -
    have "stdin_pending s3 = stdin_pending s2" and "stdin_pending_offset s3 = stdin_pending_offset s2"
      using e3 that by (auto simp: receive_message_def received_data_def Let_def logs_def tick_def
          split: if_splits prod.splits)
    with v2 assms(3) send_pending_returns [OF assms(1) chunk_size_positive [OF assms(2)],
        of "s3\<lparr>stdin_pending := stdin_pending s3 @ take (nat n) (recv_buffer s3)\<rparr>" env cfg]
      send_chunk_returns [OF assms(1)]
    show ?thesis by (auto simp: forward_message_def Let_def)
  qed
  then show ?thesis using e1 e2 e3 by (auto simp: relay_round_def split: option.split sum.split)
qed

text \<open>The offset into the queue never passes its end, so rounds return in every state of a run.\<close>

lemma data_view_offset:
  "data_view s' = data_view s \<Longrightarrow>
   stdin_pending_offset s' \<le> length (stdin_pending s') \<longleftrightarrow> stdin_pending_offset s \<le> length (stdin_pending s)"
  by (simp add: data_view_def)

lemma round_offset:
  assumes "relay_round os env input_specs VI VO cfg repacketize s = Some (r, s')"
    and ofs: "stdin_pending_offset s \<le> length (stdin_pending s)"
  shows "stdin_pending_offset s' \<le> length (stdin_pending s')"
  using round_data [OF assms(1)]
proof
  assume "data_view s' = data_view s"
  with ofs data_view_offset show ?thesis by blast
next
  assume "\<exists>n s3. data_view s3 = (case data_view s of (p, k, rx, tx, fw) \<Rightarrow> (p, k, rx @ [(n, take (nat n) (recv_buffer s3))], tx, fw)) \<and>
       forward_message env VO cfg repacketize n s3 = Some (r, s')"
  then obtain n s3 ok where v: "data_view s3 = (case data_view s of
      (p, k, rx, tx, fw) \<Rightarrow> (p, k, rx @ [(n, take (nat n) (recv_buffer s3))], tx, fw))"
    and f: "(if repacketize then send_pending env VO cfg (nat (stdin_chunk_size cfg))
         (s3\<lparr>stdin_pending := stdin_pending s3 @ take (nat n) (recv_buffer s3)\<rparr>)
       else send_chunk env VO cfg (take (nat n) (recv_buffer s3)) s3) = Some (ok, s')"
    by (auto simp: forward_message_def Let_def simp del: if_split)
  have o3: "stdin_pending_offset s3 \<le> length (stdin_pending s3)" using v ofs by (simp add: data_view_def)
  show ?thesis
  proof (cases repacketize)
    case True
    with f o3 show ?thesis by (auto dest!: send_pending_law simp: repacketized_def)
  next
    case False
    with f o3 send_chunk_view [of env VO cfg _ s3 ok s'] show ?thesis by auto
  qed
qed

lemma load_offset:
  "load_shutdown env s = (b, s') \<Longrightarrow>
   stdin_pending_offset s' \<le> length (stdin_pending s') \<longleftrightarrow> stdin_pending_offset s \<le> length (stdin_pending s)"
  using data_view_offset data_view_load by blast

text \<open>
  C6. The relay never hangs in a round: when every write to standard output makes progress, each round of
  each run comes to its end, whatever the sockets, the messages and the settings are.
\<close>

theorem relay_rounds_return:
  assumes "run_state os env fresh cfg h ins s" and "write_progresses os" and "0 < max_message_size cfg"
  shows "\<exists>outcome s'. relay_round os env ins (RelayInput_class os) (RelayOutput_class os) cfg
    (stdin_repacketize_enabled ins) s = Some (outcome, s')"
proof -
  have "stdin_pending_offset s \<le> length (stdin_pending s)"
    by (rule run_state_keeps [OF assms(1)])
      (auto simp: load_offset logs_def intro: round_offset)
  from round_returns [OF relay_send_returns [OF assms(2)] assms(3) this] show ?thesis by auto
qed

text \<open>Once the flag is set the next check ends the loop; until then every round reads it once more.\<close>

lemma loop_returns:
  assumes sends: "send_returns VO" and size: "0 < max_message_size cfg"
    and flag: "\<And>k. N \<le> k \<Longrightarrow> signalled env k"
  shows "stdin_pending_offset s \<le> length (stdin_pending s) \<Longrightarrow>
    relay_loop os env input_specs VI VO cfg repacketize s \<noteq> None"
proof (induction "N - readings s" arbitrary: s rule: less_induct)
  case less
  obtain stop s1 where ld: "load_shutdown env s = (stop, s1)" by (cases "load_shutdown env s")
  show ?case
  proof (cases stop)
    case True
    with ld show ?thesis by (subst relay_loop.simps) simp
  next
    case False
    with ld have "\<not> signalled env (readings s)" and r1: "readings s1 = readings s + 1"
      by (auto simp: load_shutdown_def tick_def Let_def)
    with flag have lt: "readings s < N" by (meson not_le)
    from less.prems have o1: "stdin_pending_offset s1 \<le> length (stdin_pending s1)" using load_offset [OF ld] by simp
    then obtain outcome s2 where rd: "relay_round os env input_specs VI VO cfg repacketize s1 = Some (outcome, s2)"
      using round_returns [OF sends size o1, of os env input_specs VI repacketize] by auto
    have "readings s1 \<le> readings s2" using steps_readings [OF steps_round [OF rd]] .
    then have "N - readings s2 < N - readings s" using r1 lt by simp
    from less.hyps [OF this round_offset [OF rd o1]] ld False rd show ?thesis
      by (subst relay_loop.simps) (simp split: round_outcome.split)
  qed
qed

lemma main_returns:
  assumes "write_progresses os" and "0 < max_message_size cfg" and "\<And>k. N \<le> k \<Longrightarrow> signalled env k"
  shows "RelayMain os env fresh cfg h \<noteq> None"
proof -
  have "relay_loop os env ins (RelayInput_class os) (RelayOutput_class os) cfg (stdin_repacketize_enabled ins)
      (initial_relay env cfg fresh ins outs i out h) \<noteq> None" for ins outs i out
    by (rule loop_returns [OF relay_send_returns [OF assms(1)] assms(2), where N = N]) (simp_all add: assms(3))
  then show ?thesis by (auto simp: RelayMain_def split: sum.split)
qed

text \<open>
  A requested shutdown ends the run: when the signal handler has set the flag from some reading on, and
  every write makes progress, \<open>RelayMain\<close> returns, with an exit status or with the error of the
  specifications it could not start from.
\<close>

theorem relay_shuts_down:
  assumes "write_progresses os" and "0 < max_message_size cfg" and "\<And>k. N \<le> k \<Longrightarrow> signalled env k"
  shows "RelayMain os env fresh cfg h \<noteq> None"
  by (rule main_returns [OF assms])

section \<open>The properties at concrete inputs\<close>

text \<open>
  The handler sets the flag at the reading \<open>n\<close>; the clocks go on by a millisecond and by a tenth of
  a second with each reading.
\<close>

definition example_run_env :: "nat \<Rightarrow> runtime_env" where
  "example_run_env n =
     \<lparr>unix_now_ms = (\<lambda>k. 1000 + int k), steady_now = (\<lambda>k. 100000000 * int k), signalled = (\<lambda>k. n \<le> k),
      zeroed_member =
        \<lparr>socket_id = 0, peeraddr = AF_OTHER, sockstate = SRTS_INIT, memberstate = SRT_GST_PENDING, token = 0\<rparr>,
      doubles =
        \<lparr>ComputeIntervalRates = (\<lambda>st ms. \<lparr>rx_bps = stats_interval_rx_bytes st, tx_bps = stats_interval_tx_bytes st,
           rx_mps = stats_interval_rx_msgs st, tx_mps = stats_interval_tx_msgs st\<rparr>),
         FormatMbpsFromBytesPerSec = (\<lambda>n. ''0.000'')\<rparr>\<rparr>"

text \<open>From standard input to standard output in chunks of four bytes, and from a UDP socket to a caller.\<close>

definition stdio_config :: Config where
  "stdio_config = default_Config\<lparr>input_uris := [''stdin''], output_uris := [''stdout''], max_message_size := 4\<rparr>"

definition srt_config :: Config where
  "srt_config = default_Config\<lparr>input_uris := [''udp://127.0.0.1:5000''], output_uris := [''srt://10.0.0.1:9000''],
     reconnect_delay_ms := 250\<rparr>"

lemma main_started:
  assumes "RelayMain os env fresh cfg h \<noteq> None"
    and "\<not> isl (rbind (ParseInputEndpointSpecs cfg) (\<lambda>ins. rbind (ParseOutputEndpointSpecs cfg) (\<lambda>outs.
      rbind (BuildRelayInput cfg ins) (\<lambda>i. rbind (BuildRelayOutput fresh outs) (\<lambda>out. Inr (ins, outs, i, out))))))"
  obtains status s ins where "RelayMain os env fresh cfg h = Some (Inr (status, s))"
    and "run_state os env fresh cfg h ins s"
proof -
  from assms obtain status s where "RelayMain os env fresh cfg h = Some (Inr (status, s))"
    by (auto simp: RelayMain_def split: sum.splits)
  with RelayMain_run_state [OF this] that show ?thesis by blast
qed

lemma example_write_progresses: "write_progresses calm" "write_progresses unsendable"
  by (simp_all add: write_progresses_def calm_def unsendable_def example_os_def good_reply_def reply_def Suc_leI)

lemma stdio_starts:
  obtains status s ins where "RelayMain calm (example_run_env n) example_relay_metrics stdio_config [] = Some (Inr (status, s))"
    and "run_state calm (example_run_env n) example_relay_metrics stdio_config [] ins s"
    and "stdin_repacketize_enabled ins"
proof -
  have "RelayMain calm (example_run_env n) example_relay_metrics stdio_config [] \<noteq> None"
    by (rule main_returns [OF example_write_progresses(1), where N = n])
      (simp_all add: stdio_config_def default_Config_def example_run_env_def)
  moreover have "\<not> isl (rbind (ParseInputEndpointSpecs stdio_config) (\<lambda>ins.
      rbind (ParseOutputEndpointSpecs stdio_config) (\<lambda>outs. rbind (BuildRelayInput stdio_config ins) (\<lambda>i.
      rbind (BuildRelayOutput example_relay_metrics outs) (\<lambda>out. Inr (ins, outs, i, out))))))"
    by code_simp
  ultimately obtain status s ins where r: "RelayMain calm (example_run_env n) example_relay_metrics stdio_config [] = Some (Inr (status, s))"
    and st: "run_state calm (example_run_env n) example_relay_metrics stdio_config [] ins s"
    by (rule main_started)
  have "case_sum (\<lambda>_. False) stdin_repacketize_enabled (ParseInputEndpointSpecs stdio_config)" by code_simp
  with st have "stdin_repacketize_enabled ins" by (simp add: run_state_def)
  with r st that show ?thesis by blast
qed

lemma srt_starts:
  obtains status s ins where "RelayMain unsendable (example_run_env n) example_relay_metrics srt_config [] = Some (Inr (status, s))"
    and "run_state unsendable (example_run_env n) example_relay_metrics srt_config [] ins s"
    and "\<not> stdin_repacketize_enabled ins"
proof -
  have "RelayMain unsendable (example_run_env n) example_relay_metrics srt_config [] \<noteq> None"
    by (rule main_returns [OF example_write_progresses(2), where N = n])
      (simp_all add: srt_config_def default_Config_def example_run_env_def)
  moreover have "\<not> isl (rbind (ParseInputEndpointSpecs srt_config) (\<lambda>ins.
      rbind (ParseOutputEndpointSpecs srt_config) (\<lambda>outs. rbind (BuildRelayInput srt_config ins) (\<lambda>i.
      rbind (BuildRelayOutput example_relay_metrics outs) (\<lambda>out. Inr (ins, outs, i, out))))))"
    by code_simp
  ultimately obtain status s ins where r: "RelayMain unsendable (example_run_env n) example_relay_metrics srt_config [] = Some (Inr (status, s))"
    and st: "run_state unsendable (example_run_env n) example_relay_metrics srt_config [] ins s"
    by (rule main_started)
  have "case_sum (\<lambda>_. False) (\<lambda>ins. \<not> stdin_repacketize_enabled ins) (ParseInputEndpointSpecs srt_config)" by code_simp
  with st have "\<not> stdin_repacketize_enabled ins" by (simp add: run_state_def)
  with r st that show ?thesis by blast
qed

theorem relay_holds_what_is_open_witness:
  "\<exists>status s. RelayMain unsendable (example_run_env 60) example_relay_metrics srt_config [] = Some (Inr (status, s)) \<and>
     mset (open_handles (calls s)) = relay_input_held (the_input s) + relay_output_held (the_output s)"
proof -
  obtain status s ins where r: "RelayMain unsendable (example_run_env 60) example_relay_metrics srt_config [] = Some (Inr (status, s))"
    and st: "run_state unsendable (example_run_env 60) example_relay_metrics srt_config [] ins s"
    by (rule srt_starts)
  have "accepts_timeout unsendable"
    by (simp add: accepts_timeout_def unsendable_def example_os_def good_reply_def reply_def)
  from relay_holds_what_is_open [OF st this unsendable_accepts] r show ?thesis by auto
qed

theorem relay_books_balance_witness:
  "\<exists>status s. RelayMain calm (example_run_env 30) example_relay_metrics stdio_config [] = Some (Inr (status, s)) \<and>
     balanced (relay_stats s) (received_of (trace s)) (sent_of (trace s)) (failed_of (trace s)) (reported_of (trace s))"
proof -
  obtain status s ins where r: "RelayMain calm (example_run_env 30) example_relay_metrics stdio_config [] = Some (Inr (status, s))"
    and st: "run_state calm (example_run_env 30) example_relay_metrics stdio_config [] ins s"
    by (rule stdio_starts)
  from relay_books_balance [OF st] r show ?thesis by blast
qed

theorem relay_failures_booked_witness:
  "\<exists>status s. RelayMain unsendable (example_run_env 60) example_relay_metrics srt_config [] = Some (Inr (status, s)) \<and>
     failures_counted (metrics (tracker s)) (trace s) \<and> sends_booked (trace s)"
proof -
  obtain status s ins where r: "RelayMain unsendable (example_run_env 60) example_relay_metrics srt_config [] = Some (Inr (status, s))"
    and st: "run_state unsendable (example_run_env 60) example_relay_metrics srt_config [] ins s"
    by (rule srt_starts)
  from relay_failures_booked [OF st] r show ?thesis by blast
qed

theorem relay_forwards_in_order_witness:
  "\<exists>status s. RelayMain unsendable (example_run_env 60) example_relay_metrics srt_config [] = Some (Inr (status, s)) \<and>
     forwarded_of (trace s) = map snd (received_of (trace s))"
proof -
  obtain status s ins where r: "RelayMain unsendable (example_run_env 60) example_relay_metrics srt_config [] = Some (Inr (status, s))"
    and st: "run_state unsendable (example_run_env 60) example_relay_metrics srt_config [] ins s"
    and "\<not> stdin_repacketize_enabled ins"
    by (rule srt_starts)
  from relay_forwards_in_order [OF st this(3)] r show ?thesis by blast
qed

theorem relay_conserves_stdin_witness:
  "\<exists>status s. RelayMain calm (example_run_env 30) example_relay_metrics stdio_config [] = Some (Inr (status, s)) \<and>
     concat (map snd (received_of (trace s))) = concat (map snd (sent_of (trace s))) @ queue s \<and>
     (\<forall>(n, chunk) \<in> set (sent_of (trace s)). length chunk = 4)"
proof -
  obtain status s ins where r: "RelayMain calm (example_run_env 30) example_relay_metrics stdio_config [] = Some (Inr (status, s))"
    and st: "run_state calm (example_run_env 30) example_relay_metrics stdio_config [] ins s"
    and "stdin_repacketize_enabled ins"
    by (rule stdio_starts)
  moreover have "nat (stdin_chunk_size stdio_config) = 4"
    by (simp add: stdin_chunk_size_def stdio_config_def default_Config_def)
  ultimately show ?thesis using relay_conserves_stdin [OF st] by auto
qed

definition stdin_specs :: "InputEndpointSpec list" where
  "stdin_specs = case_sum (\<lambda>_. []) id (ParseInputEndpointSpecs stdio_config)"

definition stdout_specs :: "OutputEndpointSpec list" where
  "stdout_specs = case_sum (\<lambda>_. []) id (ParseOutputEndpointSpecs stdio_config)"

definition stdio_start :: "(RelayInput, RelayOutput) relay" where
  "stdio_start =
     initial_relay (example_run_env 30) stdio_config example_relay_metrics stdin_specs stdout_specs
       (Inl (BuildInputSource (hd stdin_specs))) (Inl (BuildOutputSink (hd stdout_specs))) []"

lemma stdio_start_run: "run_state calm (example_run_env 30) example_relay_metrics stdio_config [] stdin_specs stdio_start"
proof -
  have ok: "\<not> isl (ParseInputEndpointSpecs stdio_config)" "\<not> isl (ParseOutputEndpointSpecs stdio_config)"
    and one: "length stdin_specs = 1" "length stdout_specs = 1" by code_simp+
  from ok have "ParseInputEndpointSpecs stdio_config = Inr stdin_specs" "ParseOutputEndpointSpecs stdio_config = Inr stdout_specs"
    by (auto simp: stdin_specs_def stdout_specs_def isl_def split: sum.splits)
  moreover from one have "BuildRelayInput stdio_config stdin_specs = Inr (Inl (BuildInputSource (hd stdin_specs)))"
    "BuildRelayOutput example_relay_metrics stdout_specs = Inr (Inl (BuildOutputSink (hd stdout_specs)))"
    by (auto simp: BuildRelayInput_def BuildRelayOutput_def)
  ultimately show ?thesis unfolding run_state_def stdio_start_def by (blast intro: rounds_refl)
qed

lemma begin_round_endpoints [simp]:
  "the_input (begin_round os env VI VO cfg s) = the_input s"
  "the_output (begin_round os env VI VO cfg s) = the_output s"
  by (simp_all add: begin_round_def Let_def close_incident_def log_stats_def emit_members_def publish_gauges_def
      logs_def tick_def split: prod.split)

text \<open>In the first round standard input is ready at once and standard output becomes ready.\<close>

theorem relay_receives_when_ready_witness:
  "\<exists>s2. snd (ensure_output (example_run_env 30) (RelayOutput_class calm) stdio_config
       (begin_round calm (example_run_env 30) (RelayInput_class calm) (RelayOutput_class calm) stdio_config stdio_start)) = s2 \<and>
     IsConnected (RelayInput_class calm) (the_input s2) \<and> SinkIsConnected (RelayOutput_class calm) (the_output s2)"
proof -
  let ?s1 = "begin_round calm (example_run_env 30) (RelayInput_class calm) (RelayOutput_class calm) stdio_config stdio_start"
  let ?r = "ensure_output (example_run_env 30) (RelayOutput_class calm) stdio_config ?s1"
  have "\<not> NeedsEnsurePoll (RelayInput_class calm) (the_input stdio_start)"
    and o: "\<not> SinkNeedsEnsurePoll (RelayOutput_class calm) (the_output stdio_start)" by code_simp+
  then have "ensure_input (example_run_env 30) stdin_specs (RelayInput_class calm) stdio_config ?s1 = (None, ?s1)"
    by (simp add: ensure_input_def)
  moreover have "fst ?r = None" using o by (simp add: ensure_output_def)
  ultimately show ?thesis using relay_receives_when_ready [OF stdio_start_run, of ?s1] prod.collapse by metis
qed

theorem relay_exit_status_witness:
  "\<exists>s. RelayMain calm (example_run_env 30) example_relay_metrics stdio_config [] = Some (Inr (0, s)) \<and>
     (shutdown_requested s \<or> IsTerminalEof (RelayInput_class calm) (the_input s))"
proof -
  obtain status s ins where r: "RelayMain calm (example_run_env 30) example_relay_metrics stdio_config [] = Some (Inr (status, s))"
    by (rule stdio_starts)
  have "\<not> exit_on_input_failure stdio_config" and "\<not> exit_on_output_failure stdio_config"
    by (simp_all add: stdio_config_def default_Config_def)
  with relay_exit_status [OF r] r show ?thesis by auto
qed

theorem relay_rounds_return_witness:
  "\<exists>status s. RelayMain calm (example_run_env 30) example_relay_metrics stdio_config [] = Some (Inr (status, s)) \<and>
     (\<exists>outcome s'. relay_round calm (example_run_env 30) stdin_specs (RelayInput_class calm) (RelayOutput_class calm)
        stdio_config True s = Some (outcome, s'))"
proof -
  obtain status s ins where r: "RelayMain calm (example_run_env 30) example_relay_metrics stdio_config [] = Some (Inr (status, s))"
    and st: "run_state calm (example_run_env 30) example_relay_metrics stdio_config [] ins s"
    and re: "stdin_repacketize_enabled ins"
    by (rule stdio_starts)
  have "ins = stdin_specs" using st by (simp add: run_state_def stdin_specs_def)
  moreover have "0 < max_message_size stdio_config" by (simp add: stdio_config_def)
  ultimately show ?thesis using relay_rounds_return [OF st example_write_progresses(1)] r re by auto
qed

theorem relay_shuts_down_witness: "RelayMain unsendable (example_run_env 60) example_relay_metrics srt_config [] \<noteq> None"
proof (rule relay_shuts_down [OF example_write_progresses(2)])
  show "0 < max_message_size srt_config" by (simp add: srt_config_def default_Config_def)
  show "signalled (example_run_env 60) k" if "60 \<le> k" for k using that by (simp add: example_run_env_def)
qed

theorem SleepReconnectDelay_bounded_witness:
  "sleeps (trace (SleepReconnectDelay (example_run_env 60) srt_config
     (initial_relay (example_run_env 60) srt_config example_relay_metrics [] [] () () []))) = [100, 100, 50] \<and>
   sum_list [100, 100, 50] = reconnect_delay_ms srt_config"
proof -
  let ?s = "initial_relay (example_run_env 60) srt_config example_relay_metrics [] [] () () []"
  have e: "sleeps (trace (SleepReconnectDelay (example_run_env 60) srt_config ?s)) = [100, 100, 50]"
    and n: "\<not> shutdown_requested (SleepReconnectDelay (example_run_env 60) srt_config ?s)" by code_simp+
  have "0 \<le> reconnect_delay_ms srt_config" by (simp add: srt_config_def)
  from SleepReconnectDelay_bounded [OF this, of "example_run_env 60" ?s] e n show ?thesis by (auto simp: initial_relay_def)
qed

end
