(* ===== verification/Program.thy ===== *)
theory Program
  imports Relay
begin

text \<open>
  The program (\<open>src/main.cpp\<close>, \<open>src/src/linkage.cpp\<close>): \<open>main\<close> parses the arguments, starts libsrt,
  runs the relay or checks the linkage, and cleans up. The destructors of the endpoints, which run when
  \<open>RelayMain\<close> returns, are here too.
\<close>

section \<open>Destructors\<close>

text \<open>\<open>CloseAllSessions\<close> and the destructors in the order the members are destroyed.\<close>

fun destroy_source :: "os \<Rightarrow> InputSource \<Rightarrow> history \<Rightarrow> history" where
  "destroy_source os (listener_source s) h =
     snd (SrtSocketHolder_Reset os (session s) (CloseSocketList os (listeners s) h))"
| "destroy_source os (caller_source s) h = snd (SrtSocketHolder_Reset os (caller_session s) h)"
| "destroy_source os (udp_source s) h = snd (CloseSocket os (socket_fd s) h)"
| "destroy_source os (stdin_source s) h = h"

fun destroy_sink :: "os \<Rightarrow> OutputSink \<Rightarrow> history \<Rightarrow> history" where
  "destroy_sink os (caller_sink s) h = snd (SrtSocketHolder_Reset os (oc_socket s) h)"
| "destroy_sink os (listener_sink s) h =
     CloseSocketList os (ol_listeners s) (CloseSocketList os (sessions s) h)"
| "destroy_sink os (udp_sink s) h = snd (CloseSocket os (uo_socket_fd s) h)"
| "destroy_sink os (stdout_sink s) h = h"

fun destroy_all :: "('s \<Rightarrow> history \<Rightarrow> history) \<Rightarrow> 's list \<Rightarrow> history \<Rightarrow> history" where
  "destroy_all d [] h = h"
| "destroy_all d (s # ss) h = destroy_all d ss (d s h)"

definition destroy_input :: "os \<Rightarrow> RelayInput \<Rightarrow> history \<Rightarrow> history" where
  "destroy_input os i h =
     (case i of Inl src \<Rightarrow> destroy_source os src h | Inr sw \<Rightarrow> destroy_all (destroy_source os) (sources sw) h)"

definition destroy_output :: "os \<Rightarrow> RelayOutput \<Rightarrow> history \<Rightarrow> history" where
  "destroy_output os out h =
     (case out of Inl sink \<Rightarrow> destroy_sink os sink h | Inr fan \<Rightarrow> destroy_all (destroy_sink os) (branches fan) h)"

text \<open>What a destructor promises: what the object holds is closed, and nothing else changes.\<close>

locale destructor =
  fixes destroy :: "'s \<Rightarrow> history \<Rightarrow> history" and well :: "'s \<Rightarrow> bool" and held :: "'s \<Rightarrow> handle multiset"
  assumes destroy_owned: "well s \<Longrightarrow> owned R (held s) h \<Longrightarrow> owned R {#} (destroy s h)"
begin

lemma destroy_leaves: "well s \<Longrightarrow> owned R (Q + held s) h \<Longrightarrow> owned R Q (destroy s h)"
  using destroy_owned [of s "R + Q" h] by (simp add: owned_def add.assoc)

lemma destroy_all_owned:
  "\<forall>s \<in> set ss. well s \<Longrightarrow> owned R (sum_list (map held ss)) h \<Longrightarrow> owned R {#} (destroy_all destroy ss h)"
proof (induction ss arbitrary: h)
  case Nil
  then show ?case by simp
next
  case (Cons s ss)
  then have "owned R (sum_list (map held ss) + held s) h" by (simp add: add.commute)
  from destroy_leaves [OF _ this] Cons show ?case by simp
qed

end

interpretation source_destructor: destructor "destroy_source os" source_wf source_held for os
proof
  show "owned R {#} (destroy_source os src h)" if "source_wf src" and "owned R (source_held src) h" for src R h
  proof (cases src)
    case (listener_source s)
    with that have "owned (R + held_socket (session s)) (held_sockets (listeners s)) h"
      and "SRT_INVALID_SOCK \<notin> set (listeners s)"
      by (simp_all add: listener_held_def listener_wf_def source_wf_def owned_def ac_simps)
    from CloseSocketList_owned [OF this] listener_source Reset_owned(1) show ?thesis by (simp add: owned_def)
  qed (use that in \<open>auto intro: Reset_owned CloseSocket_owned\<close>)
qed

interpretation sink_destructor: destructor "destroy_sink os" sink_wf sink_held for os
proof
  show "owned R {#} (destroy_sink os sink h)" if "sink_wf sink" and "owned R (sink_held sink) h" for sink R h
  proof (cases sink)
    case (listener_sink s)
    with that have "owned (R + held_sockets (ol_listeners s)) (held_sockets (sessions s)) h"
      and inv: "SRT_INVALID_SOCK \<notin> set (sessions s)" "SRT_INVALID_SOCK \<notin> set (ol_listeners s)"
      by (simp_all add: output_listener_held_def output_listener_wf_def sink_wf_def owned_def ac_simps)
    from CloseSocketList_owned [OF this(1) inv(1)] listener_sink CloseSocketList_owned [OF _ inv(2)]
    show ?thesis by (simp add: owned_def)
  qed (use that in \<open>auto intro: Reset_owned CloseSocket_owned\<close>)
qed

interpretation input_destructor: destructor "destroy_input os" relay_input_wf relay_input_held for os
  by unfold_locales
    (auto simp: destroy_input_def relay_input_wf_def relay_input_held_def switcher_wf_def switcher_held_def
      intro: source_destructor.destroy_owned source_destructor.destroy_all_owned split: sum.splits)

interpretation output_destructor: destructor "destroy_output os" relay_output_wf relay_output_held for os
  by unfold_locales
    (auto simp: destroy_output_def relay_output_wf_def relay_output_held_def fan_wf_def fan_held_def
      intro: sink_destructor.destroy_owned sink_destructor.destroy_all_owned split: sum.splits)

section \<open>The linkage check\<close>

text \<open>\<open>owner\<close> is the file \<open>dladdr\<close> names for \<open>srt_startup\<close>, \<open>mode\<close> the build's \<open>SRT_LINKAGE_MODE\<close>.\<close>

definition VerifyLinkage :: "os \<Rightarrow> string option \<Rightarrow> string \<Rightarrow> history \<Rightarrow> bool \<times> history" where
  "VerifyLinkage os owner mode h =
     (case owner of
        None \<Rightarrow> (False, h)
      | Some path \<Rightarrow>
          if mode = ''dynamic'' \<and> \<not> contains_sub path ''/opt/pixop-srt/'' then (False, h)
          else if mode = ''static'' \<and> contains_sub path ''libsrt.so'' then (False, h)
          else
            (case ask os (call_srt_create_group SRT_GTYPE_BROADCAST) h of
               (r, h1) \<Rightarrow>
                 if rc r = SRT_INVALID_SOCK then (False, h1) else (True, srt_close os (rc r) h1)))"

lemma VerifyLinkage_open: "open_handles (snd (VerifyLinkage os owner mode h)) = open_handles h"
  by (auto simp: VerifyLinkage_def ask_def srt_close_def io_call_def Let_def split: option.split)

section \<open>The program\<close>

record program_env =
  runtime :: runtime_env
  fresh_metrics :: RelayMetrics
  sigaction_works :: bool
  srt_startup_works :: bool
  symbol_owner :: "string option"
  linkage_mode :: string

datatype process_event = srt_started | srt_cleaned_up

text \<open>\<open>RunRelay\<close>: the relay, and then the destructors of its locals, the last one first.\<close>

definition RunRelay :: "os \<Rightarrow> program_env \<Rightarrow> Config \<Rightarrow> history \<Rightarrow> (int result \<times> history) option" where
  "RunRelay os env cfg h =
     map_option
       (\<lambda>r. case r of
              Inl e \<Rightarrow> (Inl e, h)
            | Inr (status, s) \<Rightarrow>
                (Inr status, destroy_input os (the_input s) (destroy_output os (the_output s) (calls s))))
       (RelayMain os (runtime env) (fresh_metrics env) cfg h)"

definition run_program :: "os \<Rightarrow> program_env \<Rightarrow> Config \<Rightarrow> history \<Rightarrow> (int \<times> history) option" where
  "run_program os env cfg h =
     (if verify_linkage cfg then
        (case VerifyLinkage os (symbol_owner env) (linkage_mode env) h of (ok, h1) \<Rightarrow> Some (if ok then 0 else 1, h1))
      else
        map_option (\<lambda>(r, h1). (case r of Inl e \<Rightarrow> 1 | Inr status \<Rightarrow> status, h1)) (RunRelay os env cfg h))"

definition program_main ::
  "os \<Rightarrow> program_env \<Rightarrow> string list \<Rightarrow> history \<Rightarrow> (int \<times> process_event list \<times> history) option" where
  "program_main os env args h =
     (case ParseArgs args of
        Exited n \<Rightarrow> Some (int n, [], h)
      | Thrown e \<Rightarrow> Some (1, [], h)
      | Parsed cfg \<Rightarrow>
          if \<not> sigaction_works env then Some (1, [], h)
          else if \<not> srt_startup_works env then Some (1, [], h)
          else map_option (\<lambda>(status, h1). (status, [srt_started, srt_cleaned_up], h1)) (run_program os env cfg h))"

section \<open>What the program guarantees\<close>

lemma RunRelay_closes:
  assumes "RunRelay os env cfg h = Some (r, h')" and "accepts_timeout os" and "accepts_send_timeout os"
  shows "mset (open_handles h') = mset (open_handles h)"
proof (cases "RelayMain os (runtime env) (fresh_metrics env) cfg h")
  case None
  with assms(1) show ?thesis by (simp add: RunRelay_def)
next
  case (Some res)
  show ?thesis
  proof (cases res)
    case (Inl e)
    with Some assms(1) show ?thesis by (simp add: RunRelay_def)
  next
    case (Inr p)
    then obtain status s where p: "res = Inr (status, s)" by (cases p) simp
    with Some obtain ins where "run_state os (runtime env) (fresh_metrics env) cfg h ins s"
      using RelayMain_run_state by blast
    from run_state_accounts [OF this assms(2,3)]
    have wf: "relay_input_wf (the_input s)" "relay_output_wf (the_output s)"
      and own: "owned (mset (open_handles h)) (relay_input_held (the_input s) + relay_output_held (the_output s)) (calls s)"
      by (simp_all add: program.accounts_def)
    have "h' = destroy_input os (the_input s) (destroy_output os (the_output s) (calls s))"
      using p Some assms(1) by (simp add: RunRelay_def)
    with input_destructor.destroy_owned [OF wf(1) output_destructor.destroy_leaves [OF wf(2) own]]
    show ?thesis by (simp add: owned_def)
  qed
qed

text \<open>
  C1. The program leaves nothing behind, provided libsrt refuses neither timeout the program sets on
  a session it has just accepted (\<open>SRTO_RCVTIMEO\<close> on an input session, \<open>SRTO_SNDTIMEO\<close> on an output client):
  whichever way it then ends, after the destructors every socket and descriptor it opened is closed
  again, and libsrt is cleaned up exactly when it was started. libsrt may refuse an option, for instance
  on a session that broke meanwhile, and the condition is needed: \<open>refused_timeout_leaks_session\<close> of
  InputSources shows the socket that is lost then.
\<close>

theorem main_leaves_nothing_open:
  assumes "program_main os env args h = Some (status, es, h')" and "accepts_timeout os" and "accepts_send_timeout os"
  shows "mset (open_handles h') = mset (open_handles h) \<and> (es = [] \<or> es = [srt_started, srt_cleaned_up])"
proof (cases "ParseArgs args")
  case (Parsed cfg)
  show ?thesis
  proof (cases "sigaction_works env \<and> srt_startup_works env")
    case False
    with Parsed assms(1) show ?thesis by (auto simp: program_main_def split: if_splits)
  next
    case True
    with Parsed assms(1) have run: "run_program os env cfg h = Some (status, h')" "es = [srt_started, srt_cleaned_up]"
      by (auto simp: program_main_def)
    have "mset (open_handles h') = mset (open_handles h)"
    proof (cases "verify_linkage cfg")
      case True
      with run(1) VerifyLinkage_open [of os "symbol_owner env" "linkage_mode env" h] show ?thesis
        by (auto simp: run_program_def split: prod.splits)
    next
      case False
      with run(1) obtain r where "RunRelay os env cfg h = Some (r, h')" by (auto simp: run_program_def)
      from RunRelay_closes [OF this assms(2,3)] show ?thesis .
    qed
    with run(2) show ?thesis by simp
  qed
qed (use assms(1) in \<open>auto simp: program_main_def\<close>)

text \<open>The relay starts: the signal handlers are set, libsrt is up, and the endpoints can be built.\<close>

definition starts :: "program_env \<Rightarrow> Config \<Rightarrow> bool" where
  "starts env cfg \<longleftrightarrow>
     sigaction_works env \<and> srt_startup_works env \<and>
     \<not> isl (rbind (ParseInputEndpointSpecs cfg) (\<lambda>ins. rbind (ParseOutputEndpointSpecs cfg) (\<lambda>outs.
        rbind (BuildRelayInput cfg ins) (\<lambda>i. BuildRelayOutput (fresh_metrics env) outs))))"

lemma RelayMain_isl:
  assumes "RelayMain os env fresh cfg h = Some r"
  shows "isl r \<longleftrightarrow> isl (rbind (ParseInputEndpointSpecs cfg) (\<lambda>ins. rbind (ParseOutputEndpointSpecs cfg) (\<lambda>outs.
        rbind (BuildRelayInput cfg ins) (\<lambda>i. BuildRelayOutput fresh outs))))"
  using assms
proof -
  have "isl (rbind x (\<lambda>ins. rbind y (\<lambda>outs. rbind (f ins) (\<lambda>i. rbind (g outs) (\<lambda>out. Inr (ins, outs, i, out)))))) \<longleftrightarrow>
      isl (rbind x (\<lambda>ins. rbind y (\<lambda>outs. rbind (f ins) (\<lambda>i. g outs))))"
    for x :: "InputEndpointSpec list result" and y and f :: "InputEndpointSpec list \<Rightarrow> RelayInput result"
      and g :: "OutputEndpointSpec list \<Rightarrow> RelayOutput result"
    by (cases x; cases y; auto simp: rbind_def split: sum.splits)
  note eq = this [of "ParseInputEndpointSpecs cfg" "ParseOutputEndpointSpecs cfg" "BuildRelayInput cfg" "BuildRelayOutput fresh"]
  show ?thesis unfolding eq [symmetric] using assms by (auto simp: RelayMain_def split: sum.splits)
qed

text \<open>
  C8. What the exit status of the program means when it is run to relay: 1 exactly when it could not
  start, 2 only when told to exit on input failures, 3 only when told to exit on output failures, and
  else 0.
\<close>

theorem main_exit_status:
  assumes "ParseArgs args = Parsed cfg" and "\<not> verify_linkage cfg"
    and "program_main os env args h = Some (status, es, h')"
  shows "status \<in> {0, 1, 2, 3} \<and> (status = 1 \<longleftrightarrow> \<not> starts env cfg) \<and>
    (status = 2 \<longrightarrow> exit_on_input_failure cfg) \<and> (status = 3 \<longrightarrow> exit_on_output_failure cfg)"
proof (cases "sigaction_works env \<and> srt_startup_works env")
  case False
  with assms show ?thesis by (auto simp: program_main_def starts_def split: if_splits)
next
  case True
  with assms obtain r where r: "RelayMain os (runtime env) (fresh_metrics env) cfg h = Some r"
    and st: "status = (case r of Inl e \<Rightarrow> 1 | Inr (status, s) \<Rightarrow> status)"
    by (cases "RelayMain os (runtime env) (fresh_metrics env) cfg h")
      (auto simp: program_main_def run_program_def RunRelay_def split: sum.split_asm sum.split)
  have start: "starts env cfg \<longleftrightarrow> \<not> isl r" using True RelayMain_isl [OF r] by (simp add: starts_def)
  show ?thesis
  proof (cases r)
    case (Inl e)
    with st start show ?thesis by simp
  next
    case (Inr p)
    with r st have "RelayMain os (runtime env) (fresh_metrics env) cfg h = Some (Inr (status, snd p))"
      by (cases p) simp
    from relay_exit_status [OF this] Inr start show ?thesis by auto
  qed
qed

lemma program_main_total:
  assumes "\<And>cfg. ParseArgs args = Parsed cfg \<Longrightarrow> RelayMain os (runtime env) (fresh_metrics env) cfg h \<noteq> None"
  shows "program_main os env args h \<noteq> None"
proof (cases "ParseArgs args")
  case (Parsed cfg)
  have "RunRelay os env cfg h \<noteq> None"
    using assms [OF Parsed] by (simp add: RunRelay_def option.map_disc_iff del: not_None_eq)
  then have "run_program os env cfg h \<noteq> None"
    by (cases "VerifyLinkage os (symbol_owner env) (linkage_mode env) h")
      (simp add: run_program_def option.map_disc_iff del: not_None_eq)
  with Parsed show ?thesis by (simp add: program_main_def option.map_disc_iff del: not_None_eq)
qed (simp_all add: program_main_def)

text \<open>
  C7. The program ends when it is told to: for every command line, when the signal handler has set the flag
  from some reading of it on and every write to standard output makes progress, \<open>main\<close> returns. The
  check of the arguments is what keeps the repacketizer from sending empty chunks for ever.
\<close>

theorem main_returns_after_signal:
  assumes "write_progresses os" and "\<And>k. N \<le> k \<Longrightarrow> signalled (runtime env) k"
  shows "program_main os env args h \<noteq> None"
proof (rule program_main_total)
  fix cfg
  assume "ParseArgs args = Parsed cfg"
  then have "0 < max_message_size cfg"
    by (auto simp: ParseArgs_def check_config_iff ranges_ok_def split: args_outcome.splits sum.splits)
  from main_returns [OF assms(1) this assms(2)]
  show "RelayMain os (runtime env) (fresh_metrics env) cfg h \<noteq> None" .
qed

section \<open>The properties at concrete inputs\<close>

definition example_program_env :: program_env where
  "example_program_env =
     \<lparr>runtime = example_run_env 60, fresh_metrics = example_relay_metrics, sigaction_works = True,
      srt_startup_works = True, symbol_owner = Some ''/opt/pixop-srt/lib/libsrt.so.1.5'', linkage_mode = ''dynamic''\<rparr>"

definition example_args :: "string list" where
  "example_args = [''--input'', ''udp://127.0.0.1:5000'', ''--output'', ''srt://10.0.0.1:9000'', ''--reconnect-delay-ms'', ''250'']"

lemma example_args_parsed: "ParseArgs example_args = Parsed srt_config"
  by code_simp

lemma example_main:
  obtains status es h' where "program_main unsendable example_program_env example_args [] = Some (status, es, h')"
proof -
  have "RelayMain unsendable (example_run_env 60) example_relay_metrics srt_config [] \<noteq> None"
    by (rule main_returns [OF example_write_progresses(2), where N = 60])
      (simp_all add: srt_config_def default_Config_def example_run_env_def)
  then have "program_main unsendable example_program_env example_args [] \<noteq> None"
    by (intro program_main_total) (simp add: example_args_parsed example_program_env_def)
  then show ?thesis using that by (metis not_None_eq prod_cases3)
qed

theorem main_leaves_nothing_open_witness:
  "\<exists>status es h'. program_main unsendable example_program_env example_args [] = Some (status, es, h') \<and>
     open_handles h' = []"
proof -
  obtain status es h' where m: "program_main unsendable example_program_env example_args [] = Some (status, es, h')"
    by (rule example_main)
  have "accepts_timeout unsendable"
    by (simp add: accepts_timeout_def unsendable_def example_os_def good_reply_def reply_def)
  from main_leaves_nothing_open [OF m this unsendable_accepts] m show ?thesis by simp
qed

theorem main_exit_status_witness:
  "\<exists>es h'. program_main unsendable example_program_env example_args [] = Some (0, es, h')"
proof -
  obtain status es h' where m: "program_main unsendable example_program_env example_args [] = Some (status, es, h')"
    by (rule example_main)
  have "\<not> verify_linkage srt_config" "\<not> exit_on_input_failure srt_config" "\<not> exit_on_output_failure srt_config"
    by (simp_all add: srt_config_def default_Config_def)
  moreover have "starts example_program_env srt_config" by code_simp
  ultimately have "status = 0" using main_exit_status [OF example_args_parsed _ m] by auto
  with m show ?thesis by blast
qed

theorem main_returns_after_signal_witness:
  "program_main calm example_program_env [''--input'', ''-'', ''--output'', ''-''] [] \<noteq> None"
  by (rule main_returns_after_signal [OF example_write_progresses(1), where N = 60])
    (simp add: example_program_env_def example_run_env_def)

end
