(* ===== verification/Prometheus.thy ===== *)
theory Prometheus
  imports Stats Incident InputSwitch Runtime
begin

text \<open>
  The metrics page (\<open>RenderPrometheusMetrics\<close> in \<open>src/src/metrics.cpp\<close>): what \<open>GET /metrics\<close> answers, as
  the items it consists of and as text. \<open>MetricsState\<close> is the fields of \<open>RelayMetrics\<close>,
  \<open>SourceMetrics\<close> and \<open>CausalityMetrics\<close>; \<open>now_ms\<close> is the clock.
\<close>

section \<open>Items and their text\<close>

datatype metric_item =
    help_item string string
  | type_item string string
  | sample_item string "(string \<times> string) list" string

definition quoted :: "string \<Rightarrow> string" where
  "quoted v = CHR 0x22 # v @ [CHR 0x22]"

fun item_line :: "metric_item \<Rightarrow> string" where
  "item_line (help_item name text) = ''# HELP '' @ name @ '' '' @ text"
| "item_line (type_item name kind_name) = ''# TYPE '' @ name @ '' '' @ kind_name"
| "item_line (sample_item name labels val) =
     name @
     (if labels = [] then []
      else ''{'' @ join_with '','' (map (\<lambda>(k, v). k @ ''='' @ quoted v) labels) @ ''}'') @
     '' '' @ val"

definition items_text :: "metric_item list \<Rightarrow> string" where
  "items_text is = concat (map (\<lambda>i. item_line i @ [CHR 0x0A]) is)"

section \<open>One metric\<close>

definition emit_u64 :: "string \<Rightarrow> string \<Rightarrow> string \<Rightarrow> u64 \<Rightarrow> metric_item list" where
  "emit_u64 name kind_name text val =
     [help_item name text, type_item name kind_name, sample_item name [] (show_nat (unat val))]"

definition emit_i64 :: "string \<Rightarrow> string \<Rightarrow> string \<Rightarrow> int \<Rightarrow> metric_item list" where
  "emit_i64 name kind_name text val =
     [help_item name text, type_item name kind_name, sample_item name [] (show_int val)]"

text \<open>One sample for each slot that remembers an identity, with its number from 1 on and its socket.\<close>

definition link_samples ::
  "nat \<Rightarrow> 'z TrackedSlot_scheme list \<Rightarrow> string \<Rightarrow> string \<Rightarrow> string \<Rightarrow> ('z TrackedSlot_scheme \<Rightarrow> string) \<Rightarrow> metric_item list" where
  "link_samples capped slots name kind_name text value_for_slot =
     help_item name text # type_item name kind_name #
     map (\<lambda>i. sample_item name
            [(''link_index'', show_nat (i + 1)),
             (''socket_id'', show_int (signed_take_bit 31 (member_id (slots ! i))))]
            (value_for_slot (slots ! i)))
       (filter (\<lambda>i. member_identity_key (slots ! i) \<noteq> 0) [0..<capped])"

definition emit_input_link_metric_u64 ::
  "string \<Rightarrow> string \<Rightarrow> string \<Rightarrow> (InputTrackedSlot \<Rightarrow> u64) \<Rightarrow> RelayMetrics \<Rightarrow> metric_item list" where
  "emit_input_link_metric_u64 name kind_name text value_for_slot m =
     link_samples (SnapshotCountCapped LinkSide.kInput m) (input_tracked m) name kind_name text
       (\<lambda>s. show_nat (unat (value_for_slot s)))"

definition emit_input_link_metric_i64 ::
  "string \<Rightarrow> string \<Rightarrow> string \<Rightarrow> (InputTrackedSlot \<Rightarrow> int) \<Rightarrow> RelayMetrics \<Rightarrow> metric_item list" where
  "emit_input_link_metric_i64 name kind_name text value_for_slot m =
     link_samples (SnapshotCountCapped LinkSide.kInput m) (input_tracked m) name kind_name text
       (\<lambda>s. show_int (value_for_slot s))"

definition emit_input_link_metric_i32 ::
  "string \<Rightarrow> string \<Rightarrow> string \<Rightarrow> (InputTrackedSlot \<Rightarrow> int) \<Rightarrow> RelayMetrics \<Rightarrow> metric_item list" where
  "emit_input_link_metric_i32 name kind_name text value_for_slot m =
     link_samples (SnapshotCountCapped LinkSide.kInput m) (input_tracked m) name kind_name text
       (\<lambda>s. show_int (value_for_slot s))"

definition emit_output_link_metric_u64 ::
  "string \<Rightarrow> string \<Rightarrow> string \<Rightarrow> (OutputTrackedSlot \<Rightarrow> u64) \<Rightarrow> RelayMetrics \<Rightarrow> metric_item list" where
  "emit_output_link_metric_u64 name kind_name text value_for_slot m =
     link_samples (SnapshotCountCapped LinkSide.kOutput m) (output_tracked m) name kind_name text
       (\<lambda>s. show_nat (unat (value_for_slot s)))"

definition emit_output_link_metric_i64 ::
  "string \<Rightarrow> string \<Rightarrow> string \<Rightarrow> (OutputTrackedSlot \<Rightarrow> int) \<Rightarrow> RelayMetrics \<Rightarrow> metric_item list" where
  "emit_output_link_metric_i64 name kind_name text value_for_slot m =
     link_samples (SnapshotCountCapped LinkSide.kOutput m) (output_tracked m) name kind_name text
       (\<lambda>s. show_int (value_for_slot s))"

definition emit_output_link_metric_i32 ::
  "string \<Rightarrow> string \<Rightarrow> string \<Rightarrow> (OutputTrackedSlot \<Rightarrow> int) \<Rightarrow> RelayMetrics \<Rightarrow> metric_item list" where
  "emit_output_link_metric_i32 name kind_name text value_for_slot m =
     link_samples (SnapshotCountCapped LinkSide.kOutput m) (output_tracked m) name kind_name text
       (\<lambda>s. show_int (value_for_slot s))"

section \<open>Derived values\<close>

definition path_ready :: "RelayMetrics \<Rightarrow> int" where
  "path_ready m = (if input_connected m = 1 \<and> output_connected m = 1 then 1 else 0)"

text \<open>Division of \<open>int64_t\<close> rounds to zero.\<close>

definition to_seconds :: "int \<Rightarrow> int" where
  "to_seconds ms = (if 0 \<le> ms then ms div 1000 else - ((- ms) div 1000))"

definition incident_age :: "int \<Rightarrow> CausalityMetrics \<Rightarrow> int" where
  "incident_age now_ms c =
     (if incident_active c = 1 \<and> 0 < incident_open_unix_ms c
      then max 0 (to_seconds (now_ms - incident_open_unix_ms c)) else 0)"

definition flag :: "bool \<Rightarrow> string" where
  "flag b = (if b then ''1'' else ''0'')"

section \<open>The page\<close>

definition u64_metric_defs ::
  "RelayMetrics \<Rightarrow> SourceMetrics \<Rightarrow> metric_item list" where
  "u64_metric_defs m lm =
     concat
     [emit_u64 ''srt_relay_rx_bytes_total'' ''counter''
        ''Total bytes received by relay input.'' (total_rx_bytes lm),
      emit_u64 ''srt_relay_tx_bytes_total'' ''counter''
        ''Total bytes sent by relay output.'' (total_tx_bytes lm),
      emit_u64 ''srt_relay_rx_messages_total'' ''counter''
        ''Total messages received by relay input.'' (total_rx_msgs lm),
      emit_u64 ''srt_relay_tx_messages_total'' ''counter''
        ''Total messages sent by relay output.'' (total_tx_msgs lm),
      emit_u64 ''srt_relay_send_failures_total'' ''counter''
        ''Total failed output send attempts.'' (total_send_failures lm),
      emit_u64 ''srt_relay_reconnects_total'' ''counter''
        ''Total reconnect attempts after output failures.'' (reconnect_count m),
      emit_u64 ''srt_relay_rx_bytes_per_sec'' ''gauge''
        ''Received bytes per second over last stats interval.'' (rx_bytes_per_sec lm),
      emit_u64 ''srt_relay_tx_bytes_per_sec'' ''gauge''
        ''Sent bytes per second over last stats interval.'' (tx_bytes_per_sec lm),
      emit_u64 ''srt_relay_rx_messages_per_sec'' ''gauge''
        ''Received messages per second over last stats interval.'' (rx_msgs_per_sec lm),
      emit_u64 ''srt_relay_tx_messages_per_sec'' ''gauge''
        ''Sent messages per second over last stats interval.'' (tx_msgs_per_sec lm),
      emit_u64 ''srt_relay_send_failures_interval'' ''gauge''
        ''Output send failures over last stats interval.'' (interval_send_failures lm),
      emit_u64 ''srt_relay_input_switches_total'' ''counter''
        ''Total input source switch events.'' (input_switches_total lm)]"

definition i64_metric_defs ::
  "RelayMetrics \<Rightarrow> SourceMetrics \<Rightarrow> metric_item list" where
  "i64_metric_defs m lm =
     concat
     [emit_i64 ''srt_relay_input_listening'' ''gauge''
        ''Relay input listener is up (1/0).'' (input_listening m),
      emit_i64 ''srt_relay_input_connected'' ''gauge''
        ''Relay input session is connected (1/0).'' (input_connected m),
      emit_i64 ''srt_relay_output_connected'' ''gauge''
        ''Relay output session is connected (1/0).'' (output_connected m),
      emit_i64 ''srt_relay_path_ready'' ''gauge''
        ''Relay data path input+output connected (1/0).'' (path_ready m),
      emit_i64 ''srt_relay_input_sources_total'' ''gauge''
        ''Configured independent input source count.'' (input_sources_total lm),
      emit_i64 ''srt_relay_output_sources_total'' ''gauge''
        ''Configured independent output sink count.'' (output_sources_total lm),
      emit_i64 ''srt_relay_active_input_index'' ''gauge''
        ''1-based active input source index.'' (active_input_index lm),
      emit_i64 ''srt_relay_primary_input_index'' ''gauge''
        ''Configured primary input index (1-based, 0 when unset).'' (the_primary_input_index lm),
      emit_i64 ''srt_relay_input_links_total'' ''gauge''
        ''Total number of input links in the active SRT group.'' (input_links_total m),
      emit_i64 ''srt_relay_input_links_healthy'' ''gauge''
        ''Number of healthy input links in the active SRT group.'' (input_links_healthy m),
      emit_i64 ''srt_relay_input_links_running'' ''gauge''
        ''Number of currently running/active input links in the active SRT group.'' (input_links_running m),
      emit_i64 ''srt_relay_output_links_total'' ''gauge''
        ''Total number of output links in the active SRT group.'' (output_links_total m),
      emit_i64 ''srt_relay_output_links_healthy'' ''gauge''
        ''Number of healthy output links in the active SRT group.'' (output_links_healthy m),
      emit_i64 ''srt_relay_output_links_running'' ''gauge''
        ''Number of currently running/active output links in the active SRT group.'' (output_links_running m)]"

definition input_link_metrics ::
  "RelayMetrics \<Rightarrow> metric_item list" where
  "input_link_metrics m =
     concat
     [emit_input_link_metric_i32 ''srt_relay_input_link_connected'' ''gauge''
        ''Per-input-link connection state in the active SRT group (1/0).'' member_connected m,
      emit_input_link_metric_u64 ''srt_relay_input_link_rx_bytes_total'' ''counter''
        ''Monotonic per-link transport RX bytes for each stable input link slot.'' link_rx_bytes_total m,
      emit_input_link_metric_u64 ''srt_relay_input_link_tx_bytes_total'' ''counter''
        ''Monotonic per-link transport TX bytes for each stable input link slot.'' link_tx_bytes_total m,
      emit_input_link_metric_u64 ''srt_relay_input_link_rx_bytes_current'' ''gauge''
        ''Current per-link byteRecvTotal for each stable input link slot.'' link_rx_bytes_current m,
      emit_input_link_metric_u64 ''srt_relay_input_link_tx_bytes_current'' ''gauge''
        ''Current per-link byteSentTotal for each stable input link slot.'' link_tx_bytes_current m,
      emit_input_link_metric_u64 ''srt_relay_input_link_packet_belated_total'' ''counter''
        ''Monotonic per-link belated packets ignored for playout for each stable input link slot.'' link_packet_belated_total m,
      emit_input_link_metric_u64 ''srt_relay_input_link_packet_belated_current'' ''gauge''
        ''Current per-link pktRcvBelated for each stable input link slot.'' link_packet_belated_current m,
      emit_input_link_metric_i64 ''srt_relay_input_link_rtt_ms'' ''gauge''
        ''Per-link RTT in milliseconds for each stable input link slot.'' link_rtt_ms m]"

definition output_link_metrics ::
  "RelayMetrics \<Rightarrow> metric_item list" where
  "output_link_metrics m =
     concat
     [emit_output_link_metric_i32 ''srt_relay_output_link_connected'' ''gauge''
        ''Per-output-link connection state in the active SRT group (1/0).'' member_connected m,
      emit_output_link_metric_u64 ''srt_relay_output_link_rx_bytes_total'' ''counter''
        ''Monotonic per-link transport RX bytes for each stable output link slot.'' link_rx_bytes_total m,
      emit_output_link_metric_u64 ''srt_relay_output_link_tx_bytes_total'' ''counter''
        ''Monotonic per-link transport TX bytes for each stable output link slot.'' link_tx_bytes_total m,
      emit_output_link_metric_u64 ''srt_relay_output_link_rx_bytes_current'' ''gauge''
        ''Current per-link byteRecvTotal for each stable output link slot.'' link_rx_bytes_current m,
      emit_output_link_metric_u64 ''srt_relay_output_link_tx_bytes_current'' ''gauge''
        ''Current per-link byteSentTotal for each stable output link slot.'' link_tx_bytes_current m,
      emit_output_link_metric_i64 ''srt_relay_output_link_rtt_ms'' ''gauge''
        ''Per-link RTT in milliseconds for each stable output link slot.'' link_rtt_ms m]"

definition input_transport_metrics ::
  "RelayMetrics \<Rightarrow> metric_item list" where
  "input_transport_metrics m =
     concat
     [emit_u64 ''srt_relay_input_transport_byte_recv_total'' ''counter''
        ''Monotonic input transport bytes received across tracked SRT member sockets (includes duplicate traffic).'' (input_transport_byte_recv_total m),
      emit_u64 ''srt_relay_input_transport_byte_recv_unique_total'' ''counter''
        ''Monotonic input transport unique bytes received across tracked SRT member sockets.'' (input_transport_byte_recv_unique_total m),
      emit_u64 ''srt_relay_input_transport_byte_retrans_total'' ''counter''
        ''Monotonic input transport retransmitted bytes across tracked SRT member sockets.'' (input_transport_byte_retrans_total m),
      emit_u64 ''srt_relay_input_transport_byte_loss_total'' ''counter''
        ''Monotonic input transport reported lost bytes across tracked SRT member sockets.'' (input_transport_byte_loss_total m),
      emit_u64 ''srt_relay_input_transport_packet_belated_total'' ''counter''
        ''Monotonic input transport belated packets (sum of pktRcvBelated) across tracked SRT member sockets.'' (input_transport_packet_belated_total m),
      emit_i64 ''srt_relay_input_transport_members_tracked'' ''gauge''
        ''Number of input SRT member sockets tracked for transport metrics.'' (input_transport_members_total m),
      emit_u64 ''srt_relay_input_transport_byte_recv_current'' ''gauge''
        ''Current summed byteRecvTotal across tracked SRT member sockets.'' (input_transport_byte_recv_current m),
      emit_u64 ''srt_relay_input_transport_byte_recv_unique_current'' ''gauge''
        ''Current summed byteRecvUniqueTotal across tracked SRT member sockets.'' (input_transport_byte_recv_unique_current m),
      emit_u64 ''srt_relay_input_transport_byte_retrans_current'' ''gauge''
        ''Current summed byteRetransTotal across tracked SRT member sockets.'' (input_transport_byte_retrans_current m),
      emit_u64 ''srt_relay_input_transport_byte_loss_current'' ''gauge''
        ''Current summed byteRcvLossTotal across tracked SRT member sockets.'' (input_transport_byte_loss_current m),
      emit_u64 ''srt_relay_input_transport_packet_belated_current'' ''gauge''
        ''Current summed pktRcvBelated across tracked SRT member sockets.'' (input_transport_packet_belated_current m),
      emit_u64 ''srt_relay_input_group_packet_drop_total'' ''counter''
        ''Monotonic input bonded group too-late packet drops (pktRcvDropTotal) on the active input group/session socket.'' (input_group_packet_drop_total m),
      emit_u64 ''srt_relay_input_group_byte_drop_total'' ''counter''
        ''Monotonic input bonded group too-late byte drops (byteRcvDropTotal) on the active input group/session socket.'' (input_group_byte_drop_total m),
      emit_i64 ''srt_relay_input_group_drop_sockets_tracked'' ''gauge''
        ''Number of input group/session sockets tracked for group-drop metrics.'' (input_group_drop_sockets_tracked m),
      emit_u64 ''srt_relay_input_group_packet_drop_current'' ''gauge''
        ''Current pktRcvDropTotal on the active input group/session socket.'' (input_group_packet_drop_current m),
      emit_u64 ''srt_relay_input_group_byte_drop_current'' ''gauge''
        ''Current byteRcvDropTotal on the active input group/session socket.'' (input_group_byte_drop_current m)]"

definition output_transport_metrics ::
  "RelayMetrics \<Rightarrow> metric_item list" where
  "output_transport_metrics m =
     concat
     [emit_u64 ''srt_relay_output_transport_byte_sent_total'' ''counter''
        ''Monotonic output transport bytes sent on relay output SRT socket (includes retransmissions).'' (output_transport_byte_sent_total m),
      emit_u64 ''srt_relay_output_transport_byte_sent_unique_total'' ''counter''
        ''Monotonic output transport unique bytes sent on relay output SRT socket.'' (output_transport_byte_sent_unique_total m),
      emit_u64 ''srt_relay_output_transport_byte_retrans_total'' ''counter''
        ''Monotonic output transport retransmitted bytes on relay output SRT socket.'' (output_transport_byte_retrans_total m),
      emit_u64 ''srt_relay_output_transport_byte_drop_total'' ''counter''
        ''Monotonic output transport dropped bytes on relay output SRT socket.'' (output_transport_byte_drop_total m),
      emit_i64 ''srt_relay_output_transport_members_tracked'' ''gauge''
        ''Number of output SRT member sockets tracked for transport metrics.'' (output_transport_members_total m),
      emit_u64 ''srt_relay_output_transport_byte_sent_current'' ''gauge''
        ''Current byteSentTotal on relay output SRT socket.'' (output_transport_byte_sent_current m),
      emit_u64 ''srt_relay_output_transport_byte_sent_unique_current'' ''gauge''
        ''Current byteSentUniqueTotal on relay output SRT socket.'' (output_transport_byte_sent_unique_current m),
      emit_u64 ''srt_relay_output_transport_byte_retrans_current'' ''gauge''
        ''Current byteRetransTotal on relay output SRT socket.'' (output_transport_byte_retrans_current m),
      emit_u64 ''srt_relay_output_transport_byte_drop_current'' ''gauge''
        ''Current byteSndDropTotal on relay output SRT socket.'' (output_transport_byte_drop_current m)]"

definition latency_metrics ::
  "RelayMetrics \<Rightarrow> metric_item list" where
  "latency_metrics m =
     concat
     [emit_i64 ''srt_relay_input_rtt_ms'' ''gauge''
        ''Input RTT in milliseconds; in bonded mode this is the maximum RTT among connected member links.'' (input_rtt_ms m),
      emit_i64 ''srt_relay_output_rtt_ms'' ''gauge''
        ''Output RTT in milliseconds; in bonded mode this is the maximum RTT among connected member links.'' (output_rtt_ms m),
      emit_i64 ''srt_relay_input_effective_latency_ms'' ''gauge''
        ''Input effective latency in milliseconds (negotiated latency when available, otherwise socket latency, else -1).'' (input_effective_latency_ms m),
      emit_i64 ''srt_relay_output_effective_latency_ms'' ''gauge''
        ''Output effective latency in milliseconds (negotiated latency when available, otherwise socket latency, else -1).'' (output_effective_latency_ms m)]"

definition mode_metrics ::
  "RelayMetrics \<Rightarrow> SourceMetrics \<Rightarrow> metric_item list" where
  "mode_metrics m lm =
     [help_item ''srt_relay_input_bond_mode'' ''Input bonded mode for active input session (1 for current mode, 0 otherwise).'',
      type_item ''srt_relay_input_bond_mode'' ''gauge'',
      sample_item ''srt_relay_input_bond_mode'' [(''mode'', ''unknown'')] (flag (input_bond_mode m = 0)),
      sample_item ''srt_relay_input_bond_mode'' [(''mode'', ''broadcast'')] (flag (input_bond_mode m = 1)),
      sample_item ''srt_relay_input_bond_mode'' [(''mode'', ''backup'')] (flag (input_bond_mode m = 2)),
      help_item ''srt_relay_output_bond_mode'' ''Output bonded mode for active output session (1 for current mode, 0 otherwise).'',
      type_item ''srt_relay_output_bond_mode'' ''gauge'',
      sample_item ''srt_relay_output_bond_mode'' [(''mode'', ''unknown'')] (flag (output_bond_mode m = 0)),
      sample_item ''srt_relay_output_bond_mode'' [(''mode'', ''broadcast'')] (flag (output_bond_mode m = 1)),
      sample_item ''srt_relay_output_bond_mode'' [(''mode'', ''backup'')] (flag (output_bond_mode m = 2)),
      help_item ''srt_relay_switch_policy'' ''Active input switch policy mode.'',
      type_item ''srt_relay_switch_policy'' ''gauge'',
      sample_item ''srt_relay_switch_policy'' [(''policy'', ''round_robin'')] (flag (the_switch_policy lm = 0)),
      sample_item ''srt_relay_switch_policy'' [(''policy'', ''preferred_primary'')] (flag (the_switch_policy lm = 1)),
      help_item ''srt_relay_switch_mode'' ''Active input switch execution mode.'',
      type_item ''srt_relay_switch_mode'' ''gauge'',
      sample_item ''srt_relay_switch_mode'' [(''mode'', ''serial'')] (flag (the_switch_mode_code lm = 0)),
      sample_item ''srt_relay_switch_mode'' [(''mode'', ''delayed'')] (flag (the_switch_mode_code lm = 1))]"

definition bond_samples :: "string \<Rightarrow> string \<Rightarrow> nat \<Rightarrow> int \<Rightarrow> metric_item list" where
  "bond_samples name index_name i bond_mode =
     [sample_item name [(index_name, show_nat (i + 1)), (''mode'', ''unknown'')] (flag (bond_mode = 0)),
      sample_item name [(index_name, show_nat (i + 1)), (''mode'', ''broadcast'')] (flag (bond_mode = 1)),
      sample_item name [(index_name, show_nat (i + 1)), (''mode'', ''backup'')] (flag (bond_mode = 2))]"

definition input_source_samples :: "SourceMetrics \<Rightarrow> nat \<Rightarrow> metric_item list" where
  "input_source_samples lm i =
     [sample_item ''srt_relay_input_source_connected'' [(''input_index'', show_nat (i + 1))]
        (show_int (input_source_connected lm ! i)),
      sample_item ''srt_relay_input_source_listening'' [(''input_index'', show_nat (i + 1))]
        (show_int (input_source_listening lm ! i))] @
     bond_samples ''srt_relay_input_source_bond_mode'' ''input_index'' i (input_source_bond_mode lm ! i)"

definition input_source_metrics :: "SourceMetrics \<Rightarrow> metric_item list" where
  "input_source_metrics lm =
     [help_item ''srt_relay_input_source_connected'' ''Input source connection state by index.'',
      type_item ''srt_relay_input_source_connected'' ''gauge'',
      help_item ''srt_relay_input_source_listening'' ''Input source listening state by index.'',
      type_item ''srt_relay_input_source_listening'' ''gauge'',
      help_item ''srt_relay_input_source_bond_mode'' ''Configured bond mode by input index.'',
      type_item ''srt_relay_input_source_bond_mode'' ''gauge''] @
     concat (map (input_source_samples lm) [0..<min (nat (max 0 (input_sources_total lm))) kMaxInputSources])"

definition output_source_samples :: "SourceMetrics \<Rightarrow> nat \<Rightarrow> metric_item list" where
  "output_source_samples lm i =
     (let index = (''output_index'', show_nat (i + 1)); cl = output_listener_clients_of lm ! i
      in [sample_item ''srt_relay_output_source_connected'' [index] (show_int (output_source_connected lm ! i)),
          sample_item ''srt_relay_output_source_listening'' [index] (show_int (output_source_listening lm ! i))] @
         bond_samples ''srt_relay_output_source_bond_mode'' ''output_index'' i (output_source_bond_mode lm ! i) @
         [sample_item ''srt_relay_output_listener_clients_active'' [index] (show_int (clients_active cl)),
          sample_item ''srt_relay_output_listener_clients_accepted_total'' [index] (show_nat (unat (clients_accepted cl))),
          sample_item ''srt_relay_output_listener_clients_dropped_total'' [index, (''reason'', ''timeout'')]
            (show_nat (unat (clients_dropped_timeout cl))),
          sample_item ''srt_relay_output_listener_clients_dropped_total'' [index, (''reason'', ''disconnected'')]
            (show_nat (unat (clients_dropped_disconnected cl))),
          sample_item ''srt_relay_output_listener_clients_dropped_total'' [index, (''reason'', ''error'')]
            (show_nat (unat (clients_dropped_error cl))),
          sample_item ''srt_relay_output_listener_accept_rejected_total'' [index, (''reason'', ''max_clients'')]
            (show_nat (unat (accepts_rejected cl)))])"

definition output_source_metrics :: "SourceMetrics \<Rightarrow> metric_item list" where
  "output_source_metrics lm =
     [help_item ''srt_relay_output_source_connected'' ''Output sink connection state by index.'',
      type_item ''srt_relay_output_source_connected'' ''gauge'',
      help_item ''srt_relay_output_source_listening'' ''Output sink listening state by index.'',
      type_item ''srt_relay_output_source_listening'' ''gauge'',
      help_item ''srt_relay_output_source_bond_mode'' ''Configured bond mode by output index.'',
      type_item ''srt_relay_output_source_bond_mode'' ''gauge'',
      help_item ''srt_relay_output_listener_clients_active'' ''Active downstream client count for output listener fanout by index.'',
      type_item ''srt_relay_output_listener_clients_active'' ''gauge'',
      help_item ''srt_relay_output_listener_clients_accepted_total'' ''Total accepted downstream clients for output listener fanout by index.'',
      type_item ''srt_relay_output_listener_clients_accepted_total'' ''counter'',
      help_item ''srt_relay_output_listener_clients_dropped_total'' ''Total dropped downstream clients for output listener fanout by index and reason.'',
      type_item ''srt_relay_output_listener_clients_dropped_total'' ''counter'',
      help_item ''srt_relay_output_listener_accept_rejected_total'' ''Total output listener fanout accept rejections by index and reason.'',
      type_item ''srt_relay_output_listener_accept_rejected_total'' ''counter''] @
     concat (map (output_source_samples lm) [0..<min (nat (max 0 (output_sources_total lm))) kMaxOutputSources])"

definition time_metrics ::
  "CausalityMetrics \<Rightarrow> int \<Rightarrow> metric_item list" where
  "time_metrics c now_ms =
     concat
     [emit_i64 ''srt_relay_last_rx_unix_seconds'' ''gauge''
        ''Unix timestamp of last received packet.'' (to_seconds (last_rx_unix_ms c)),
      emit_i64 ''srt_relay_last_tx_unix_seconds'' ''gauge''
        ''Unix timestamp of last forwarded packet.'' (to_seconds (last_tx_unix_ms c)),
      emit_i64 ''srt_relay_last_input_failure_unix_seconds'' ''gauge''
        ''Unix timestamp of last input-side failure.'' (last_input_failure_unix_seconds c),
      emit_i64 ''srt_relay_last_output_failure_unix_seconds'' ''gauge''
        ''Unix timestamp of last output-side failure.'' (last_output_failure_unix_seconds c),
      emit_i64 ''srt_relay_incident_active'' ''gauge''
        ''Whether a causal incident is active (1/0).'' (incident_active c),
      emit_i64 ''srt_relay_incident_age_seconds'' ''gauge''
        ''Age of active incident in seconds.'' (incident_age now_ms c)]"

definition both_sides :: "FailureSide list" where
  "both_sides = [FailureSide.kInput, FailureSide.kOutput]"

definition timeout_counters :: "CausalityMetrics \<Rightarrow> metric_item list" where
  "timeout_counters c =
     [help_item ''srt_relay_timeouts_total'' ''Total timeout events by side and timeout type.'',
      type_item ''srt_relay_timeouts_total'' ''counter''] @
     concat (map (\<lambda>side. map (\<lambda>t.
       sample_item ''srt_relay_timeouts_total''
         [(''side'', FailureSideName side), (''timeout_type'', TimeoutTypeName t)]
         (show_nat (unat (timeouts_total c ! SideIndex side ! TimeoutTypeIndex t)))) AllTimeoutTypes) both_sides)"

definition disconnect_counters :: "CausalityMetrics \<Rightarrow> metric_item list" where
  "disconnect_counters c =
     [help_item ''srt_relay_disconnects_total'' ''Total disconnect/failure events by side, class, and code.'',
      type_item ''srt_relay_disconnects_total'' ''counter''] @
     concat (map (\<lambda>side. map (\<lambda>rc.
       sample_item ''srt_relay_disconnects_total''
         [(''side'', FailureSideName side), (''reason_class'', ReasonClassName (ReasonClassFromCode rc)),
          (''reason_code'', ReasonCodeName rc)]
         (show_nat (unat (disconnects_total c ! SideIndex side ! ReasonCodeIndex rc)))) AllReasonCodes) both_sides)"

definition reconnect_counters :: "CausalityMetrics \<Rightarrow> metric_item list" where
  "reconnect_counters c =
     [help_item ''srt_relay_reconnect_attempts_total'' ''Total reconnect attempts by side.'',
      type_item ''srt_relay_reconnect_attempts_total'' ''counter''] @
     map (\<lambda>side. sample_item ''srt_relay_reconnect_attempts_total'' [(''side'', FailureSideName side)]
       (show_nat (unat (reconnect_attempts_total c ! SideIndex side)))) both_sides"

definition metric_items :: "RelayMetrics \<Rightarrow> SourceMetrics \<Rightarrow> CausalityMetrics \<Rightarrow> int \<Rightarrow> metric_item list" where
  "metric_items m lm c now_ms =
     u64_metric_defs m lm @ i64_metric_defs m lm @ input_link_metrics m @ output_link_metrics m @
     input_transport_metrics m @ output_transport_metrics m @ latency_metrics m @ mode_metrics m lm @
     input_source_metrics lm @ output_source_metrics lm @ time_metrics c now_ms @
     timeout_counters c @ disconnect_counters c @ reconnect_counters c"

definition RenderPrometheusMetrics :: "RelayMetrics \<Rightarrow> SourceMetrics \<Rightarrow> CausalityMetrics \<Rightarrow> int \<Rightarrow> string" where
  "RenderPrometheusMetrics m lm c now_ms = items_text (metric_items m lm c now_ms)"

section \<open>Reading the page back\<close>

text \<open>A scraper's view of the text: its lines, each a help or type comment or a sample.\<close>

definition read_label :: "string \<Rightarrow> (string \<times> string) option" where
  "read_label l = (case split_at CHR ''='' l of (k, Some v) \<Rightarrow>
     (if v \<noteq> [] \<and> v = quoted (butlast (tl v)) then Some (k, butlast (tl v)) else None) | _ \<Rightarrow> None)"

definition read_sample :: "string \<Rightarrow> metric_item option" where
  "read_sample l =
     (case split_at CHR '' '' l of
        (key, Some val) \<Rightarrow>
          (case split_at CHR ''{'' key of
             (name, None) \<Rightarrow> Some (sample_item name [] val)
           | (name, Some ls) \<Rightarrow>
               if ls \<noteq> [] \<and> last ls = CHR ''}''
               then map_option (\<lambda>labels. sample_item name labels val)
                 (those (map read_label (split_on CHR '','' (butlast ls))))
               else None)
      | _ \<Rightarrow> None)"

definition read_comment :: "(string \<Rightarrow> string \<Rightarrow> metric_item) \<Rightarrow> string \<Rightarrow> metric_item option" where
  "read_comment item l = (case split_at CHR '' '' l of (name, Some rest) \<Rightarrow> Some (item name rest) | _ \<Rightarrow> None)"

definition read_item :: "string \<Rightarrow> metric_item option" where
  "read_item l =
     (if starts_with l ''# HELP '' then read_comment help_item (drop 7 l)
      else if starts_with l ''# TYPE '' then read_comment type_item (drop 7 l)
      else read_sample l)"

definition read_page :: "string \<Rightarrow> metric_item list option" where
  "read_page text = those (map read_item (butlast (split_on CHR 0x0A text)))"

text \<open>
  Names, labels and values are plain: letters, digits, underscores and signs, so nothing in them needs
  escaping. Help texts are on one line.
\<close>

definition plain_char :: "char \<Rightarrow> bool" where
  "plain_char c = (c \<noteq> CHR ''#'' \<and> c \<noteq> CHR '' '' \<and> c \<noteq> CHR ''{'' \<and> c \<noteq> CHR ''='' \<and> c \<noteq> CHR '','' \<and> c \<noteq> CHR 0x0A \<and>
     c \<noteq> CHR ''}'' \<and> c \<noteq> CHR 0x22 \<and> c \<noteq> CHR 0x5C)"

abbreviation plain :: "string \<Rightarrow> bool" where
  "plain \<equiv> list_all plain_char"

fun good_item :: "metric_item \<Rightarrow> bool" where
  "good_item (help_item name text) = (plain name \<and> CHR 0x0A \<notin> set text)"
| "good_item (type_item name kind_name) = (plain name \<and> CHR 0x0A \<notin> set kind_name)"
| "good_item (sample_item name labels val) =
     (plain name \<and> (\<forall>(k, v) \<in> set labels. plain k \<and> plain v) \<and> plain val)"

lemma plain_notin: "plain s \<Longrightarrow> \<not> plain_char c \<Longrightarrow> c \<notin> set s"
  by (auto simp: list_all_iff)

lemma plain_chars [simp]:
  "\<not> plain_char CHR ''#''" "\<not> plain_char CHR '' ''" "\<not> plain_char CHR ''{''" "\<not> plain_char CHR ''=''"
  "\<not> plain_char CHR '',''" "\<not> plain_char CHR 0x0A" "\<not> plain_char CHR 0x22"
  by (simp_all add: plain_char_def)

lemma plain_show [simp]: "plain (show_nat n)" "plain (show_int i)" "plain (flag b)"
proof -
  have dig: "plain_char c" if "isdigit c" for c
    using that by (auto simp: isdigit_def digit_of_def plain_char_def Let_def split: if_splits)
  show nat: "plain (show_nat n)" for n using show_nat_digits dig by (auto simp: list_all_iff)
  show "plain (show_int i)" using nat by (simp add: show_int_def plain_char_def)
  show "plain (flag b)" by (simp add: flag_def plain_char_def)
qed

lemma read_label_back: "plain k \<Longrightarrow> read_label (k @ ''='' @ quoted v) = Some (k, v)"
  using split_at_append [of "CHR ''=''" k "quoted v"] plain_notin [of k "CHR ''=''"]
  by (simp add: read_label_def quoted_def)

lemma split_on_join:
  "xs \<noteq> [] \<Longrightarrow> \<forall>x \<in> set xs. d \<notin> set x \<Longrightarrow> split_on d (join_with [d] xs) = xs"
  by (induction "[d]" xs rule: join_with.induct) (simp_all add: split_on_notin split_on_append)

lemma join_notin: "c \<notin> set sep \<Longrightarrow> \<forall>x \<in> set xs. c \<notin> set x \<Longrightarrow> c \<notin> set (join_with sep xs)"
  by (induction sep xs rule: join_with.induct) auto

lemma those_map: "(\<And>x. x \<in> set xs \<Longrightarrow> f (g x) = Some x) \<Longrightarrow> those (map (f \<circ> g) xs) = Some xs"
  by (induction xs) auto

lemma label_text_notin:
  "plain k \<Longrightarrow> plain v \<Longrightarrow> \<not> plain_char c \<Longrightarrow> c \<noteq> CHR ''='' \<Longrightarrow> c \<noteq> CHR 0x22 \<Longrightarrow> c \<notin> set (k @ ''='' @ quoted v)"
  using plain_notin by (auto simp: quoted_def)

lemma starts_with_name: "plain name \<Longrightarrow> c \<noteq> CHR ''#'' \<Longrightarrow> \<not> starts_with (name @ c # r) (CHR ''#'' # q)"
  by (cases name) (auto simp: starts_with_def plain_char_def)

lemma read_sample_back:
  assumes "good_item (sample_item name labels val)"
  shows "read_sample (item_line (sample_item name labels val)) = Some (sample_item name labels val)"
proof (cases "labels = []")
  case True
  with assms split_at_append [of "CHR '' ''" name val] split_at_notin [of "CHR ''{''" name]
  show ?thesis by (simp add: read_sample_def plain_notin)
next
  case False
  let ?lab = "\<lambda>(k, v). k @ ''='' @ quoted v"
  let ?ls = "join_with '','' (map ?lab labels)"
  have out: "c \<notin> set (?lab l)" if "l \<in> set labels" "\<not> plain_char c" "c \<noteq> CHR ''=''" "c \<noteq> CHR 0x22" for l c
  proof (cases l)
    case (Pair k v)
    with assms that(1) have "plain k" "plain v" by auto
    with Pair label_text_notin [OF this that(2-4)] show ?thesis by simp
  qed
  have space: "CHR '' '' \<notin> set (name @ ''{'' @ ?ls @ ''}'')"
    using assms join_notin [of "CHR '' ''" "'',''" "map ?lab labels"] out by (auto simp: plain_notin)
  have parts: "split_on CHR '','' ?ls = map ?lab labels"
    by (rule split_on_join) (use False out in auto)
  have "those (map read_label (map ?lab labels)) = Some labels"
    unfolding map_map by (rule those_map) (use assms read_label_back in auto)
  then have "those (map read_label (split_on CHR '','' (butlast (?ls @ ''}'')))) = Some labels"
    by (simp only: butlast_snoc parts)
  with split_at_append [OF space, of val] split_at_append [of "CHR ''{''" name "?ls @ ''}''"] assms False
  show ?thesis by (simp add: read_sample_def plain_notin)
qed

lemma read_item_back:
  assumes "good_item i"
  shows "read_item (item_line i) = Some i"
proof (cases i)
  case (sample_item name labels val)
  obtain c r where "item_line i = name @ c # r" and "c \<noteq> CHR ''#''" by (cases labels) (auto simp: sample_item)
  then have "\<not> starts_with (item_line i) (CHR ''#'' # q)" for q
    using assms starts_with_name [of name c r q] sample_item by simp
  then show ?thesis using read_sample_back assms unfolding sample_item read_item_def by simp
next
  case (help_item name words)
  have "starts_with (''# HELP '' @ x) ''# HELP ''" for x by (rule starts_with_append)
  with help_item assms split_at_append [of "CHR '' ''" name words] show ?thesis
    by (simp add: read_item_def read_comment_def plain_notin)
next
  case (type_item name kind_name)
  have "starts_with (''# TYPE '' @ x) ''# TYPE ''" for x by (rule starts_with_append)
  moreover have "\<not> starts_with (''# TYPE '' @ x) ''# HELP ''" for x by (simp add: starts_with_def)
  ultimately show ?thesis using type_item assms split_at_append [of "CHR '' ''" name kind_name]
    by (simp add: read_item_def read_comment_def plain_notin)
qed

lemma line_no_newline:
  assumes "good_item i"
  shows "CHR 0x0A \<notin> set (item_line i)"
proof (cases i)
  case (sample_item name labels val)
  have "CHR 0x0A \<notin> set (join_with '','' (map (\<lambda>(k, v). k @ ''='' @ quoted v) labels))"
    by (rule join_notin) (use assms sample_item label_text_notin in \<open>auto simp: quoted_def plain_notin\<close>)
  with assms sample_item show ?thesis by (auto simp: plain_notin)
qed (use assms in \<open>auto simp: plain_notin\<close>)

lemma split_items_text:
  "list_all good_item is \<Longrightarrow> butlast (split_on CHR 0x0A (items_text is)) = map item_line is"
proof (induction "is")
  case Nil
  then show ?case by (simp add: items_text_def)
next
  case (Cons i "is")
  then show ?case
    using split_on_append [of "CHR 0x0A" "item_line i" "items_text is"] line_no_newline [of i]
    by (simp add: items_text_def)
qed

lemma read_items_text: "list_all good_item is \<Longrightarrow> read_page (items_text is) = Some is"
  using those_map [of "is" read_item item_line]
  by (simp add: read_page_def split_items_text read_item_back list_all_iff comp_def)

text \<open>Every item of the page is good.\<close>

lemma good_emits:
  "plain name \<Longrightarrow> CHR 0x0A \<notin> set text \<Longrightarrow> CHR 0x0A \<notin> set kind_name \<Longrightarrow> list_all good_item (emit_u64 name kind_name text u)"
  "plain name \<Longrightarrow> CHR 0x0A \<notin> set text \<Longrightarrow> CHR 0x0A \<notin> set kind_name \<Longrightarrow> list_all good_item (emit_i64 name kind_name text n)"
  by (simp_all add: emit_u64_def emit_i64_def)

lemma good_map: "(\<And>x. good_item (f x)) \<Longrightarrow> list_all good_item (map f xs)"
  by (induction xs) auto

lemma good_concat_map: "(\<And>x. list_all good_item (f x)) \<Longrightarrow> list_all good_item (concat (map f xs))"
  by (induction xs) auto

lemma good_sample:
  "plain name \<Longrightarrow> list_all (\<lambda>(k, v). plain k \<and> plain v) labels \<Longrightarrow> plain val \<Longrightarrow> good_item (sample_item name labels val)"
  by (simp add: list_all_iff)

lemma good_comments:
  "plain name \<Longrightarrow> CHR 0x0A \<notin> set text \<Longrightarrow> good_item (help_item name text)"
  "plain name \<Longrightarrow> CHR 0x0A \<notin> set text \<Longrightarrow> good_item (type_item name text)"
  by simp_all

lemma good_link_samples:
  assumes "plain name" and "CHR 0x0A \<notin> set text" and "CHR 0x0A \<notin> set kind_name" and "\<And>s. plain (f s)"
  shows "list_all good_item (link_samples capped slots name kind_name text f)"
proof -
  have "plain ''link_index''" "plain ''socket_id''" by code_simp+
  then show ?thesis unfolding link_samples_def list.pred_inject
    by (intro conjI good_comments good_map good_sample assms) (simp only: list.pred_inject prod.case plain_show simp_thms)
qed

lemma good_links:
  assumes "plain name" and "CHR 0x0A \<notin> set text" and "CHR 0x0A \<notin> set kind_name"
  shows "list_all good_item (emit_input_link_metric_u64 name kind_name text f m)"
    and "list_all good_item (emit_input_link_metric_i64 name kind_name text g m)"
    and "list_all good_item (emit_input_link_metric_i32 name kind_name text g m)"
    and "list_all good_item (emit_output_link_metric_u64 name kind_name text f' m)"
    and "list_all good_item (emit_output_link_metric_i64 name kind_name text g' m)"
    and "list_all good_item (emit_output_link_metric_i32 name kind_name text g' m)"
  unfolding emit_input_link_metric_u64_def emit_input_link_metric_i64_def emit_input_link_metric_i32_def
    emit_output_link_metric_u64_def emit_output_link_metric_i64_def emit_output_link_metric_i32_def
  by (rule good_link_samples, use assms in simp_all)+

lemma good_concat: "list_all (list_all good_item) xss \<Longrightarrow> list_all good_item (concat xss)"
  by (induction xss) auto

lemma good_append: "list_all good_item xs \<Longrightarrow> list_all good_item ys \<Longrightarrow> list_all good_item (xs @ ys)"
  by simp

lemma good_samples:
  assumes "plain name" and "plain val" and "plain k" and "plain v"
  shows "good_item (sample_item name [(k, v)] val)"
    and "plain k2 \<Longrightarrow> plain v2 \<Longrightarrow> good_item (sample_item name [(k, v), (k2, v2)] val)"
    and "plain k2 \<Longrightarrow> plain v2 \<Longrightarrow> plain k3 \<Longrightarrow> plain v3 \<Longrightarrow> good_item (sample_item name [(k, v), (k2, v2), (k3, v3)] val)"
  using assms by simp_all

lemmas good_intros = conjI TrueI good_emits good_links good_samples good_comments plain_show

lemma good_defs:
  "list_all good_item (u64_metric_defs m lm)" "list_all good_item (i64_metric_defs m lm)"
  "list_all good_item (input_link_metrics m)" "list_all good_item (output_link_metrics m)"
  "list_all good_item (input_transport_metrics m)" "list_all good_item (output_transport_metrics m)"
  "list_all good_item (latency_metrics m)" "list_all good_item (time_metrics c now_ms)"
  unfolding u64_metric_defs_def i64_metric_defs_def input_link_metrics_def output_link_metrics_def
    input_transport_metrics_def output_transport_metrics_def latency_metrics_def time_metrics_def
  by (rule good_concat, simp only: list.pred_inject, intro good_intros; code_simp)+

lemma good_modes: "list_all good_item (mode_metrics m lm)"
  unfolding mode_metrics_def by (simp only: list.pred_inject prod.case, intro good_intros; code_simp)

lemma good_input_source: "list_all good_item (input_source_samples lm i)"
  unfolding input_source_samples_def bond_samples_def append.simps
  by (simp only: list.pred_inject prod.case, intro good_intros; code_simp)

lemma good_output_source: "list_all good_item (output_source_samples lm i)"
  unfolding output_source_samples_def bond_samples_def Let_def append.simps
  by (simp only: list.pred_inject prod.case, intro good_intros; code_simp)

lemma good_sources: "list_all good_item (input_source_metrics lm)" "list_all good_item (output_source_metrics lm)"
proof -
  show "list_all good_item (input_source_metrics lm)" unfolding input_source_metrics_def
    by (rule good_append, simp only: list.pred_inject, intro good_intros; ((rule good_concat_map, rule good_input_source) | code_simp))
  show "list_all good_item (output_source_metrics lm)" unfolding output_source_metrics_def
    by (rule good_append, simp only: list.pred_inject, intro good_intros; ((rule good_concat_map, rule good_output_source) | code_simp))
qed

lemma good_failures:
  "list_all good_item (timeout_counters c)" "list_all good_item (disconnect_counters c)"
  "list_all good_item (reconnect_counters c)"
proof -
  have "plain ''input''" "plain ''output''" by code_simp+
  then have names: "plain (FailureSideName side)" for side by (simp add: FailureSideName_def)
  have types: "plain (TimeoutTypeName tt)" for tt by (induction tt; code_simp)
  have classes: "plain (ReasonClassName rl)" for rl by (induction rl; code_simp)
  have codes: "plain (ReasonCodeName rc)" for rc by (induction rc; code_simp)
  have keys: "plain ''side''" "plain ''timeout_type''" "plain ''reason_class''" "plain ''reason_code''"
    "plain ''srt_relay_timeouts_total''" "plain ''srt_relay_disconnects_total''"
    "plain ''srt_relay_reconnect_attempts_total''" by code_simp+
  show "list_all good_item (timeout_counters c)" unfolding timeout_counters_def
  proof (rule good_append)
    show "list_all good_item (concat (map (\<lambda>side. map (\<lambda>t.
       sample_item ''srt_relay_timeouts_total''
         [(''side'', FailureSideName side), (''timeout_type'', TimeoutTypeName t)]
         (show_nat (unat (timeouts_total c ! SideIndex side ! TimeoutTypeIndex t)))) AllTimeoutTypes) both_sides))"
      by (intro good_concat_map good_map good_samples names types keys plain_show)
  qed (simp only: list.pred_inject, intro good_intros; code_simp)
  show "list_all good_item (disconnect_counters c)" unfolding disconnect_counters_def
  proof (rule good_append)
    show "list_all good_item (concat (map (\<lambda>side. map (\<lambda>rc.
       sample_item ''srt_relay_disconnects_total''
         [(''side'', FailureSideName side), (''reason_class'', ReasonClassName (ReasonClassFromCode rc)),
          (''reason_code'', ReasonCodeName rc)]
         (show_nat (unat (disconnects_total c ! SideIndex side ! ReasonCodeIndex rc)))) AllReasonCodes) both_sides))"
      by (intro good_concat_map good_map good_samples names classes codes keys plain_show)
  qed (simp only: list.pred_inject, intro good_intros; code_simp)
  show "list_all good_item (reconnect_counters c)" unfolding reconnect_counters_def
  proof (rule good_append)
    show "list_all good_item (map (\<lambda>side. sample_item ''srt_relay_reconnect_attempts_total'' [(''side'', FailureSideName side)]
       (show_nat (unat (reconnect_attempts_total c ! SideIndex side)))) both_sides)"
      by (intro good_map good_samples names keys plain_show)
  qed (simp only: list.pred_inject, intro good_intros; code_simp)
qed

lemma good_page: "list_all good_item (metric_items m lm c now_ms)"
  unfolding metric_items_def by (intro good_append good_defs good_modes good_sources good_failures)


section \<open>Each series once\<close>

text \<open>A series is a metric's name with its labels; a scraper refuses a page that holds one twice.\<close>

fun item_series :: "metric_item \<Rightarrow> (string \<times> (string \<times> string) list) list" where
  "item_series (sample_item name labels val) = [(name, labels)]"
| "item_series _ = []"

definition series :: "metric_item list \<Rightarrow> (string \<times> (string \<times> string) list) list" where
  "series is = concat (map item_series is)"

text \<open>The samples of a block have only the given names, and no series occurs twice in it.\<close>

definition block :: "string list \<Rightarrow> metric_item list \<Rightarrow> bool" where
  "block ns is = (fst ` set (series is) \<subseteq> set ns \<and> distinct (series is))"

lemma series_simps [simp]: "series [] = []" "series (i # is) = item_series i @ series is" "series (is @ js) = series is @ series js"
  by (simp_all add: series_def)

lemma block_append:
  "block ns is \<Longrightarrow> block ms js \<Longrightarrow> set ns \<inter> set ms = {} \<Longrightarrow> block (ns @ ms) (is @ js)"
proof -
  assume b: "block ns is" "block ms js" "set ns \<inter> set ms = {}"
  have "set (series is) \<inter> set (series js) = {}"
  proof (rule ccontr)
    assume "set (series is) \<inter> set (series js) \<noteq> {}"
    then obtain x where "x \<in> set (series is)" "x \<in> set (series js)" by blast
    with b have "fst x \<in> set ns \<inter> set ms" unfolding block_def by blast
    with b show False by simp
  qed
  with b show ?thesis unfolding block_def by auto
qed

lemma blocks_concat: "list_all2 block nss iss \<Longrightarrow> distinct (concat nss) \<Longrightarrow> block (concat nss) (concat iss)"
proof (induction rule: list_all2_induct)
  case Nil
  then show ?case by (simp add: block_def)
next
  case (Cons ns nss js jss)
  then have "block (ns @ concat nss) (js @ concat jss)" by (intro block_append) auto
  then show ?case by simp
qed

lemma block_concat: "list_all2 (\<lambda>n is. block [n] is) ns iss \<Longrightarrow> distinct ns \<Longrightarrow> block ns (concat iss)"
  using blocks_concat [of "map (\<lambda>n. [n]) ns" iss] by (simp add: list_all2_map1)

lemma block_emit: "block [name] (emit_u64 name kind_name text u)" "block [name] (emit_i64 name kind_name text n)"
  by (simp_all add: block_def emit_u64_def emit_i64_def)

lemma block_comments:
  "block ns (help_item name text # is) = block ns is" "block ns (type_item name text # is) = block ns is"
  by (simp_all add: block_def)

lemma series_map: "(\<And>x. x \<in> set xs \<Longrightarrow> item_series (f x) = [g x]) \<Longrightarrow> series (map f xs) = map g xs"
  by (induction xs) auto

lemma block_map:
  assumes "distinct xs" and "\<And>x. item_series (f x) = [(name, g x)]" and "inj g"
  shows "block [name] (map f xs)"
proof -
  have "series (map f xs) = map (\<lambda>x. (name, g x)) xs" by (rule series_map) (rule assms)
  with assms show ?thesis by (auto simp: block_def distinct_map inj_on_def)
qed

lemma block_links: "block [name] (link_samples capped slots name kind_name text f)"
  unfolding link_samples_def block_comments
  by (rule block_map [where g = "\<lambda>i. [(''link_index'', show_nat (i + 1)),
    (''socket_id'', show_int (signed_take_bit 31 (member_id (slots ! i))))]"])
    (auto intro: injI)

lemma block_link_metrics:
  "block [name] (emit_input_link_metric_u64 name kind_name text f m)"
  "block [name] (emit_input_link_metric_i64 name kind_name text g m)"
  "block [name] (emit_input_link_metric_i32 name kind_name text g m)"
  "block [name] (emit_output_link_metric_u64 name kind_name text f' m)"
  "block [name] (emit_output_link_metric_i64 name kind_name text g' m)"
  "block [name] (emit_output_link_metric_i32 name kind_name text g' m)"
  unfolding emit_input_link_metric_u64_def emit_input_link_metric_i64_def emit_input_link_metric_i32_def
    emit_output_link_metric_u64_def emit_output_link_metric_i64_def emit_output_link_metric_i32_def
  by (rule block_links)+

subsection \<open>The names\<close>

definition u64_names :: "string list" where
  "u64_names =
     [''srt_relay_rx_bytes_total'',
      ''srt_relay_tx_bytes_total'',
      ''srt_relay_rx_messages_total'',
      ''srt_relay_tx_messages_total'',
      ''srt_relay_send_failures_total'',
      ''srt_relay_reconnects_total'',
      ''srt_relay_rx_bytes_per_sec'',
      ''srt_relay_tx_bytes_per_sec'',
      ''srt_relay_rx_messages_per_sec'',
      ''srt_relay_tx_messages_per_sec'',
      ''srt_relay_send_failures_interval'',
      ''srt_relay_input_switches_total'']"

definition i64_names :: "string list" where
  "i64_names =
     [''srt_relay_input_listening'',
      ''srt_relay_input_connected'',
      ''srt_relay_output_connected'',
      ''srt_relay_path_ready'',
      ''srt_relay_input_sources_total'',
      ''srt_relay_output_sources_total'',
      ''srt_relay_active_input_index'',
      ''srt_relay_primary_input_index'',
      ''srt_relay_input_links_total'',
      ''srt_relay_input_links_healthy'',
      ''srt_relay_input_links_running'',
      ''srt_relay_output_links_total'',
      ''srt_relay_output_links_healthy'',
      ''srt_relay_output_links_running'']"

definition input_link_names :: "string list" where
  "input_link_names =
     [''srt_relay_input_link_connected'',
      ''srt_relay_input_link_rx_bytes_total'',
      ''srt_relay_input_link_tx_bytes_total'',
      ''srt_relay_input_link_rx_bytes_current'',
      ''srt_relay_input_link_tx_bytes_current'',
      ''srt_relay_input_link_packet_belated_total'',
      ''srt_relay_input_link_packet_belated_current'',
      ''srt_relay_input_link_rtt_ms'']"

definition output_link_names :: "string list" where
  "output_link_names =
     [''srt_relay_output_link_connected'',
      ''srt_relay_output_link_rx_bytes_total'',
      ''srt_relay_output_link_tx_bytes_total'',
      ''srt_relay_output_link_rx_bytes_current'',
      ''srt_relay_output_link_tx_bytes_current'',
      ''srt_relay_output_link_rtt_ms'']"

definition input_transport_names :: "string list" where
  "input_transport_names =
     [''srt_relay_input_transport_byte_recv_total'',
      ''srt_relay_input_transport_byte_recv_unique_total'',
      ''srt_relay_input_transport_byte_retrans_total'',
      ''srt_relay_input_transport_byte_loss_total'',
      ''srt_relay_input_transport_packet_belated_total'',
      ''srt_relay_input_transport_members_tracked'',
      ''srt_relay_input_transport_byte_recv_current'',
      ''srt_relay_input_transport_byte_recv_unique_current'',
      ''srt_relay_input_transport_byte_retrans_current'',
      ''srt_relay_input_transport_byte_loss_current'',
      ''srt_relay_input_transport_packet_belated_current'',
      ''srt_relay_input_group_packet_drop_total'',
      ''srt_relay_input_group_byte_drop_total'',
      ''srt_relay_input_group_drop_sockets_tracked'',
      ''srt_relay_input_group_packet_drop_current'',
      ''srt_relay_input_group_byte_drop_current'']"

definition output_transport_names :: "string list" where
  "output_transport_names =
     [''srt_relay_output_transport_byte_sent_total'',
      ''srt_relay_output_transport_byte_sent_unique_total'',
      ''srt_relay_output_transport_byte_retrans_total'',
      ''srt_relay_output_transport_byte_drop_total'',
      ''srt_relay_output_transport_members_tracked'',
      ''srt_relay_output_transport_byte_sent_current'',
      ''srt_relay_output_transport_byte_sent_unique_current'',
      ''srt_relay_output_transport_byte_retrans_current'',
      ''srt_relay_output_transport_byte_drop_current'']"

definition latency_names :: "string list" where
  "latency_names =
     [''srt_relay_input_rtt_ms'',
      ''srt_relay_output_rtt_ms'',
      ''srt_relay_input_effective_latency_ms'',
      ''srt_relay_output_effective_latency_ms'']"

definition mode_names :: "string list" where
  "mode_names =
     [''srt_relay_input_bond_mode'',
      ''srt_relay_output_bond_mode'',
      ''srt_relay_switch_policy'',
      ''srt_relay_switch_mode'']"

definition input_source_names :: "string list" where
  "input_source_names =
     [''srt_relay_input_source_connected'',
      ''srt_relay_input_source_listening'',
      ''srt_relay_input_source_bond_mode'']"

definition output_source_names :: "string list" where
  "output_source_names =
     [''srt_relay_output_source_connected'',
      ''srt_relay_output_source_listening'',
      ''srt_relay_output_source_bond_mode'',
      ''srt_relay_output_listener_clients_active'',
      ''srt_relay_output_listener_clients_accepted_total'',
      ''srt_relay_output_listener_clients_dropped_total'',
      ''srt_relay_output_listener_accept_rejected_total'']"

definition time_names :: "string list" where
  "time_names =
     [''srt_relay_last_rx_unix_seconds'',
      ''srt_relay_last_tx_unix_seconds'',
      ''srt_relay_last_input_failure_unix_seconds'',
      ''srt_relay_last_output_failure_unix_seconds'',
      ''srt_relay_incident_active'',
      ''srt_relay_incident_age_seconds'']"

definition timeout_names :: "string list" where
  "timeout_names =
     [''srt_relay_timeouts_total'']"

definition disconnect_names :: "string list" where
  "disconnect_names =
     [''srt_relay_disconnects_total'']"

definition reconnect_names :: "string list" where
  "reconnect_names =
     [''srt_relay_reconnect_attempts_total'']"

lemmas names_defs = u64_names_def i64_names_def input_link_names_def output_link_names_def input_transport_names_def
  output_transport_names_def latency_names_def mode_names_def input_source_names_def output_source_names_def
  time_names_def timeout_names_def disconnect_names_def reconnect_names_def

definition all_names :: "string list" where
  "all_names = concat
    [u64_names, i64_names, input_link_names, output_link_names, input_transport_names, output_transport_names, latency_names,
     mode_names, input_source_names, output_source_names, time_names, timeout_names, disconnect_names, reconnect_names]"

lemma distinct_split: "distinct (filter P xs) \<Longrightarrow> distinct (filter (\<lambda>x. \<not> P x) xs) \<Longrightarrow> distinct xs"
  by (induction xs) (auto split: if_splits)

lemma names_distinct_input: "distinct (filter (\<lambda>n. n ! 10 = CHR ''i'') all_names)"
  by (simp add: all_names_def names_defs)

lemma names_distinct_other: "distinct (filter (\<lambda>n. n ! 10 \<noteq> CHR ''i'') all_names)"
  by (simp add: all_names_def names_defs)

lemma names_distinct: "distinct all_names"
  by (rule distinct_split [OF names_distinct_input names_distinct_other])

lemma list_all2_pair: "list_all2 P (n # ns) (b # bs) \<longleftrightarrow> P n b \<and> list_all2 P ns bs" "list_all2 P [] []"
  by simp_all

lemmas block_intros = conjI list_all2_pair(2) block_emit block_link_metrics

lemma block_defs:
  "block u64_names (u64_metric_defs m lm)" "block i64_names (i64_metric_defs m lm)"
  "block input_link_names (input_link_metrics m)" "block output_link_names (output_link_metrics m)"
  "block input_transport_names (input_transport_metrics m)" "block output_transport_names (output_transport_metrics m)"
  "block latency_names (latency_metrics m)" "block time_names (time_metrics c now_ms)"
  unfolding u64_metric_defs_def i64_metric_defs_def input_link_metrics_def output_link_metrics_def
    input_transport_metrics_def output_transport_metrics_def latency_metrics_def time_metrics_def names_defs
  by (rule block_concat, unfold list_all2_pair, intro block_intros, code_simp)+

lemma block_modes: "block mode_names (mode_metrics m lm)"
  by (simp add: block_def mode_metrics_def names_defs)

text \<open>The samples of the sources: those of one index differ, and the index tells the others apart.\<close>

lemma block_indexed:
  assumes "\<And>i. fst ` set (series (f i)) \<subseteq> set ns" and "\<And>i. distinct (series (f i))"
    and "\<And>i x. x \<in> set (series (f i)) \<Longrightarrow> hd (snd x) = (k, show_nat (i + 1))"
  shows "block ns (concat (map f [0..<n]))"
proof -
  have "distinct (concat (map (series \<circ> f) js))" if "distinct js" for js
    using that
  proof (induction js)
    case (Cons j js)
    have False if x: "x \<in> set (series (f j))" "i \<in> set js" "x \<in> set (series (f i))" for x i
      using assms(3) [OF x(1)] assms(3) [OF x(3)] x(2) Cons.prems by simp
    then have "set (series (f j)) \<inter> (\<Union>i \<in> set js. set (series (f i))) = {}" by blast
    with Cons assms(2) show ?case by simp
  qed simp
  moreover have "series (concat (map f js)) = concat (map (series \<circ> f) js)" for js
    by (induction js) simp_all
  ultimately show ?thesis using assms(1) unfolding block_def by fastforce
qed

lemma block_sources: "block input_source_names (input_source_metrics lm)" "block output_source_names (output_source_metrics lm)"
proof -
  show "block input_source_names (input_source_metrics lm)"
    unfolding input_source_metrics_def append.simps block_comments
    by (rule block_indexed [where k = "''input_index''"])
      (auto simp: input_source_samples_def bond_samples_def input_source_names_def)
  show "block output_source_names (output_source_metrics lm)"
    unfolding output_source_metrics_def append.simps block_comments
    by (rule block_indexed [where k = "''output_index''"])
      (auto simp: output_source_samples_def bond_samples_def output_source_names_def Let_def)
qed

text \<open>The counters by side: the label of the side tells two sides apart, the other label two counters of a side.\<close>

lemma block_failures:
  "block timeout_names (timeout_counters c)" "block disconnect_names (disconnect_counters c)"
  "block reconnect_names (reconnect_counters c)"
proof -
  have one: "series (map f xs) = map (hd \<circ> item_series \<circ> f) xs" if "\<And>x. item_series (f x) = [hd (item_series (f x))]" for f :: "'b \<Rightarrow> metric_item" and xs
    by (rule series_map) (use that in auto)
  have types: "distinct (map TimeoutTypeName AllTimeoutTypes)" and codes: "distinct (map ReasonCodeName AllReasonCodes)"
    by code_simp+
  show "block timeout_names (timeout_counters c)"
    unfolding timeout_counters_def append.simps block_comments both_sides_def timeout_names_def
    using types by (auto simp: block_def one FailureSideName_def comp_def distinct_map inj_on_def)
  show "block disconnect_names (disconnect_counters c)"
    unfolding disconnect_counters_def append.simps block_comments both_sides_def disconnect_names_def
    using codes by (auto simp: block_def one FailureSideName_def comp_def distinct_map inj_on_def)
  show "block reconnect_names (reconnect_counters c)"
    unfolding reconnect_counters_def append.simps block_comments both_sides_def reconnect_names_def
    by (simp add: block_def FailureSideName_def)
qed

lemma block_page: "block all_names (metric_items m lm c now_ms)"
proof -
  have items: "metric_items m lm c now_ms = concat
    [u64_metric_defs m lm, i64_metric_defs m lm, input_link_metrics m, output_link_metrics m,
     input_transport_metrics m, output_transport_metrics m, latency_metrics m, mode_metrics m lm,
     input_source_metrics lm, output_source_metrics lm, time_metrics c now_ms,
     timeout_counters c, disconnect_counters c, reconnect_counters c]"
    by (simp add: metric_items_def)
  show ?thesis unfolding items all_names_def
    by (rule blocks_concat [OF _ names_distinct [unfolded all_names_def]], unfold list_all2_pair,
      intro conjI list_all2_pair(2) block_defs block_modes block_sources block_failures)
qed

text \<open>
  C28. The metrics page can be read back, and no series is published twice: splitting the text at newlines,
  blanks, braces, commas and quotes yields exactly the help and type comments and the samples, with their
  labels and values, that \<open>RenderPrometheusMetrics\<close> put into it, and whatever the slots, the sources and
  the counters hold, two samples differ in their name or in a label.
\<close>

theorem metrics_page_reads_back:
  "read_page (RenderPrometheusMetrics m lm c now_ms) = Some (metric_items m lm c now_ms) \<and>
   distinct (series (metric_items m lm c now_ms))"
proof
  show "read_page (RenderPrometheusMetrics m lm c now_ms) = Some (metric_items m lm c now_ms)"
    unfolding RenderPrometheusMetrics_def by (rule read_items_text [OF good_page])
  show "distinct (series (metric_items m lm c now_ms))" using block_page unfolding block_def by blast
qed

text \<open>
  The samples of one metric are not together when there are several sources: each source's samples follow
  those of the source before it.
\<close>

lemma input_families_interleave:
  "input_sources_total lm = 2 \<Longrightarrow> map fst (series (input_source_metrics lm)) =
     (let one = [''srt_relay_input_source_connected'', ''srt_relay_input_source_listening'',
        ''srt_relay_input_source_bond_mode'', ''srt_relay_input_source_bond_mode'', ''srt_relay_input_source_bond_mode'']
      in one @ one)"
  by (simp add: input_source_metrics_def input_source_samples_def bond_samples_def kMaxInputSources_def upt_rec Let_def)
end
