(* ===== verification/SessionJson.thy ===== *)
theory SessionJson
  imports Prometheus AutoCompact
begin

text \<open>
  The other answers of the metrics server (\<open>src/src/metrics.cpp\<close>, \<open>src/src/metrics_link_slots.cpp\<close>):
  \<open>GET /session/specs\<close>, which describes the configured endpoints and their sessions, the answer to a
  compaction request, and the handlers \<open>MetricsServer\<close> registers. A \<open>json\<close> value is that of
  \<open>nlohmann::json\<close>, whose objects are maps; \<open>dump\<close>, which throws for text that is not UTF-8, is a
  parameter, as are the numbers of libsrt's enumerators.
\<close>

section \<open>JSON values\<close>

datatype json =
    json_null
  | json_bool bool
  | json_int int
  | json_string string
  | json_array "json list"
  | json_object "string \<rightharpoonup> json"

definition obj :: "(string \<times> json) list \<Rightarrow> json" where
  "obj members = json_object (map_of members)"

fun put_member :: "string \<Rightarrow> json \<Rightarrow> json \<Rightarrow> json" where
  "put_member k v (json_object members) = json_object (members(k \<mapsto> v))"
| "put_member k v j = j"

fun member_at :: "string \<Rightarrow> json \<Rightarrow> json option" where
  "member_at k (json_object members) = members k"
| "member_at k j = None"

fun elements :: "json \<Rightarrow> json list" where
  "elements (json_array xs) = xs"
| "elements j = []"

definition or_null :: "('a \<Rightarrow> json) \<Rightarrow> 'a option \<Rightarrow> json" where
  "or_null f v = (case v of None \<Rightarrow> json_null | Some x \<Rightarrow> f x)"

section \<open>Names\<close>

fun InputProtocolName :: "InputEndpointKind \<Rightarrow> string" where
  "InputProtocolName InputEndpointKind.kSrtListener = ''srt''"
| "InputProtocolName InputEndpointKind.kSrtCaller = ''srt''"
| "InputProtocolName InputEndpointKind.kUdpListener = ''udp''"
| "InputProtocolName InputEndpointKind.kUdpCaller = ''udp''"
| "InputProtocolName InputEndpointKind.kStdin = ''stdin''"

fun OutputProtocolName :: "OutputEndpointKind \<Rightarrow> string" where
  "OutputProtocolName OutputEndpointKind.kSrtCaller = ''srt''"
| "OutputProtocolName OutputEndpointKind.kSrtListener = ''srt''"
| "OutputProtocolName OutputEndpointKind.kUdpCaller = ''udp''"
| "OutputProtocolName OutputEndpointKind.kUdpListener = ''udp''"
| "OutputProtocolName OutputEndpointKind.kStdout = ''stdout''"

fun InputModeName :: "InputEndpointKind \<Rightarrow> string" where
  "InputModeName InputEndpointKind.kSrtListener = ''listener''"
| "InputModeName InputEndpointKind.kUdpListener = ''listener''"
| "InputModeName InputEndpointKind.kSrtCaller = ''caller''"
| "InputModeName InputEndpointKind.kUdpCaller = ''caller''"
| "InputModeName InputEndpointKind.kStdin = ''stream''"

fun OutputModeName :: "OutputEndpointKind \<Rightarrow> string" where
  "OutputModeName OutputEndpointKind.kSrtCaller = ''caller''"
| "OutputModeName OutputEndpointKind.kUdpCaller = ''caller''"
| "OutputModeName OutputEndpointKind.kSrtListener = ''listener''"
| "OutputModeName OutputEndpointKind.kUdpListener = ''listener''"
| "OutputModeName OutputEndpointKind.kStdout = ''stream''"

text \<open>A group type read at run time is any \<open>int\<close>, so the name is that of the number.\<close>

definition GroupTypeName :: "int \<Rightarrow> string" where
  "GroupTypeName gt =
     (if gt = group_type_int SRT_GTYPE_BROADCAST then ''broadcast''
      else if gt = group_type_int SRT_GTYPE_BACKUP then ''backup''
      else ''undefined'')"

fun SockStateName :: "SRT_SOCKSTATUS \<Rightarrow> string" where
  "SockStateName SRTS_INIT = ''init''"
| "SockStateName SRTS_OPENED = ''opened''"
| "SockStateName SRTS_LISTENING = ''listening''"
| "SockStateName SRTS_CONNECTING = ''connecting''"
| "SockStateName SRTS_CONNECTED = ''connected''"
| "SockStateName SRTS_BROKEN = ''broken''"
| "SockStateName SRTS_CLOSING = ''closing''"
| "SockStateName SRTS_CLOSED = ''closed''"
| "SockStateName SRTS_NONEXIST = ''nonexist''"
| "SockStateName (sockstatus_other n) = ''unknown''"

fun GroupMemberStateName :: "SRT_MEMBERSTATUS \<Rightarrow> string" where
  "GroupMemberStateName SRT_GST_IDLE = ''idle''"
| "GroupMemberStateName SRT_GST_RUNNING = ''running''"
| "GroupMemberStateName SRT_GST_BROKEN = ''broken''"
| "GroupMemberStateName _ = ''unknown''"

section \<open>What is asked of libsrt\<close>

record json_env = transport_env +
  sockstate_code :: "SRT_SOCKSTATUS \<Rightarrow> int"
  memberstate_code :: "SRT_MEMBERSTATUS \<Rightarrow> int"
  srtt_live :: int
  srtt_file :: int

definition TryReadSocketRttMs :: "'e transport_env_scheme \<Rightarrow> int \<Rightarrow> int option" where
  "TryReadSocketRttMs env sock =
     (if sock = SRT_INVALID_SOCK then None else map_option msRTT (srt_bstats env sock))"

definition TryReadRuntimeTranstype :: "'e json_env_scheme \<Rightarrow> int \<Rightarrow> string option" where
  "TryReadRuntimeTranstype env sock =
     (if sock = SRT_INVALID_SOCK then None
      else (case TryReadSockOptInt env sock SRTO_TRANSTYPE of
              None \<Rightarrow> None
            | Some transtype_read \<Rightarrow>
                if transtype_read = srtt_live env then Some ''live''
                else if transtype_read = srtt_file env then Some ''file''
                else Some ''unknown''))"

fun TryResolveConfiguredTranstype :: "SrtUri list \<Rightarrow> string option" where
  "TryResolveConfiguredTranstype [] = None"
| "TryResolveConfiguredTranstype (uri # us) =
     (case query uri ''transtype'' of
        None \<Rightarrow> TryResolveConfiguredTranstype us
      | Some v \<Rightarrow> if v = [] then TryResolveConfiguredTranstype us else Some v)"

definition BuildSessionTranstypeJson :: "'e json_env_scheme \<Rightarrow> int \<Rightarrow> SrtUri list \<Rightarrow> json" where
  "BuildSessionTranstypeJson env sock us =
     (case TryReadRuntimeTranstype env sock of
        Some v \<Rightarrow> obj [(''value'', json_string v), (''source'', json_string ''runtime'')]
      | None \<Rightarrow>
          (case TryResolveConfiguredTranstype us of
             Some v \<Rightarrow> obj [(''value'', json_string v), (''source'', json_string ''configured'')]
           | None \<Rightarrow> obj [(''value'', json_string ''live''), (''source'', json_string ''default'')]))"

definition ReadRuntimeGroupType :: "'e transport_env_scheme \<Rightarrow> int \<Rightarrow> int" where
  "ReadRuntimeGroupType env sock =
     (if sock = SRT_INVALID_SOCK then group_type_int SRT_GTYPE_UNDEFINED
      else (case TryReadSockOptInt env sock SRTO_GROUPTYPE of
              Some gt \<Rightarrow> gt
            | None \<Rightarrow>
                (let group_sock = srt_groupof env sock
                 in if group_sock = SRT_INVALID_SOCK then group_type_int SRT_GTYPE_UNDEFINED
                    else (case TryReadSockOptInt env group_sock SRTO_GROUPTYPE of
                            Some gt \<Rightarrow> gt
                          | None \<Rightarrow> group_type_int SRT_GTYPE_UNDEFINED))))"

section \<open>Parts of the description\<close>

definition BuildQueryMapJson :: "(string \<rightharpoonup> string) \<Rightarrow> json" where
  "BuildQueryMapJson q = json_object (\<lambda>k. map_option json_string (q k))"

definition endpoint_json :: "SrtUri \<Rightarrow> json" where
  "endpoint_json uri =
     obj [(''host'', json_string (host uri)), (''port'', json_int (port uri)), (''query'', BuildQueryMapJson (query uri))]"

definition BuildSrtMembersJson :: "SrtUri list \<Rightarrow> json" where
  "BuildSrtMembersJson us = json_array (map endpoint_json us)"

definition BuildUdpEndpointJson :: "UdpUri \<Rightarrow> json" where
  "BuildUdpEndpointJson uri = endpoint_json uri"

definition BuildRuntimeSrtOptionsJson :: "'e json_env_scheme \<Rightarrow> int \<Rightarrow> json" where
  "BuildRuntimeSrtOptionsJson env sock =
     (if sock = SRT_INVALID_SOCK then json_null
      else
        (let latency = ReadRuntimeLatencySnapshot env sock;
             opt = \<lambda>flag_name. or_null json_int (TryReadSockOptInt env sock flag_name)
         in obj
              [(''latency_ms'', or_null json_int (latency_ms latency)),
               (''rcvlatency_ms'', or_null json_int (rcvlatency_ms latency)),
               (''peerlatency_ms'', or_null json_int (peerlatency_ms latency)),
               (''negotiated_latency_ms'', or_null json_int (negotiated_latency_ms latency)),
               (''oheadbw_pct'', opt SRTO_OHEADBW),
               (''peeridletimeo_ms'', opt SRTO_PEERIDLETIMEO),
               (''conntimeo_ms'', opt SRTO_CONNTIMEO),
               (''rcvbuf_bytes'', opt SRTO_RCVBUF),
               (''sndbuf_bytes'', opt SRTO_SNDBUF),
               (''pbkeylen'', opt SRTO_PBKEYLEN),
               (''group_type'', or_null (\<lambda>gt. json_string (GroupTypeName gt)) (TryReadSockOptInt env sock SRTO_GROUPTYPE)),
               (''transtype'', or_null json_string (TryReadRuntimeTranstype env sock))]))"

definition BuildLastFailureJson :: "LastFailureSnapshot \<Rightarrow> json" where
  "BuildLastFailureJson snapshot =
     (if timestamp_unix_seconds snapshot \<le> 0 then json_null
      else obj
        [(''timestamp'', json_int (timestamp_unix_seconds snapshot)),
         (''reason_code'', json_string (lf_reason_code snapshot)),
         (''reason_class'', json_string (lf_reason_class snapshot)),
         (''reason_detail'', json_string (reason_detail snapshot)),
         (''incident_id'', if lf_incident_id snapshot = [] then json_null else json_string (lf_incident_id snapshot)),
         (''attempt_id'', if lf_attempt_id snapshot = 0 then json_null else json_int (uint (lf_attempt_id snapshot))),
         (''source'', json_string (lf_source snapshot))])"

definition connected_member_json :: "'e json_env_scheme \<Rightarrow> SRT_SOCKGROUPDATA \<Rightarrow> json" where
  "connected_member_json env member =
     (let has_socket_id = (socket_id member \<noteq> SRT_INVALID_SOCK \<and> socket_id member \<noteq> 0);
          rtt = (if has_socket_id then TryReadSocketRttMs env (socket_id member) else None);
          peer = TryExtractEndpoint env (peeraddr member)
      in obj
           [(''socket_id'', if has_socket_id then json_int (socket_id member) else json_null),
            (''token'', if token member \<noteq> 0 then json_int (sint (token member)) else json_null),
            (''sock_state'', json_string (SockStateName (sockstate member))),
            (''sock_state_code'', json_int (sockstate_code env (sockstate member))),
            (''member_state'', json_string (GroupMemberStateName (memberstate member))),
            (''member_state_code'', json_int (memberstate_code env (memberstate member))),
            (''peer_host'', or_null (\<lambda>(h, p). json_string h) peer),
            (''peer_port'', or_null (\<lambda>(h, p). json_int p) peer),
            (''rtt_ms'', or_null json_int rtt)])"

definition BuildConnectedMembersJson :: "'e json_env_scheme \<Rightarrow> int \<Rightarrow> json" where
  "BuildConnectedMembersJson env session_sock =
     (if session_sock = SRT_INVALID_SOCK then json_array []
      else
        (let g = srt_groupof env session_sock;
             group_sock = (if g = SRT_INVALID_SOCK then session_sock else g);
             members = (case TryReadGroupMembers env group_sock of
                          Some ms \<Rightarrow> ms
                        | None \<Rightarrow>
                            (case TryReadGroupMembers env session_sock of
                               Some ms \<Rightarrow> ms
                             | None \<Rightarrow> BuildSingleSocketFallbackSnapshot env session_sock))
         in json_array (map (connected_member_json env) (filter IsConnectedGroupMember members))))"

text \<open>
  The endpoints of the connected clients, each once: \<open>seen\<close> is the set \<open>seen_endpoints\<close>, \<open>None\<close> an entry
  that is skipped.
\<close>

fun new_endpoints :: "string set \<Rightarrow> string option list \<Rightarrow> string list" where
  "new_endpoints seen [] = []"
| "new_endpoints seen (None # es) = new_endpoints seen es"
| "new_endpoints seen (Some e # es) =
     (if e \<in> seen then new_endpoints seen es else e # new_endpoints (insert e seen) es)"

definition member_endpoint :: "json \<Rightarrow> string option" where
  "member_endpoint member =
     (case member_at ''peer_host'' member of
        Some (json_string h) \<Rightarrow>
          (if h = [] then None
           else (case member_at ''peer_port'' member of
                   Some (json_int p) \<Rightarrow> Some (h @ '':'' @ show_int p)
                 | _ \<Rightarrow> Some h))
      | _ \<Rightarrow> None)"

definition client_ips_of_members :: "json \<Rightarrow> json" where
  "client_ips_of_members connected_members =
     json_array (map json_string (new_endpoints {} (map member_endpoint (elements connected_members))))"

definition client_ips_of_endpoints :: "string list \<Rightarrow> json" where
  "client_ips_of_endpoints connected_endpoints =
     json_array (map json_string
       (new_endpoints {} (map (\<lambda>e. if e = [] then None else Some e) connected_endpoints)))"

section \<open>One input\<close>

definition is_srt_input :: "InputEndpointKind \<Rightarrow> bool" where
  "is_srt_input k = (k = InputEndpointKind.kSrtListener \<or> k = InputEndpointKind.kSrtCaller)"

definition input_configured_json :: "InputEndpointSpec \<Rightarrow> json" where
  "input_configured_json spec =
     (let configured = obj [(''bonded'', json_bool (bonded spec)),
            (''group_type'', json_string (GroupTypeName (group_type_int (group_type spec))))]
      in if is_srt_input (kind spec) then put_member ''members'' (BuildSrtMembersJson (uris spec)) configured
         else if kind spec = InputEndpointKind.kUdpListener \<or> kind spec = InputEndpointKind.kUdpCaller
         then put_member ''endpoint'' (BuildUdpEndpointJson (udp_uri spec)) configured
         else configured)"

definition as_socket :: "int \<Rightarrow> int" where
  "as_socket stored = signed_take_bit 31 stored"

definition socket_json :: "int \<Rightarrow> json" where
  "socket_json sock = (if sock = SRT_INVALID_SOCK then json_null else json_int sock)"

definition runtime_json :: "int \<Rightarrow> bool \<Rightarrow> json" where
  "runtime_json gt is_bonded = obj [(''bonded'', json_bool is_bonded), (''group_type'', json_string (GroupTypeName gt))]"

definition bonded_at_runtime :: "int \<Rightarrow> json \<Rightarrow> bool" where
  "bonded_at_runtime gt connected_members \<longleftrightarrow>
     gt = group_type_int SRT_GTYPE_BROADCAST \<or> gt = group_type_int SRT_GTYPE_BACKUP \<or>
     1 < length (elements connected_members)"

definition BuildInputSessionSpecJson ::
  "'e json_env_scheme \<Rightarrow> InputEndpointSpec \<Rightarrow> RelayMetrics \<Rightarrow> SourceMetrics \<Rightarrow> CausalityMetrics \<Rightarrow> nat \<Rightarrow> bool \<Rightarrow> json" where
  "BuildInputSessionSpecJson env spec m lm c input_index runtime_active =
     (let connected = (if input_index < kMaxInputSources then input_source_connected lm ! input_index = 1
                       else input_connected m = 1);
          listening = (if input_index < kMaxInputSources then input_source_listening lm ! input_index = 1
                       else input_listening m = 1);
          sock = (if runtime_active then as_socket (input_session_socket_id lm) else SRT_INVALID_SOCK);
          group_sock = (if runtime_active \<and> sock \<noteq> SRT_INVALID_SOCK then srt_groupof env sock else SRT_INVALID_SOCK);
          live_srt = (runtime_active \<and> is_srt_input (kind spec));
          connected_members = (if live_srt then BuildConnectedMembersJson env sock else json_array []);
          runtime_group_type =
            (if runtime_active then ReadRuntimeGroupType env sock else group_type_int (group_type spec));
          runtime_bonded =
            (if runtime_active then bonded_at_runtime runtime_group_type connected_members else bonded spec);
          last_failure = (if runtime_active then input_last_failure c else default_LastFailureSnapshot)
      in obj
           [(''protocol'', json_string (InputProtocolName (kind spec))),
            (''mode'', json_string (InputModeName (kind spec))),
            (''connected'', json_bool connected),
            (''listening'', json_bool listening),
            (''socket_id'', socket_json sock),
            (''group_socket_id'', socket_json group_sock),
            (''configured'', input_configured_json spec),
            (''runtime'', runtime_json runtime_group_type runtime_bonded),
            (''effective_srt'', if live_srt then BuildRuntimeSrtOptionsJson env sock else json_null),
            (''runtime_transtype'', if live_srt then or_null json_string (TryReadRuntimeTranstype env sock) else json_null),
            (''session_transtype'', if live_srt then BuildSessionTranstypeJson env sock (uris spec) else json_null),
            (''connected_members'', connected_members),
            (''last_failure'', BuildLastFailureJson last_failure)])"

section \<open>One output\<close>

text \<open>\<open>endpoints\<close> is \<open>MetricsState::output_listener_connected_endpoints\<close>.\<close>

definition is_srt_output :: "OutputEndpointKind \<Rightarrow> bool" where
  "is_srt_output k = (k = OutputEndpointKind.kSrtListener \<or> k = OutputEndpointKind.kSrtCaller)"

definition output_configured_json :: "OutputEndpointSpec \<Rightarrow> json" where
  "output_configured_json spec =
     (let configured = obj [(''bonded'', json_bool (bonded spec)),
            (''group_type'', json_string (GroupTypeName (group_type_int (group_type spec))))]
      in if is_srt_output (kind spec)
         then (let with_members = put_member ''members'' (BuildSrtMembersJson (uris spec)) configured
               in if kind spec = OutputEndpointKind.kSrtListener
                  then put_member ''max_clients'' (json_int (listener_max_clients spec))
                         (put_member ''fanout'' (json_bool (listener_fanout_enabled spec)) with_members)
                  else with_members)
         else if kind spec = OutputEndpointKind.kUdpListener \<or> kind spec = OutputEndpointKind.kUdpCaller
         then put_member ''endpoint'' (BuildUdpEndpointJson (udp_uri spec)) configured
         else configured)"

definition connected_client_ips :: "OutputEndpointSpec \<Rightarrow> string list list \<Rightarrow> nat \<Rightarrow> json \<Rightarrow> json" where
  "connected_client_ips spec endpoints output_index connected_members =
     (if kind spec = OutputEndpointKind.kSrtListener
      then (let of_endpoints = client_ips_of_endpoints
                  (if output_index < kMaxOutputSources then endpoints ! output_index else [])
            in if elements of_endpoints = [] then client_ips_of_members connected_members else of_endpoints)
      else json_null)"

definition BuildOutputSessionSpecJson ::
  "'e json_env_scheme \<Rightarrow> OutputEndpointSpec \<Rightarrow> RelayMetrics \<Rightarrow> SourceMetrics \<Rightarrow> CausalityMetrics
     \<Rightarrow> string list list \<Rightarrow> nat \<Rightarrow> json" where
  "BuildOutputSessionSpecJson env spec m lm c endpoints output_index =
     (let connected = (if output_index < kMaxOutputSources then output_source_connected lm ! output_index = 1
                       else output_connected m = 1);
          listening = (output_index < kMaxOutputSources \<and> output_source_listening lm ! output_index = 1);
          connected_clients = (if output_index < kMaxOutputSources
                               then clients_active (output_listener_clients_of lm ! output_index) else 0);
          sock = (if 0 < output_index then SRT_INVALID_SOCK else as_socket (output_transport_socket_id lm));
          group_sock = (if sock \<noteq> SRT_INVALID_SOCK then srt_groupof env sock else SRT_INVALID_SOCK);
          srt = is_srt_output (kind spec);
          connected_members = (if srt then BuildConnectedMembersJson env sock else json_array []);
          runtime_group_type = ReadRuntimeGroupType env sock;
          runtime_bonded = bonded_at_runtime runtime_group_type connected_members
      in obj
           [(''protocol'', json_string (OutputProtocolName (kind spec))),
            (''mode'', json_string (OutputModeName (kind spec))),
            (''connected'', json_bool connected),
            (''listening'', json_bool listening),
            (''connected_clients'', if kind spec = OutputEndpointKind.kSrtListener then json_int connected_clients else json_null),
            (''connected_client_ips'', connected_client_ips spec endpoints output_index connected_members),
            (''socket_id'', socket_json sock),
            (''group_socket_id'', socket_json group_sock),
            (''configured'', output_configured_json spec),
            (''runtime'', runtime_json runtime_group_type runtime_bonded),
            (''effective_srt'', if srt then BuildRuntimeSrtOptionsJson env sock else json_null),
            (''runtime_transtype'', if srt then or_null json_string (TryReadRuntimeTranstype env sock) else json_null),
            (''session_transtype'', if srt then BuildSessionTranstypeJson env sock (uris spec) else json_null),
            (''connected_members'', connected_members),
            (''last_failure'', BuildLastFailureJson (output_last_failure c))])"

section \<open>The whole description\<close>

definition shown_active_input :: "SourceMetrics \<Rightarrow> int" where
  "shown_active_input lm = (if active_input_index lm \<le> 0 then 1 else active_input_index lm)"

definition input_entry ::
  "'e json_env_scheme \<Rightarrow> InputEndpointSpec list \<Rightarrow> RelayMetrics \<Rightarrow> SourceMetrics \<Rightarrow> CausalityMetrics \<Rightarrow> nat \<Rightarrow> json" where
  "input_entry env input_specs m lm c i =
     (let runtime_active = (int (i + 1) = shown_active_input lm)
      in put_member ''active'' (json_bool runtime_active)
           (put_member ''input_index'' (json_int (int (i + 1)))
             (BuildInputSessionSpecJson env (input_specs ! i) m lm c i runtime_active)))"

definition output_entry ::
  "'e json_env_scheme \<Rightarrow> OutputEndpointSpec list \<Rightarrow> RelayMetrics \<Rightarrow> SourceMetrics \<Rightarrow> CausalityMetrics
     \<Rightarrow> string list list \<Rightarrow> nat \<Rightarrow> json" where
  "output_entry env output_specs m lm c endpoints i =
     put_member ''output_index'' (json_int (int (i + 1)))
       (BuildOutputSessionSpecJson env (output_specs ! i) m lm c endpoints i)"

definition BuildSessionSpecsJson ::
  "'e json_env_scheme \<Rightarrow> InputEndpointSpec list \<Rightarrow> OutputEndpointSpec list \<Rightarrow> Config \<Rightarrow> RelayMetrics
     \<Rightarrow> SourceMetrics \<Rightarrow> CausalityMetrics \<Rightarrow> string list list \<Rightarrow> json" where
  "BuildSessionSpecsJson env input_specs output_specs cfg m lm c endpoints =
     (let inputs = map (input_entry env input_specs m lm c) [0..<length input_specs];
          outputs = map (output_entry env output_specs m lm c endpoints) [0..<length output_specs]
      in obj
           [(''inputs'', json_array inputs),
            (''active_input_index'', json_int (shown_active_input lm)),
            (''primary_input_index'', or_null (\<lambda>i. json_int (int (i + 1))) (primary_input_index cfg)),
            (''switch_policy'', json_string (InputSwitchPolicyName
               (case primary_input_index cfg of None \<Rightarrow> kRoundRobin | Some _ \<Rightarrow> kPreferredPrimary))),
            (''switch_mode'', json_string (SwitchModeName (switch_mode cfg))),
            (''output'', case output_specs of [] \<Rightarrow> json_null
               | spec # _ \<Rightarrow> BuildOutputSessionSpecJson env spec m lm c endpoints 0),
            (''outputs'', json_array outputs)])"

section \<open>The answer to a compaction request\<close>

definition compact_result_json :: "CompactResult \<Rightarrow> json" where
  "compact_result_json r =
     obj [(''before_slots'', json_int (int (before_slots r))), (''after_slots'', json_int (int (after_slots r))),
          (''moved'', json_int (int (moved r))), (''dropped'', json_int (int (LinkSlots.dropped r)))]"

definition BuildCompactResponseJson :: "CompactResponse \<Rightarrow> json" where
  "BuildCompactResponseJson response =
     (let out = obj [(''direction'', json_string (direction response))];
          out1 = (if include_input response then put_member ''input'' (compact_result_json (response_input response)) out
                  else out)
      in if include_output response then put_member ''output'' (compact_result_json (response_output response)) out1
         else out1)"

section \<open>The handlers of the server\<close>

text \<open>
  A request is a path, with the parameter \<open>direction\<close> for a POST. \<open>None\<close> is a request without a handler,
  which httplib refuses; \<open>Inl\<close> is an exception that leaves the handler, which httplib turns into its own
  answer. A status that a handler does not set is 200.
\<close>

datatype http_request = http_get string | http_post string "string option"

record http_response =
  status :: int
  content :: string
  content_type :: string

definition json_response :: "int \<Rightarrow> string \<Rightarrow> http_response" where
  "json_response st body =
     \<lparr>status = st, content = body @ [CHR 0x0A], content_type = ''application/json; charset=utf-8''\<rparr>"

definition bad_direction :: http_response where
  "bad_direction = json_response 400
     ([CHR ''{'', CHR 0x22] @ ''error'' @ [CHR 0x22, CHR '':'', CHR 0x22] @
      ''invalid direction; expected input, output, or both'' @ [CHR 0x22, CHR ''}''])"

definition handle_get ::
  "(json \<Rightarrow> string result) \<Rightarrow> 'e json_env_scheme \<Rightarrow> InputEndpointSpec list \<Rightarrow> OutputEndpointSpec list \<Rightarrow> Config
     \<Rightarrow> RelayMetrics \<Rightarrow> SourceMetrics \<Rightarrow> CausalityMetrics \<Rightarrow> string list list \<Rightarrow> int \<Rightarrow> string
     \<Rightarrow> http_response result option" where
  "handle_get dump env input_specs output_specs cfg m lm c endpoints now_ms path =
     (if path = ''/metrics''
      then Some (Inr \<lparr>status = 200, content = RenderPrometheusMetrics m lm c now_ms,
                       content_type = ''text/plain; version=0.0.4; charset=utf-8''\<rparr>)
      else if path = ''/healthz''
      then Some (Inr \<lparr>status = 200, content = ''ok'' @ [CHR 0x0A], content_type = ''text/plain''\<rparr>)
      else if path = ''/session/specs''
      then Some (rbind (dump (BuildSessionSpecsJson env input_specs output_specs cfg m lm c endpoints))
                   (\<lambda>body. Inr (json_response 200 body)))
      else None)"

definition handle_post ::
  "(json \<Rightarrow> string result) \<Rightarrow> RelayMetrics \<Rightarrow> string \<Rightarrow> string option \<Rightarrow> RelayMetrics \<times> http_response result option" where
  "handle_post dump m path param =
     (if path = ''/metrics/links/compact''
      then (case handle_compact param m of
              (m1, None) \<Rightarrow> (m1, Some (Inr bad_direction))
            | (m1, Some response) \<Rightarrow>
                (m1, Some (rbind (dump (BuildCompactResponseJson response)) (\<lambda>body. Inr (json_response 200 body)))))
      else (m, None))"

definition serve ::
  "(json \<Rightarrow> string result) \<Rightarrow> 'e json_env_scheme \<Rightarrow> InputEndpointSpec list \<Rightarrow> OutputEndpointSpec list \<Rightarrow> Config
     \<Rightarrow> SourceMetrics \<Rightarrow> CausalityMetrics \<Rightarrow> string list list \<Rightarrow> int \<Rightarrow> http_request \<Rightarrow> RelayMetrics
     \<Rightarrow> RelayMetrics \<times> http_response result option" where
  "serve dump env input_specs output_specs cfg lm c endpoints now_ms request m =
     (if \<not> metrics_enabled cfg then (m, None)
      else (case request of
              http_get path \<Rightarrow> (m, handle_get dump env input_specs output_specs cfg m lm c endpoints now_ms path)
            | http_post path param \<Rightarrow> handle_post dump m path param))"

section \<open>Facts about the values\<close>

lemma member_obj [simp]: "member_at k (obj members) = map_of members k"
  by (simp add: obj_def)

lemma member_put [simp]: "member_at k (put_member k' v (obj members)) = (if k = k' then Some v else map_of members k)"
  by (simp add: obj_def)

lemma member_put_put [simp]:
  "member_at k (put_member k' v (put_member k2 w (obj members))) =
     (if k = k' then Some v else if k = k2 then Some w else map_of members k)"
  by (simp add: obj_def)

lemma new_endpoints_facts:
  "distinct (new_endpoints seen es) \<and> set (new_endpoints seen es) = {e. Some e \<in> set es} - seen"
  by (induction seen es rule: new_endpoints.induct) auto

text \<open>
  The clients of an output are listed once each; they are the endpoints the output reports, and those of
  the session's members only when it reports none.
\<close>

lemma connected_client_ips_once:
  assumes "kind spec = OutputEndpointKind.kSrtListener" and "i < kMaxOutputSources"
  shows "\<exists>es. connected_client_ips spec endpoints i members = json_array (map json_string es) \<and> distinct es \<and>
    (set (endpoints ! i) - {[]} \<noteq> {} \<longrightarrow> set es = set (endpoints ! i) - {[]})"
proof -
  let ?own = "new_endpoints {} (map (\<lambda>e. if e = [] then None else Some e) (endpoints ! i))"
  have own: "set ?own = set (endpoints ! i) - {[]}"
    using new_endpoints_facts [of "{}" "map (\<lambda>e. if e = [] then None else Some e) (endpoints ! i)"]
    by (auto simp: image_iff split: if_splits)
  show ?thesis
  proof (cases "?own = []")
    case True
    then have "set (endpoints ! i) - {[]} = {}" using own by simp
    with True show ?thesis
      using assms new_endpoints_facts [of "{}" "map member_endpoint (elements members)"]
      by (auto simp: connected_client_ips_def client_ips_of_endpoints_def client_ips_of_members_def Let_def)
  next
    case False
    with own show ?thesis
      using assms new_endpoints_facts [of "{}" "map (\<lambda>e. if e = [] then None else Some e) (endpoints ! i)"]
      by (auto simp: connected_client_ips_def client_ips_of_endpoints_def Let_def)
  qed
qed

section \<open>Properties\<close>

lemma connected_members_of_session:
  "sock \<noteq> SRT_INVALID_SOCK \<Longrightarrow> elements (BuildConnectedMembersJson env sock) =
     map (connected_member_json env) (filter IsConnectedGroupMember (session_members env sock))"
  by (simp add: BuildConnectedMembersJson_def session_members_def Let_def split: option.splits)

text \<open>
  C30. The description of the sessions and the metrics agree: with the same answers of libsrt, the connected
  members that \<open>/session/specs\<close> lists for a session are as many as the running links an update of its
  side puts into \<open>MetricsState\<close>, and as the slots the table then shows connected.
\<close>

theorem connected_members_agree:
  assumes "tables_ok m" and "sock \<noteq> SRT_INVALID_SOCK" and "group_data_fits env"
    and m': "m' = update_links env side sock m"
  shows "int (length (elements (BuildConnectedMembersJson env sock))) = snd (snd (links side m')) \<and>
    length (elements (BuildConnectedMembersJson env sock)) = card (connected_slots (snapshot_view side m'))"
proof -
  note ok = session_members_ok [OF assms(2,3)]
  note obs = observe_counts [OF assms(1) ok [THEN conjunct1] ok [THEN conjunct2]
      m' [unfolded update_links_valid [OF assms(2)]]]
  have "int (length (elements (BuildConnectedMembersJson env sock))) = running_count (session_members env sock)"
    by (simp add: connected_members_of_session [OF assms(2)] running_count_def IsConnectedGroupMember_def [abs_def])
  with obs(1,2) show ?thesis by simp
qed

text \<open>Everything of \<open>MetricsState\<close> but the slot tables and their spans.\<close>

definition outside_tables :: "'m LinkMetrics_scheme \<Rightarrow> 'm LinkMetrics_scheme" where
  "outside_tables m =
     m\<lparr>input_tracked := [], output_tracked := [], input_links_snapshot_count := 0, output_links_snapshot_count := 0\<rparr>"

lemma compact_frame: "outside_tables (fst (CompactSlotsLocked side m)) = outside_tables m"
  by (cases side) (simp_all add: CompactSlotsLocked_def outside_tables_def split_beta)

lemma compact_keeps:
  assumes "tables_ok m"
  shows "tables_ok (fst (CompactSlotsLocked side m)) \<and>
    live_view side' (fst (CompactSlotsLocked side m)) = live_view side' m \<and>
    left_columns side' (fst (CompactSlotsLocked side m)) = left_columns side' m"
proof -
  have dead: "\<not> cs_live default_CompactionSlotState" by code_simp
  have same: "live_view side (fst (CompactSlotsLocked side m)) = live_view side m"
    using CompactSlotsLocked_fst(1) [OF assms, of side] dead by (simp add: live_view_def)
  have other: "live_view (other_side side) (fst (CompactSlotsLocked side m)) = live_view (other_side side) m"
    using CompactSlotsLocked_fst(2) [OF assms, of side] by (simp add: live_view_def)
  have "left_columns (other_side side) (fst (CompactSlotsLocked side m)) = left_columns (other_side side) m"
    by (cases side) (simp_all add: left_columns_def CompactSlotsLocked_def split_beta)
  moreover have "side' = side \<or> side' = other_side side" by (cases side; cases side') simp_all
  ultimately show ?thesis
    using same other CompactSlotsLocked_fst(3) [OF assms, of side]
      CompactSlotsLocked_columns(1) [OF assms, of side] by auto
qed

lemma handle_compact_keeps:
  assumes "tables_ok m" and "handle_compact param m = (m', response)"
  shows "tables_ok m' \<and> live_view side m' = live_view side m \<and>
    left_columns side m' = left_columns side m \<and> outside_tables m' = outside_tables m"
proof -
  let ?i = "fst (CompactSlotsLocked LinkSide.kInput m)"
  have "m' = m \<or> m' = ?i \<or> m' = fst (CompactSlotsLocked LinkSide.kOutput m) \<or> m' = fst (CompactSlotsLocked LinkSide.kOutput ?i)"
    using assms(2) by (auto simp: handle_compact_def split_beta split: option.splits CompactDirection.splits)
  then show ?thesis
    using assms(1) compact_keeps [OF assms(1)] compact_keeps [of ?i] compact_frame [of _ m] compact_frame [of _ ?i]
    by (elim disjE) simp_all
qed

text \<open>
  C31. Asking the server loses no live link: a GET changes nothing, and whatever the request, the live
  links of both sides keep their identity, socket, connected flag and counters, in order. The other
  columns of the tables (socket and group state, peer, last-logged fields) stay with the slot, so a
  link that a compaction request moves is shown with those of the slot it moves to; all else in
  \<open>MetricsState\<close> but the spans of the tables stays as it is. A request is refused only when the server
  is off or has no such path, and an answer has status 200, or 400 with nothing changed.
\<close>

theorem serve_keeps_links:
  assumes "tables_ok m"
    and "serve dump env input_specs output_specs cfg lm c endpoints now_ms request m = (m', ans)"
  shows "tables_ok m' \<and> live_view side m' = live_view side m \<and>
    left_columns side m' = left_columns side m \<and> outside_tables m' = outside_tables m \<and>
    (\<forall>path. request = http_get path \<longrightarrow> m' = m) \<and>
    (ans = None \<longleftrightarrow> \<not> metrics_enabled cfg \<or>
       request \<notin> {http_get ''/metrics'', http_get ''/healthz'', http_get ''/session/specs''} \<union>
                  range (http_post ''/metrics/links/compact'')) \<and>
    (\<forall>resp. ans = Some (Inr resp) \<longrightarrow> status resp = 200 \<or> status resp = 400 \<and> m' = m)"
proof (cases "metrics_enabled cfg")
  case False
  with assms show ?thesis by (auto simp: serve_def)
next
  case on: True
  show ?thesis
  proof (cases request)
    case (http_get path)
    with on assms show ?thesis
      by (auto simp: serve_def handle_get_def json_response_def rbind_def split: if_splits sum.splits)
  next
    case (http_post path param)
    obtain m1 response where h: "handle_compact param m = (m1, response)" by (cases "handle_compact param m")
    have refused: "response = None \<Longrightarrow> m1 = m" using handle_compact_spec [OF assms(1) h] by blast
    show ?thesis
      using on assms http_post h handle_compact_keeps [OF assms(1) h] refused
      by (auto simp: serve_def handle_post_def json_response_def bad_direction_def rbind_def
          split: if_splits sum.splits option.splits)
  qed
qed

section \<open>Witnesses\<close>

definition example_json_env :: json_env where
  "example_json_env =
     transport_env.extend (counting_env None) (json_env.fields (\<lambda>_. 5) (\<lambda>_. 2) 0 1)"

lemma example_json_env_fits: "group_data_fits example_json_env"
  by (auto simp: group_data_fits_def example_json_env_def counting_env_def group_env_def
      health_env.defs transport_env.defs json_env.defs)

theorem connected_members_agree_witness:
  "length (elements (BuildConnectedMembersJson example_json_env 3)) =
     card (connected_slots (snapshot_view LinkSide.kInput
       (update_links example_json_env LinkSide.kInput 3 (health_of example_metrics))))"
proof -
  have "(3::int) \<noteq> SRT_INVALID_SOCK" by (simp add: SRT_INVALID_SOCK_def)
  from connected_members_agree [OF health_of_tables this example_json_env_fits refl, of LinkSide.kInput]
  show ?thesis by simp
qed

definition two_inputs :: "InputEndpointSpec list" where
  "two_inputs = [default_InputEndpointSpec, default_InputEndpointSpec]"

lemma example_relay_tables_ok: "tables_ok example_relay_metrics"
  by (simp add: tables_ok_def example_relay_metrics_def traffic_of_def health_of_def LinkMetrics.defs HealthMetrics.defs
      TrafficMetrics.defs RelayMetrics.defs example_metrics_def kMaxTrackedMembers_def)

definition two_link_metrics :: RelayMetrics where
  "two_link_metrics =
     example_relay_metrics\<lparr>output_tracked := output_tracked example_metrics, output_links_snapshot_count := 2\<rparr>"

theorem serve_keeps_links_witness:
  "\<exists>m' ans. serve (\<lambda>_. Inr ''{}'') example_json_env two_inputs [] default_Config
       (initial_source_metrics default_Config two_inputs []) (initial_metrics 0) [] 0
       (http_post ''/metrics/links/compact'' (Some ''both'')) two_link_metrics = (m', ans) \<and>
     ans \<noteq> None \<and> m' \<noteq> two_link_metrics \<and>
     live_view LinkSide.kOutput m' = live_view LinkSide.kOutput two_link_metrics \<and>
     length (live_view LinkSide.kOutput m') = 1"
proof -
  let ?served = "serve (\<lambda>_. Inr ''{}'') example_json_env two_inputs [] default_Config
       (initial_source_metrics default_Config two_inputs []) (initial_metrics 0) [] 0
       (http_post ''/metrics/links/compact'' (Some ''both'')) two_link_metrics"
  obtain m' ans where eq: "?served = (m', ans)" by fastforce
  have on: "metrics_enabled default_Config" by (simp add: default_Config_def)
  have ok: "tables_ok two_link_metrics"
    using example_relay_tables_ok example_tables_ok by (simp add: two_link_metrics_def tables_ok_def)
  have one: "length (live_view LinkSide.kOutput two_link_metrics) = 1" by code_simp
  have "output_links_snapshot_count (fst ?served) = 1" by code_simp
  then have "m' \<noteq> two_link_metrics" unfolding eq by (auto simp: two_link_metrics_def)
  with eq on one serve_keeps_links [OF ok eq, of LinkSide.kOutput] show ?thesis by auto
qed

end
