(* ===== verification/EndpointNames.thy ===== *)
theory EndpointNames
  imports SessionJson Relay
begin

text \<open>
  The names of the two ends of a connection, as \<open>src/src/relay_input_sources.cpp\<close> and
  \<open>src/src/relay_output_sinks.cpp\<close> read them, and the list of connected clients that the loop of
  \<open>src/src/relay_runtime.cpp\<close> publishes for \<open>/session/specs\<close>. \<open>getnameinfo\<close> with numeric answers and the
  names of a descriptor are parameters; an address of length 0 is one that \<open>getnameinfo\<close> does not name.
\<close>

section \<open>Names\<close>

record names_env = json_env +
  getnameinfo :: "sockaddr_storage \<Rightarrow> (string \<times> string) option"
  fd_getsockname :: "int \<Rightarrow> sockaddr_storage option"
  fd_getpeername :: "int \<Rightarrow> sockaddr_storage option"

definition FormatSockaddr :: "'e names_env_scheme \<Rightarrow> sockaddr_storage \<Rightarrow> string" where
  "FormatSockaddr env addr =
     (case getnameinfo env addr of None \<Rightarrow> ''unknown'' | Some (host_name, service) \<Rightarrow> host_name @ '':'' @ service)"

definition TryFormatSockaddrStorage :: "'e names_env_scheme \<Rightarrow> sockaddr_storage \<Rightarrow> string option" where
  "TryFormatSockaddrStorage env addr =
     (if addr = AF_OTHER then None
      else (let endpoint = FormatSockaddr env addr in if endpoint \<noteq> ''unknown'' then Some endpoint else None))"

text \<open>The first member of the list with a name.\<close>

fun first_named :: "'e names_env_scheme \<Rightarrow> SRT_SOCKGROUPDATA list \<Rightarrow> string option" where
  "first_named env [] = None"
| "first_named env (member # ms) =
     (case TryFormatSockaddrStorage env (peeraddr member) of Some e \<Rightarrow> Some e | None \<Rightarrow> first_named env ms)"

definition TryReadSrtGroupRemoteEndpoint :: "'e names_env_scheme \<Rightarrow> int \<Rightarrow> string option" where
  "TryReadSrtGroupRemoteEndpoint env sock =
     (if sock = SRT_INVALID_SOCK then None
      else (case srt_group_data env sock kMaxTrackedMembers of
              None \<Rightarrow> None
            | Some members \<Rightarrow>
                (case first_named env (filter IsConnectedGroupMember members) of
                   Some e \<Rightarrow> Some e
                 | None \<Rightarrow> first_named env members)))"

text \<open>The local and the remote name.\<close>

definition name_of :: "'e names_env_scheme \<Rightarrow> sockaddr_storage option \<Rightarrow> string" where
  "name_of env addr = (case addr of None \<Rightarrow> ''unknown'' | Some a \<Rightarrow> FormatSockaddr env a)"

definition ReadFdEndpoints :: "'e names_env_scheme \<Rightarrow> int \<Rightarrow> string \<times> string" where
  "ReadFdEndpoints env fd =
     (if fd < 0 then (''unknown'', ''unknown'')
      else (name_of env (fd_getsockname env fd), name_of env (fd_getpeername env fd)))"

definition input_ReadSrtEndpoints :: "'e names_env_scheme \<Rightarrow> int \<Rightarrow> string \<times> string" where
  "input_ReadSrtEndpoints env sock =
     (if sock = SRT_INVALID_SOCK then (''unknown'', ''unknown'')
      else (name_of env (srt_getsockname env sock),
            case srt_getpeername env sock of
              Some a \<Rightarrow> FormatSockaddr env a
            | None \<Rightarrow> (case TryReadSrtGroupRemoteEndpoint env sock of Some e \<Rightarrow> e | None \<Rightarrow> ''unknown'')))"

definition output_ReadSrtEndpoints :: "'e names_env_scheme \<Rightarrow> int \<Rightarrow> string \<times> string" where
  "output_ReadSrtEndpoints env sock =
     (if sock = SRT_INVALID_SOCK then (''unknown'', ''unknown'')
      else (name_of env (srt_getsockname env sock), name_of env (srt_getpeername env sock)))"

section \<open>The connected clients\<close>

definition listener_connected_endpoints :: "'e names_env_scheme \<Rightarrow> SrtOutputListenerSink \<Rightarrow> string list" where
  "listener_connected_endpoints env s =
     filter (\<lambda>e. \<not> (e = [] \<or> e = ''unknown'')) (map (\<lambda>sock. snd (output_ReadSrtEndpoints env sock)) (sessions s))"

fun sink_connected_endpoints :: "'e names_env_scheme \<Rightarrow> OutputSink \<Rightarrow> nat \<Rightarrow> string list" where
  "sink_connected_endpoints env (listener_sink s) i = (if i \<noteq> 0 then [] else listener_connected_endpoints env s)"
| "sink_connected_endpoints env _ i = []"

fun OutputListenerConnectedEndpoints :: "'e names_env_scheme \<Rightarrow> RelayOutput \<Rightarrow> nat \<Rightarrow> string list" where
  "OutputListenerConnectedEndpoints env (Inl sink) i = sink_connected_endpoints env sink i"
| "OutputListenerConnectedEndpoints env (Inr fan) i =
     (if i < length (branches fan) then sink_connected_endpoints env (branches fan ! i) 0 else [])"

text \<open>\<open>output_listener_connected_endpoints\<close> as each round of the loop leaves it.\<close>

definition connected_endpoints_table :: "os \<Rightarrow> 'e names_env_scheme \<Rightarrow> RelayOutput \<Rightarrow> string list list" where
  "connected_endpoints_table os env out =
     (let n = min (OutputCount (RelayOutput_class os) out) kMaxOutputSources
      in map (\<lambda>k. if k < n then OutputListenerConnectedEndpoints env out k else []) [0..<kMaxOutputSources])"

section \<open>Facts\<close>

lemma first_named_named: "first_named env ms = Some e \<Longrightarrow> e \<noteq> ''unknown'' \<and> (\<exists>member \<in> set ms. FormatSockaddr env (peeraddr member) = e)"
  by (induction env ms rule: first_named.induct)
    (auto simp: TryFormatSockaddrStorage_def Let_def split: option.splits if_splits)

lemma sink_endpoints_counted:
  "length (sink_connected_endpoints env sink i) \<le> nat (clients_active (OutputClients (OutputSink_class os) sink i)) \<and>
   [] \<notin> set (sink_connected_endpoints env sink i) \<and> ''unknown'' \<notin> set (sink_connected_endpoints env sink i)"
proof (cases sink)
  case (listener_sink s)
  have "length (listener_connected_endpoints env s) \<le> length (sessions s)"
    unfolding listener_connected_endpoints_def by (rule order.trans [OF length_filter_le]) simp
  moreover have "[] \<notin> set (listener_connected_endpoints env s) \<and> ''unknown'' \<notin> set (listener_connected_endpoints env s)"
    by (auto simp: listener_connected_endpoints_def)
  ultimately show ?thesis using listener_sink
    by (simp add: OutputSink_class_def output_listener_clients_def)
qed simp_all

text \<open>
  The clients published for an output are named, and at most as many as the gauge of its active clients
  says; an output beyond the last one shows none.
\<close>

theorem published_clients_counted:
  assumes "k < kMaxOutputSources"
  shows "length (connected_endpoints_table os env out ! k)
      \<le> nat (clients_active (OutputClients (RelayOutput_class os) out k)) \<and>
    [] \<notin> set (connected_endpoints_table os env out ! k) \<and>
    ''unknown'' \<notin> set (connected_endpoints_table os env out ! k)"
  using assms sink_endpoints_counted [of env _ _ os]
  by (cases out) (auto simp: connected_endpoints_table_def RelayOutput_class_def either_sink_def OutputFanoutSink_class_def)

section \<open>What the description says of the clients\<close>








section \<open>The clients at a concrete input\<close>








end
