(* ===== verification/Spec2Isabelle.thy ===== *)
theory Spec2Isabelle
  imports Causality Config EndpointSpecs Snapshot AutoCompact Incident LinkHealth Transport InputSwitch OutputFanout
    Program EndpointNames
begin

text \<open>
  A verification development for srt-bond-relay, a relay that takes a stream from one of several
  inputs (SRT callers, listeners and bonded groups, UDP, standard input) and hands it on to one or
  more outputs of the same kinds, reconnects what fails, and publishes metrics.

  \<^bold>\<open>How the parts interact.\<close> \<open>main\<close> parses the command line into a \<open>Config\<close>; \<open>RelayMain\<close> parses its
  \<open>--input\<close> and \<open>--output\<close> values into endpoint specifications, builds an input source and an output
  sink from them, and loops: gauges and statistics, readying the input and the output, receiving,
  sending. An input of several sources is an \<open>InputSwitcher\<close>, an output of several sinks an
  \<open>OutputFanoutSink\<close>. Failures go to \<open>CausalityTracker\<close>, link and traffic figures to \<open>MetricsState\<close>,
  whose link-slot tables are also compacted by a timer and by an HTTP request.

  \<^bold>\<open>Theories and the code they model.\<close>
    \<^item> \<open>Prelude\<close>: results (\<open>exn + 'a\<close>), strings, decimal numerals, \<open>std::stoi\<close>.
    \<^item> \<open>Causality\<close>: \<open>src/causality.cpp\<close>. \<open>Config\<close>: \<open>src/config.cpp\<close>, \<open>ParseArgs\<close>.
    \<^item> \<open>Uri\<close>: URIs and socket options of \<open>src/srt_utils.cpp\<close>. \<open>EndpointSpecs\<close>:
      \<open>src/relay_endpoint_specs.cpp\<close>.
    \<^item> \<open>LinkSlots\<close>, \<open>Snapshot\<close>: \<open>src/metrics_link_slots.cpp\<close>, the slot tables, their snapshots and
      compaction. \<open>AutoCompact\<close>: \<open>src/link_slot_tracker.cpp\<close> and the compaction request.
    \<^item> \<open>Incident\<close>: \<open>CausalityTracker\<close> of \<open>src/relay_runtime.cpp\<close>.
    \<^item> \<open>LinkHealth\<close>, \<open>Transport\<close>, \<open>Stats\<close>: \<open>src/metrics.cpp\<close>, the members of a session and their log,
      the traffic counters of a tick, and the statistics lines.
    \<^item> \<open>Prometheus\<close>: \<open>RenderPrometheusMetrics\<close> of \<open>src/metrics.cpp\<close>, the metrics page. \<open>SessionJson\<close>: the JSON
      answers and the request handlers of \<open>src/metrics.cpp\<close>. \<open>EndpointNames\<close>: names of connections in
      the endpoint files, and the list of clients that is published.
    \<^item> \<open>SrtEndpoints\<close>: \<open>src/relay_srt_endpoints.cpp\<close>, making and closing SRT sockets.
    \<^item> \<open>EndpointIo\<close>, \<open>InputSources\<close>, \<open>InputSwitch\<close>: \<open>src/relay_input_sources.cpp\<close>; \<open>OutputSinks\<close>,
      \<open>OutputFanout\<close>: \<open>src/relay_output_sinks.cpp\<close>.
    \<^item> \<open>Runtime\<close>: the loop of \<open>src/relay_runtime.cpp\<close>; \<open>RelayRun\<close> its refinement to a step relation and
      the invariants of runs; \<open>Relay\<close> the properties of the loop. \<open>Program\<close>: \<open>main.cpp\<close>, \<open>src/linkage.cpp\<close>
      and the destructors of the endpoints.

  \<^bold>\<open>State and effects.\<close> A struct or class is a record, an enumeration a datatype, an unsigned counter a
  word of its width. Fields of type \<open>int\<close> and \<open>int64_t\<close> are \<open>int\<close>: the model is exact as long as they
  do not overflow. A function that throws returns \<open>Inl\<close>. Calls of libsrt and of the operating system
  are asked of an oracle \<open>os\<close>, which answers from the history of calls, the last one first, so that
  sockets opened and closed can be counted (\<open>open_handles\<close>); in one run of socket options the oracle
  answers from the history at its start. What the collection of metrics reads of libsrt is \<open>net os\<close> at
  the history so far. The clocks and the signal flag of the loop come from \<open>runtime_env\<close>, one reading
  after the other. A virtual interface is a record of its methods (\<open>InputSource_methods\<close>,
  \<open>OutputSink_methods\<close>); its contract is a locale (\<open>input_source\<close>, \<open>output_sink\<close>) interpreted on every
  class, on the switcher and the fan-out over any classes, and on the program's own objects, and
  \<open>relay_endpoints\<close> combines the two for the loop.

  \<^bold>\<open>Loops.\<close> Loops over data recurse on it; the wait before a reconnect has a measure. Three loops may
  not end and are \<open>partial_function (option)\<close>, where \<open>None\<close> is running on: writing to standard output,
  the repacketizer and the relay loop. That they end is proved: \<open>stdout_Send_terminates\<close> and
  \<open>relay_rounds_return\<close> when every write makes progress, \<open>relay_shuts_down\<close> when besides a shutdown is
  requested, and \<open>stdout_Send_spins\<close> shows the first condition is needed. No fuel is used.

  \<^bold>\<open>What the lemmas show.\<close> Of the parsers: what they accept is valid, and printing what they accept parses
  back. Of the slot tables: members keep their slots, keys stay distinct exactly when the members' keys are,
  compaction filters what it copies (identity, socket, connected flag, counters) and leaves the other
  columns in place; a positive delay of the timer is kept. Of the tracker: incidents alternate, and its
  counters are the failures logged. Of the endpoints: what is open is what they hold, whatever fails but
  the timeouts of accepted sessions (\<open>accepts_timeout\<close>, \<open>accepts_send_timeout\<close>), whose refusal loses the
  session; the switcher and the fan-out report success exactly when something is connected, and the
  clients of a listener are accounted for. Of the relay: the same accounting over whole runs, balanced
  totals, failures booked on the right side, messages in order, nothing lost in repacketizing, what the
  exit status means, and that the program, on the same condition, leaves nothing open. Of the metrics
  page: it reads back, and no series comes twice; of the other answers: they agree with the metrics and
  the published clients, and no request loses a live link.

  \<^bold>\<open>Not modelled.\<close> Locks and the concurrency of the metrics thread (the loop is sequential); the text
  of log lines other than the statistics, and the usage and version texts; the floating-point rates of
  the statistics, which are the parameters \<open>double_ops\<close>, since IEEE arithmetic is not in the library; the
  text of JSON values (\<open>dump\<close>) and httplib with its thread, which are third-party code; scripts,
  dashboards and tests. Of the GET handlers the answer 500 for missing specifications is left out, since
  the pointers to them are never null; and the identity key of a member is a function of the member,
  though the code asks libsrt for its local name twice in one snapshot.
\<close>

end
